(* ===== verification/Prelude.thy ===== *)
theory Prelude
  imports Main "HOL-Library.Word"
begin

text \<open>
  Shared vocabulary of the development: results that carry the message of a thrown
  error, the guards the TypeScript sources write as \<open>if (!ok) throw\<close>, truncating
  division (the division of JavaScript and AssemblyScript big integers), decimal
  printing and reading of integers, and sums over the entries of a finite map.
\<close>

named_theorems outcome_simps \<open>equations of results and guards\<close>
named_theorems tally_simps \<open>how a sum over a map changes when one entry is written\<close>

section \<open>Results\<close>

text \<open>A thrown error is \<open>Inl\<close> of its message, a returned value is \<open>Inr\<close>.\<close>

type_synonym 'a outcome = "string + 'a"

definition and_then :: "'a outcome \<Rightarrow> ('a \<Rightarrow> 'b outcome) \<Rightarrow> 'b outcome" where
  "and_then r k = (case r of Inl e \<Rightarrow> Inl e | Inr x \<Rightarrow> k x)"

definition demand :: "bool \<Rightarrow> string \<Rightarrow> 'a outcome \<Rightarrow> 'a outcome" where
  "demand ok msg k = (if ok then k else Inl msg)"

definition or_throw :: "'a option \<Rightarrow> string \<Rightarrow> 'a outcome" where
  "or_throw v msg = (case v of None \<Rightarrow> Inl msg | Some x \<Rightarrow> Inr x)"

definition returns :: "'a outcome \<Rightarrow> bool" where
  "returns r = (case r of Inl _ \<Rightarrow> False | Inr _ \<Rightarrow> True)"

lemma and_then_simps [simp, outcome_simps]:
  "and_then (Inl e) k = Inl e"
  "and_then (Inr x) k = k x"
  by (simp_all add: and_then_def)

lemma demand_simps [simp, outcome_simps]:
  "demand True msg k = k"
  "demand False msg k = Inl msg"
  by (simp_all add: demand_def)

lemma or_throw_simps [simp, outcome_simps]:
  "or_throw None msg = Inl msg"
  "or_throw (Some x) msg = Inr x"
  by (simp_all add: or_throw_def)

lemma returns_simps [simp, outcome_simps]:
  "returns (Inl e) = False"
  "returns (Inr x) = True"
  by (simp_all add: returns_def)

lemma and_then_Inr: "and_then r k = Inr y \<longleftrightarrow> (\<exists>x. r = Inr x \<and> k x = Inr y)"
  by (cases r) auto

lemma and_then_Inl: "and_then r k = Inl e \<longleftrightarrow> r = Inl e \<or> (\<exists>x. r = Inr x \<and> k x = Inl e)"
  by (cases r) auto

lemma demand_Inr: "demand ok msg k = Inr y \<longleftrightarrow> ok \<and> k = Inr y"
  by (simp add: demand_def)

lemma demand_Inl: "demand ok msg k = Inl e \<longleftrightarrow> (\<not> ok \<and> e = msg) \<or> (ok \<and> k = Inl e)"
  by (auto simp: demand_def)

lemma or_throw_Inr: "or_throw v msg = Inr x \<longleftrightarrow> v = Some x"
  by (cases v) auto

lemma returns_iff: "returns r \<longleftrightarrow> (\<exists>x. r = Inr x)"
  by (cases r) auto

lemmas outcome_Inr = and_then_Inr demand_Inr or_throw_Inr

section \<open>Big integers\<close>

text \<open>
  Division of big integers rounds towards zero in JavaScript (\<open>a / b\<close>) and in the
  graph runtime (\<open>a.div(b)\<close>).
\<close>

definition tdiv :: "int \<Rightarrow> int \<Rightarrow> int" where
  "tdiv a b = sgn a * sgn b * (\<bar>a\<bar> div \<bar>b\<bar>)"

lemma tdiv_nonneg [simp]: "0 \<le> a \<Longrightarrow> 0 \<le> b \<Longrightarrow> tdiv a b = a div b"
  by (cases "a = 0"; cases "b = 0") (auto simp: tdiv_def)

lemma tdiv_zero [simp]: "tdiv 0 b = 0"
  by (simp add: tdiv_def)

lemma tdiv_minus_left [simp]: "tdiv (- a) b = - tdiv a b"
  by (simp add: tdiv_def sgn_minus)

lemma tdiv_self_mult: "b \<noteq> 0 \<Longrightarrow> tdiv (a * b) b = a"
proof -
  assume b: "b \<noteq> 0"
  then have "\<bar>a * b\<bar> div \<bar>b\<bar> = \<bar>a\<bar>" by (simp add: abs_mult)
  moreover have "sgn (a * b) * sgn b = sgn a"
    using b by (cases "0 < b") (simp_all add: sgn_mult)
  ultimately show ?thesis by (metis mult.commute sgn_mult_abs tdiv_def)
qed

lemma abs_tdiv_le: "\<bar>tdiv a b\<bar> \<le> \<bar>a\<bar>"
proof -
  have "0 \<le> \<bar>a\<bar> div \<bar>b\<bar>"
    by (cases "b = 0") (auto intro: pos_imp_zdiv_nonneg_iff [THEN iffD2])
  then have "\<bar>tdiv a b\<bar> \<le> \<bar>a\<bar> div \<bar>b\<bar>"
    by (auto simp: tdiv_def abs_mult abs_sgn_eq)
  also have "\<dots> \<le> \<bar>a\<bar>"
    by (cases "b = 0") (auto intro: order_trans [OF zdiv_mono2 [of "\<bar>a\<bar>" 1 "\<bar>b\<bar>"]])
  finally show ?thesis .
qed

section \<open>Decimal text\<close>

definition digit_char :: "nat \<Rightarrow> char" where
  "digit_char d = ''0123456789'' ! d"

definition digit_value :: "char \<Rightarrow> nat" where
  "digit_value c = of_char c - 48"

definition is_digit :: "char \<Rightarrow> bool" where
  "is_digit c = (48 \<le> (of_char c :: nat) \<and> (of_char c :: nat) \<le> 57)"

fun dec_of_nat :: "nat \<Rightarrow> string" where
  "dec_of_nat n = (if n < 10 then [digit_char n] else dec_of_nat (n div 10) @ [digit_char (n mod 10)])"

declare dec_of_nat.simps [simp del]

definition dec_of_int :: "int \<Rightarrow> string" where
  "dec_of_int i = (if i < 0 then ''-'' @ dec_of_nat (nat (- i)) else dec_of_nat (nat i))"

definition nat_of_dec :: "string \<Rightarrow> nat" where
  "nat_of_dec s = foldl (\<lambda>a c. 10 * a + digit_value c) 0 s"

lemma digit_cases: "d < 10 \<Longrightarrow> d \<in> {0, 1, 2, 3, 4, 5, 6, 7, 8, 9 :: nat}"
  by auto

lemma digit_value_char [simp]: "d < 10 \<Longrightarrow> digit_value (digit_char d) = d"
  by (drule digit_cases) (auto simp: digit_value_def digit_char_def)

lemma is_digit_char [simp]: "d < 10 \<Longrightarrow> is_digit (digit_char d)"
  by (drule digit_cases) (auto simp: is_digit_def digit_char_def)

lemma digit_value_less [simp]: "is_digit c \<Longrightarrow> digit_value c < 10"
  unfolding digit_value_def is_digit_def by linarith

lemma nat_of_dec_Nil [simp]: "nat_of_dec [] = 0"
  by (simp add: nat_of_dec_def)

lemma nat_of_dec_snoc [simp]: "nat_of_dec (s @ [c]) = 10 * nat_of_dec s + digit_value c"
  by (simp add: nat_of_dec_def)

lemma nat_of_dec_append: "nat_of_dec (s @ t) = nat_of_dec s * 10 ^ length t + nat_of_dec t"
  by (induction t rule: rev_induct) (simp_all add: algebra_simps flip: append_assoc)

lemma nat_of_dec_of_nat [simp]: "nat_of_dec (dec_of_nat n) = n"
proof (induction n rule: dec_of_nat.induct)
  case (1 n)
  then show ?case
    by (cases "n < 10") (simp_all add: dec_of_nat.simps [of n] nat_of_dec_def)
qed

lemma dec_of_nat_digits: "c \<in> set (dec_of_nat n) \<Longrightarrow> is_digit c"
proof (induction n rule: dec_of_nat.induct)
  case (1 n)
  then show ?case
    by (cases "n < 10") (auto simp: dec_of_nat.simps [of n])
qed

lemma dec_of_nat_nonempty [simp]: "dec_of_nat n \<noteq> []"
  by (subst dec_of_nat.simps) simp

lemma dec_of_nat_inject [simp]: "dec_of_nat m = dec_of_nat n \<longleftrightarrow> m = n"
  by (metis nat_of_dec_of_nat)

lemma dec_of_nat_no_minus: "dec_of_nat n \<noteq> CHR ''-'' # s"
proof
  assume "dec_of_nat n = CHR ''-'' # s"
  then have "is_digit (CHR ''-'')" by (metis dec_of_nat_digits list.set_intros(1))
  then show False by (simp add: is_digit_def)
qed

lemma dec_of_int_inject [simp]: "dec_of_int i = dec_of_int j \<longleftrightarrow> i = j"
  by (auto simp: dec_of_int_def dec_of_nat_no_minus dec_of_nat_no_minus [symmetric])

lemma dec_of_int_chars: "c \<in> set (dec_of_int i) \<Longrightarrow> c = CHR ''-'' \<or> is_digit c"
  by (auto simp: dec_of_int_def dest: dec_of_nat_digits split: if_splits)

lemma dec_of_int_no_colon [simp]: "CHR '':'' \<notin> set (dec_of_int i)"
  by (auto dest!: dec_of_int_chars simp: is_digit_def)

section \<open>Sums over the entries of a map\<close>

text \<open>
  \<open>tally f m\<close> adds \<open>f\<close> over the entries of \<open>m\<close>; writing one entry changes it by
  the difference of that entry's contributions.
\<close>

definition tally :: "('v \<Rightarrow> 'b :: ab_group_add) \<Rightarrow> ('k \<rightharpoonup> 'v) \<Rightarrow> 'b" where
  "tally f m = (\<Sum>k \<in> dom m. f (the (m k)))"

definition entry_share :: "('v \<Rightarrow> 'b :: ab_group_add) \<Rightarrow> 'v option \<Rightarrow> 'b" where
  "entry_share f e = (case e of None \<Rightarrow> 0 | Some v \<Rightarrow> f v)"

lemma entry_share_simps [simp]:
  "entry_share f None = 0"
  "entry_share f (Some v) = f v"
  by (simp_all add: entry_share_def)

lemma tally_empty [simp, tally_simps]: "tally f Map.empty = 0"
  by (simp add: tally_def)

lemma tally_upd [tally_simps]:
  assumes "finite (dom m)"
  shows "tally f (m(k \<mapsto> v)) = tally f m - entry_share f (m k) + f v"
proof -
  let ?g = "\<lambda>m j. f (the (m j))"
  have "tally f (m(k \<mapsto> v)) = f v + (\<Sum>j \<in> dom m - {k}. ?g (m(k \<mapsto> v)) j)"
    using assms by (simp add: tally_def sum.insert_remove)
  also have "(\<Sum>j \<in> dom m - {k}. ?g (m(k \<mapsto> v)) j) = (\<Sum>j \<in> dom m - {k}. ?g m j)"
    by (rule sum.cong) auto
  also have "\<dots> = tally f m - entry_share f (m k)"
    using assms by (cases "m k") (auto simp: tally_def sum_diff1 domIff)
  finally show ?thesis by (simp only: add.commute)
qed

lemma tally_diff: "tally (\<lambda>v. f v - g v) m = tally f m - tally g m"
  by (simp add: tally_def sum_subtractf)

lemma tally_add: "tally (\<lambda>v. f v + g v) m = tally f m + tally g m"
  by (simp add: tally_def sum.distrib)

lemma tally_mult: "tally (\<lambda>v. (c :: int) * f v) m = c * tally f m"
  by (simp add: tally_def sum_distrib_left)

lemma tally_cong:
  "(\<And>k v. m k = Some v \<Longrightarrow> f v = g v) \<Longrightarrow> tally f m = tally g m"
  unfolding tally_def by (rule sum.cong) auto

lemma tally_zero: "(\<And>k v. m k = Some v \<Longrightarrow> f v = 0) \<Longrightarrow> tally f m = 0"
  unfolding tally_def by (rule sum.neutral) auto

section \<open>Loops that may throw\<close>

text \<open>\<open>for (const x of xs) f(x)\<close> over a state, stopped by the first error, and \<open>xs.map(f)\<close>.\<close>

fun fold_outcome :: "('a \<Rightarrow> 's \<Rightarrow> 's outcome) \<Rightarrow> 'a list \<Rightarrow> 's \<Rightarrow> 's outcome" where
  "fold_outcome f [] s = Inr s"
| "fold_outcome f (x # xs) s = and_then (f x s) (fold_outcome f xs)"

fun map_outcome :: "('a \<Rightarrow> 'b outcome) \<Rightarrow> 'a list \<Rightarrow> 'b list outcome" where
  "map_outcome f [] = Inr []"
| "map_outcome f (x # xs) = and_then (f x) (\<lambda>y. and_then (map_outcome f xs) (\<lambda>ys. Inr (y # ys)))"

lemma fold_outcome_append:
  "fold_outcome f (xs @ ys) s = and_then (fold_outcome f xs s) (fold_outcome f ys)"
proof (induction xs arbitrary: s)
  case (Cons x xs)
  then show ?case by (cases "f x s") simp_all
qed simp

lemma fold_outcome_invariant:
  assumes "fold_outcome f xs s = Inr s'" and "P s"
    and "\<And>x s s'. x \<in> set xs \<Longrightarrow> P s \<Longrightarrow> f x s = Inr s' \<Longrightarrow> P s'"
  shows "P s'"
  using assms
proof (induction xs arbitrary: s)
  case (Cons x xs)
  obtain s1 where s1: "f x s = Inr s1" "fold_outcome f xs s1 = Inr s'"
    using Cons.prems(1) by (auto simp: and_then_Inr)
  have "P s1" using Cons.prems(3) [OF _ Cons.prems(2) s1(1)] by simp
  then show ?case by (rule Cons.IH [OF s1(2)]) (use Cons.prems(3) in auto)
qed simp

text \<open>An invariant that also speaks of the part of the list done so far.\<close>

lemma fold_outcome_history:
  assumes "fold_outcome f xs s = Inr s'" and "P [] s"
    and "\<And>ys x s s'. P ys s \<Longrightarrow> f x s = Inr s' \<Longrightarrow> P (ys @ [x]) s'"
  shows "P xs s'"
  using assms(1)
proof (induction xs arbitrary: s' rule: rev_induct)
  case (snoc x xs)
  obtain s1 where "fold_outcome f xs s = Inr s1" and "f x s1 = Inr s'"
    using snoc.prems by (auto simp: fold_outcome_append and_then_Inr)
  with snoc.IH assms(3) show ?case by blast
qed (use assms(2) in simp)

lemma map_outcome_Inr: "map_outcome f xs = Inr ys \<longleftrightarrow> list_all2 (\<lambda>x y. f x = Inr y) xs ys"
  by (induction xs arbitrary: ys) (auto simp: and_then_Inr list_all2_Cons1)


end
