(* ===== verification/JS_Runtime.thy ===== *)
theory JS_Runtime
  imports Prelude "HOL-Library.Char_ord" "HOL-Library.List_Lexorder" "HOL-Library.Multiset"
begin

text \<open>
  What the sources use of the JavaScript language: reading a \<open>BigInt\<close> from text, the
  classes of characters of their regular expressions, case-insensitive comparison,
  bounds of safe integers and of \<open>uint256\<close>, and the order and slices of arrays. Strings are
  lists of code units below 256.
\<close>

section \<open>Integers\<close>

definition MAX_SAFE_INTEGER :: int where
  "MAX_SAFE_INTEGER = 2 ^ 53 - 1"

definition isSafeInteger :: "int \<Rightarrow> bool" where
  "isSafeInteger n \<longleftrightarrow> \<bar>n\<bar> \<le> MAX_SAFE_INTEGER"

section \<open>Reading a BigInt\<close>

definition is_space :: "char \<Rightarrow> bool" where
  "is_space c \<longleftrightarrow> of_char c \<in> {9, 10, 11, 12, 13, 32, 160 :: nat}"

definition js_trim :: "string \<Rightarrow> string" where
  "js_trim s = rev (dropWhile is_space (rev (dropWhile is_space s)))"

definition is_lower_hex :: "char \<Rightarrow> bool" where
  "is_lower_hex c \<longleftrightarrow> is_digit c \<or> (97 \<le> (of_char c :: nat) \<and> (of_char c :: nat) \<le> 102)"

definition is_upper_hex :: "char \<Rightarrow> bool" where
  "is_upper_hex c \<longleftrightarrow> 65 \<le> (of_char c :: nat) \<and> (of_char c :: nat) \<le> 70"

definition is_hex :: "char \<Rightarrow> bool" where
  "is_hex c \<longleftrightarrow> is_lower_hex c \<or> is_upper_hex c"

definition hex_value :: "char \<Rightarrow> nat" where
  "hex_value c = (if is_digit c then digit_value c
     else if is_upper_hex c then of_char c - 55 else of_char c - 87)"

definition of_radix :: "nat \<Rightarrow> string \<Rightarrow> nat" where
  "of_radix b s = foldl (\<lambda>a c. b * a + hex_value c) 0 s"

definition all_in_radix :: "nat \<Rightarrow> string \<Rightarrow> bool" where
  "all_in_radix b s \<longleftrightarrow> s \<noteq> [] \<and> list_all (\<lambda>c. is_hex c \<and> hex_value c < b) s"

text \<open>
  \<open>BigInt(text)\<close>: surrounding white space is ignored and empty text is zero; a radix prefix
  takes no sign; anything else throws a SyntaxError.
\<close>

definition js_BigInt :: "string \<Rightarrow> int outcome" where
  "js_BigInt text =
     (let s = js_trim text; bad = Inl ''Cannot convert to a BigInt'' in
      case s of
        [] \<Rightarrow> Inr 0
      | c # r \<Rightarrow>
          if c = CHR ''0'' \<and> r \<noteq> [] \<and> hd r \<in> set ''xX'' then
            (if all_in_radix 16 (tl r) then Inr (int (of_radix 16 (tl r))) else bad)
          else if c = CHR ''0'' \<and> r \<noteq> [] \<and> hd r \<in> set ''oO'' then
            (if all_in_radix 8 (tl r) then Inr (int (of_radix 8 (tl r))) else bad)
          else if c = CHR ''0'' \<and> r \<noteq> [] \<and> hd r \<in> set ''bB'' then
            (if all_in_radix 2 (tl r) then Inr (int (of_radix 2 (tl r))) else bad)
          else if c = CHR ''-'' then
            (if r \<noteq> [] \<and> list_all is_digit r then Inr (- int (nat_of_dec r)) else bad)
          else if c = CHR ''+'' then
            (if r \<noteq> [] \<and> list_all is_digit r then Inr (int (nat_of_dec r)) else bad)
          else if list_all is_digit s then Inr (int (nat_of_dec s)) else bad)"

lemma digit_not_space [simp]: "is_digit c \<Longrightarrow> \<not> is_space c"
  by (auto simp: is_digit_def is_space_def)

lemma js_trim_id: "(s = [] \<or> \<not> is_space (hd s) \<and> \<not> is_space (last s)) \<Longrightarrow> js_trim s = s"
  by (auto simp: js_trim_def hd_rev dropWhile_eq_self_iff [THEN iffD2])

lemma js_BigInt_digits:
  assumes "s \<noteq> []" and "list_all is_digit s"
  shows "js_BigInt s = Inr (int (nat_of_dec s))"
proof -
  have "\<not> is_space (hd s)" "\<not> is_space (last s)"
    using assms by (auto simp: list_all_iff)
  then have trim: "js_trim s = s" by (simp add: js_trim_id)
  obtain c r where s: "s = c # r" using assms(1) by (cases s) auto
  have digits: "is_digit c" "list_all is_digit r" using assms(2) s by auto
  then have sign: "c \<noteq> CHR ''-''" "c \<noteq> CHR ''+''" by (auto simp: is_digit_def)
  have "hd r \<notin> set ''xX''" "hd r \<notin> set ''oO''" "hd r \<notin> set ''bB''" if "r \<noteq> []"
    using digits(2) that by (cases r; simp add: is_digit_def; fail | cases r; auto simp: is_digit_def)+
  then have prefix: "\<not> (r \<noteq> [] \<and> hd r \<in> set ''xX'')" "\<not> (r \<noteq> [] \<and> hd r \<in> set ''oO'')" "\<not> (r \<noteq> [] \<and> hd r \<in> set ''bB'')"
    by blast+
  show ?thesis
    unfolding js_BigInt_def trim Let_def using prefix sign assms(2)
    by (simp only: s list.case if_False if_True simp_thms)
qed

lemma dec_of_nat_all_digits: "list_all is_digit (dec_of_nat n)"
  by (auto simp: list_all_iff dest: dec_of_nat_digits)

lemma js_BigInt_dec_of_int: "js_BigInt (dec_of_int i) = Inr i"
proof (cases "i < 0")
  case False
  then show ?thesis
    using js_BigInt_digits [OF dec_of_nat_nonempty dec_of_nat_all_digits, of "nat i"]
    by (simp add: dec_of_int_def)
next
  case True
  have minus: "\<not> is_space (CHR ''-'')" by (simp add: is_space_def)
  have "\<not> is_space (last (dec_of_nat (nat (- i))))"
    using dec_of_nat_all_digits [of "nat (- i)"] by (auto simp: list_all_iff)
  then have "js_trim (dec_of_int i) = dec_of_int i"
    using True minus by (intro js_trim_id) (simp add: dec_of_int_def)
  then show ?thesis
    using True dec_of_nat_all_digits [of "nat (- i)"] by (simp add: js_BigInt_def dec_of_int_def)
qed

section \<open>Sorted entity lists\<close>

text \<open>The ids of a map's entries in increasing order, as an ordered query lists them.\<close>

definition sorted_ids :: "(string \<rightharpoonup> 'v) \<Rightarrow> string list" where
  "sorted_ids m = sorted_list_of_set (dom m)"

lemma sorted_ids_tally:
  assumes "finite (dom m)"
  shows "sum_list (map (\<lambda>k. f (the (m k))) (sorted_ids m)) = tally f m"
  using assms by (simp add: sorted_ids_def tally_def sum_list_distinct_conv_sum_set)

section \<open>Numbers\<close>

text \<open>
  A JavaScript number as the checks of the sources see it: an integer, a
  number with a fraction, or an infinity or NaN. A number read from a long run of digits is kept exact; it
  is a safe integer just when the exact value is, because rounding is monotone and
  \<open>2^53\<close> is a double.
\<close>

datatype js_number = JS_int int | JS_frac | JS_infinite

fun safe_number :: "js_number \<Rightarrow> bool" where
  "safe_number (JS_int n) = isSafeInteger n"
| "safe_number _ = False"

definition tmod :: "int \<Rightarrow> int \<Rightarrow> int" where
  "tmod a b = a - tdiv a b * b"

lemma tmod_nonneg [simp]: "0 \<le> a \<Longrightarrow> 0 \<le> b \<Longrightarrow> tmod a b = a mod b"
  by (simp add: tmod_def minus_div_mult_eq_mod)

section \<open>Text\<close>

text \<open>Lower case of the first 256 code points.\<close>

definition js_lower_char :: "char \<Rightarrow> char" where
  "js_lower_char c = (let n = of_char c :: nat in
     if 65 \<le> n \<and> n \<le> 90 \<or> 192 \<le> n \<and> n \<le> 222 \<and> n \<noteq> 215 then char_of (n + 32) else c)"

definition js_lower :: "string \<Rightarrow> string" where
  "js_lower s = map js_lower_char s"

definition pad_start :: "nat \<Rightarrow> char \<Rightarrow> string \<Rightarrow> string" where
  "pad_start n c s = replicate (n - length s) c @ s"

definition pad_end :: "nat \<Rightarrow> char \<Rightarrow> string \<Rightarrow> string" where
  "pad_end n c s = s @ replicate (n - length s) c"

definition strip_zeros :: "string \<Rightarrow> string" where
  "strip_zeros s = rev (dropWhile (\<lambda>c. c = CHR ''0'') (rev s))"

definition slice_from_end :: "nat \<Rightarrow> 'a list \<Rightarrow> 'a list" where
  "slice_from_end n s = (if n = 0 then s else drop (length s - n) s)"

lemma pad_end_strip_zeros: "length s = n \<Longrightarrow> pad_end n (CHR ''0'') (strip_zeros s) = s"
proof -
  assume "length s = n"
  moreover have "s = strip_zeros s @ replicate (length s - length (strip_zeros s)) (CHR ''0'')"
  proof -
    let ?t = "takeWhile (\<lambda>c. c = CHR ''0'') (rev s)"
    have "\<forall>c \<in> set ?t. c = CHR ''0''" by (meson set_takeWhileD)
    then have t: "?t = replicate (length ?t) (CHR ''0'')" by (simp add: replicate_length_same)
    have s: "s = strip_zeros s @ rev ?t"
      unfolding strip_zeros_def by (metis rev_append rev_rev_ident takeWhile_dropWhile_id)
    then have "length s - length (strip_zeros s) = length ?t" by (metis add_diff_cancel_left' length_append length_rev)
    with s t show ?thesis by (metis rev_replicate)
  qed
  ultimately show ?thesis by (simp add: pad_end_def)
qed

lemma strip_zeros_set: "set (strip_zeros s) \<subseteq> set s"
  by (auto simp: strip_zeros_def dest: set_dropWhileD)

lemma length_strip_zeros: "length (strip_zeros s) \<le> length s"
  by (simp add: strip_zeros_def length_dropWhile_le [of _ "rev s", simplified])

lemma nat_of_dec_zeros [simp]: "nat_of_dec (replicate n (CHR ''0'')) = 0"
  by (induction n) (simp_all add: nat_of_dec_def digit_value_def replicate_append_same [symmetric])

lemma nat_of_dec_pad_start [simp]: "nat_of_dec (pad_start n (CHR ''0'') s) = nat_of_dec s"
  by (simp add: pad_start_def nat_of_dec_append)

lemma is_digit_zero [simp]: "is_digit (CHR ''0'')"
  by (simp add: is_digit_def)

lemma nat_of_dec_less: "list_all is_digit s \<Longrightarrow> nat_of_dec s < 10 ^ length s"
proof (induction s rule: rev_induct)
  case (snoc c s)
  then have "digit_value c < 10" and "nat_of_dec s < 10 ^ length s" by simp_all
  then show ?case by simp
qed simp

lemma length_dec_of_nat: "n < 10 ^ k \<Longrightarrow> 0 < k \<Longrightarrow> length (dec_of_nat n) \<le> k"
proof (induction n arbitrary: k rule: dec_of_nat.induct)
  case (1 n)
  show ?case
  proof (cases "n < 10")
    case False
    with 1(2,3) obtain j where j: "k = Suc j" "0 < j" by (cases k; cases "k - 1") auto
    then have "n div 10 < 10 ^ j" using 1(2) by (simp add: less_mult_imp_div_less mult.commute)
    with 1(1) False j show ?thesis by (subst dec_of_nat.simps) simp
  qed (use 1 in \<open>subst dec_of_nat.simps, simp\<close>)
qed

section \<open>Sorting with a comparator\<close>

text \<open>
  \<open>Array.sort\<close> with a comparator is a stable sort; the language leaves the order open only
  when the comparator is not consistent. The model inserts from the right, and the interface
  below is what consistency means.
\<close>

fun insert_by :: "('a \<Rightarrow> 'a \<Rightarrow> int) \<Rightarrow> 'a \<Rightarrow> 'a list \<Rightarrow> 'a list" where
  "insert_by cmp x [] = [x]"
| "insert_by cmp x (y # ys) = (if cmp x y \<le> 0 then x # y # ys else y # insert_by cmp x ys)"

definition js_sort :: "('a \<Rightarrow> 'a \<Rightarrow> int) \<Rightarrow> 'a list \<Rightarrow> 'a list" where
  "js_sort cmp xs = foldr (insert_by cmp) xs []"

lemma mset_insert_by [simp]: "mset (insert_by cmp x ys) = add_mset x (mset ys)"
  by (induction ys) simp_all

lemma mset_js_sort [simp]: "mset (js_sort cmp xs) = mset xs"
  by (induction xs) (simp_all add: js_sort_def)

lemma set_js_sort [simp]: "set (js_sort cmp xs) = set xs"
  by (metis mset_js_sort set_mset_mset)

lemma length_js_sort [simp]: "length (js_sort cmp xs) = length xs"
  by (metis mset_js_sort size_mset)

lemma js_sort_Cons: "js_sort cmp (x # xs) = insert_by cmp x (js_sort cmp xs)"
  by (simp add: js_sort_def)

locale comparator =
  fixes cmp :: "'a \<Rightarrow> 'a \<Rightarrow> int"
  assumes cmp_flip: "sgn (cmp y x) = - sgn (cmp x y)"
    and cmp_trans: "cmp x y \<le> 0 \<Longrightarrow> cmp y z \<le> 0 \<Longrightarrow> cmp x z \<le> 0"
begin

lemma cmp_total: "cmp x y \<le> 0 \<or> cmp y x \<le> 0"
  using cmp_flip [where x = x and y = y] by (auto simp: sgn_if split: if_splits)

lemma cmp_pos: "\<not> cmp x y \<le> 0 \<Longrightarrow> cmp y x \<le> 0"
  using cmp_total by blast

lemma insert_by_sorted:
  "sorted_wrt (\<lambda>a b. cmp a b \<le> 0) ys \<Longrightarrow> sorted_wrt (\<lambda>a b. cmp a b \<le> 0) (insert_by cmp x ys)"
proof (induction ys)
  case (Cons y ys)
  have "\<forall>z \<in> set (insert_by cmp x ys). z = x \<or> z \<in> set ys"
    using mset_insert_by [of cmp x ys] by (metis insert_iff set_mset_add_mset_insert set_mset_mset)
  with Cons show ?case by (auto intro: cmp_trans cmp_pos)
qed simp

lemma js_sort_sorted: "sorted_wrt (\<lambda>a b. cmp a b \<le> 0) (js_sort cmp xs)"
  by (induction xs) (simp_all add: js_sort_def insert_by_sorted)

text \<open>Stability: elements that compare equal to a given one keep their order.\<close>

lemma insert_by_filter:
  assumes "sorted_wrt (\<lambda>a b. cmp a b \<le> 0) ys"
  shows "filter (\<lambda>y. cmp y z = 0) (insert_by cmp x ys) = filter (\<lambda>y. cmp y z = 0) (x # ys)"
  using assms
proof (induction ys)
  case (Cons y ys)
  show ?case
  proof (cases "cmp x y \<le> 0")
    case False
    have "\<not> (cmp x z = 0 \<and> cmp y z = 0)"
    proof
      assume a: "cmp x z = 0 \<and> cmp y z = 0"
      then have "cmp z y = 0" using cmp_flip [of z y] by (auto simp: sgn_if split: if_splits)
      then have "cmp x y \<le> 0" using cmp_trans [of x z y] a by simp
      with False show False by simp
    qed
    with False Cons show ?thesis by auto
  qed simp
qed simp

lemma js_sort_stable: "filter (\<lambda>y. cmp y z = 0) (js_sort cmp xs) = filter (\<lambda>y. cmp y z = 0) xs"
  by (induction xs) (simp_all add: js_sort_Cons insert_by_filter js_sort_sorted js_sort_def [of _ "[]"])

end

text \<open>Comparing by a key, and one comparison after another.\<close>

definition compare :: "'k :: linorder \<Rightarrow> 'k \<Rightarrow> int" where
  "compare l r = (if l < r then -1 else if r < l then 1 else 0)"

lemma compare_key: "comparator (\<lambda>x y. compare (f x) (f y))"
  by unfold_locales (auto simp: compare_def split: if_splits)


interpretation by_id: comparator "\<lambda>x y. compare x (y :: 'k :: linorder)"
  using compare_key [of "\<lambda>x. x"] by simp

definition or_else :: "('a \<Rightarrow> 'a \<Rightarrow> int) \<Rightarrow> ('a \<Rightarrow> 'a \<Rightarrow> int) \<Rightarrow> 'a \<Rightarrow> 'a \<Rightarrow> int" where
  "or_else c d x y = (if c x y \<noteq> 0 then c x y else d x y)"

lemma comparator_or_else:
  assumes "comparator c" and "comparator d"
  shows "comparator (or_else c d)"
proof unfold_locales
  note flip = comparator.cmp_flip [OF assms(1)] comparator.cmp_flip [OF assms(2)]
  note trans = comparator.cmp_trans [OF assms(1)] comparator.cmp_trans [OF assms(2)]
  have zero: "c y x = 0 \<longleftrightarrow> c x y = 0" for x y using flip(1) [of x y] by (metis minus_equation_iff neg_equal_zero sgn_0_0)
  have neg: "c x y < 0 \<longleftrightarrow> 0 < c y x" for x y
    using flip(1) [of x y] by (metis neg_equal_iff_equal neg_less_0_iff_less sgn_greater sgn_less)
  show "sgn (or_else c d y x) = - sgn (or_else c d x y)" for x y
    using flip [of x y] zero [of x y] by (simp add: or_else_def)
  show "or_else c d x z \<le> 0" if "or_else c d x y \<le> 0" and "or_else c d y z \<le> 0" for x y z
  proof -
    have le: "c x y \<le> 0" "c y z \<le> 0" using that by (auto simp: or_else_def split: if_splits)
    then have xz: "c x z \<le> 0" by (rule trans(1))
    show ?thesis
    proof (cases "c x z = 0")
      case True
      then have "c z x \<le> 0" using zero [of x z] by simp
      then have "c y x \<le> 0" "c z y \<le> 0" using trans(1) le by blast+
      then have "c x y = 0" "c y z = 0" using le neg zero by (metis linorder_not_less order_antisym)+
      with True that trans(2) show ?thesis by (auto simp: or_else_def)
    qed (use xz in \<open>simp add: or_else_def\<close>)
  qed
qed

section \<open>Replacing text\<close>

text \<open>\<open>s.replace(pat, rep)\<close> with a string pattern replaces its first occurrence.\<close>

fun replaceFirst :: "string \<Rightarrow> string \<Rightarrow> string \<Rightarrow> string" where
  "replaceFirst pat rep [] = (if pat = [] then rep else [])"
| "replaceFirst pat rep (c # s) =
     (if take (length pat) (c # s) = pat then rep @ drop (length pat) (c # s)
      else c # replaceFirst pat rep s)"

fun contains :: "string \<Rightarrow> string \<Rightarrow> bool" where
  "contains pat [] = (pat = [])"
| "contains pat (c # s) = (take (length pat) (c # s) = pat \<or> contains pat s)"

lemma replaceFirst_changes:
  "contains pat s \<Longrightarrow> pat \<noteq> rep \<Longrightarrow> length pat = length rep \<Longrightarrow> replaceFirst pat rep s \<noteq> s"
proof (induction s)
  case (Cons c s)
  show ?case
  proof (cases "take (length pat) (c # s) = pat")
    case True
    have "take (length pat) (rep @ drop (length pat) (c # s)) = rep" using Cons.prems(3) by simp
    with True Cons.prems(2) have "rep @ drop (length pat) (c # s) \<noteq> c # s" by metis
    with True show ?thesis by simp
  qed (use Cons in auto)
qed simp

lemma js_lower_char_idem: "js_lower_char (js_lower_char c) = js_lower_char c"
proof -
  have big: "of_char (char_of n :: char) = n" if "n < 256" for n :: nat using that by simp
  show ?thesis
    by (simp add: js_lower_char_def Let_def big)
qed

lemma js_lower_idem [simp]: "js_lower (js_lower s) = js_lower s"
  by (simp add: js_lower_def js_lower_char_idem)


section \<open>\<open>Number\<close> of a \<open>BigInt\<close>\<close>

text \<open>The nearest double, ties to even; below \<open>2^53\<close> the value itself.\<close>

fun bitLength :: "nat \<Rightarrow> nat" where
  "bitLength n = (if n = 0 then 0 else Suc (bitLength (n div 2)))"

definition js_Number :: "int \<Rightarrow> int" where
  "js_Number i =
     (if \<bar>i\<bar> \<le> 2 ^ 53 then i else
      let n = nat \<bar>i\<bar>; k = bitLength n - 53; q = n div 2 ^ k; r = n mod 2 ^ k;
          up = 2 * r > 2 ^ k \<or> 2 * r = 2 ^ k \<and> odd q
      in sgn i * int ((if up then q + 1 else q) * 2 ^ k))"

end
