(* ===== verification/Subgraph_Store.thy ===== *)
theory Subgraph_Store
  imports Prelude
begin

text \<open>
  The data of the subgraph (subgraph/schema.graphql and the event classes the mappings
  of subgraph/src use): entities as records, the entity store as a record of maps from
  the entity's \<open>id\<close>, the data-source context, the events with the block time, log index
  and transaction receipt they carry. Numbers of type \<open>i32\<close> are 32-bit words, \<open>BigInt\<close>s
  are integers. How the runtime prints a big integer or a byte string as hex is not part
  of the repository: it is the record \<open>host\<close>, an argument of every handler.
\<close>

section \<open>Machine types and the runtime\<close>

type_synonym i32 = "32 word"
type_synonym bytes = "8 word list"

record host =
  big_hex :: "int \<Rightarrow> string"
  bytes_hex :: "bytes \<Rightarrow> string"

datatype ctx_value = Ctx_string string | Ctx_i32 i32 | Ctx_bytes bytes

type_synonym ds_context = "string \<rightharpoonup> ctx_value"

definition ctx_getString :: "ds_context \<Rightarrow> string \<Rightarrow> string outcome" where
  "ctx_getString c k = (case c k of Some (Ctx_string s) \<Rightarrow> Inr s | _ \<Rightarrow> Inl ''context'')"

definition ctx_getI32 :: "ds_context \<Rightarrow> string \<Rightarrow> i32 outcome" where
  "ctx_getI32 c k = (case c k of Some (Ctx_i32 n) \<Rightarrow> Inr n | _ \<Rightarrow> Inl ''context'')"

text \<open>The zero address: twenty zero bytes.\<close>

definition zero_address :: bytes where
  "zero_address = replicate 20 0"

section \<open>Entities\<close>

datatype trove_status = St_active | St_closed | St_liquidated | St_redeemed

record collateral =
  co_collIndex :: i32
  co_minCollRatio :: int

record coll_addresses =
  ca_collateral :: string
  ca_borrowerOperations :: bytes
  ca_sortedTroves :: bytes
  ca_stabilityPool :: bytes
  ca_token :: bytes
  ca_troveManager :: bytes
  ca_troveNft :: bytes
  ca_collSurplusPool :: "bytes option"

record bracket =
  bk_collateral :: string
  bk_rate :: int
  bk_totalDebt :: int
  bk_sumDebtTimesRateD36 :: int
  bk_pendingDebtTimesOneYearD36 :: int
  bk_updatedAt :: int

record trove =
  tr_borrower :: bytes
  tr_collateral :: string
  tr_closedAt :: "int option"
  tr_createdAt :: int
  tr_mightBeLeveraged :: bool
  tr_status :: trove_status
  tr_updatedAt :: int
  tr_lastUserActionAt :: int
  tr_debt :: int
  tr_deposit :: int
  tr_interestBatch :: "string option"
  tr_interestRate :: int
  tr_stake :: int
  tr_troveId :: string
  tr_previousOwner :: bytes
  tr_redemptionCount :: i32
  tr_redeemedColl :: int
  tr_redeemedDebt :: int
  tr_liquidatedColl :: "int option"
  tr_liquidatedDebt :: "int option"
  tr_collSurplus :: "int option"
  tr_priceAtLiquidation :: "int option"

record borrower_info =
  bo_nextOwnerIndexes :: "i32 list"
  bo_troves :: i32
  bo_trovesByCollateral :: "i32 list"
  bo_collSurplusBalance :: "int list"
  bo_lastCollSurplusClaimAt :: "int list"

record interest_batch =
  ib_collateral :: string
  ib_batchManager :: bytes
  ib_debt :: int
  ib_coll :: int
  ib_annualInterestRate :: int
  ib_annualManagementFee :: int
  ib_updatedAt :: int

record voting_power =
  vp_allocatedLQTY :: int
  vp_allocatedOffset :: int
  vp_unallocatedLQTY :: int
  vp_unallocatedOffset :: int

record allocation_index =
  ai_user :: "string option"
  ai_initiative :: string
  ai_latestAllocation :: string

record allocation =
  al_user :: "string option"
  al_initiative :: string
  al_epoch :: int
  al_voteLQTY :: int
  al_vetoLQTY :: int
  al_voteOffset :: int
  al_vetoOffset :: int

text \<open>Data sources instantiated from the templates of subgraph.yaml.\<close>

datatype template = TroveManager_template | TroveNFT_template | CollSurplusPool_template

record store =
  st_collaterals :: "string \<rightharpoonup> collateral"
  st_addresses :: "string \<rightharpoonup> coll_addresses"
  st_brackets :: "string \<rightharpoonup> bracket"
  st_troves :: "string \<rightharpoonup> trove"
  st_borrowers :: "string \<rightharpoonup> borrower_info"
  st_batches :: "string \<rightharpoonup> interest_batch"
  st_powers :: "string \<rightharpoonup> voting_power"
  st_allocIndex :: "string \<rightharpoonup> allocation_index"
  st_allocations :: "string \<rightharpoonup> allocation"
  st_initiatives :: "string \<rightharpoonup> bool"
  st_sources :: "(template \<times> bytes \<times> ds_context) list"

definition empty_store :: store where
  "empty_store = \<lparr>st_collaterals = Map.empty, st_addresses = Map.empty, st_brackets = Map.empty,
     st_troves = Map.empty, st_borrowers = Map.empty, st_batches = Map.empty, st_powers = Map.empty,
     st_allocIndex = Map.empty, st_allocations = Map.empty, st_initiatives = Map.empty,
     st_sources = []\<rparr>"

text \<open>\<open>entity.save()\<close> writes the record under its id.\<close>

definition save_bracket :: "string \<Rightarrow> bracket \<Rightarrow> store \<Rightarrow> store" where
  "save_bracket k v s = s\<lparr>st_brackets := (st_brackets s)(k \<mapsto> v)\<rparr>"

definition save_trove :: "string \<Rightarrow> trove \<Rightarrow> store \<Rightarrow> store" where
  "save_trove k v s = s\<lparr>st_troves := (st_troves s)(k \<mapsto> v)\<rparr>"

definition save_batch :: "string \<Rightarrow> interest_batch \<Rightarrow> store \<Rightarrow> store" where
  "save_batch k v s = s\<lparr>st_batches := (st_batches s)(k \<mapsto> v)\<rparr>"

definition save_borrower :: "string \<Rightarrow> borrower_info \<Rightarrow> store \<Rightarrow> store" where
  "save_borrower k v s = s\<lparr>st_borrowers := (st_borrowers s)(k \<mapsto> v)\<rparr>"

definition save_power :: "string \<Rightarrow> voting_power \<Rightarrow> store \<Rightarrow> store" where
  "save_power k v s = s\<lparr>st_powers := (st_powers s)(k \<mapsto> v)\<rparr>"

section \<open>The store as a table of entities\<close>

text \<open>
  What every handler relies on when it loads and saves an entity: a saved entity is what
  the next load of that id returns, and other ids are untouched. The consequence used
  below is that an update which saves the entity it holds and loads it again works on
  the same value.
\<close>

locale entity_table =
  fixes load :: "'s \<Rightarrow> string \<Rightarrow> 'e option"
    and save :: "string \<Rightarrow> 'e \<Rightarrow> 's \<Rightarrow> 's"
  assumes load_saved: "load (save k e s) k = Some e"
    and load_other: "j \<noteq> k \<Longrightarrow> load (save k e s) j = load s j"
    and save_twice: "save k e (save k d s) = save k e s"
begin

lemma load_save: "load (save k e s) = (load s)(k \<mapsto> e)"
  by (rule ext) (simp add: load_saved load_other)

lemma dom_save: "dom (load (save k e s)) = insert k (dom (load s))"
  by (simp add: load_save)

lemma finite_save: "finite (dom (load s)) \<Longrightarrow> finite (dom (load (save k e s)))"
  by (simp add: dom_save)

lemma reload_saved: "save k (f (the (load (save k e s) k))) (save k e s) = save k (f e) s"
  by (simp add: load_saved save_twice)

lemma tally_save:
  "finite (dom (load s)) \<Longrightarrow>
   tally f (load (save k e s)) = tally f (load s) - entry_share f (load s k) + f e"
  by (simp add: load_save tally_upd)

end

interpretation bracket_table: entity_table st_brackets save_bracket
  by unfold_locales (simp_all add: save_bracket_def)

interpretation trove_table: entity_table st_troves save_trove
  by unfold_locales (simp_all add: save_trove_def)

interpretation batch_table: entity_table st_batches save_batch
  by unfold_locales (simp_all add: save_batch_def)

interpretation borrower_table: entity_table st_borrowers save_borrower
  by unfold_locales (simp_all add: save_borrower_def)

interpretation power_table: entity_table st_powers save_power
  by unfold_locales (simp_all add: save_power_def)

text \<open>Saving an entity leaves the other tables alone.\<close>

named_theorems frame_simps \<open>what a save leaves unchanged\<close>

lemma save_bracket_frame [simp, frame_simps]:
  "st_troves (save_bracket k v s) = st_troves s"
  "st_batches (save_bracket k v s) = st_batches s"
  "st_borrowers (save_bracket k v s) = st_borrowers s"
  "st_powers (save_bracket k v s) = st_powers s"
  "st_addresses (save_bracket k v s) = st_addresses s"
  "st_brackets (save_bracket k v s) = (st_brackets s)(k \<mapsto> v)"
  by (simp_all add: save_bracket_def)

lemma save_trove_frame [simp, frame_simps]:
  "st_brackets (save_trove k t s) = st_brackets s"
  "st_batches (save_trove k t s) = st_batches s"
  "st_borrowers (save_trove k t s) = st_borrowers s"
  "st_powers (save_trove k t s) = st_powers s"
  "st_addresses (save_trove k t s) = st_addresses s"
  "st_troves (save_trove k t s) = (st_troves s)(k \<mapsto> t)"
  by (simp_all add: save_trove_def)

lemma save_batch_frame [simp, frame_simps]:
  "st_brackets (save_batch k b s) = st_brackets s"
  "st_troves (save_batch k b s) = st_troves s"
  "st_borrowers (save_batch k b s) = st_borrowers s"
  "st_powers (save_batch k b s) = st_powers s"
  "st_addresses (save_batch k b s) = st_addresses s"
  "st_batches (save_batch k b s) = (st_batches s)(k \<mapsto> b)"
  by (simp_all add: save_batch_def)

lemma save_borrower_frame [simp, frame_simps]:
  "st_brackets (save_borrower k o1 s) = st_brackets s"
  "st_troves (save_borrower k o1 s) = st_troves s"
  "st_batches (save_borrower k o1 s) = st_batches s"
  "st_powers (save_borrower k o1 s) = st_powers s"
  "st_addresses (save_borrower k o1 s) = st_addresses s"
  "st_borrowers (save_borrower k o1 s) = (st_borrowers s)(k \<mapsto> o1)"
  by (simp_all add: save_borrower_def)

lemma save_power_frame [simp, frame_simps]:
  "st_brackets (save_power k p s) = st_brackets s"
  "st_troves (save_power k p s) = st_troves s"
  "st_batches (save_power k p s) = st_batches s"
  "st_borrowers (save_power k p s) = st_borrowers s"
  "st_addresses (save_power k p s) = st_addresses s"
  "st_powers (save_power k p s) = (st_powers s)(k \<mapsto> p)"
  by (simp_all add: save_power_def)

section \<open>Logs and events\<close>

record log =
  lg_address :: bytes
  lg_logIndex :: int
  lg_topics :: "bytes list"
  lg_data :: bytes

record event_meta =
  ev_timestamp :: int
  ev_logIndex :: int
  ev_receipt :: "log list option"

record trove_updated = event_meta +
  tu_troveId :: int
  tu_debt :: int
  tu_coll :: int
  tu_stake :: int
  tu_annualInterestRate :: int

record batched_trove_updated = event_meta +
  btu_troveId :: int
  btu_interestBatchManager :: bytes
  btu_batchDebtShares :: int
  btu_coll :: int
  btu_stake :: int

record batch_updated = event_meta +
  bu_interestBatchManager :: bytes
  bu_operation :: i32
  bu_debt :: int
  bu_coll :: int
  bu_annualInterestRate :: int
  bu_annualManagementFee :: int
  bu_totalDebtShares :: int
  bu_debtIncreaseFromUpfrontFee :: int

record trove_operation = event_meta +
  to_troveId :: int
  to_operation :: i32
  to_collChangeFromOperation :: int
  to_debtChangeFromOperation :: int

record nft_transfer = event_meta +
  nt_from :: bytes
  nt_to :: bytes
  nt_tokenId :: int

record coll_balance_updated = event_meta +
  cb_account :: bytes
  cb_newBalance :: int

record lqty_event = event_meta +
  lq_user :: bytes
  lq_amount :: int

record allocate_lqty = event_meta +
  aq_user :: bytes
  aq_initiative :: bytes
  aq_deltaVoteLQTY :: int
  aq_deltaVetoLQTY :: int
  aq_atEpoch :: int

section \<open>Event topics\<close>

definition FLASH_LOAN_TOPIC :: bytes where
  "FLASH_LOAN_TOPIC = [13, 125, 117, 224, 26, 185, 87, 128, 211, 205, 28, 142, 192, 221, 108, 44, 225, 158, 58, 32, 66, 126, 236, 139, 245, 50, 131, 182, 251, 142, 149, 240]"

definition LIQUIDATION_TOPIC :: bytes where
  "LIQUIDATION_TOPIC = [114, 67, 175, 154, 28, 255, 148, 211, 66, 155, 46, 224, 11, 120, 193, 193, 5, 137, 37, 159, 32, 220, 22, 124, 182, 119, 4, 243, 143, 158, 130, 78]"

definition COLL_BALANCE_UPDATED_TOPIC :: bytes where
  "COLL_BALANCE_UPDATED_TOPIC = [240, 57, 58, 52, 208, 94, 101, 103, 104, 106, 212, 224, 151, 249, 217, 210, 120, 21, 101, 149, 115, 148, 241, 240, 217, 132, 229, 216, 230, 55, 143, 32]"

lemma topics_distinct: "LIQUIDATION_TOPIC \<noteq> COLL_BALANCE_UPDATED_TOPIC"
  by (simp add: LIQUIDATION_TOPIC_def COLL_BALANCE_UPDATED_TOPIC_def)

definition has_topic0 :: "bytes \<Rightarrow> log \<Rightarrow> bool" where
  "has_topic0 t l = (case lg_topics l of [] \<Rightarrow> False | x # _ \<Rightarrow> x = t)"

end
