(* ===== verification/Subgraph_Decoding.thy ===== *)
theory Subgraph_Decoding
  imports Subgraph_Store
begin

text \<open>
  subgraph/src/shared/decoding.ts: reading 32-byte words of a log. \<open>subarray\<close> is a view of
  the same buffer and \<open>reverse\<close> works in place, so \<open>decodeUint256\<close> also changes the log
  it reads: the model returns the buffer it leaves behind.
\<close>

definition subarray :: "bytes \<Rightarrow> nat \<Rightarrow> nat \<Rightarrow> bytes" where
  "subarray d b e = take (e - b) (drop b d)"

fun little_endian :: "bytes \<Rightarrow> int" where
  "little_endian [] = 0"
| "little_endian (b # bs) = uint b + 256 * little_endian bs"

definition decodeAddress :: "bytes \<Rightarrow> nat \<Rightarrow> bytes outcome" where
  "decodeAddress d i =
     (let a = subarray d (i * 32 + 12) (i * 32 + 32)
      in demand (length a = 20) ''bytes length'' (Inr a))"

definition decodeUint8 :: "bytes \<Rightarrow> nat \<Rightarrow> i32 outcome" where
  "decodeUint8 d i =
     demand (i * 32 + 31 < length d) ''index out of range'' (Inr (ucast (d ! (i * 32 + 31))))"

definition decodeUint256 :: "bytes \<Rightarrow> nat \<Rightarrow> int \<times> bytes" where
  "decodeUint256 d i =
     (let r = rev (subarray d (i * 32) (i * 32 + 32))
      in (little_endian r, take (i * 32) d @ r @ drop (i * 32 + 32) d))"

section \<open>What the words are\<close>

definition word_at :: "bytes \<Rightarrow> nat \<Rightarrow> int" where
  "word_at d i = little_endian (rev (subarray d (i * 32) (i * 32 + 32)))"

lemma decodeUint256_value: "fst (decodeUint256 d i) = word_at d i"
  by (simp add: decodeUint256_def word_at_def Let_def)

lemma length_decodeUint256 [simp]: "length (snd (decodeUint256 d i)) = length d"
  by (simp add: decodeUint256_def subarray_def Let_def)

lemma little_endian_append:
  "little_endian (xs @ ys) = little_endian xs + 256 ^ length xs * little_endian ys"
  by (induction xs) (simp_all add: algebra_simps)

lemma little_endian_nonneg: "0 \<le> little_endian xs"
  by (induction xs) simp_all

lemma little_endian_less: "little_endian xs < 256 ^ length xs"
proof (induction xs)
  case Nil
  then show ?case by simp
next
  case (Cons x xs)
  have "uint x < 256" using uint_bounded [of x] by simp
  with Cons show ?case by simp
qed

text \<open>The value read is the word's bytes, most significant first.\<close>

lemma word_at_big_endian:
  assumes "i * 32 + 32 \<le> length d"
  shows "word_at d i = foldl (\<lambda>a b. 256 * a + uint b) 0 (subarray d (i * 32) (i * 32 + 32))"
proof -
  have "little_endian (rev xs) = foldl (\<lambda>a b. 256 * a + uint b) 0 xs" for xs
    by (induction xs rule: rev_induct) simp_all
  then show ?thesis by (simp add: word_at_def)
qed

lemma word_at_bounds: "0 \<le> word_at d i \<and> word_at d i < 2 ^ 256"
proof -
  let ?w = "rev (subarray d (i * 32) (i * 32 + 32))"
  have "length ?w \<le> 32" by (simp add: subarray_def)
  then have "(256 :: int) ^ length ?w \<le> 256 ^ 32" by (intro power_increasing) auto
  also have "(256 :: int) ^ 32 = 2 ^ 256" by simp
  finally have "(256 :: int) ^ length ?w \<le> 2 ^ 256" .
  with little_endian_less [of ?w] little_endian_nonneg [of ?w] show ?thesis
    by (simp add: word_at_def)
qed

text \<open>Reading one word leaves the other words of a whole-word buffer as they were.\<close>

lemma take_drop_split:
  assumes "m + n \<le> length xs"
  shows "xs = take m xs @ take n (drop m xs) @ drop (m + n) xs"
  by (metis add.commute append_take_drop_id drop_drop)

lemma length_splice:
  assumes "length w = 32" and "i * 32 + 32 \<le> length d"
  shows "length (take (i * 32) d @ w @ drop (i * 32 + 32) d) = length d"
  using assms by simp

lemma subarray_other:
  assumes "i \<noteq> j" and "length w = 32" and "i * 32 + 32 \<le> length d" and "j * 32 + 32 \<le> length d"
  shows "subarray (take (i * 32) d @ w @ drop (i * 32 + 32) d) (j * 32) (j * 32 + 32)
         = subarray d (j * 32) (j * 32 + 32)"
proof (rule nth_equalityI)
  show "length (subarray (take (i * 32) d @ w @ drop (i * 32 + 32) d) (j * 32) (j * 32 + 32))
        = length (subarray d (j * 32) (j * 32 + 32))"
    using assms length_splice [OF assms(2,3)] by (simp only: subarray_def length_take length_drop)
next
  fix k
  assume "k < length (subarray (take (i * 32) d @ w @ drop (i * 32 + 32) d) (j * 32) (j * 32 + 32))"
  then have k: "k < 32" by (simp only: subarray_def length_take)
  have "j * 32 + k < i * 32 \<or> i * 32 + 32 \<le> j * 32 + k"
    using assms(1) k by (cases "i < j") auto
  then show "subarray (take (i * 32) d @ w @ drop (i * 32 + 32) d) (j * 32) (j * 32 + 32) ! k
        = subarray d (j * 32) (j * 32 + 32) ! k"
    using assms k by (auto simp: subarray_def nth_append min_def)
qed

lemma word_at_other:
  assumes "i \<noteq> j" and "i * 32 + 32 \<le> length d" and "j * 32 + 32 \<le> length d"
  shows "word_at (snd (decodeUint256 d i)) j = word_at d j"
  using subarray_other [OF assms(1) _ assms(2,3), of "rev (subarray d (i * 32) (i * 32 + 32))"] assms(2)
  by (simp add: word_at_def decodeUint256_def Let_def subarray_def)

text \<open>Reading the same word again gives it with its bytes the other way round.\<close>

lemma word_at_same:
  assumes "i * 32 + 32 \<le> length d"
  shows "word_at (snd (decodeUint256 d i)) i = little_endian (subarray d (i * 32) (i * 32 + 32))"
  using assms by (simp add: word_at_def decodeUint256_def Let_def subarray_def)

end
