(* ===== verification/Subgraph_Surplus.thy ===== *)
theory Subgraph_Surplus
  imports Subgraph_Decoding
begin

text \<open>
  subgraph/src/CollSurplusPool.mapping.ts: the collateral surplus a liquidated borrower
  may claim. A liquidation's top-up is found in the receipt of its TroveOperation event,
  four logs earlier; a claim is the pool's own event with balance zero. Arrays of the
  entities are indexed by the collateral index; a read outside their length traps.
\<close>

text \<open>The index of an element of an array: AssemblyScript compares it unsigned.\<close>

definition array_at :: "'a list \<Rightarrow> i32 \<Rightarrow> 'a outcome" where
  "array_at xs i = demand (unat i < length xs) ''index out of range'' (Inr (xs ! unat i))"

text \<open>
  An assignment at the length of the array makes it one longer. Past the length it would leave holes, which trap when the
  array is stored; a negative index traps at once.
\<close>

definition array_put :: "'a list \<Rightarrow> i32 \<Rightarrow> 'a \<Rightarrow> 'a list outcome" where
  "array_put xs i x = demand (unat i \<le> length xs) ''index out of range''
     (Inr (if unat i < length xs then xs[unat i := x] else xs @ [x]))"

definition loadBorrower :: "host \<Rightarrow> bytes \<Rightarrow> store \<Rightarrow> borrower_info outcome" where
  "loadBorrower h account s =
     or_throw (st_borrowers s (bytes_hex h account)) (''BorrowerInfo not found: '' @ bytes_hex h account)"

definition getCollSurplusBalanceChange ::
    "host \<Rightarrow> ds_context \<Rightarrow> bytes \<Rightarrow> int \<Rightarrow> store \<Rightarrow> (int \<times> store) outcome" where
  "getCollSurplusBalanceChange h ctx account newBalance s =
     and_then (loadBorrower h account s) (\<lambda>info.
     and_then (ctx_getI32 ctx ''collIndex'') (\<lambda>collIndex.
     and_then (array_at (bo_collSurplusBalance info) collIndex) (\<lambda>old.
     and_then (array_put (bo_collSurplusBalance info) collIndex newBalance) (\<lambda>balances.
     Inr (newBalance - old,
          save_borrower (bytes_hex h account) (info\<lparr>bo_collSurplusBalance := balances\<rparr>) s)))))"

text \<open>
  The search stops at the first log with the wanted index, and gives it only if it is a
  balance update.
\<close>

fun findSurplusLog :: "log list \<Rightarrow> int \<Rightarrow> nat option" where
  "findSurplusLog [] n = None"
| "findSurplusLog (l # ls) n =
     (if lg_logIndex l = n then (if has_topic0 COLL_BALANCE_UPDATED_TOPIC l then Some 0 else None)
      else map_option Suc (findSurplusLog ls n))"

definition setCollSurplusPool :: "ds_context \<Rightarrow> bytes \<Rightarrow> store \<Rightarrow> store outcome" where
  "setCollSurplusPool ctx pool s =
     and_then (ctx_getString ctx ''collId'') (\<lambda>collId.
     and_then (or_throw (st_addresses s collId) (''CollateralAddresses not found: '' @ collId)) (\<lambda>addresses.
     if ca_collSurplusPool addresses = None then
       and_then (ctx_getI32 ctx ''collIndex'') (\<lambda>collIndex.
       Inr (s\<lparr>st_sources := st_sources s
                 @ [(CollSurplusPool_template, pool, Map.empty(''collIndex'' \<mapsto> Ctx_i32 collIndex))],
              st_addresses := (st_addresses s)(collId \<mapsto> addresses\<lparr>ca_collSurplusPool := Some pool\<rparr>)\<rparr>))
     else Inr s))"

text \<open>
  \<open>getCollSurplusFrom\<close> returns the change of the balance, the receipt's logs as the
  in-place decoding leaves them, and the store.
\<close>

definition getCollSurplusFrom ::
    "host \<Rightarrow> ds_context \<Rightarrow> int \<Rightarrow> log list option \<Rightarrow> store \<Rightarrow> (int \<times> log list \<times> store) outcome" where
  "getCollSurplusFrom h ctx logIndex receipt s =
     and_then (or_throw receipt ''Missing TX receipt'') (\<lambda>logs.
     case findSurplusLog logs (logIndex - 4) of
       None \<Rightarrow> Inr (0, logs, s)
     | Some i \<Rightarrow>
         let l = logs ! i in
         and_then (setCollSurplusPool ctx (lg_address l) s) (\<lambda>s1.
         and_then (demand (1 < length (lg_topics l)) ''index out of range'' (Inr (lg_topics l ! 1))) (\<lambda>topic.
         and_then (decodeAddress topic 0) (\<lambda>account.
         let (newBalance, data) = decodeUint256 (lg_data l) 0 in
         and_then (getCollSurplusBalanceChange h ctx account newBalance s1) (\<lambda>(change, s2).
         Inr (change, logs[i := l\<lparr>lg_data := data\<rparr>], s2))))))"

definition handleCollBalanceUpdated ::
    "host \<Rightarrow> ds_context \<Rightarrow> coll_balance_updated \<Rightarrow> store \<Rightarrow> store outcome" where
  "handleCollBalanceUpdated h ctx event s =
     (if cb_newBalance event \<noteq> 0 then Inr s
      else
        and_then (loadBorrower h (cb_account event) s) (\<lambda>info.
        and_then (ctx_getI32 ctx ''collIndex'') (\<lambda>collIndex.
        and_then (array_put (bo_collSurplusBalance info) collIndex 0) (\<lambda>balances.
        and_then (array_put (bo_lastCollSurplusClaimAt info) collIndex (ev_timestamp event)) (\<lambda>claims.
        Inr (save_borrower (bytes_hex h (cb_account event))
               (info\<lparr>bo_collSurplusBalance := balances, bo_lastCollSurplusClaimAt := claims\<rparr>) s))))))"

section \<open>Lemmas\<close>

lemma array_put_Inr: "array_put xs i x = Inr ys \<longleftrightarrow>
    unat i \<le> length xs \<and> ys = (if unat i < length xs then xs[unat i := x] else xs @ [x])"
  by (auto simp: array_put_def demand_Inr)

lemma array_at_Inr: "array_at xs i = Inr x \<longleftrightarrow> unat i < length xs \<and> x = xs ! unat i"
  by (auto simp: array_at_def demand_Inr)

lemma findSurplusLog_Some:
  "findSurplusLog ls n = Some i \<Longrightarrow>
   i < length ls \<and> lg_logIndex (ls ! i) = n \<and> has_topic0 COLL_BALANCE_UPDATED_TOPIC (ls ! i) \<and>
   (\<forall>j < i. lg_logIndex (ls ! j) \<noteq> n)"
proof (induction ls n arbitrary: i rule: findSurplusLog.induct)
  case (1 n)
  then show ?case by simp
next
  case (2 l ls n)
  show ?case
  proof (cases "lg_logIndex l = n")
    case True
    with "2.prems" show ?thesis by (simp split: if_splits)
  next
    case False
    with "2.prems" obtain k where "findSurplusLog ls n = Some k" and "i = Suc k" by auto
    with False "2.IH" show ?thesis by (auto simp: less_Suc_eq_0_disj nth_Cons')
  qed
qed

lemma setCollSurplusPool_frame:
  assumes "setCollSurplusPool ctx pool s = Inr s'"
  shows "st_troves s' = st_troves s \<and> st_brackets s' = st_brackets s \<and> st_batches s' = st_batches s \<and>
    st_borrowers s' = st_borrowers s \<and> st_powers s' = st_powers s"
  using assms by (auto simp: setCollSurplusPool_def outcome_Inr split: if_splits)

text \<open>Once a collateral knows its surplus pool, the pool is not instantiated again.\<close>

lemma setCollSurplusPool_known:
  assumes "setCollSurplusPool ctx pool s = Inr s'"
  shows "\<exists>c a. ctx_getString ctx ''collId'' = Inr c \<and> st_addresses s' c = Some a \<and> ca_collSurplusPool a \<noteq> None"
proof -
  from assms obtain c a where "ctx_getString ctx ''collId'' = Inr c" and "st_addresses s c = Some a"
      and rest: "(if ca_collSurplusPool a = None then
        and_then (ctx_getI32 ctx ''collIndex'') (\<lambda>i.
          Inr (s\<lparr>st_sources := st_sources s @ [(CollSurplusPool_template, pool, Map.empty(''collIndex'' \<mapsto> Ctx_i32 i))],
            st_addresses := (st_addresses s)(c \<mapsto> a\<lparr>ca_collSurplusPool := Some pool\<rparr>)\<rparr>))
        else Inr s) = (Inr s' :: store outcome)"
    unfolding setCollSurplusPool_def and_then_Inr or_throw_Inr by (elim exE conjE) (rule that)
  then show ?thesis by (cases "ca_collSurplusPool a = None") (auto simp: outcome_Inr)
qed

lemma setCollSurplusPool_twice:
  assumes "setCollSurplusPool ctx pool s = Inr s'"
  shows "setCollSurplusPool ctx pool' s' = Inr s'"
  using setCollSurplusPool_known [OF assms] by (auto simp: setCollSurplusPool_def)

lemma getCollSurplusBalanceChange_Inr:
  assumes "getCollSurplusBalanceChange h ctx account new s = Inr (change, s')"
  shows "\<exists>info i. st_borrowers s (bytes_hex h account) = Some info \<and> ctx_getI32 ctx ''collIndex'' = Inr i \<and>
    unat i < length (bo_collSurplusBalance info) \<and>
    change = new - bo_collSurplusBalance info ! unat i \<and>
    s' = save_borrower (bytes_hex h account)
           (info\<lparr>bo_collSurplusBalance := (bo_collSurplusBalance info)[unat i := new]\<rparr>) s"
  using assms
  by (auto simp: getCollSurplusBalanceChange_def loadBorrower_def outcome_Inr array_put_Inr array_at_Inr)

lemma getCollSurplusFromE:
  assumes "getCollSurplusFrom h ctx li receipt s = Inr (change, logs', s')"
  obtains (no_log) logs where "receipt = Some logs" and "findSurplusLog logs (li - 4) = None"
      and "change = 0" and "logs' = logs" and "s' = s"
    | (log) logs i s1 account where "receipt = Some logs" and "findSurplusLog logs (li - 4) = Some i"
      and "setCollSurplusPool ctx (lg_address (logs ! i)) s = Inr s1"
      and "1 < length (lg_topics (logs ! i))"
      and "decodeAddress (lg_topics (logs ! i) ! 1) 0 = Inr account"
      and "getCollSurplusBalanceChange h ctx account (word_at (lg_data (logs ! i)) 0) s1 = Inr (change, s')"
      and "logs' = logs[i := (logs ! i)\<lparr>lg_data := snd (decodeUint256 (lg_data (logs ! i)) 0)\<rparr>]"
proof -
  from assms obtain logs where logs: "receipt = Some logs"
    by (auto simp: getCollSurplusFrom_def and_then_Inr or_throw_Inr)
  show thesis
  proof (cases "findSurplusLog logs (li - 4)")
    case None
    with assms logs no_log show thesis by (simp add: getCollSurplusFrom_def)
  next
    case (Some i)
    with assms logs log show thesis
      by (auto simp: getCollSurplusFrom_def outcome_Inr Let_def decodeUint256_value case_prod_unfold)
  qed
qed

lemma getCollSurplusFrom_frame:
  assumes "getCollSurplusFrom h ctx li receipt s = Inr (change, logs, s')"
  shows "st_troves s' = st_troves s \<and> st_brackets s' = st_brackets s \<and> st_batches s' = st_batches s \<and>
    st_powers s' = st_powers s"
  using assms
  by (cases rule: getCollSurplusFromE)
    (auto dest!: getCollSurplusBalanceChange_Inr setCollSurplusPool_frame)

text \<open>Decoding the balance leaves every log's index and topics alone, and other logs entirely.\<close>

lemma getCollSurplusFrom_logs:
  assumes "getCollSurplusFrom h ctx li receipt s = Inr (change, logs', s')"
  shows "\<exists>logs. receipt = Some logs \<and> length logs' = length logs \<and>
    (\<forall>j < length logs. lg_logIndex (logs' ! j) = lg_logIndex (logs ! j) \<and>
       lg_topics (logs' ! j) = lg_topics (logs ! j) \<and>
       (has_topic0 COLL_BALANCE_UPDATED_TOPIC (logs ! j) \<or> logs' ! j = logs ! j))"
  using assms
  by (cases rule: getCollSurplusFromE)
    (auto simp: nth_list_update dest!: findSurplusLog_Some split: if_splits)

text \<open>
  Both handlers of surpluses only rewrite the balance and claim arrays of an existing
  borrower.
\<close>

definition sameCounts :: "borrower_info \<Rightarrow> borrower_info \<Rightarrow> bool" where
  "sameCounts x y \<longleftrightarrow> bo_trovesByCollateral x = bo_trovesByCollateral y \<and> bo_troves x = bo_troves y \<and>
     bo_nextOwnerIndexes x = bo_nextOwnerIndexes y"

definition surplusOnly :: "store \<Rightarrow> store \<Rightarrow> bool" where
  "surplusOnly s s' \<longleftrightarrow> st_borrowers s' = st_borrowers s \<or>
     (\<exists>k x y. st_borrowers s k = Some x \<and> sameCounts y x \<and> st_borrowers s' = (st_borrowers s)(k \<mapsto> y))"

lemma surplusOnly_save:
  assumes "st_borrowers s k = Some x" and "sameCounts y x" and "st_borrowers s1 = st_borrowers s"
  shows "surplusOnly s (save_borrower k y s1)"
  unfolding surplusOnly_def using assms by (intro disjI2 exI [of _ k] exI [of _ x] exI [of _ y]) simp

lemma handleCollBalanceUpdatedE:
  assumes "handleCollBalanceUpdated h ctx e s = Inr s'"
  obtains (ignored) "cb_newBalance e \<noteq> 0" and "s' = s"
    | (claim) info i balances claims where "cb_newBalance e = 0" and "st_borrowers s (bytes_hex h (cb_account e)) = Some info"
      and "ctx_getI32 ctx ''collIndex'' = Inr i" and "array_put (bo_collSurplusBalance info) i 0 = Inr balances"
      and "array_put (bo_lastCollSurplusClaimAt info) i (ev_timestamp e) = Inr claims"
      and "s' = save_borrower (bytes_hex h (cb_account e))
        (info\<lparr>bo_collSurplusBalance := balances, bo_lastCollSurplusClaimAt := claims\<rparr>) s"
proof (cases "cb_newBalance e = 0")
  case True
  with assms claim show thesis
    unfolding handleCollBalanceUpdated_def loadBorrower_def
    by (auto simp only: and_then_Inr or_throw_Inr if_False simp_thms Inr_inject)
next
  case False
  with assms ignored show thesis by (simp add: handleCollBalanceUpdated_def)
qed

lemma handleCollBalanceUpdated_frame:
  assumes "handleCollBalanceUpdated h ctx e s = Inr s'"
  shows "st_troves s' = st_troves s \<and> st_brackets s' = st_brackets s \<and> st_batches s' = st_batches s \<and>
    st_powers s' = st_powers s \<and> st_sources s' = st_sources s"
    and "surplusOnly s s'"
proof -
  show "st_troves s' = st_troves s \<and> st_brackets s' = st_brackets s \<and> st_batches s' = st_batches s \<and>
    st_powers s' = st_powers s \<and> st_sources s' = st_sources s"
    using assms by (cases rule: handleCollBalanceUpdatedE) (simp_all add: save_borrower_def)
  show "surplusOnly s s'"
    using assms
  proof (cases rule: handleCollBalanceUpdatedE)
    case (claim info i balances claims)
    show ?thesis unfolding claim(6)
      by (rule surplusOnly_save [OF claim(2)]) (simp_all add: sameCounts_def)
  qed (simp add: surplusOnly_def)
qed

lemma getCollSurplusFrom_borrowers:
  assumes "getCollSurplusFrom h ctx li receipt s = Inr (change, logs, s')"
  shows "surplusOnly s s'"
  using assms
proof (cases rule: getCollSurplusFromE)
  case (log logs' i s1 account)
  obtain info and j :: i32 where info: "st_borrowers s1 (bytes_hex h account) = Some info"
    and s': "s' = save_borrower (bytes_hex h account) (info\<lparr>bo_collSurplusBalance :=
        (bo_collSurplusBalance info)[unat j := word_at (lg_data (logs' ! i)) 0]\<rparr>) s1"
    using getCollSurplusBalanceChange_Inr [OF log(6)] by blast
  have b: "st_borrowers s1 = st_borrowers s" using setCollSurplusPool_frame [OF log(3)] by simp
  show ?thesis unfolding s'
    by (rule surplusOnly_save [of _ _ info]) (use info b in \<open>simp_all add: sameCounts_def\<close>)
qed (simp add: surplusOnly_def)

lemma surplusOnly_tally:
  assumes "surplusOnly s s'" and "finite (dom (st_borrowers s))"
    and "\<And>x y. sameCounts y x \<Longrightarrow> f y = f x"
  shows "tally f (st_borrowers s') = tally f (st_borrowers s)" and "finite (dom (st_borrowers s'))"
  using assms by (auto simp: surplusOnly_def tally_upd)

end
