(* ===== verification/Subgraph_Brackets.thy ===== *)
theory Subgraph_Brackets
  imports Subgraph_Store
begin

text \<open>
  The interest-rate brackets of subgraph/src/TroveManager.mapping.ts: a bracket holds the
  debt of all positions (troves outside batches, and batches) whose annual rate, floored
  to three decimals, is the bracket's. \<open>updateRateBracketDebt\<close> moves one position from its
  old rate and debt to its new ones. The lemmas say what that does to the three sums a
  bracket keeps, whatever the order of old and new bracket.
\<close>

section \<open>Operations\<close>

definition floorToDecimals :: "int \<Rightarrow> 8 word \<Rightarrow> int" where
  "floorToDecimals value decimals =
     (let factor = 10 ^ unat (18 - decimals) in tdiv value factor * factor)"

definition getRateFloored :: "int \<Rightarrow> int" where
  "getRateFloored rate = floorToDecimals rate 3"

definition rateBracketId :: "string \<Rightarrow> int \<Rightarrow> string" where
  "rateBracketId collId rate = collId @ '':'' @ dec_of_int (getRateFloored rate)"

text \<open>
  The bracket object the function holds but has not saved yet, with its id, is
  \<open>(id, entity)\<close>; \<open>None\<close> is the initial \<open>null\<close>.
\<close>

type_synonym held_bracket = "(string \<times> bracket) option"

definition saveHeld :: "held_bracket \<Rightarrow> store \<Rightarrow> store" where
  "saveHeld cur s = (case cur of None \<Rightarrow> s | Some (k, b) \<Rightarrow> save_bracket k b s)"

definition debitBracket :: "int \<Rightarrow> int \<Rightarrow> int \<Rightarrow> int \<Rightarrow> bracket \<Rightarrow> bracket" where
  "debitBracket prevRate prevDebt prevTime newTime b = b\<lparr>
     bk_totalDebt := bk_totalDebt b - prevDebt,
     bk_pendingDebtTimesOneYearD36 := bk_pendingDebtTimesOneYearD36 b
       + (newTime - bk_updatedAt b) * bk_sumDebtTimesRateD36 b
       - (newTime - prevTime) * prevDebt * prevRate,
     bk_sumDebtTimesRateD36 := bk_sumDebtTimesRateD36 b - prevDebt * prevRate,
     bk_updatedAt := newTime\<rparr>"

definition creditBracket :: "int \<Rightarrow> int \<Rightarrow> int \<Rightarrow> bracket \<Rightarrow> bracket" where
  "creditBracket newRate newDebt newTime b = b\<lparr>
     bk_totalDebt := bk_totalDebt b + newDebt,
     bk_pendingDebtTimesOneYearD36 := bk_pendingDebtTimesOneYearD36 b
       + (newTime - bk_updatedAt b) * bk_sumDebtTimesRateD36 b,
     bk_sumDebtTimesRateD36 := bk_sumDebtTimesRateD36 b + newDebt * newRate,
     bk_updatedAt := newTime\<rparr>"

definition removeFromPrevBracket ::
    "string \<Rightarrow> int \<Rightarrow> int \<Rightarrow> int \<Rightarrow> int \<Rightarrow> store \<Rightarrow> held_bracket outcome" where
  "removeFromPrevBracket collId prevRate prevDebt prevTime newTime s =
     (if prevRate = 0 then Inr None
      else let k = rateBracketId collId prevRate in
        and_then (or_throw (st_brackets s k) (''InterestRateBracket not found: '' @ k)) (\<lambda>b.
        Inr (Some (k, debitBracket prevRate prevDebt prevTime newTime b))))"

definition newBracket :: "string \<Rightarrow> int \<Rightarrow> int \<Rightarrow> bracket" where
  "newBracket collId rate newTime =
     \<lparr>bk_collateral = collId, bk_rate = getRateFloored rate, bk_totalDebt = 0,
      bk_sumDebtTimesRateD36 = 0, bk_pendingDebtTimesOneYearD36 = 0, bk_updatedAt = newTime\<rparr>"

definition loadOrNewBracket :: "string \<Rightarrow> int \<Rightarrow> int \<Rightarrow> store \<Rightarrow> bracket" where
  "loadOrNewBracket collId rate newTime s =
     (case st_brackets s (rateBracketId collId rate) of
        Some b \<Rightarrow> b | None \<Rightarrow> newBracket collId rate newTime)"

definition addToNewBracket ::
    "string \<Rightarrow> int \<Rightarrow> int \<Rightarrow> int \<Rightarrow> held_bracket \<Rightarrow> store \<Rightarrow> held_bracket \<times> store" where
  "addToNewBracket collId newRate newDebt newTime cur s =
     (if newRate = 0 then (cur, s)
      else let k = rateBracketId collId newRate;
               (s1, b) = (case cur of
                   Some (j, held) \<Rightarrow>
                     if j = k then (s, held)
                     else let s' = saveHeld cur s in (s', loadOrNewBracket collId newRate newTime s')
                 | None \<Rightarrow> (s, loadOrNewBracket collId newRate newTime s))
           in (Some (k, creditBracket newRate newDebt newTime b), s1))"

definition updateRateBracketDebt ::
    "string \<Rightarrow> int \<Rightarrow> int \<Rightarrow> int \<Rightarrow> int \<Rightarrow> int \<Rightarrow> int \<Rightarrow> store \<Rightarrow> store outcome" where
  "updateRateBracketDebt collId prevRate newRate prevDebt newDebt prevTime newTime s =
     and_then (removeFromPrevBracket collId prevRate prevDebt prevTime newTime s) (\<lambda>cur.
     let (cur', s') = addToNewBracket collId newRate newDebt newTime cur s
     in Inr (saveHeld cur' s'))"

section \<open>Rates\<close>

lemma getRateFloored_eq: "getRateFloored rate = tdiv rate (10 ^ 15) * 10 ^ 15"
proof -
  have "unat (18 - 3 :: 8 word) = 15" by simp
  then show ?thesis by (simp add: getRateFloored_def floorToDecimals_def)
qed

text \<open>The floored rate of a non-negative rate is the largest multiple below it.\<close>

lemma getRateFloored_bounds:
  assumes "0 \<le> rate"
  shows "getRateFloored rate \<le> rate \<and> rate < getRateFloored rate + 10 ^ 15 \<and> 10 ^ 15 dvd getRateFloored rate"
proof -
  have "getRateFloored rate = rate div 10 ^ 15 * 10 ^ 15"
    using assms by (simp add: getRateFloored_eq)
  moreover have "rate = rate div 10 ^ 15 * 10 ^ 15 + rate mod 10 ^ 15" by simp
  moreover have "0 \<le> rate mod 10 ^ 15" "rate mod 10 ^ 15 < 10 ^ 15" by simp_all
  moreover have "10 ^ 15 dvd getRateFloored rate" by (simp add: getRateFloored_eq)
  ultimately show ?thesis by linarith
qed

lemma getRateFloored_idem: "getRateFloored (getRateFloored rate) = getRateFloored rate"
  by (simp add: getRateFloored_eq tdiv_self_mult)

lemma rateBracketId_inject:
  assumes "CHR '':'' \<notin> set c" and "CHR '':'' \<notin> set c'"
  shows "rateBracketId c r = rateBracketId c' r' \<longleftrightarrow> c = c' \<and> getRateFloored r = getRateFloored r'"
proof
  assume eq: "rateBracketId c r = rateBracketId c' r'"
  then have "takeWhile (\<lambda>x. x \<noteq> CHR '':'') (rateBracketId c r) = takeWhile (\<lambda>x. x \<noteq> CHR '':'') (rateBracketId c' r')"
    by simp
  moreover have "takeWhile (\<lambda>x. x \<noteq> CHR '':'') (rateBracketId d q) = d" if "CHR '':'' \<notin> set d" for d q
    using that unfolding rateBracketId_def
    by (subst takeWhile_append2) auto
  ultimately have "c = c'" using assms by simp
  with eq show "c = c' \<and> getRateFloored r = getRateFloored r'" by (simp add: rateBracketId_def)
qed (simp add: rateBracketId_def)

section \<open>Positions and what a bracket books for them\<close>

text \<open>
  A position pays \<open>debt * rate\<close> per year since \<open>since\<close>; rate 0 means it is booked nowhere.
  The three sums a bracket keeps are, over its positions, the debt, the debt times the
  rate, and the debt times the rate times the time of the last update: the last one is
  what \<open>pendingDebtTimesOneYearD36\<close> and \<open>updatedAt\<close> encode together.
\<close>

record position =
  po_rate :: int
  po_debt :: int
  po_since :: int

datatype measure_kind = By_debt | By_yearly | By_since

fun weight :: "measure_kind \<Rightarrow> position \<Rightarrow> int" where
  "weight By_debt p = (if po_rate p = 0 then 0 else po_debt p)"
| "weight By_yearly p = po_debt p * po_rate p"
| "weight By_since p = po_debt p * po_rate p * po_since p"

fun books :: "measure_kind \<Rightarrow> bracket \<Rightarrow> int" where
  "books By_debt b = bk_totalDebt b"
| "books By_yearly b = bk_sumDebtTimesRateD36 b"
| "books By_since b = bk_sumDebtTimesRateD36 b * bk_updatedAt b - bk_pendingDebtTimesOneYearD36 b"

definition booked :: "measure_kind \<Rightarrow> store \<Rightarrow> string \<Rightarrow> int" where
  "booked w s k = entry_share (books w) (st_brackets s k)"

lemma weight_rate_0: "po_rate p = 0 \<Longrightarrow> weight w p = 0"
  by (cases w) simp_all

definition positionAt :: "int \<Rightarrow> int \<Rightarrow> int \<Rightarrow> position" where
  "positionAt rate debt since = \<lparr>po_rate = rate, po_debt = debt, po_since = since\<rparr>"

lemma positionAt_sel [simp]:
  "po_rate (positionAt r d t) = r" "po_debt (positionAt r d t) = d" "po_since (positionAt r d t) = t"
  by (simp_all add: positionAt_def)

lemma positionAt_inject [simp]: "positionAt r d t = positionAt r' d' t' \<longleftrightarrow> r = r' \<and> d = d' \<and> t = t'"
  by (auto simp: positionAt_def)

text \<open>What leaving the old bracket and entering the new one do to a bracket's sums.\<close>

lemma debitBracket_books:
  "r \<noteq> 0 \<Longrightarrow> books w (debitBracket r d t now b) = books w b - weight w (positionAt r d t)"
  by (cases w) (simp_all add: debitBracket_def algebra_simps)

lemma creditBracket_books:
  "r \<noteq> 0 \<Longrightarrow> books w (creditBracket r d now b) = books w b + weight w (positionAt r d now)"
  by (cases w) (simp_all add: creditBracket_def algebra_simps)

lemma removeFromPrevBracket_books:
  assumes "removeFromPrevBracket c r d t now s = Inr cur"
  shows "case cur of
      None \<Rightarrow> r = 0
    | Some (k, b) \<Rightarrow> r \<noteq> 0 \<and> k = rateBracketId c r \<and> st_brackets s k \<noteq> None \<and>
        (\<forall>w. books w b = booked w s k - weight w (positionAt r d t))"
proof (cases "r = 0")
  case True
  with assms show ?thesis by (simp add: removeFromPrevBracket_def)
next
  case False
  with assms obtain b where "st_brackets s (rateBracketId c r) = Some b"
      and "cur = Some (rateBracketId c r, debitBracket r d t now b)"
    unfolding removeFromPrevBracket_def Let_def by (auto simp only: outcome_Inr if_False sum.inject)
  with False show ?thesis by (simp add: booked_def debitBracket_books)
qed

lemma loadOrNewBracket_books:
  "books w (loadOrNewBracket c r t s) = booked w s (rateBracketId c r)"
  by (cases w) (auto simp: loadOrNewBracket_def booked_def newBracket_def split: option.splits)

lemma booked_save_bracket:
  "booked w (save_bracket k b s) j = (if j = k then books w b else booked w s j)"
  by (simp add: booked_def)

lemma addToNewBracket_books:
  assumes "addToNewBracket c r d now cur s = (cur', s')"
  shows "booked w (saveHeld cur' s') j = booked w (saveHeld cur s) j
           + (if r \<noteq> 0 \<and> j = rateBracketId c r then weight w (positionAt r d now) else 0)"
proof (cases "r = 0")
  case True
  with assms show ?thesis by (auto simp: addToNewBracket_def)
next
  case False
  show ?thesis
    using assms False
    by (auto simp: addToNewBracket_def Let_def saveHeld_def booked_save_bracket creditBracket_books
        loadOrNewBracket_books split: option.splits if_splits)
qed

lemma updateRateBracketDebtE:
  assumes "updateRateBracketDebt c r r' d d' t now s = Inr s'"
  obtains cur cur' s1 where "removeFromPrevBracket c r d t now s = Inr cur"
    and "addToNewBracket c r' d' now cur s = (cur', s1)" and "s' = saveHeld cur' s1"
proof -
  from assms obtain cur where rem: "removeFromPrevBracket c r d t now s = Inr cur"
      and rest: "(let (cur', s1) = addToNewBracket c r' d' now cur s in Inr (saveHeld cur' s1)) = (Inr s' :: store outcome)"
    unfolding updateRateBracketDebt_def and_then_Inr by (elim exE conjE) (rule that)
  obtain cur' s1 where "addToNewBracket c r' d' now cur s = (cur', s1)"
    by (cases "addToNewBracket c r' d' now cur s")
  with rem rest that show thesis by simp
qed

text \<open>
  The whole update: of every bracket and every sum, exactly the old position's share is
  taken off the old bracket and the new position's share put on the new one.
\<close>

lemma updateRateBracketDebt_booked:
  assumes "updateRateBracketDebt c r r' d d' t now s = Inr s'"
  shows "booked w s' j = booked w s j
           - (if r \<noteq> 0 \<and> j = rateBracketId c r then weight w (positionAt r d t) else 0)
           + (if r' \<noteq> 0 \<and> j = rateBracketId c r' then weight w (positionAt r' d' now) else 0)"
proof -
  obtain cur cur' s1 where
      rem: "removeFromPrevBracket c r d t now s = Inr cur"
      and add: "addToNewBracket c r' d' now cur s = (cur', s1)"
      and s': "s' = saveHeld cur' s1"
    using assms by (rule updateRateBracketDebtE)
  have "booked w (saveHeld cur s) j = booked w s j
          - (if r \<noteq> 0 \<and> j = rateBracketId c r then weight w (positionAt r d t) else 0)"
    using removeFromPrevBracket_books [OF rem]
    by (auto simp: saveHeld_def booked_save_bracket split: option.splits)
  with addToNewBracket_books [OF add] s' show ?thesis by simp
qed

text \<open>Which brackets exist afterwards, and that nothing else of the store changes.\<close>

lemma saveHeld_frame [simp]:
  "st_troves (saveHeld cur s) = st_troves s"
  "st_batches (saveHeld cur s) = st_batches s"
  "st_borrowers (saveHeld cur s) = st_borrowers s"
  "st_powers (saveHeld cur s) = st_powers s"
  "st_addresses (saveHeld cur s) = st_addresses s"
  by (auto simp: saveHeld_def split: option.splits)

lemma updateRateBracketDebt_frame:
  assumes "updateRateBracketDebt c r r' d d' t now s = Inr s'"
  shows "st_troves s' = st_troves s \<and> st_batches s' = st_batches s \<and> st_borrowers s' = st_borrowers s \<and>
    st_powers s' = st_powers s \<and> st_addresses s' = st_addresses s"
  using assms
  by (auto simp: updateRateBracketDebt_def addToNewBracket_def outcome_Inr Let_def
      split: prod.splits if_splits option.splits)

lemma addToNewBracket_dom:
  assumes "addToNewBracket c r d now cur s = (cur', s')"
  shows "dom (st_brackets (saveHeld cur' s')) =
    dom (st_brackets (saveHeld cur s)) \<union> (if r = 0 then {} else {rateBracketId c r})"
  using assms
  by (auto simp: addToNewBracket_def Let_def saveHeld_def split: option.splits if_splits)

lemma removeFromPrevBracket_dom:
  assumes "removeFromPrevBracket c r d t now s = Inr cur"
  shows "dom (st_brackets (saveHeld cur s)) = dom (st_brackets s)"
  using removeFromPrevBracket_books [OF assms]
  by (auto simp: saveHeld_def split: option.splits)

lemma updateRateBracketDebt_dom:
  assumes "updateRateBracketDebt c r r' d d' t now s = Inr s'"
  shows "dom (st_brackets s') = dom (st_brackets s) \<union> (if r' = 0 then {} else {rateBracketId c r'})"
  using assms
  by (rule updateRateBracketDebtE) (simp add: addToNewBracket_dom removeFromPrevBracket_dom)

text \<open>It throws exactly when the old bracket is missing.\<close>

lemma updateRateBracketDebt_returns:
  "returns (updateRateBracketDebt c r r' d d' t now s) \<longleftrightarrow>
     r = 0 \<or> st_brackets s (rateBracketId c r) \<noteq> None"
  by (cases "st_brackets s (rateBracketId c r)")
    (auto simp: updateRateBracketDebt_def removeFromPrevBracket_def Let_def split: prod.splits)

text \<open>
  Holding on to the old bracket's object when old and new bracket are the same, and
  saving it and loading it again, give the same store.
\<close>

definition addToNewBracketReloading ::
    "string \<Rightarrow> int \<Rightarrow> int \<Rightarrow> int \<Rightarrow> held_bracket \<Rightarrow> store \<Rightarrow> held_bracket \<times> store" where
  "addToNewBracketReloading c r d now cur s = addToNewBracket c r d now None (saveHeld cur s)"

lemma addToNewBracket_reloading:
  assumes "addToNewBracket c r d now cur s = (cur1, s1)"
    and "addToNewBracketReloading c r d now cur s = (cur2, s2)"
  shows "saveHeld cur1 s1 = saveHeld cur2 s2"
  using assms
  by (auto simp: addToNewBracket_def addToNewBracketReloading_def saveHeld_def Let_def
      loadOrNewBracket_def bracket_table.save_twice split: option.splits if_splits)

end
