(* ===== verification/Subgraph_Trove.thy ===== *)
theory Subgraph_Trove
  imports Subgraph_Brackets Subgraph_Surplus
begin

text \<open>
  The handlers of subgraph/src/TroveManager.mapping.ts. A handler that throws is \<open>Inl\<close> of
  the message, and the store of the failed handler is discarded.
\<close>

section \<open>Operation codes\<close>

definition OP_OPEN_TROVE :: i32 where "OP_OPEN_TROVE = 0"
definition OP_CLOSE_TROVE :: i32 where "OP_CLOSE_TROVE = 1"
definition OP_ADJUST_TROVE :: i32 where "OP_ADJUST_TROVE = 2"
definition OP_APPLY_PENDING_DEBT :: i32 where "OP_APPLY_PENDING_DEBT = 4"
definition OP_LIQUIDATE :: i32 where "OP_LIQUIDATE = 5"
definition OP_REDEEM_COLLATERAL :: i32 where "OP_REDEEM_COLLATERAL = 6"
definition OP_OPEN_TROVE_AND_JOIN_BATCH :: i32 where "OP_OPEN_TROVE_AND_JOIN_BATCH = 7"

lemmas op_codes = OP_OPEN_TROVE_def OP_CLOSE_TROVE_def OP_ADJUST_TROVE_def OP_APPLY_PENDING_DEBT_def
  OP_LIQUIDATE_def OP_REDEEM_COLLATERAL_def OP_OPEN_TROVE_AND_JOIN_BATCH_def

section \<open>Reading other logs of the transaction\<close>

fun findLog :: "(log \<Rightarrow> bool) \<Rightarrow> log list \<Rightarrow> nat option" where
  "findLog P [] = None"
| "findLog P (l # ls) = (if P l then Some 0 else map_option Suc (findLog P ls))"

lemma findLog_Some: "findLog P ls = Some i \<Longrightarrow> i < length ls \<and> P (ls ! i) \<and> (\<forall>j < i. \<not> P (ls ! j))"
  by (induction ls arbitrary: i) (auto simp: less_Suc_eq_0_disj split: if_splits)

lemma findLog_None: "findLog P ls = None \<longleftrightarrow> (\<forall>l \<in> set ls. \<not> P l)"
  by (induction ls) auto

definition getBatchUpdatedEventFrom :: "batched_trove_updated \<Rightarrow> batch_updated outcome" where
  "getBatchUpdatedEventFrom e =
     and_then (or_throw (ev_receipt e) ''Missing TX receipt'') (\<lambda>logs.
     and_then (or_throw (findLog (\<lambda>l. lg_logIndex l = ev_logIndex e + 2) logs) ''Missing BatchUpdated log'') (\<lambda>i.
     let l = logs ! i in
     and_then (demand (1 < length (lg_topics l)) ''index out of range'' (Inr (lg_topics l ! 1))) (\<lambda>topic.
     and_then (decodeAddress topic 0) (\<lambda>manager.
     and_then (decodeUint8 (lg_data l) 0) (\<lambda>operation.
     let (debt, d1) = decodeUint256 (lg_data l) 1;
         (coll, d2) = decodeUint256 d1 2;
         (rate, d3) = decodeUint256 d2 3;
         (fee, d4) = decodeUint256 d3 4;
         (shares, d5) = decodeUint256 d4 5;
         (upfront, d6) = decodeUint256 d5 6
     in Inr \<lparr>ev_timestamp = ev_timestamp e, ev_logIndex = lg_logIndex l,
             ev_receipt = Some (logs[i := l\<lparr>lg_data := d6\<rparr>]),
             bu_interestBatchManager = manager, bu_operation = operation, bu_debt = debt, bu_coll = coll,
             bu_annualInterestRate = rate, bu_annualManagementFee = fee, bu_totalDebtShares = shares,
             bu_debtIncreaseFromUpfrontFee = upfront\<rparr>)))))"

definition getPriceAtLiquidationFrom :: "int \<Rightarrow> log list option \<Rightarrow> int outcome" where
  "getPriceAtLiquidationFrom logIndex receipt =
     and_then (or_throw receipt ''Missing TX receipt'') (\<lambda>logs.
     and_then (or_throw (findLog (\<lambda>l. logIndex < lg_logIndex l \<and> has_topic0 LIQUIDATION_TOPIC l) logs)
                 ''Missing Liquidation log'') (\<lambda>i.
     Inr (fst (decodeUint256 (lg_data (logs ! i)) 9))))"

definition inferLeverage :: "log list option \<Rightarrow> bool outcome" where
  "inferLeverage receipt =
     and_then (or_throw receipt ''Missing TX receipt'') (\<lambda>logs.
     Inr (list_ex (has_topic0 FLASH_LOAN_TOPIC) logs))"

section \<open>Handlers\<close>

definition troveFullId :: "host \<Rightarrow> string \<Rightarrow> int \<Rightarrow> string" where
  "troveFullId h collId troveId = collId @ '':'' @ big_hex h troveId"

definition loadTrove :: "host \<Rightarrow> string \<Rightarrow> int \<Rightarrow> store \<Rightarrow> trove outcome" where
  "loadTrove h collId troveId s =
     or_throw (st_troves s (troveFullId h collId troveId)) (''Trove not found: '' @ troveFullId h collId troveId)"

definition handleTroveUpdated :: "host \<Rightarrow> ds_context \<Rightarrow> trove_updated \<Rightarrow> store \<Rightarrow> store outcome" where
  "handleTroveUpdated h ctx e s =
     and_then (ctx_getString ctx ''collId'') (\<lambda>collId.
     and_then (loadTrove h collId (tu_troveId e) s) (\<lambda>t.
     and_then (updateRateBracketDebt collId (tr_interestRate t) (tu_annualInterestRate e)
                 (tr_debt t) (tu_debt e) (tr_updatedAt t) (ev_timestamp e) s) (\<lambda>s1.
     Inr (save_trove (troveFullId h collId (tu_troveId e))
       (t\<lparr>tr_debt := tu_debt e, tr_deposit := tu_coll e, tr_stake := tu_stake e,
          tr_interestRate := tu_annualInterestRate e, tr_interestBatch := None,
          tr_updatedAt := ev_timestamp e\<rparr>) s1))))"

definition batchedDebt :: "batch_updated \<Rightarrow> int \<Rightarrow> int" where
  "batchedDebt b shares =
     (if bu_totalDebtShares b \<noteq> 0 then tdiv (bu_debt b * shares) (bu_totalDebtShares b) else 0)"

definition handleBatchedTroveUpdated ::
    "host \<Rightarrow> ds_context \<Rightarrow> batched_trove_updated \<Rightarrow> store \<Rightarrow> store outcome" where
  "handleBatchedTroveUpdated h ctx e s =
     and_then (getBatchUpdatedEventFrom e) (\<lambda>b.
     and_then (ctx_getString ctx ''collId'') (\<lambda>collId.
     and_then (loadTrove h collId (btu_troveId e) s) (\<lambda>t.
     and_then (updateRateBracketDebt collId (tr_interestRate t) 0 (tr_debt t) 0
                 (tr_updatedAt t) (ev_timestamp e) s) (\<lambda>s1.
     Inr (save_trove (troveFullId h collId (btu_troveId e))
       (t\<lparr>tr_debt := batchedDebt b (btu_batchDebtShares e), tr_deposit := btu_coll e,
          tr_stake := btu_stake e, tr_interestRate := 0,
          tr_interestBatch := Some (collId @ '':'' @ bytes_hex h (btu_interestBatchManager e)),
          tr_updatedAt := ev_timestamp e\<rparr>) s1)))))"

text \<open>\<open>handleTroveOperation\<close>, one definition per block of the function, in its order.\<close>

definition openingTrove :: "trove_operation \<Rightarrow> trove \<Rightarrow> trove outcome" where
  "openingTrove e t =
     (if to_operation e = OP_OPEN_TROVE \<or> to_operation e = OP_OPEN_TROVE_AND_JOIN_BATCH then
        and_then (inferLeverage (ev_receipt e)) (\<lambda>lev.
        Inr (t\<lparr>tr_createdAt := ev_timestamp e, tr_mightBeLeveraged := lev\<rparr>))
      else Inr t)"

definition closingTrove :: "trove_operation \<Rightarrow> trove \<Rightarrow> trove" where
  "closingTrove e t =
     (if to_operation e = OP_CLOSE_TROVE \<or> to_operation e = OP_LIQUIDATE
      then t\<lparr>tr_closedAt := Some (ev_timestamp e)\<rparr> else t)"

definition userAction :: "trove_operation \<Rightarrow> trove \<Rightarrow> trove" where
  "userAction e t =
     (if to_operation e \<noteq> OP_REDEEM_COLLATERAL \<and> to_operation e \<noteq> OP_LIQUIDATE
         \<and> to_operation e \<noteq> OP_APPLY_PENDING_DEBT
      then t\<lparr>tr_lastUserActionAt := ev_timestamp e, tr_redemptionCount := 0,
             tr_redeemedColl := 0, tr_redeemedDebt := 0,
             tr_status := (if to_operation e = OP_CLOSE_TROVE then St_closed else St_active)\<rparr>
      else t)"

definition redemption :: "trove_operation \<Rightarrow> trove \<Rightarrow> trove" where
  "redemption e t =
     (if to_operation e = OP_REDEEM_COLLATERAL
      then t\<lparr>tr_status := St_redeemed, tr_redemptionCount := tr_redemptionCount t + 1,
             tr_redeemedColl := tr_redeemedColl t - to_collChangeFromOperation e,
             tr_redeemedDebt := tr_redeemedDebt t - to_debtChangeFromOperation e\<rparr>
      else t)"

definition liquidation ::
    "host \<Rightarrow> ds_context \<Rightarrow> trove_operation \<Rightarrow> trove \<Rightarrow> store \<Rightarrow> (trove \<times> store) outcome" where
  "liquidation h ctx e t s =
     (if to_operation e = OP_LIQUIDATE then
        and_then (getCollSurplusFrom h ctx (ev_logIndex e) (ev_receipt e) s) (\<lambda>(surplus, logs, s1).
        and_then (getPriceAtLiquidationFrom (ev_logIndex e) (Some logs)) (\<lambda>price.
        Inr (t\<lparr>tr_status := St_liquidated,
               tr_liquidatedColl := Some (- to_collChangeFromOperation e),
               tr_liquidatedDebt := Some (- to_debtChangeFromOperation e),
               tr_collSurplus := Some surplus, tr_priceAtLiquidation := Some price\<rparr>, s1)))
      else Inr (t, s))"

definition handleTroveOperation :: "host \<Rightarrow> ds_context \<Rightarrow> trove_operation \<Rightarrow> store \<Rightarrow> store outcome" where
  "handleTroveOperation h ctx e s =
     and_then (ctx_getString ctx ''collId'') (\<lambda>collId.
     and_then (loadTrove h collId (to_troveId e) s) (\<lambda>t.
     and_then (openingTrove e t) (\<lambda>t1.
     and_then (liquidation h ctx e (redemption e (userAction e (closingTrove e t1))) s) (\<lambda>(t2, s1).
     Inr (save_trove (troveFullId h collId (to_troveId e)) t2 s1)))))"

definition newBatch :: "string \<Rightarrow> batch_updated \<Rightarrow> interest_batch" where
  "newBatch collId e =
     \<lparr>ib_collateral = collId, ib_batchManager = bu_interestBatchManager e, ib_debt = 0, ib_coll = 0,
      ib_annualInterestRate = 0, ib_annualManagementFee = 0, ib_updatedAt = ev_timestamp e\<rparr>"

definition batchId :: "host \<Rightarrow> string \<Rightarrow> bytes \<Rightarrow> string" where
  "batchId h collId manager = collId @ '':'' @ bytes_hex h manager"

definition handleBatchUpdated :: "host \<Rightarrow> ds_context \<Rightarrow> batch_updated \<Rightarrow> store \<Rightarrow> store outcome" where
  "handleBatchUpdated h ctx e s =
     and_then (ctx_getString ctx ''collId'') (\<lambda>collId.
     let k = batchId h collId (bu_interestBatchManager e);
         b = (case st_batches s k of None \<Rightarrow> newBatch collId e | Some b \<Rightarrow> b)
     in and_then (updateRateBracketDebt collId (ib_annualInterestRate b) (bu_annualInterestRate e)
                    (ib_debt b) (bu_debt e) (ib_updatedAt b) (ev_timestamp e) s) (\<lambda>s1.
        Inr (save_batch k
          (b\<lparr>ib_debt := bu_debt e, ib_coll := bu_coll e, ib_annualInterestRate := bu_annualInterestRate e,
             ib_annualManagementFee := bu_annualManagementFee e, ib_updatedAt := ev_timestamp e\<rparr>) s1)))"

lemma findLog_cong: "list_all2 (\<lambda>x y. P x \<longleftrightarrow> P y) xs ys \<Longrightarrow> findLog P xs = findLog P ys"
  by (induction xs ys rule: list_all2_induct) auto

section \<open>What a liquidation records\<close>

text \<open>
  The surplus: without a balance update four logs before, none; otherwise the new balance of that log less the borrower's
  old one, and the borrower's balance for the collateral is the new one. Nothing else changes.
\<close>

definition surplusFrom :: "host \<Rightarrow> ds_context \<Rightarrow> int \<Rightarrow> log list \<Rightarrow> store \<Rightarrow> int \<Rightarrow> store \<Rightarrow> bool" where
  "surplusFrom h ctx n logs s surplus s' \<longleftrightarrow>
     st_troves s' = st_troves s \<and> st_brackets s' = st_brackets s \<and> st_batches s' = st_batches s \<and>
     (findSurplusLog logs (n - 4) = None \<longrightarrow> surplus = 0 \<and> st_borrowers s' = st_borrowers s) \<and>
     (\<forall>j. findSurplusLog logs (n - 4) = Some j \<longrightarrow> (\<exists>account info index.
        decodeAddress (lg_topics (logs ! j) ! 1) 0 = Inr account \<and> st_borrowers s (bytes_hex h account) = Some info \<and>
        ctx_getI32 ctx ''collIndex'' = Inr index \<and>
        surplus = word_at (lg_data (logs ! j)) 0 - bo_collSurplusBalance info ! unat index \<and>
        st_borrowers s' = (st_borrowers s)(bytes_hex h account \<mapsto>
          info\<lparr>bo_collSurplusBalance := (bo_collSurplusBalance info)[unat index := word_at (lg_data (logs ! j)) 0]\<rparr>)))"

lemma getCollSurplusFrom_surplus:
  assumes "getCollSurplusFrom h ctx n (Some logs) s = Inr (surplus, logs', s')"
  shows "surplusFrom h ctx n logs s surplus s'"
  using assms
proof (cases rule: getCollSurplusFromE)
  case (no_log logs)
  then show ?thesis by (simp add: surplusFrom_def)
next
  case (log logs2 i s1 account)
  have same: "logs2 = logs" using log(1) by simp
  from getCollSurplusBalanceChange_Inr [OF log(6)] setCollSurplusPool_frame [OF log(3)] log(2,5) getCollSurplusFrom_frame [OF assms]
  show ?thesis unfolding surplusFrom_def same by auto
qed

lemma liquidation_run:
  assumes "liquidation h ctx e t s = Inr (t', s')" and "to_operation e = OP_LIQUIDATE"
  shows "\<exists>logs i surplus. ev_receipt e = Some logs \<and>
    findLog (\<lambda>l. ev_logIndex e < lg_logIndex l \<and> has_topic0 LIQUIDATION_TOPIC l) logs = Some i \<and>
    t' = t\<lparr>tr_status := St_liquidated, tr_liquidatedColl := Some (- to_collChangeFromOperation e),
      tr_liquidatedDebt := Some (- to_debtChangeFromOperation e), tr_collSurplus := Some surplus,
      tr_priceAtLiquidation := Some (word_at (lg_data (logs ! i)) 9)\<rparr> \<and>
    surplusFrom h ctx (ev_logIndex e) logs s surplus s'"
proof -
  from assms obtain surplus logs' price where
      get: "getCollSurplusFrom h ctx (ev_logIndex e) (ev_receipt e) s = Inr (surplus, logs', s')"
    and price: "getPriceAtLiquidationFrom (ev_logIndex e) (Some logs') = Inr price"
    and t': "t' = t\<lparr>tr_status := St_liquidated, tr_liquidatedColl := Some (- to_collChangeFromOperation e),
               tr_liquidatedDebt := Some (- to_debtChangeFromOperation e),
               tr_collSurplus := Some surplus, tr_priceAtLiquidation := Some price\<rparr>"
    by (auto simp: liquidation_def outcome_Inr)
  from getCollSurplusFrom_logs [OF get] obtain logs where r: "ev_receipt e = Some logs" "length logs' = length logs"
    and same: "\<And>j. j < length logs \<Longrightarrow> lg_logIndex (logs' ! j) = lg_logIndex (logs ! j) \<and>
       lg_topics (logs' ! j) = lg_topics (logs ! j) \<and>
       (has_topic0 COLL_BALANCE_UPDATED_TOPIC (logs ! j) \<or> logs' ! j = logs ! j)"
    by auto
  let ?P = "\<lambda>l. ev_logIndex e < lg_logIndex l \<and> has_topic0 LIQUIDATION_TOPIC l"
  from price obtain i where i: "findLog ?P logs' = Some i" and p: "price = word_at (lg_data (logs' ! i)) 9"
    by (auto simp: getPriceAtLiquidationFrom_def outcome_Inr decodeUint256_value)
  have "findLog ?P logs' = findLog ?P logs"
    using r(2) same by (intro findLog_cong) (auto simp: list_all2_conv_all_nth has_topic0_def)
  moreover have "logs' ! i = logs ! i"
    using findLog_Some [OF i] same [of i] r(2) topics_distinct by (auto simp: has_topic0_def split: list.splits)
  moreover have "surplusFrom h ctx (ev_logIndex e) logs s surplus s'"
    by (rule getCollSurplusFrom_surplus) (use get r(1) in simp)
  ultimately show ?thesis using r(1) i p t' by (intro exI [of _ logs] exI [of _ i] exI [of _ surplus]) simp
qed

end
