(* ===== verification/Subgraph_NFT.thy ===== *)
theory Subgraph_NFT
  imports Subgraph_Surplus Subgraph_Trove
begin

text \<open>
  subgraph/src/TroveNFT.mapping.ts: a transfer of a trove's token creates the trove when
  it is minted, sets its owner, and moves one trove from the previous owner's counts to
  the new owner's (the zero address included). Counts are \<open>i32\<close> and wrap.
\<close>

section \<open>Operations\<close>

definition newTrove :: "host \<Rightarrow> string \<Rightarrow> int \<Rightarrow> trove" where
  "newTrove h collId troveId =
     \<lparr>tr_borrower = zero_address, tr_collateral = collId, tr_closedAt = None, tr_createdAt = 0,
      tr_mightBeLeveraged = False, tr_status = St_active, tr_updatedAt = 0, tr_lastUserActionAt = 0,
      tr_debt = 0, tr_deposit = 0, tr_interestBatch = None, tr_interestRate = 0, tr_stake = 0,
      tr_troveId = big_hex h troveId, tr_previousOwner = zero_address, tr_redemptionCount = 0,
      tr_redeemedColl = 0, tr_redeemedDebt = 0, tr_liquidatedColl = None, tr_liquidatedDebt = None,
      tr_collSurplus = None, tr_priceAtLiquidation = None\<rparr>"

definition createTrove :: "host \<Rightarrow> ds_context \<Rightarrow> int \<Rightarrow> store \<Rightarrow> trove outcome" where
  "createTrove h ctx troveId s =
     and_then (ctx_getString ctx ''collId'') (\<lambda>collId.
     let k = troveFullId h collId troveId in
     demand (st_troves s k = None) (''Trove already exists: '' @ k) (Inr (newTrove h collId troveId)))"

definition newBorrower :: "nat \<Rightarrow> borrower_info" where
  "newBorrower n =
     \<lparr>bo_nextOwnerIndexes = replicate n 0, bo_troves = 0, bo_trovesByCollateral = replicate n 0,
      bo_collSurplusBalance = replicate n 0, bo_lastCollSurplusClaimAt = replicate n 0\<rparr>"

definition loadOrNewBorrower :: "i32 \<Rightarrow> string \<Rightarrow> store \<Rightarrow> borrower_info outcome" where
  "loadOrNewBorrower count k s =
     (case st_borrowers s k of
        Some info \<Rightarrow> Inr info
      | None \<Rightarrow> demand (0 \<le> sint count) ''invalid length'' (Inr (newBorrower (unat count))))"

definition updateBorrowerTrovesCount ::
    "host \<Rightarrow> ds_context \<Rightarrow> i32 \<Rightarrow> bytes \<Rightarrow> i32 \<Rightarrow> store \<Rightarrow> store outcome" where
  "updateBorrowerTrovesCount h ctx delta borrower collIndex s =
     (let k = bytes_hex h borrower in
     and_then (ctx_getI32 ctx ''totalCollaterals'') (\<lambda>count.
     and_then (loadOrNewBorrower count k s) (\<lambda>info.
     and_then (array_at (bo_trovesByCollateral info) collIndex) (\<lambda>old.
     and_then (array_put (bo_trovesByCollateral info) collIndex (old + delta)) (\<lambda>byCollateral.
     let info1 = info\<lparr>bo_trovesByCollateral := byCollateral, bo_troves := bo_troves info + delta\<rparr> in
     if sint delta > 0 then
       and_then (array_at (bo_nextOwnerIndexes info1) collIndex) (\<lambda>next.
       and_then (array_put (bo_nextOwnerIndexes info1) collIndex (next + 1)) (\<lambda>indexes.
       Inr (save_borrower k (info1\<lparr>bo_nextOwnerIndexes := indexes\<rparr>) s)))
     else Inr (save_borrower k info1 s))))))"

definition handleTransfer :: "host \<Rightarrow> ds_context \<Rightarrow> nft_transfer \<Rightarrow> store \<Rightarrow> store outcome" where
  "handleTransfer h ctx e s =
     and_then (ctx_getI32 ctx ''collIndex'') (\<lambda>collIndex.
     and_then
       (if nt_from e = zero_address then createTrove h ctx (nt_tokenId e) s
        else and_then (ctx_getString ctx ''collId'') (\<lambda>collId.
          let k = troveFullId h collId (nt_tokenId e) in
          or_throw (st_troves s k) (''Trove does not exist: '' @ k))) (\<lambda>t.
     and_then (ctx_getString ctx ''collId'') (\<lambda>collId.
     let s1 = save_trove (troveFullId h collId (nt_tokenId e))
                (t\<lparr>tr_previousOwner := tr_borrower t, tr_borrower := nt_to e\<rparr>) s in
     and_then (updateBorrowerTrovesCount h ctx (-1) (nt_from e) collIndex s1) (\<lambda>s2.
     updateBorrowerTrovesCount h ctx 1 (nt_to e) collIndex s2))))"

section \<open>Lemmas\<close>

definition troveCount :: "i32 \<Rightarrow> borrower_info \<Rightarrow> i32" where
  "troveCount i info = (if unat i < length (bo_trovesByCollateral info) then bo_trovesByCollateral info ! unat i else 0)"

lemma newBorrower_count [simp]: "troveCount i (newBorrower n) = 0" "bo_troves (newBorrower n) = 0"
  by (simp_all add: troveCount_def newBorrower_def)

definition bumped :: "i32 \<Rightarrow> i32 \<Rightarrow> borrower_info \<Rightarrow> borrower_info" where
  "bumped delta i info =
     (let info1 = info\<lparr>bo_trovesByCollateral := (bo_trovesByCollateral info)[unat i := bo_trovesByCollateral info ! unat i + delta],
                       bo_troves := bo_troves info + delta\<rparr>
      in if sint delta > 0
         then info1\<lparr>bo_nextOwnerIndexes := (bo_nextOwnerIndexes info)[unat i := bo_nextOwnerIndexes info ! unat i + 1]\<rparr>
         else info1)"

lemma bumped_sel [simp]:
  "bo_trovesByCollateral (bumped delta i info) = (bo_trovesByCollateral info)[unat i := bo_trovesByCollateral info ! unat i + delta]"
  "bo_troves (bumped delta i info) = bo_troves info + delta"
  "bo_nextOwnerIndexes (bumped delta i info) = (if sint delta > 0
     then (bo_nextOwnerIndexes info)[unat i := bo_nextOwnerIndexes info ! unat i + 1] else bo_nextOwnerIndexes info)"
  "bo_collSurplusBalance (bumped delta i info) = bo_collSurplusBalance info"
  "bo_lastCollSurplusClaimAt (bumped delta i info) = bo_lastCollSurplusClaimAt info"
  by (simp_all add: bumped_def Let_def)

lemma updateBorrowerTrovesCountE:
  assumes "updateBorrowerTrovesCount h ctx delta b i s = Inr s'"
  obtains count info where "ctx_getI32 ctx ''totalCollaterals'' = Inr count"
    and "loadOrNewBorrower count (bytes_hex h b) s = Inr info"
    and "unat i < length (bo_trovesByCollateral info)"
    and "s' = save_borrower (bytes_hex h b) (bumped delta i info) s"
  using assms
  by (auto simp: updateBorrowerTrovesCount_def Let_def outcome_Inr array_at_Inr array_put_Inr bumped_def
      split: if_splits)

lemma loadOrNewBorrower_share:
  assumes "loadOrNewBorrower count k s = Inr info"
    and "\<And>n. f (newBorrower n) = 0"
  shows "entry_share f (st_borrowers s k) = f info"
  using assms by (auto simp: loadOrNewBorrower_def demand_Inr split: option.splits)

text \<open>
  One count update adds \<open>delta\<close> to the sum over all borrowers of the troves of that
  collateral, and of the troves of any collateral.
\<close>

lemma updateBorrowerTrovesCount_tally:
  assumes "updateBorrowerTrovesCount h ctx delta b i s = Inr s'" and "finite (dom (st_borrowers s))"
  shows "tally (troveCount j) (st_borrowers s') = tally (troveCount j) (st_borrowers s) + (if j = i then delta else 0)"
    and "tally bo_troves (st_borrowers s') = tally bo_troves (st_borrowers s) + delta"
    and "finite (dom (st_borrowers s'))"
proof -
  obtain count info where
    info: "loadOrNewBorrower count (bytes_hex h b) s = Inr info"
    and len: "unat i < length (bo_trovesByCollateral info)"
    and s': "s' = save_borrower (bytes_hex h b) (bumped delta i info) s"
    using assms(1) by (rule updateBorrowerTrovesCountE)
  have "entry_share (troveCount j) (st_borrowers s (bytes_hex h b)) = troveCount j info"
    using info by (rule loadOrNewBorrower_share) simp
  moreover have "troveCount j (bumped delta i info) = troveCount j info + (if j = i then delta else 0)"
    using len by (auto simp: troveCount_def nth_list_update word_unat_eq_iff)
  ultimately show "tally (troveCount j) (st_borrowers s') = tally (troveCount j) (st_borrowers s) + (if j = i then delta else 0)"
    using assms(2) s' by (simp add: tally_upd)
  have "entry_share bo_troves (st_borrowers s (bytes_hex h b)) = bo_troves info"
    using info by (rule loadOrNewBorrower_share) simp
  then show "tally bo_troves (st_borrowers s') = tally bo_troves (st_borrowers s) + delta"
    using assms(2) s' by (simp add: tally_upd)
  show "finite (dom (st_borrowers s'))" using assms(2) s' by (simp only: borrower_table.finite_save)
qed

lemma updateBorrowerTrovesCount_frame:
  assumes "updateBorrowerTrovesCount h ctx delta b i s = Inr s'"
  shows "st_troves s' = st_troves s" "st_brackets s' = st_brackets s" "st_batches s' = st_batches s"
    "st_powers s' = st_powers s"
  using assms by (auto elim!: updateBorrowerTrovesCountE)

lemma handleTransferE:
  assumes "handleTransfer h ctx e s = Inr s'"
  obtains i c t s1 s2 where "ctx_getI32 ctx ''collIndex'' = Inr i" and "ctx_getString ctx ''collId'' = Inr c"
    and "nt_from e = zero_address \<Longrightarrow> st_troves s (troveFullId h c (nt_tokenId e)) = None \<and> t = newTrove h c (nt_tokenId e)"
    and "nt_from e \<noteq> zero_address \<Longrightarrow> st_troves s (troveFullId h c (nt_tokenId e)) = Some t"
    and "s1 = save_trove (troveFullId h c (nt_tokenId e)) (t\<lparr>tr_previousOwner := tr_borrower t, tr_borrower := nt_to e\<rparr>) s"
    and "updateBorrowerTrovesCount h ctx (-1) (nt_from e) i s1 = Inr s2"
    and "updateBorrowerTrovesCount h ctx 1 (nt_to e) i s2 = Inr s'"
  using assms
  by (auto simp: handleTransfer_def createTrove_def Let_def outcome_Inr split: if_splits)

text \<open>A transfer leaves the total of every count unchanged.\<close>

lemma handleTransfer_tally:
  assumes "handleTransfer h ctx e s = Inr s'" and fin: "finite (dom (st_borrowers s))"
  shows "tally (troveCount j) (st_borrowers s') = tally (troveCount j) (st_borrowers s)"
    and "tally bo_troves (st_borrowers s') = tally bo_troves (st_borrowers s)"
    and "finite (dom (st_borrowers s'))"
proof -
  obtain i s1 s2 where
    d: "updateBorrowerTrovesCount h ctx (-1) (nt_from e) i s1 = Inr s2"
    and u: "updateBorrowerTrovesCount h ctx 1 (nt_to e) i s2 = Inr s'"
    and s1: "st_borrowers s1 = st_borrowers s"
    using assms(1) by (elim handleTransferE) (rule that, assumption, assumption, simp)
  note down = updateBorrowerTrovesCount_tally [OF d, unfolded s1, OF fin]
  note up = updateBorrowerTrovesCount_tally [OF u down(3)]
  show "tally (troveCount j) (st_borrowers s') = tally (troveCount j) (st_borrowers s)"
    using up(1) [of j] down(1) [of j] by simp
  show "tally bo_troves (st_borrowers s') = tally bo_troves (st_borrowers s)"
    using up(2) down(2) by simp
  show "finite (dom (st_borrowers s'))" by (rule up(3))
qed

end
