(* ===== verification/Subgraph_Registry.thy ===== *)
theory Subgraph_Registry
  imports Subgraph_Store
begin

text \<open>
  subgraph/src/BoldToken.mapping.ts: when the token names a collateral registry, one
  collateral entity, its addresses and two data sources are created for every branch.
  The contracts' view functions are the record \<open>contracts\<close>, an argument of the handler; a
  call that reverts is \<open>Inl\<close>.
\<close>

record contracts =
  reg_totalCollaterals :: "bytes \<Rightarrow> int outcome"
  reg_getToken :: "bytes \<Rightarrow> int \<Rightarrow> bytes outcome"
  reg_getTroveManager :: "bytes \<Rightarrow> int \<Rightarrow> bytes outcome"
  tm_borrowerOperations :: "bytes \<Rightarrow> bytes outcome"
  tm_sortedTroves :: "bytes \<Rightarrow> bytes outcome"
  tm_stabilityPool :: "bytes \<Rightarrow> bytes outcome"
  tm_troveNFT :: "bytes \<Rightarrow> bytes outcome"
  bo_MCR :: "bytes \<Rightarrow> int outcome"

definition collateralContext :: "coll_addresses \<Rightarrow> string \<Rightarrow> i32 \<Rightarrow> i32 \<Rightarrow> ds_context" where
  "collateralContext a collId collIndex totalCollaterals = Map.empty(
     ''address:borrowerOperations'' \<mapsto> Ctx_bytes (ca_borrowerOperations a),
     ''address:sortedTroves'' \<mapsto> Ctx_bytes (ca_sortedTroves a),
     ''address:stabilityPool'' \<mapsto> Ctx_bytes (ca_stabilityPool a),
     ''address:token'' \<mapsto> Ctx_bytes (ca_token a),
     ''address:troveManager'' \<mapsto> Ctx_bytes (ca_troveManager a),
     ''address:troveNft'' \<mapsto> Ctx_bytes (ca_troveNft a),
     ''collId'' \<mapsto> Ctx_string collId,
     ''collIndex'' \<mapsto> Ctx_i32 collIndex,
     ''totalCollaterals'' \<mapsto> Ctx_i32 totalCollaterals)"

definition collIdOf :: "i32 \<Rightarrow> string" where
  "collIdOf collIndex = dec_of_int (sint collIndex)"

definition newAddresses :: "string \<Rightarrow> bytes \<Rightarrow> bytes \<Rightarrow> bytes \<Rightarrow> bytes \<Rightarrow> bytes \<Rightarrow> bytes \<Rightarrow> coll_addresses" where
  "newAddresses collId borrowerOperations sortedTroves stabilityPool token troveManager troveNft =
     \<lparr>ca_collateral = collId, ca_borrowerOperations = borrowerOperations,
      ca_sortedTroves = sortedTroves, ca_stabilityPool = stabilityPool, ca_token = token,
      ca_troveManager = troveManager, ca_troveNft = troveNft, ca_collSurplusPool = None\<rparr>"

definition addCollateral :: "contracts \<Rightarrow> i32 \<Rightarrow> i32 \<Rightarrow> bytes \<Rightarrow> bytes \<Rightarrow> store \<Rightarrow> store outcome" where
  "addCollateral w collIndex totalCollaterals token troveManager s =
     (let collId = collIdOf collIndex in
     and_then (tm_borrowerOperations w troveManager) (\<lambda>borrowerOperations.
     and_then (tm_sortedTroves w troveManager) (\<lambda>sortedTroves.
     and_then (tm_stabilityPool w troveManager) (\<lambda>stabilityPool.
     and_then (tm_troveNFT w troveManager) (\<lambda>troveNft.
     and_then (bo_MCR w borrowerOperations) (\<lambda>mcr.
     let a = newAddresses collId borrowerOperations sortedTroves stabilityPool token troveManager troveNft;
         ctx = collateralContext a collId collIndex totalCollaterals
     in Inr (s\<lparr>
          st_collaterals := (st_collaterals s)(collId \<mapsto> \<lparr>co_collIndex = collIndex, co_minCollRatio = mcr\<rparr>),
          st_addresses := (st_addresses s)(collId \<mapsto> a),
          st_sources := st_sources s @ [(TroveManager_template, troveManager, ctx),
                                        (TroveNFT_template, troveNft, ctx)]\<rparr>)))))))"

fun addCollaterals :: "contracts \<Rightarrow> bytes \<Rightarrow> i32 \<Rightarrow> nat list \<Rightarrow> store \<Rightarrow> store outcome" where
  "addCollaterals w registry count [] s = Inr s"
| "addCollaterals w registry count (i # ixs) s =
     and_then (reg_getToken w registry (int i)) (\<lambda>token.
     and_then (reg_getTroveManager w registry (int i)) (\<lambda>troveManager.
     and_then (addCollateral w (of_nat i) count token troveManager s) (\<lambda>s'.
     addCollaterals w registry count ixs s')))"

text \<open>\<open>toI32\<close> traps on a number that is not an i32.\<close>

definition handleCollateralRegistryAddressChanged :: "contracts \<Rightarrow> bytes \<Rightarrow> store \<Rightarrow> store outcome" where
  "handleCollateralRegistryAddressChanged w registry s =
     and_then (reg_totalCollaterals w registry) (\<lambda>n.
     demand (- (2 ^ 31) \<le> n \<and> n < 2 ^ 31) ''overflow converting BigInt to i32''
      (let count = word_of_int n :: i32
       in addCollaterals w registry count [0..<nat (sint count)] s))"

section \<open>Lemmas\<close>

lemma addCollateralE:
  assumes "addCollateral w i count token tm s = Inr s'"
  obtains a mcr where
    "s' = s\<lparr>
       st_collaterals := (st_collaterals s)(collIdOf i \<mapsto> \<lparr>co_collIndex = i, co_minCollRatio = mcr\<rparr>),
       st_addresses := (st_addresses s)(collIdOf i \<mapsto> a),
       st_sources := st_sources s @ [(TroveManager_template, tm, collateralContext a (collIdOf i) i count),
                                     (TroveNFT_template, ca_troveNft a, collateralContext a (collIdOf i) i count)]\<rparr>"
    and "ca_collateral a = collIdOf i" and "ca_token a = token" and "ca_troveManager a = tm"
    and "ca_collSurplusPool a = None"
proof -
  from assms obtain bops sorted pool nft mcr where
    "s' = s\<lparr>
       st_collaterals := (st_collaterals s)(collIdOf i \<mapsto> \<lparr>co_collIndex = i, co_minCollRatio = mcr\<rparr>),
       st_addresses := (st_addresses s)(collIdOf i \<mapsto> newAddresses (collIdOf i) bops sorted pool token tm nft),
       st_sources := st_sources s @
         [(TroveManager_template, tm, collateralContext (newAddresses (collIdOf i) bops sorted pool token tm nft) (collIdOf i) i count),
          (TroveNFT_template, nft, collateralContext (newAddresses (collIdOf i) bops sorted pool token tm nft) (collIdOf i) i count)]\<rparr>"
    unfolding addCollateral_def Let_def and_then_Inr by auto
  then show thesis by (intro that [of "newAddresses (collIdOf i) bops sorted pool token tm nft" mcr]) (simp_all add: newAddresses_def)
qed

lemma addCollaterals_frame:
  "addCollaterals w r count ixs s = Inr s' \<Longrightarrow>
   st_troves s' = st_troves s \<and> st_brackets s' = st_brackets s \<and> st_batches s' = st_batches s \<and>
   st_borrowers s' = st_borrowers s \<and> st_powers s' = st_powers s"
  by (induction ixs arbitrary: s) (fastforce simp: outcome_Inr elim!: addCollateralE)+

text \<open>Every context a data source is created with names its collateral by a plain number.\<close>

lemma collateralContext_get [simp]:
  "ctx_getString (collateralContext a c i n) ''collId'' = Inr c"
  "ctx_getI32 (collateralContext a c i n) ''collIndex'' = Inr i"
  "ctx_getI32 (collateralContext a c i n) ''totalCollaterals'' = Inr n"
  by (simp_all add: collateralContext_def ctx_getString_def ctx_getI32_def)

definition registrySource :: "template \<times> bytes \<times> ds_context \<Rightarrow> bool" where
  "registrySource src = (case src of (tmpl, address, ctx) \<Rightarrow>
     tmpl = CollSurplusPool_template \<or> (\<exists>a i n. ctx = collateralContext a (collIdOf i) i n))"

lemma registrySource_context [simp]: "registrySource (tmpl, address, collateralContext a (collIdOf i) i n)"
  by (auto simp: registrySource_def)

lemma registrySource_pool [simp]: "registrySource (CollSurplusPool_template, address, ctx)"
  by (simp add: registrySource_def)

lemma addCollaterals_sources:
  "addCollaterals w r count ixs s = Inr s' \<Longrightarrow> \<forall>x \<in> set (st_sources s). registrySource x \<Longrightarrow>
   \<forall>x \<in> set (st_sources s'). registrySource x"
proof (induction ixs arbitrary: s)
  case Nil
  then show ?case by simp
next
  case (Cons i ixs)
  then obtain token tm s1 where add: "addCollateral w (of_nat i) count token tm s = Inr s1"
      and rest: "addCollaterals w r count ixs s1 = Inr s'"
    by (auto simp: outcome_Inr)
  from add Cons.prems(2) have "\<forall>x \<in> set (st_sources s1). registrySource x"
    by (elim addCollateralE) auto
  with rest show ?case by (rule Cons.IH)
qed

text \<open>A registry of \<open>n\<close> collaterals yields the entities \<open>0\<close> to \<open>n - 1\<close>, two data sources each.\<close>

lemma addCollaterals_dom:
  "addCollaterals w r count ixs s = Inr s' \<Longrightarrow>
   dom (st_collaterals s') = dom (st_collaterals s) \<union> (\<lambda>i. collIdOf (of_nat i)) ` set ixs \<and>
   length (st_sources s') = length (st_sources s) + 2 * length ixs"
proof (induction ixs arbitrary: s)
  case Nil
  then show ?case by simp
next
  case (Cons i ixs)
  then obtain token tm s1 where add: "addCollateral w (of_nat i) count token tm s = Inr s1"
      and rest: "addCollaterals w r count ixs s1 = Inr s'"
    by (auto simp: outcome_Inr)
  from add have "dom (st_collaterals s1) = insert (collIdOf (of_nat i)) (dom (st_collaterals s))"
      and "length (st_sources s1) = length (st_sources s) + 2"
    by (auto elim: addCollateralE)
  with Cons.IH [OF rest] show ?case by auto
qed

lemma collIdOf_no_colon [simp]: "CHR '':'' \<notin> set (collIdOf i)"
  by (simp add: collIdOf_def)

end
