(* ===== verification/Subgraph_Governance.thy ===== *)
theory Subgraph_Governance
  imports Subgraph_Store
begin

text \<open>
  subgraph/src/Governance.mapping.ts: voting power. A user's staked LQTY is split into an
  allocated and an unallocated part, each with an offset (the amount times the time it was
  deposited at); the entity with id \<open>total\<close> keeps the same four numbers for all users.
  Allocations are kept per user and initiative and per initiative, one entity per epoch,
  the latest one named by an index.
\<close>

section \<open>Operations\<close>

definition handleRegisterInitiative :: "host \<Rightarrow> bytes \<Rightarrow> store \<Rightarrow> store outcome" where
  "handleRegisterInitiative h initiative s =
     Inr (s\<lparr>st_initiatives := (st_initiatives s)(bytes_hex h initiative \<mapsto> True)\<rparr>)"

definition handleUnregisterInitiative :: "host \<Rightarrow> bytes \<Rightarrow> store \<Rightarrow> store outcome" where
  "handleUnregisterInitiative h initiative s =
     and_then (or_throw (st_initiatives s (bytes_hex h initiative))
                 ''UnregisterInitiative event for non-existing initiative'') (\<lambda>_.
     Inr (s\<lparr>st_initiatives := (st_initiatives s)(bytes_hex h initiative \<mapsto> False)\<rparr>))"

definition noPower :: voting_power where
  "noPower = \<lparr>vp_allocatedLQTY = 0, vp_allocatedOffset = 0, vp_unallocatedLQTY = 0, vp_unallocatedOffset = 0\<rparr>"

definition getVotingPower :: "string \<Rightarrow> store \<Rightarrow> voting_power" where
  "getVotingPower k s = (case st_powers s k of None \<Rightarrow> noPower | Some p \<Rightarrow> p)"

definition handleDepositLQTY :: "host \<Rightarrow> lqty_event \<Rightarrow> store \<Rightarrow> store outcome" where
  "handleDepositLQTY h e s =
     (let userId = bytes_hex h (lq_user e);
          user = getVotingPower userId s; tote = getVotingPower ''total'' s;
          offsetIncrease = lq_amount e * ev_timestamp e;
          user' = user\<lparr>vp_unallocatedLQTY := vp_unallocatedLQTY user + lq_amount e,
                       vp_unallocatedOffset := vp_unallocatedOffset user + offsetIncrease\<rparr>;
          tote' = tote\<lparr>vp_unallocatedLQTY := vp_unallocatedLQTY tote + lq_amount e,
                       vp_unallocatedOffset := vp_unallocatedOffset tote + offsetIncrease\<rparr>
      in Inr (save_power ''total'' tote' (save_power userId user' s)))"

definition handleWithdrawLQTY :: "host \<Rightarrow> lqty_event \<Rightarrow> store \<Rightarrow> store outcome" where
  "handleWithdrawLQTY h e s =
     (let userId = bytes_hex h (lq_user e);
          user = getVotingPower userId s; tote = getVotingPower ''total'' s;
          offsetDecrease = (if vp_unallocatedLQTY user \<noteq> 0
            then tdiv (vp_unallocatedOffset user * lq_amount e) (vp_unallocatedLQTY user) else 0);
          user' = user\<lparr>vp_unallocatedLQTY := vp_unallocatedLQTY user - lq_amount e,
                       vp_unallocatedOffset := vp_unallocatedOffset user - offsetDecrease\<rparr>;
          tote' = tote\<lparr>vp_unallocatedLQTY := vp_unallocatedLQTY tote - lq_amount e,
                       vp_unallocatedOffset := vp_unallocatedOffset tote - offsetDecrease\<rparr>
      in Inr (save_power ''total'' tote' (save_power userId user' s)))"

text \<open>
  \<open>getAllocation\<close>: the allocation of this epoch with its id, and the index entity with its
  id when the allocation is new.
\<close>

type_synonym allocation_and_index = "(string \<times> allocation) \<times> (string \<times> allocation_index) option"

definition allocationIndexId :: "string option \<Rightarrow> string \<Rightarrow> string" where
  "allocationIndexId userId initiativeId =
     (case userId of Some u \<Rightarrow> u @ '':'' @ initiativeId | None \<Rightarrow> initiativeId)"

definition carriedAllocation :: "string option \<Rightarrow> string \<Rightarrow> int \<Rightarrow> allocation option \<Rightarrow> allocation" where
  "carriedAllocation userId initiativeId epoch prev =
     \<lparr>al_user = userId, al_initiative = initiativeId, al_epoch = epoch,
      al_voteLQTY = (case prev of None \<Rightarrow> 0 | Some p \<Rightarrow> al_voteLQTY p),
      al_vetoLQTY = (case prev of None \<Rightarrow> 0 | Some p \<Rightarrow> al_vetoLQTY p),
      al_voteOffset = (case prev of None \<Rightarrow> 0 | Some p \<Rightarrow> al_voteOffset p),
      al_vetoOffset = (case prev of None \<Rightarrow> 0 | Some p \<Rightarrow> al_vetoOffset p)\<rparr>"

definition getAllocation :: "string option \<Rightarrow> string \<Rightarrow> int \<Rightarrow> store \<Rightarrow> allocation_and_index outcome" where
  "getAllocation userId initiativeId epoch s =
     (let indexId = allocationIndexId userId initiativeId;
          allocationId = indexId @ '':'' @ dec_of_int epoch
      in case st_allocations s allocationId of
           Some a \<Rightarrow> Inr ((allocationId, a), None)
         | None \<Rightarrow>
             (case st_allocIndex s indexId of
                None \<Rightarrow>
                  Inr ((allocationId, carriedAllocation userId initiativeId epoch None),
                       Some (indexId, \<lparr>ai_user = userId, ai_initiative = initiativeId,
                                       ai_latestAllocation = allocationId\<rparr>))
              | Some index \<Rightarrow>
                  and_then (or_throw (st_allocations s (ai_latestAllocation index))
                              (''GovernanceAllocation not found: '' @ ai_latestAllocation index)) (\<lambda>prev.
                  Inr ((allocationId, carriedAllocation userId initiativeId epoch (Some prev)),
                       Some (indexId, index\<lparr>ai_latestAllocation := allocationId\<rparr>)))))"

definition saveAllocation :: "allocation_and_index \<Rightarrow> store \<Rightarrow> store" where
  "saveAllocation x s = (case x of ((k, a), index) \<Rightarrow>
     let s1 = s\<lparr>st_allocations := (st_allocations s)(k \<mapsto> a)\<rparr>
     in case index of None \<Rightarrow> s1 | Some (j, i) \<Rightarrow> s1\<lparr>st_allocIndex := (st_allocIndex s1)(j \<mapsto> i)\<rparr>)"

text \<open>The offset that moves with a change of votes (or vetoes), in proportion.\<close>

definition deltaOffset :: "int \<Rightarrow> voting_power \<Rightarrow> int \<Rightarrow> int \<Rightarrow> int" where
  "deltaOffset delta vp lqty offset =
     (if delta > 0
      then (if vp_unallocatedLQTY vp \<noteq> 0
            then tdiv (vp_unallocatedOffset vp * delta) (vp_unallocatedLQTY vp) else 0)
      else (if lqty \<noteq> 0 then tdiv (offset * delta) lqty else 0))"

definition allocatePower :: "int \<Rightarrow> int \<Rightarrow> int \<Rightarrow> int \<Rightarrow> voting_power \<Rightarrow> voting_power" where
  "allocatePower dVote dVeto dVoteOffset dVetoOffset p =
     p\<lparr>vp_allocatedLQTY := vp_allocatedLQTY p + dVote + dVeto,
       vp_unallocatedLQTY := vp_unallocatedLQTY p - dVote - dVeto,
       vp_allocatedOffset := vp_allocatedOffset p + dVoteOffset + dVetoOffset,
       vp_unallocatedOffset := vp_unallocatedOffset p - dVoteOffset - dVetoOffset\<rparr>"

definition changeAllocation :: "int \<Rightarrow> int \<Rightarrow> int \<Rightarrow> int \<Rightarrow> allocation_and_index \<Rightarrow> allocation_and_index" where
  "changeAllocation dVote dVeto dVoteOffset dVetoOffset x = (case x of ((k, a), index) \<Rightarrow>
     ((k, a\<lparr>al_voteLQTY := al_voteLQTY a + dVote, al_vetoLQTY := al_vetoLQTY a + dVeto,
            al_voteOffset := al_voteOffset a + dVoteOffset,
            al_vetoOffset := al_vetoOffset a + dVetoOffset\<rparr>), index))"

definition handleAllocateLQTY :: "host \<Rightarrow> allocate_lqty \<Rightarrow> store \<Rightarrow> store outcome" where
  "handleAllocateLQTY h e s =
     (let userId = bytes_hex h (aq_user e);
          initiativeId = bytes_hex h (aq_initiative e);
          userPower = getVotingPower userId s;
          totePower = getVotingPower ''total'' s
      in and_then (getAllocation (Some userId) initiativeId (aq_atEpoch e) s) (\<lambda>user.
         and_then (getAllocation None initiativeId (aq_atEpoch e) s) (\<lambda>tote.
         let a = snd (fst user);
             dVote = aq_deltaVoteLQTY e; dVeto = aq_deltaVetoLQTY e;
             dVoteOffset = deltaOffset dVote userPower (al_voteLQTY a) (al_voteOffset a);
             dVetoOffset = deltaOffset dVeto userPower (al_vetoLQTY a) (al_vetoOffset a);
             s1 = save_power userId (allocatePower dVote dVeto dVoteOffset dVetoOffset userPower) s;
             s2 = save_power ''total'' (allocatePower dVote dVeto dVoteOffset dVetoOffset totePower) s1;
             s3 = saveAllocation (changeAllocation dVote dVeto dVoteOffset dVetoOffset user) s2
         in Inr (saveAllocation (changeAllocation dVote dVeto dVoteOffset dVetoOffset tote) s3))))"

section \<open>The total is the sum over users\<close>

text \<open>
  \<open>usersSum f s\<close> adds a field over every entity but \<open>total\<close>. The handlers change the
  user's entity and the total by the same amount, so the two stay equal.
\<close>

definition usersSum :: "(voting_power \<Rightarrow> int) \<Rightarrow> store \<Rightarrow> int" where
  "usersSum f s = tally f ((st_powers s)(''total'' := None))"

definition powersAgree :: "store \<Rightarrow> bool" where
  "powersAgree s \<longleftrightarrow> finite (dom (st_powers s)) \<and>
     (\<forall>f \<in> {vp_allocatedLQTY, vp_allocatedOffset, vp_unallocatedLQTY, vp_unallocatedOffset}.
        f (getVotingPower ''total'' s) = usersSum f s)"

definition powerFields :: "(voting_power \<Rightarrow> int) set" where
  "powerFields = {vp_allocatedLQTY, vp_allocatedOffset, vp_unallocatedLQTY, vp_unallocatedOffset}"

lemma entry_share_power:
  "f \<in> powerFields \<Longrightarrow> entry_share f (st_powers s k) = f (getVotingPower k s)"
  by (cases "st_powers s k") (auto simp: powerFields_def getVotingPower_def noPower_def)

lemma powersAgree_move:
  assumes agree: "powersAgree s" and k: "k \<noteq> ''total''"
    and pows: "st_powers s' = (st_powers s)(k \<mapsto> p, ''total'' \<mapsto> q)"
    and same: "\<And>f. f \<in> powerFields \<Longrightarrow>
      f p - f (getVotingPower k s) = f q - f (getVotingPower ''total'' s)"
  shows "powersAgree s'"
proof -
  have fin: "finite (dom (st_powers s))" using agree by (simp add: powersAgree_def)
  have "f (getVotingPower ''total'' s') = usersSum f s'" if f: "f \<in> powerFields" for f
  proof -
    let ?m = "(st_powers s)(''total'' := None)"
    have "(st_powers s')(''total'' := None) = ?m(k \<mapsto> p)"
      using k pows by auto
    moreover have "finite (dom ?m)" using fin by simp
    ultimately have "usersSum f s' = usersSum f s - entry_share f (st_powers s k) + f p"
      using k by (simp add: usersSum_def tally_upd)
    moreover have "usersSum f s = f (getVotingPower ''total'' s)"
      using agree f by (auto simp: powersAgree_def powerFields_def)
    moreover have "getVotingPower ''total'' s' = q"
      using pows by (simp add: getVotingPower_def)
    ultimately show ?thesis using same [OF f] by (simp add: entry_share_power [OF f])
  qed
  with fin pows show ?thesis by (auto simp: powersAgree_def powerFields_def)
qed

lemma saveAllocation_powers [simp]: "st_powers (saveAllocation x s) = st_powers s"
  by (auto simp: saveAllocation_def Let_def split: prod.splits option.splits)

lemma handleDepositLQTY_agree:
  assumes "handleDepositLQTY h e s = Inr s'" and "powersAgree s" and "bytes_hex h (lq_user e) \<noteq> ''total''"
  shows "powersAgree s'"
  using assms(2,3)
proof (rule powersAgree_move)
  show "st_powers s' = (st_powers s)(bytes_hex h (lq_user e) \<mapsto> (getVotingPower (bytes_hex h (lq_user e)) s)
      \<lparr>vp_unallocatedLQTY := vp_unallocatedLQTY (getVotingPower (bytes_hex h (lq_user e)) s) + lq_amount e,
       vp_unallocatedOffset := vp_unallocatedOffset (getVotingPower (bytes_hex h (lq_user e)) s) + lq_amount e * ev_timestamp e\<rparr>,
      ''total'' \<mapsto> (getVotingPower ''total'' s)
      \<lparr>vp_unallocatedLQTY := vp_unallocatedLQTY (getVotingPower ''total'' s) + lq_amount e,
       vp_unallocatedOffset := vp_unallocatedOffset (getVotingPower ''total'' s) + lq_amount e * ev_timestamp e\<rparr>)"
    using assms(1) by (auto simp: handleDepositLQTY_def Let_def)
qed (auto simp: powerFields_def)

lemma handleWithdrawLQTY_agree:
  assumes "handleWithdrawLQTY h e s = Inr s'" and "powersAgree s" and "bytes_hex h (lq_user e) \<noteq> ''total''"
  shows "powersAgree s'"
proof -
  let ?u = "getVotingPower (bytes_hex h (lq_user e)) s" and ?t = "getVotingPower ''total'' s"
  obtain d where "st_powers s' = (st_powers s)(bytes_hex h (lq_user e) \<mapsto> ?u
      \<lparr>vp_unallocatedLQTY := vp_unallocatedLQTY ?u - lq_amount e, vp_unallocatedOffset := vp_unallocatedOffset ?u - d\<rparr>,
      ''total'' \<mapsto> ?t
      \<lparr>vp_unallocatedLQTY := vp_unallocatedLQTY ?t - lq_amount e, vp_unallocatedOffset := vp_unallocatedOffset ?t - d\<rparr>)"
    using assms(1) by (auto simp: handleWithdrawLQTY_def Let_def)
  with assms(2,3) show ?thesis
    by (rule powersAgree_move) (auto simp: powerFields_def)
qed

lemma handleAllocateLQTYE:
  assumes "handleAllocateLQTY h e s = Inr s'"
  obtains user tote dVoteOffset dVetoOffset where
    "getAllocation (Some (bytes_hex h (aq_user e))) (bytes_hex h (aq_initiative e)) (aq_atEpoch e) s = Inr user"
    and "getAllocation None (bytes_hex h (aq_initiative e)) (aq_atEpoch e) s = Inr tote"
    and "dVoteOffset = deltaOffset (aq_deltaVoteLQTY e) (getVotingPower (bytes_hex h (aq_user e)) s)
           (al_voteLQTY (snd (fst user))) (al_voteOffset (snd (fst user)))"
    and "dVetoOffset = deltaOffset (aq_deltaVetoLQTY e) (getVotingPower (bytes_hex h (aq_user e)) s)
           (al_vetoLQTY (snd (fst user))) (al_vetoOffset (snd (fst user)))"
    and "s' = saveAllocation (changeAllocation (aq_deltaVoteLQTY e) (aq_deltaVetoLQTY e) dVoteOffset dVetoOffset tote)
       (saveAllocation (changeAllocation (aq_deltaVoteLQTY e) (aq_deltaVetoLQTY e) dVoteOffset dVetoOffset user)
       (save_power ''total'' (allocatePower (aq_deltaVoteLQTY e) (aq_deltaVetoLQTY e) dVoteOffset dVetoOffset (getVotingPower ''total'' s))
       (save_power (bytes_hex h (aq_user e))
          (allocatePower (aq_deltaVoteLQTY e) (aq_deltaVetoLQTY e) dVoteOffset dVetoOffset (getVotingPower (bytes_hex h (aq_user e)) s)) s)))"
  using assms unfolding handleAllocateLQTY_def Let_def and_then_Inr by auto

lemma saveAllocation_frame [simp]:
  "st_brackets (saveAllocation a s) = st_brackets s" "st_troves (saveAllocation a s) = st_troves s"
  "st_batches (saveAllocation a s) = st_batches s" "st_borrowers (saveAllocation a s) = st_borrowers s"
  by (simp_all add: saveAllocation_def Let_def split: prod.split option.split)

lemma handleAllocateLQTY_frame:
  assumes "handleAllocateLQTY h e s = Inr s'"
  shows "st_brackets s' = st_brackets s" "st_troves s' = st_troves s" "st_batches s' = st_batches s" "st_borrowers s' = st_borrowers s"
  by (rule handleAllocateLQTYE [OF assms], simp)+

lemma allocatePower_fields:
  "f \<in> powerFields \<Longrightarrow> f (allocatePower a b c d p) - f p = f (allocatePower a b c d q) - f q"
  by (auto simp: powerFields_def allocatePower_def)

lemma handleAllocateLQTY_agree:
  assumes "handleAllocateLQTY h e s = Inr s'" and "powersAgree s" and "bytes_hex h (aq_user e) \<noteq> ''total''"
  shows "powersAgree s'"
  using assms(1)
proof (rule handleAllocateLQTYE)
  fix user tote c d
  assume "s' = saveAllocation (changeAllocation (aq_deltaVoteLQTY e) (aq_deltaVetoLQTY e) c d tote)
       (saveAllocation (changeAllocation (aq_deltaVoteLQTY e) (aq_deltaVetoLQTY e) c d user)
       (save_power ''total'' (allocatePower (aq_deltaVoteLQTY e) (aq_deltaVetoLQTY e) c d (getVotingPower ''total'' s))
       (save_power (bytes_hex h (aq_user e))
          (allocatePower (aq_deltaVoteLQTY e) (aq_deltaVetoLQTY e) c d (getVotingPower (bytes_hex h (aq_user e)) s)) s)))"
  then have "st_powers s' = (st_powers s)
      (bytes_hex h (aq_user e) \<mapsto> allocatePower (aq_deltaVoteLQTY e) (aq_deltaVetoLQTY e) c d (getVotingPower (bytes_hex h (aq_user e)) s),
       ''total'' \<mapsto> allocatePower (aq_deltaVoteLQTY e) (aq_deltaVetoLQTY e) c d (getVotingPower ''total'' s))"
    by simp
  with assms(2,3) show ?thesis by (rule powersAgree_move) (rule allocatePower_fields)
qed

text \<open>A user's stake and offset are only moved between the two parts by an allocation.\<close>

lemma allocatePower_conserves:
  "vp_allocatedLQTY (allocatePower a b c d p) + vp_unallocatedLQTY (allocatePower a b c d p)
     = vp_allocatedLQTY p + vp_unallocatedLQTY p"
  "vp_allocatedOffset (allocatePower a b c d p) + vp_unallocatedOffset (allocatePower a b c d p)
     = vp_allocatedOffset p + vp_unallocatedOffset p"
  by (simp_all add: allocatePower_def)

text \<open>
  Withdrawing everything takes the whole offset, and taking back every vote takes back
  its whole offset: no offset is stranded.
\<close>

lemma deltaOffset_full:
  assumes "lqty > 0"
  shows "deltaOffset (- lqty) p lqty offset = - offset"
  using assms tdiv_self_mult [of lqty "- offset"] by (simp add: deltaOffset_def)

section \<open>What an allocation leaves behind\<close>

text \<open>
  The stance of a user on an initiative, or of everybody (no user): votes, vetoes and their offsets. It is the allocation of the
  epoch, and before there is one the latest of an earlier epoch.
\<close>

type_synonym stance = "int \<times> int \<times> int \<times> int"

definition amountsOf :: "allocation \<Rightarrow> stance" where
  "amountsOf a = (al_voteLQTY a, al_vetoLQTY a, al_voteOffset a, al_vetoOffset a)"

definition allocationKey :: "string option \<Rightarrow> string \<Rightarrow> int \<Rightarrow> string" where
  "allocationKey userId initiativeId epoch = allocationIndexId userId initiativeId @ '':'' @ dec_of_int epoch"

definition stanceOf :: "string option \<Rightarrow> string \<Rightarrow> int \<Rightarrow> store \<Rightarrow> stance" where
  "stanceOf userId initiativeId epoch s = (case st_allocations s (allocationKey userId initiativeId epoch) of
      Some a \<Rightarrow> amountsOf a
    | None \<Rightarrow> (case st_allocIndex s (allocationIndexId userId initiativeId) of None \<Rightarrow> (0, 0, 0, 0)
        | Some index \<Rightarrow> (case st_allocations s (ai_latestAllocation index) of None \<Rightarrow> (0, 0, 0, 0) | Some a \<Rightarrow> amountsOf a)))"

lemma getAllocation_stance:
  assumes "getAllocation userId initiativeId epoch s = Inr x"
  shows "fst (fst x) = allocationKey userId initiativeId epoch \<and> amountsOf (snd (fst x)) = stanceOf userId initiativeId epoch s"
  using assms
  by (auto simp: getAllocation_def stanceOf_def allocationKey_def amountsOf_def carriedAllocation_def Let_def and_then_Inr or_throw_Inr
      split: option.splits)

lemma st_allocations_saved:
  "st_allocations (saveAllocation (changeAllocation a b c d x) s) = (st_allocations s)(fst (fst x) \<mapsto> snd (fst (changeAllocation a b c d x)))"
  by (simp add: saveAllocation_def changeAllocation_def Let_def split: prod.split option.split)

lemma st_allocations_power [simp]: "st_allocations (save_power k p s) = st_allocations s"
  by (simp add: save_power_def)

lemma amountsOf_changed:
  "amountsOf (snd (fst x)) = (v, u, vo, uo) \<Longrightarrow> amountsOf (snd (fst (changeAllocation a b c d x))) = (v + a, u + b, vo + c, uo + d)"
  by (simp add: changeAllocation_def amountsOf_def split: prod.splits) auto

lemma user_key_differs: "allocationKey (Some u) i epoch \<noteq> allocationKey None i epoch"
proof
  assume "allocationKey (Some u) i epoch = allocationKey None i epoch"
  then have "length (allocationKey (Some u) i epoch) = length (allocationKey None i epoch)" by simp
  then show False by (simp add: allocationKey_def allocationIndexId_def)
qed

text \<open>\<open>floorShare part whole amount moved\<close>: \<open>moved\<close> is the part's share of the amount, rounded down.\<close>

definition floorShare :: "int \<Rightarrow> int \<Rightarrow> int \<Rightarrow> int \<Rightarrow> bool" where
  "floorShare part whole amount moved \<longleftrightarrow> moved * whole \<le> amount * part \<and> amount * part < (moved + 1) * whole"

lemma floorShare_div: "0 < whole \<Longrightarrow> floorShare part whole amount (amount * part div whole)"
  using div_mult_mod_eq [of "amount * part" whole] pos_mod_bound [of whole "amount * part"] pos_mod_sign [of whole "amount * part"]
  unfolding floorShare_def distrib_right mult_1 by linarith

lemma floorShare_all: "0 < whole \<Longrightarrow> floorShare whole whole amount moved \<Longrightarrow> moved = amount"
  by (auto simp: floorShare_def)

lemma deltaOffset_gives:
  assumes "0 < delta" and "0 < vp_unallocatedLQTY p" and "0 \<le> vp_unallocatedOffset p"
  shows "floorShare delta (vp_unallocatedLQTY p) (vp_unallocatedOffset p) (deltaOffset delta p lqty offset)"
  using assms floorShare_div [of "vp_unallocatedLQTY p" delta "vp_unallocatedOffset p"] by (simp add: deltaOffset_def tdiv_nonneg)

lemma deltaOffset_takes:
  assumes "delta < 0" and "0 < lqty" and "0 \<le> offset"
  shows "floorShare (- delta) lqty offset (- deltaOffset delta p lqty offset)"
proof -
  have "tdiv (offset * delta) lqty = - (offset * (- delta) div lqty)"
    using assms by (simp add: tdiv_def sgn_mult abs_mult abs_of_neg mult_less_0_iff zero_less_mult_iff sgn_if)
  then show ?thesis using assms floorShare_div [of lqty "- delta" offset] by (simp add: deltaOffset_def)
qed

lemma deltaOffset_none: "deltaOffset 0 p lqty offset = 0"
  by (simp add: deltaOffset_def tdiv_def)

lemma handleAllocateLQTY_stances:
  assumes "handleAllocateLQTY h e s = Inr s'" and "bytes_hex h (aq_user e) \<noteq> ''total''"
    and "stanceOf (Some (bytes_hex h (aq_user e))) (bytes_hex h (aq_initiative e)) (aq_atEpoch e) s = (v, u, vo, uo)"
    and "stanceOf None (bytes_hex h (aq_initiative e)) (aq_atEpoch e) s = (tv, tu, tvo, tuo)"
  defines "p \<equiv> getVotingPower (bytes_hex h (aq_user e)) s"
  defines "dvo \<equiv> deltaOffset (aq_deltaVoteLQTY e) p v vo" and "duo \<equiv> deltaOffset (aq_deltaVetoLQTY e) p u uo"
  shows "stanceOf (Some (bytes_hex h (aq_user e))) (bytes_hex h (aq_initiative e)) (aq_atEpoch e) s'
      = (v + aq_deltaVoteLQTY e, u + aq_deltaVetoLQTY e, vo + dvo, uo + duo)" (is ?A)
    and "stanceOf None (bytes_hex h (aq_initiative e)) (aq_atEpoch e) s'
      = (tv + aq_deltaVoteLQTY e, tu + aq_deltaVetoLQTY e, tvo + dvo, tuo + duo)" (is ?B)
    and "getVotingPower (bytes_hex h (aq_user e)) s' = allocatePower (aq_deltaVoteLQTY e) (aq_deltaVetoLQTY e) dvo duo p" (is ?C)
    and "getVotingPower ''total'' s' = allocatePower (aq_deltaVoteLQTY e) (aq_deltaVetoLQTY e) dvo duo (getVotingPower ''total'' s)" (is ?D)
proof -
  have "?A \<and> ?B \<and> ?C \<and> ?D"
  proof (rule handleAllocateLQTYE [OF assms(1)])
    fix user tote c d
    assume user: "getAllocation (Some (bytes_hex h (aq_user e))) (bytes_hex h (aq_initiative e)) (aq_atEpoch e) s = Inr user"
      and tote: "getAllocation None (bytes_hex h (aq_initiative e)) (aq_atEpoch e) s = Inr tote"
      and c: "c = deltaOffset (aq_deltaVoteLQTY e) (getVotingPower (bytes_hex h (aq_user e)) s) (al_voteLQTY (snd (fst user))) (al_voteOffset (snd (fst user)))"
      and d: "d = deltaOffset (aq_deltaVetoLQTY e) (getVotingPower (bytes_hex h (aq_user e)) s) (al_vetoLQTY (snd (fst user))) (al_vetoOffset (snd (fst user)))"
      and s': "s' = saveAllocation (changeAllocation (aq_deltaVoteLQTY e) (aq_deltaVetoLQTY e) c d tote)
         (saveAllocation (changeAllocation (aq_deltaVoteLQTY e) (aq_deltaVetoLQTY e) c d user)
         (save_power ''total'' (allocatePower (aq_deltaVoteLQTY e) (aq_deltaVetoLQTY e) c d (getVotingPower ''total'' s))
         (save_power (bytes_hex h (aq_user e))
            (allocatePower (aq_deltaVoteLQTY e) (aq_deltaVetoLQTY e) c d (getVotingPower (bytes_hex h (aq_user e)) s)) s)))"
    have k: "fst (fst user) = allocationKey (Some (bytes_hex h (aq_user e))) (bytes_hex h (aq_initiative e)) (aq_atEpoch e)"
        "fst (fst tote) = allocationKey None (bytes_hex h (aq_initiative e)) (aq_atEpoch e)"
      and amounts: "amountsOf (snd (fst user)) = (v, u, vo, uo)" "amountsOf (snd (fst tote)) = (tv, tu, tvo, tuo)"
      using getAllocation_stance [OF user] getAllocation_stance [OF tote] assms(3,4) by simp_all
    have cd: "c = dvo" "d = duo" using c d amounts(1) by (simp_all add: dvo_def duo_def p_def amountsOf_def)
    note changed = amountsOf_changed [OF amounts(1)] amountsOf_changed [OF amounts(2)]
    have ?A ?B
      unfolding stanceOf_def s' st_allocations_saved k cd
      by (simp_all add: user_key_differs user_key_differs [symmetric] changed)
    moreover have ?C ?D
      using assms(2) by (simp_all add: getVotingPower_def s' cd p_def)
    ultimately show ?thesis by blast
  qed
  then show ?A ?B ?C ?D by blast+
qed

end
