(* ===== verification/Subgraph_Ledger.thy ===== *)
theory Subgraph_Ledger
  imports Subgraph_NFT Subgraph_Registry Subgraph_Governance
begin

text \<open>
  The interest ledger as a whole: what the brackets book is what the positions (troves
  outside batches, and batches) owe. The invariant is stated once for any table of
  positions, and both tables are instances.
\<close>

section \<open>Positions of the store\<close>

definition trovePosition :: "trove \<Rightarrow> position" where
  "trovePosition t = positionAt (tr_interestRate t) (tr_debt t) (tr_updatedAt t)"

definition batchPosition :: "interest_batch \<Rightarrow> position" where
  "batchPosition b = positionAt (ib_annualInterestRate b) (ib_debt b) (ib_updatedAt b)"

text \<open>What a position of collateral \<open>c\<close> adds to the bracket \<open>k\<close>.\<close>

definition shareIn :: "measure_kind \<Rightarrow> string \<Rightarrow> string \<Rightarrow> position \<Rightarrow> int" where
  "shareIn w k c p = (if rateBracketId c (po_rate p) = k then weight w p else 0)"

lemma shareIn_rate_0 [simp]: "po_rate p = 0 \<Longrightarrow> shareIn w k c p = 0"
  by (simp add: shareIn_def weight_rate_0)

lemma shareIn_positionAt:
  "shareIn w k c (positionAt r d t) =
     (if r \<noteq> 0 \<and> k = rateBracketId c r then weight w (positionAt r d t) else 0)"
  by (auto simp: shareIn_def weight_rate_0)

section \<open>Tables of positions\<close>

locale position_table = entity_table load save
  for load :: "store \<Rightarrow> string \<Rightarrow> 'e option" and save :: "string \<Rightarrow> 'e \<Rightarrow> store \<Rightarrow> store" +
  fixes pos :: "'e \<Rightarrow> position" and coll :: "'e \<Rightarrow> string"
  assumes brackets_save: "st_brackets (save i e s) = st_brackets s"
begin

text \<open>
  A handler that moves a position through \<open>updateRateBracketDebt\<close> and then saves it changes
  the brackets and the table alike.
\<close>

lemma booked_saved: "booked w (save i e s) k = booked w s k"
  by (simp add: booked_def brackets_save)

lemma moved:
  assumes upd: "updateRateBracketDebt c r r' d d' t now s = Inr s1"
    and frame: "load s1 = load s" and fin: "finite (dom (load s))"
    and old: "case load s i of None \<Rightarrow> r = 0 | Some e0 \<Rightarrow> coll e0 = c \<and> pos e0 = positionAt r d t"
    and new: "coll e = c" "pos e = positionAt r' d' now \<or> r' = 0 \<and> po_rate (pos e) = 0"
  shows "booked w (save i e s1) k - tally (\<lambda>e. shareIn w k (coll e) (pos e)) (load (save i e s1)) =
    booked w s k - tally (\<lambda>e. shareIn w k (coll e) (pos e)) (load s)"
proof -
  let ?f = "\<lambda>e. shareIn w k (coll e) (pos e)"
  have "entry_share ?f (load s i) = shareIn w k c (positionAt r d t)"
    using old by (auto split: option.splits)
  moreover have "?f e = shareIn w k c (positionAt r' d' now)"
    using new by auto
  moreover have "tally ?f (load (save i e s1)) = tally ?f (load s) - entry_share ?f (load s i) + ?f e"
    using tally_save [of s1 ?f i e] fin frame by simp
  moreover have "booked w s1 k = booked w s k - shareIn w k c (positionAt r d t) + shareIn w k c (positionAt r' d' now)"
    unfolding updateRateBracketDebt_booked [OF upd] shareIn_positionAt by simp
  ultimately show ?thesis by (simp add: booked_saved)
qed

text \<open>Saving an entity with the same position leaves the table's contribution as it was.\<close>

lemma kept:
  assumes "finite (dom (load s))"
    and "case load s i of None \<Rightarrow> po_rate (pos e) = 0 | Some e0 \<Rightarrow> coll e0 = coll e \<and> pos e0 = pos e"
  shows "tally (\<lambda>e. shareIn w k (coll e) (pos e)) (load (save i e s)) =
    tally (\<lambda>e. shareIn w k (coll e) (pos e)) (load s)"
proof -
  let ?f = "\<lambda>e. shareIn w k (coll e) (pos e)"
  have "entry_share ?f (load s i) = ?f e"
    using assms(2) by (auto split: option.splits)
  with assms(1) show ?thesis by (simp only: tally_save)
qed

end

interpretation trove_positions: position_table st_troves save_trove trovePosition tr_collateral
  by unfold_locales simp

interpretation batch_positions: position_table st_batches save_batch batchPosition ib_collateral
  by unfold_locales simp

section \<open>The ledger invariant\<close>

definition troveShares :: "measure_kind \<Rightarrow> string \<Rightarrow> store \<Rightarrow> int" where
  "troveShares w k s = tally (\<lambda>t. shareIn w k (tr_collateral t) (trovePosition t)) (st_troves s)"

definition batchShares :: "measure_kind \<Rightarrow> string \<Rightarrow> store \<Rightarrow> int" where
  "batchShares w k s = tally (\<lambda>b. shareIn w k (ib_collateral b) (batchPosition b)) (st_batches s)"

definition hasBracket :: "store \<Rightarrow> string \<Rightarrow> position \<Rightarrow> bool" where
  "hasBracket s c p \<longleftrightarrow> po_rate p = 0 \<or> st_brackets s (rateBracketId c (po_rate p)) \<noteq> None"

text \<open>The id of a trove or a batch starts with its collateral's id, which has no colon.\<close>

definition keyedBy :: "string \<Rightarrow> string \<Rightarrow> bool" where
  "keyedBy k c \<longleftrightarrow> takeWhile (\<lambda>x. x \<noteq> CHR '':'') k = c"

lemma keyedBy_key: "CHR '':'' \<notin> set c \<Longrightarrow> keyedBy (c @ '':'' @ x) c' \<longleftrightarrow> c' = c"
proof -
  assume "CHR '':'' \<notin> set c"
  then have "takeWhile (\<lambda>x. x \<noteq> CHR '':'') (c @ '':'' @ x) = c"
    by (subst takeWhile_append2) auto
  then show ?thesis by (auto simp: keyedBy_def)
qed

definition ledger :: "store \<Rightarrow> bool" where
  "ledger s \<longleftrightarrow>
     finite (dom (st_brackets s)) \<and> finite (dom (st_troves s)) \<and> finite (dom (st_batches s)) \<and>
     (\<forall>w k. booked w s k = troveShares w k s + batchShares w k s) \<and>
     (\<forall>i t. st_troves s i = Some t \<longrightarrow> keyedBy i (tr_collateral t) \<and> hasBracket s (tr_collateral t) (trovePosition t)) \<and>
     (\<forall>i b. st_batches s i = Some b \<longrightarrow> keyedBy i (ib_collateral b) \<and> hasBracket s (ib_collateral b) (batchPosition b))"

lemma ledger_empty: "ledger empty_store"
  by (simp add: ledger_def empty_store_def booked_def troveShares_def batchShares_def)

text \<open>The ledger only reads the brackets, the troves and the batches.\<close>

lemma ledger_cong:
  assumes "st_brackets s' = st_brackets s" "st_troves s' = st_troves s" "st_batches s' = st_batches s"
  shows "ledger s' = ledger s"
  using assms by (simp add: ledger_def booked_def troveShares_def batchShares_def hasBracket_def)

lemma hasBracket_mono: "dom (st_brackets s) \<subseteq> dom (st_brackets s') \<Longrightarrow> hasBracket s c p \<Longrightarrow> hasBracket s' c p"
  by (auto simp: hasBracket_def)

text \<open>One trove moved by a handler, and one batch.\<close>

lemma ledger_trove_moved:
  assumes led: "ledger s"
    and upd: "updateRateBracketDebt c r r' d d' t now s = Inr s1"
    and old: "st_troves s i = Some t0" "tr_collateral t0 = c" "trovePosition t0 = positionAt r d t"
    and new: "tr_collateral t1 = c" "trovePosition t1 = positionAt r' d' now \<or> r' = 0 \<and> tr_interestRate t1 = 0"
  shows "ledger (save_trove i t1 s1)"
proof -
  note frame = updateRateBracketDebt_frame [OF upd]
  note dom1 = updateRateBracketDebt_dom [OF upd]
  have "booked w (save_trove i t1 s1) k = troveShares w k (save_trove i t1 s1) + batchShares w k (save_trove i t1 s1)" for w k
  proof -
    have "booked w (save_trove i t1 s1) k - troveShares w k (save_trove i t1 s1) = booked w s k - troveShares w k s"
      unfolding troveShares_def using trove_positions.moved [OF upd] frame led old new
      by (auto simp: ledger_def trovePosition_def)
    moreover have "batchShares w k (save_trove i t1 s1) = batchShares w k s"
      using frame by (simp add: batchShares_def)
    ultimately show ?thesis using led by (simp add: ledger_def)
  qed
  moreover have "hasBracket (save_trove i t1 s1) c (trovePosition t1)"
    using new dom1 by (auto simp: hasBracket_def trovePosition_def positionAt_def)
  moreover have "hasBracket s c p \<Longrightarrow> hasBracket (save_trove i t1 s1) c p" for c p
    by (rule hasBracket_mono [of s]) (use dom1 in auto)
  ultimately show ?thesis
    using led frame dom1 old new(1) unfolding ledger_def by auto
qed

lemma ledger_batch_moved:
  assumes led: "ledger s"
    and upd: "updateRateBracketDebt c r r' d d' t now s = Inr s1"
    and old: "case st_batches s i of None \<Rightarrow> r = 0 | Some b0 \<Rightarrow> ib_collateral b0 = c \<and> batchPosition b0 = positionAt r d t"
    and key: "keyedBy i c"
    and new: "ib_collateral b1 = c" "batchPosition b1 = positionAt r' d' now"
  shows "ledger (save_batch i b1 s1)"
proof -
  note frame = updateRateBracketDebt_frame [OF upd]
  note dom1 = updateRateBracketDebt_dom [OF upd]
  have "booked w (save_batch i b1 s1) k = troveShares w k (save_batch i b1 s1) + batchShares w k (save_batch i b1 s1)" for w k
  proof -
    have "booked w (save_batch i b1 s1) k - batchShares w k (save_batch i b1 s1) = booked w s k - batchShares w k s"
      unfolding batchShares_def using batch_positions.moved [OF upd] frame led old new
      by (auto simp: ledger_def)
    moreover have "troveShares w k (save_batch i b1 s1) = troveShares w k s"
      using frame by (simp add: troveShares_def)
    ultimately show ?thesis using led by (simp add: ledger_def)
  qed
  moreover have "hasBracket (save_batch i b1 s1) c (batchPosition b1)"
    using new dom1 by (auto simp: hasBracket_def)
  moreover have "hasBracket s c p \<Longrightarrow> hasBracket (save_batch i b1 s1) c p" for c p
    by (rule hasBracket_mono [of s]) (use dom1 in auto)
  ultimately show ?thesis
    using led frame dom1 key new(1) unfolding ledger_def by auto
qed

text \<open>A trove saved without touching its position, and a new trove.\<close>

lemma ledger_trove_kept:
  assumes led: "ledger s"
    and old: "case st_troves s i of None \<Rightarrow> keyedBy i (tr_collateral t1) \<and> tr_interestRate t1 = 0
      | Some t0 \<Rightarrow> tr_collateral t1 = tr_collateral t0 \<and> trovePosition t1 = trovePosition t0"
  shows "ledger (save_trove i t1 s)"
proof -
  have "troveShares w k (save_trove i t1 s) = troveShares w k s" for w k
    unfolding troveShares_def
    by (rule trove_positions.kept) (use led old in \<open>auto simp: ledger_def trovePosition_def split: option.splits\<close>)
  moreover have "batchShares w k (save_trove i t1 s) = batchShares w k s" for w k
    by (simp add: batchShares_def)
  moreover have "keyedBy i (tr_collateral t1) \<and> hasBracket s (tr_collateral t1) (trovePosition t1)"
    using led old by (auto simp: ledger_def hasBracket_def trovePosition_def split: option.splits)
  ultimately show ?thesis
    using led by (auto simp: ledger_def booked_def hasBracket_def)
qed

end
