(* ===== verification/Subgraph_Scripts.thy ===== *)
theory Subgraph_Scripts
  imports JS_Runtime Subgraph_Ledger
begin

text \<open>
  subgraph/scripts: the paging loop the three scripts share, and the total debt computed
  from the interest-rate brackets. The GraphQL server is an argument, a function from the
  cursor and the limit to a page; the loop may run for ever against an arbitrary server,
  so it is a partial function.
\<close>

section \<open>Operations\<close>

definition SUBGRAPH_QUERY_LIMIT :: nat where
  "SUBGRAPH_QUERY_LIMIT = 1000"

definition ONE_YEAR_D18 :: int where
  "ONE_YEAR_D18 = 365 * 24 * 60 * 60 * 10 ^ 18"

partial_function (option) fetchPages ::
    "('r \<Rightarrow> string) \<Rightarrow> nat \<Rightarrow> (string \<Rightarrow> nat \<Rightarrow> 'r list outcome) \<Rightarrow> 'r list \<Rightarrow> string \<Rightarrow> 'r list outcome option" where
  "fetchPages rowId limit query acc cursor =
     (case query cursor limit of
        Inl e \<Rightarrow> Some (Inl e)
      | Inr page \<Rightarrow>
          (let acc' = acc @ page
           in if length page < limit then Some (Inr acc')
              else fetchPages rowId limit query acc' (rowId (last acc'))))"

record bracket_row =
  br_id :: string
  br_totalDebt :: string
  br_sumDebtTimesRateD36 :: string
  br_pendingDebtTimesOneYearD36 :: string
  br_updatedAt :: string

record bracket_value =
  bv_id :: string
  bv_totalDebt :: int
  bv_sumDebtTimesRateD36 :: int
  bv_pendingDebtTimesOneYearD36 :: int
  bv_updatedAt :: int

definition parseBracket :: "bracket_row \<Rightarrow> bracket_value outcome" where
  "parseBracket r =
     and_then (js_BigInt (br_totalDebt r)) (\<lambda>totalDebt.
     and_then (js_BigInt (br_sumDebtTimesRateD36 r)) (\<lambda>sumDebt.
     and_then (js_BigInt (br_pendingDebtTimesOneYearD36 r)) (\<lambda>pending.
     and_then (js_BigInt (br_updatedAt r)) (\<lambda>updatedAt.
     Inr \<lparr>bv_id = br_id r, bv_totalDebt = totalDebt, bv_sumDebtTimesRateD36 = sumDebt,
          bv_pendingDebtTimesOneYearD36 = pending, bv_updatedAt = updatedAt\<rparr>))))"

fun mapOutcome :: "('a \<Rightarrow> 'b outcome) \<Rightarrow> 'a list \<Rightarrow> 'b list outcome" where
  "mapOutcome f [] = Inr []"
| "mapOutcome f (x # xs) = and_then (f x) (\<lambda>y. and_then (mapOutcome f xs) (\<lambda>ys. Inr (y # ys)))"

definition getInterestRateBrackets ::
    "(string \<Rightarrow> nat \<Rightarrow> bracket_row list outcome) \<Rightarrow> bracket_value list outcome option" where
  "getInterestRateBrackets query =
     map_option (\<lambda>rows. and_then rows (mapOutcome parseBracket))
       (fetchPages br_id SUBGRAPH_QUERY_LIMIT query [] '''')"

definition totalDebtOf :: "int \<Rightarrow> bracket_value list \<Rightarrow> int" where
  "totalDebtOf now brackets =
     tdiv (foldl (\<lambda>total b. total + bv_totalDebt b * ONE_YEAR_D18
                    + bv_pendingDebtTimesOneYearD36 b
                    + bv_sumDebtTimesRateD36 b * (now - bv_updatedAt b)) 0 brackets)
          ONE_YEAR_D18"

definition totalDebtMain ::
    "(string \<Rightarrow> nat \<Rightarrow> bracket_row list outcome) \<Rightarrow> int \<Rightarrow> int outcome option" where
  "totalDebtMain query now =
     map_option (\<lambda>brackets. and_then brackets (\<lambda>bs. Inr (totalDebtOf now bs)))
       (getInterestRateBrackets query)"

section \<open>The paging loop against an ordered server\<close>

text \<open>
  The contract of the query: the rows are listed in increasing order of id, a page is the
  first rows after the cursor, and no id is empty. Then the loop returns every row once,
  in order, whatever the (positive) page size.
\<close>

locale paged_server =
  fixes rowId :: "'r \<Rightarrow> string" and rows :: "'r list" and query :: "string \<Rightarrow> nat \<Rightarrow> 'r list outcome"
  assumes query_page: "query cursor limit = Inr (take limit (filter (\<lambda>r. cursor < rowId r) rows))"
    and rows_ordered: "sorted_wrt (\<lambda>a b. rowId a < rowId b) rows"
    and ids_nonempty: "r \<in> set rows \<Longrightarrow> rowId r \<noteq> ''''"
begin

lemma filter_after:
  assumes "rows = xs @ ys" and "xs \<noteq> []"
  shows "filter (\<lambda>r. rowId (last xs) < rowId r) rows = ys"
proof -
  obtain x zs where xs: "xs = zs @ [x]" using assms(2) by (cases xs rule: rev_cases) auto
  have ord: "sorted_wrt (\<lambda>a b. rowId a < rowId b) (zs @ x # ys)"
    using rows_ordered assms(1) xs by simp
  then have "\<forall>r \<in> set zs. \<not> rowId x < rowId r" and "\<forall>r \<in> set ys. rowId x < rowId r"
    by (auto simp: sorted_wrt_append)
  with assms(1) xs show ?thesis by (simp add: filter_empty_conv)
qed

lemma fetchPages_from:
  assumes "0 < limit"
  shows "rows = xs @ ys \<Longrightarrow> filter (\<lambda>r. cursor < rowId r) rows = ys \<Longrightarrow>
    fetchPages rowId limit query xs cursor = Some (Inr rows)"
proof (induction "length ys" arbitrary: xs ys cursor rule: less_induct)
  case less
  have page: "query cursor limit = Inr (take limit ys)"
    using less.prems by (simp add: query_page)
  show ?case
  proof (cases "length ys < limit")
    case True
    with page less.prems(1) show ?thesis by (subst fetchPages.simps) simp
  next
    case False
    then have len: "length (take limit ys) = limit" by simp
    have split: "rows = (xs @ take limit ys) @ drop limit ys" using less.prems(1) by simp
    have ne: "xs @ take limit ys \<noteq> []" using len assms by auto
    have "length (drop limit ys) < length ys" using False assms by simp
    then have "fetchPages rowId limit query (xs @ take limit ys) (rowId (last (xs @ take limit ys))) = Some (Inr rows)"
      by (rule less.hyps) (use split filter_after [OF split ne] in simp_all)
    with page len show ?thesis by (subst fetchPages.simps) (simp add: Let_def)
  qed
qed

lemma fetchPages_all:
  assumes "0 < limit"
  shows "fetchPages rowId limit query [] '''' = Some (Inr rows)"
proof (rule fetchPages_from [OF assms])
  have "\<forall>r \<in> set rows. '''' < rowId r" by (metis Nil_less_Cons ids_nonempty neq_Nil_conv)
  then show "filter (\<lambda>r. '''' < rowId r) rows = rows" by simp
qed simp

end

section \<open>The subgraph's own brackets behind the query\<close>

definition bracketRow :: "store \<Rightarrow> string \<Rightarrow> bracket_row" where
  "bracketRow s k = (let b = the (st_brackets s k) in
     \<lparr>br_id = k, br_totalDebt = dec_of_int (bk_totalDebt b),
      br_sumDebtTimesRateD36 = dec_of_int (bk_sumDebtTimesRateD36 b),
      br_pendingDebtTimesOneYearD36 = dec_of_int (bk_pendingDebtTimesOneYearD36 b),
      br_updatedAt = dec_of_int (bk_updatedAt b)\<rparr>)"

definition bracketRows :: "store \<Rightarrow> bracket_row list" where
  "bracketRows s = map (bracketRow s) (filter (\<lambda>k. k \<noteq> '''') (sorted_ids (st_brackets s)))"

definition serveBrackets :: "store \<Rightarrow> string \<Rightarrow> nat \<Rightarrow> bracket_row list outcome" where
  "serveBrackets s cursor limit = Inr (take limit (filter (\<lambda>r. cursor < br_id r) (bracketRows s)))"

lemma bracketRow_id [simp]: "br_id (bracketRow s k) = k"
  by (simp add: bracketRow_def Let_def)

interpretation bracket_server: paged_server br_id "bracketRows s" "serveBrackets s" for s
proof unfold_locales
  show "sorted_wrt (\<lambda>a b. br_id a < br_id b) (bracketRows s)"
    by (auto simp: bracketRows_def sorted_wrt_map sorted_ids_def intro: sorted_wrt_filter)
qed (auto simp: serveBrackets_def bracketRows_def)

definition bracketValue :: "store \<Rightarrow> string \<Rightarrow> bracket_value" where
  "bracketValue s k = (let b = the (st_brackets s k) in
     \<lparr>bv_id = k, bv_totalDebt = bk_totalDebt b, bv_sumDebtTimesRateD36 = bk_sumDebtTimesRateD36 b,
      bv_pendingDebtTimesOneYearD36 = bk_pendingDebtTimesOneYearD36 b, bv_updatedAt = bk_updatedAt b\<rparr>)"

lemma parse_bracketRow: "parseBracket (bracketRow s k) = Inr (bracketValue s k)"
  by (simp add: parseBracket_def bracketRow_def bracketValue_def Let_def js_BigInt_dec_of_int)

lemma mapOutcome_Inr: "(\<And>x. x \<in> set xs \<Longrightarrow> f x = Inr (g x)) \<Longrightarrow> mapOutcome f xs = Inr (map g xs)"
  by (induction xs) simp_all

lemma getInterestRateBrackets_served:
  "getInterestRateBrackets (serveBrackets s) =
     Some (Inr (map (bracketValue s) (filter (\<lambda>k. k \<noteq> '''') (sorted_ids (st_brackets s)))))"
proof -
  have "fetchPages br_id SUBGRAPH_QUERY_LIMIT (serveBrackets s) [] '''' = Some (Inr (bracketRows s))"
    by (rule bracket_server.fetchPages_all) (simp add: SUBGRAPH_QUERY_LIMIT_def)
  moreover have "mapOutcome parseBracket (map (bracketRow s) ks) = Inr (map (bracketValue s) ks)" for ks
    by (induction ks) (simp_all add: parse_bracketRow)
  ultimately show ?thesis by (simp add: getInterestRateBrackets_def bracketRows_def)
qed

section \<open>The total debt is what the positions owe\<close>

text \<open>What one position owes at time \<open>now\<close>, times a year, in the script's 36-decimal units.\<close>

definition owedTimesYear :: "int \<Rightarrow> position \<Rightarrow> int" where
  "owedTimesYear now p =
     (if po_rate p = 0 then 0 else po_debt p * ONE_YEAR_D18 + po_debt p * po_rate p * (now - po_since p))"

definition totalOwedTimesYear :: "int \<Rightarrow> store \<Rightarrow> int" where
  "totalOwedTimesYear now s =
     tally (\<lambda>t. owedTimesYear now (trovePosition t)) (st_troves s) +
     tally (\<lambda>b. owedTimesYear now (batchPosition b)) (st_batches s)"

definition bracketOwed :: "int \<Rightarrow> bracket \<Rightarrow> int" where
  "bracketOwed now b = books By_debt b * ONE_YEAR_D18 + books By_yearly b * now - books By_since b"

lemma owedTimesYear_weights:
  "owedTimesYear now p = weight By_debt p * ONE_YEAR_D18 + weight By_yearly p * now - weight By_since p"
  by (simp add: owedTimesYear_def algebra_simps)

lemma foldl_add: "foldl (\<lambda>a x. a + f x) (a :: int) xs = a + sum_list (map f xs)"
  by (induction xs arbitrary: a) simp_all

lemma totalDebtOf_sum:
  "totalDebtOf now (map (bracketValue s) ks) =
     tdiv (sum_list (map (\<lambda>k. bracketOwed now (the (st_brackets s k))) ks)) ONE_YEAR_D18"
proof -
  have step: "(\<lambda>total b. total + bv_totalDebt b * ONE_YEAR_D18 + bv_pendingDebtTimesOneYearD36 b
      + bv_sumDebtTimesRateD36 b * (now - bv_updatedAt b)) =
    (\<lambda>total b. total + (bv_totalDebt b * ONE_YEAR_D18 + bv_pendingDebtTimesOneYearD36 b
      + bv_sumDebtTimesRateD36 b * (now - bv_updatedAt b)))"
    by (simp add: add.assoc)
  have one: "bv_totalDebt (bracketValue s k) * ONE_YEAR_D18 + bv_pendingDebtTimesOneYearD36 (bracketValue s k)
      + bv_sumDebtTimesRateD36 (bracketValue s k) * (now - bv_updatedAt (bracketValue s k))
    = bracketOwed now (the (st_brackets s k))" for k
    by (simp add: bracketOwed_def bracketValue_def Let_def algebra_simps)
  show ?thesis by (simp add: totalDebtOf_def step foldl_add one comp_def)
qed

text \<open>Summing the brackets' books over all brackets gives the positions' weights.\<close>

lemma sum_booked:
  assumes fin: "finite (dom m)" "finite K"
    and has: "\<And>i e. m i = Some e \<Longrightarrow> po_rate (p e) = 0 \<or> rateBracketId (c e) (po_rate (p e)) \<in> K"
  shows "(\<Sum>k \<in> K. tally (\<lambda>e. shareIn w k (c e) (p e)) m) = tally (\<lambda>e. weight w (p e)) m"
proof -
  have "(\<Sum>k \<in> K. shareIn w k (c (the (m i))) (p (the (m i)))) = weight w (p (the (m i)))" if "i \<in> dom m" for i
    using has [of i "the (m i)"] that fin(2) by (auto simp: shareIn_def weight_rate_0 sum.delta' domIff)
  then show ?thesis
    unfolding tally_def by (subst sum.swap) simp
qed

lemma ledger_sum_books:
  assumes "ledger s"
  shows "tally (books w) (st_brackets s) =
    tally (\<lambda>t. weight w (trovePosition t)) (st_troves s) + tally (\<lambda>b. weight w (batchPosition b)) (st_batches s)"
proof -
  let ?K = "dom (st_brackets s)"
  have "tally (books w) (st_brackets s) = (\<Sum>k \<in> ?K. booked w s k)"
    unfolding tally_def booked_def by (rule sum.cong) auto
  also have "\<dots> = (\<Sum>k \<in> ?K. troveShares w k s) + (\<Sum>k \<in> ?K. batchShares w k s)"
    using assms by (simp add: ledger_def sum.distrib)
  also have "(\<Sum>k \<in> ?K. troveShares w k s) = tally (\<lambda>t. weight w (trovePosition t)) (st_troves s)"
    unfolding troveShares_def by (rule sum_booked) (use assms in \<open>auto simp: ledger_def hasBracket_def\<close>)
  also have "(\<Sum>k \<in> ?K. batchShares w k s) = tally (\<lambda>b. weight w (batchPosition b)) (st_batches s)"
    unfolding batchShares_def by (rule sum_booked) (use assms in \<open>auto simp: ledger_def hasBracket_def\<close>)
  finally show ?thesis .
qed

lemma tally_linear:
  "tally (\<lambda>v. f v * (c :: int) + g v * d - h v) m = tally f m * c + tally g m * d - tally h m"
  by (simp add: tally_def sum.distrib sum_subtractf sum_distrib_right)

lemma totalOwed_brackets:
  assumes "ledger s"
  shows "tally (bracketOwed now) (st_brackets s) = totalOwedTimesYear now s"
  unfolding bracketOwed_def totalOwedTimesYear_def owedTimesYear_weights tally_linear
    ledger_sum_books [OF assms]
  by (simp add: algebra_simps)

text \<open>Bracket ids are never empty, so the script sees every bracket.\<close>

definition idsNonempty :: "store \<Rightarrow> bool" where
  "idsNonempty s \<longleftrightarrow> st_brackets s '''' = None"

lemma totalDebtMain_served:
  assumes led: "ledger s" and ids: "idsNonempty s"
  shows "totalDebtMain (serveBrackets s) now =
    Some (Inr (tdiv (totalOwedTimesYear now s) ONE_YEAR_D18))"
proof -
  have fin: "finite (dom (st_brackets s))" using led by (simp add: ledger_def)
  have "filter (\<lambda>k. k \<noteq> '''') (sorted_ids (st_brackets s)) = sorted_ids (st_brackets s)"
    using ids fin by (auto simp: filter_id_conv sorted_ids_def idsNonempty_def)
  then show ?thesis
    by (simp add: totalDebtMain_def getInterestRateBrackets_served totalDebtOf_sum
        sorted_ids_tally [OF fin] totalOwed_brackets [OF led])
qed

end
