(* ===== verification/Subgraph_Run.thy ===== *)
theory Subgraph_Run
  imports Subgraph_Scripts
begin

text \<open>
  The event handlers wired up as subgraph/subgraph.yaml does: an event of a template's
  data source is handled in the context that source was created with. Reachable stores
  are those of any run from the empty store in which no handler threw. The lemmas lift
  the ledger, the borrower counts and the voting powers to every reachable store.
\<close>

section \<open>Events and runs\<close>

datatype subgraph_event =
    TroveUpdated ds_context trove_updated
  | BatchedTroveUpdated ds_context batched_trove_updated
  | BatchUpdated ds_context batch_updated
  | TroveOperation ds_context trove_operation
  | Transfer ds_context nft_transfer
  | CollBalanceUpdated ds_context coll_balance_updated
  | CollateralRegistryAddressChanged bytes
  | DepositLQTY lqty_event
  | WithdrawLQTY lqty_event
  | AllocateLQTY allocate_lqty
  | RegisterInitiative bytes
  | UnregisterInitiative bytes

fun handle :: "host \<Rightarrow> contracts \<Rightarrow> subgraph_event \<Rightarrow> store \<Rightarrow> store outcome" where
  "handle h w (TroveUpdated ctx e) s = handleTroveUpdated h ctx e s"
| "handle h w (BatchedTroveUpdated ctx e) s = handleBatchedTroveUpdated h ctx e s"
| "handle h w (BatchUpdated ctx e) s = handleBatchUpdated h ctx e s"
| "handle h w (TroveOperation ctx e) s = handleTroveOperation h ctx e s"
| "handle h w (Transfer ctx e) s = handleTransfer h ctx e s"
| "handle h w (CollBalanceUpdated ctx e) s = handleCollBalanceUpdated h ctx e s"
| "handle h w (CollateralRegistryAddressChanged r) s = handleCollateralRegistryAddressChanged w r s"
| "handle h w (DepositLQTY e) s = handleDepositLQTY h e s"
| "handle h w (WithdrawLQTY e) s = handleWithdrawLQTY h e s"
| "handle h w (AllocateLQTY e) s = handleAllocateLQTY h e s"
| "handle h w (RegisterInitiative i) s = handleRegisterInitiative h i s"
| "handle h w (UnregisterInitiative i) s = handleUnregisterInitiative h i s"

text \<open>The data source, if any, that the event comes from.\<close>

fun eventSource :: "subgraph_event \<Rightarrow> (template \<times> ds_context) option" where
  "eventSource (TroveUpdated ctx e) = Some (TroveManager_template, ctx)"
| "eventSource (BatchedTroveUpdated ctx e) = Some (TroveManager_template, ctx)"
| "eventSource (BatchUpdated ctx e) = Some (TroveManager_template, ctx)"
| "eventSource (TroveOperation ctx e) = Some (TroveManager_template, ctx)"
| "eventSource (Transfer ctx e) = Some (TroveNFT_template, ctx)"
| "eventSource (CollBalanceUpdated ctx e) = Some (CollSurplusPool_template, ctx)"
| "eventSource _ = None"

definition enabled :: "subgraph_event \<Rightarrow> store \<Rightarrow> bool" where
  "enabled ev s = (case eventSource ev of None \<Rightarrow> True
     | Some (tmpl, ctx) \<Rightarrow> list_ex (\<lambda>(t, a, c). t = tmpl \<and> c = ctx) (st_sources s))"

inductive reachable :: "host \<Rightarrow> contracts \<Rightarrow> store \<Rightarrow> bool" for h w where
  start: "reachable h w empty_store"
| step: "reachable h w s \<Longrightarrow> enabled ev s \<Longrightarrow> handle h w ev s = Inr s' \<Longrightarrow> reachable h w s'"

section \<open>What each handler of troves does\<close>

lemma handleTroveUpdatedE:
  assumes "handleTroveUpdated h ctx e s = Inr s'"
  obtains c t s1 where "ctx_getString ctx ''collId'' = Inr c"
    and "st_troves s (troveFullId h c (tu_troveId e)) = Some t"
    and "updateRateBracketDebt c (tr_interestRate t) (tu_annualInterestRate e) (tr_debt t) (tu_debt e)
           (tr_updatedAt t) (ev_timestamp e) s = Inr s1"
    and "s' = save_trove (troveFullId h c (tu_troveId e))
       (t\<lparr>tr_debt := tu_debt e, tr_deposit := tu_coll e, tr_stake := tu_stake e,
          tr_interestRate := tu_annualInterestRate e, tr_interestBatch := None,
          tr_updatedAt := ev_timestamp e\<rparr>) s1"
  using assms unfolding handleTroveUpdated_def loadTrove_def and_then_Inr or_throw_Inr by auto

lemma handleBatchedTroveUpdatedE:
  assumes "handleBatchedTroveUpdated h ctx e s = Inr s'"
  obtains b c t s1 where "getBatchUpdatedEventFrom e = Inr b" and "ctx_getString ctx ''collId'' = Inr c"
    and "st_troves s (troveFullId h c (btu_troveId e)) = Some t"
    and "updateRateBracketDebt c (tr_interestRate t) 0 (tr_debt t) 0 (tr_updatedAt t) (ev_timestamp e) s = Inr s1"
    and "s' = save_trove (troveFullId h c (btu_troveId e))
       (t\<lparr>tr_debt := batchedDebt b (btu_batchDebtShares e), tr_deposit := btu_coll e,
          tr_stake := btu_stake e, tr_interestRate := 0,
          tr_interestBatch := Some (c @ '':'' @ bytes_hex h (btu_interestBatchManager e)),
          tr_updatedAt := ev_timestamp e\<rparr>) s1"
  using assms unfolding handleBatchedTroveUpdated_def loadTrove_def and_then_Inr or_throw_Inr by auto

lemma handleBatchUpdatedE:
  assumes "handleBatchUpdated h ctx e s = Inr s'"
  obtains c b s1 where "ctx_getString ctx ''collId'' = Inr c"
    and "b = (case st_batches s (batchId h c (bu_interestBatchManager e)) of None \<Rightarrow> newBatch c e | Some b \<Rightarrow> b)"
    and "updateRateBracketDebt c (ib_annualInterestRate b) (bu_annualInterestRate e) (ib_debt b) (bu_debt e)
           (ib_updatedAt b) (ev_timestamp e) s = Inr s1"
    and "s' = save_batch (batchId h c (bu_interestBatchManager e))
          (b\<lparr>ib_debt := bu_debt e, ib_coll := bu_coll e, ib_annualInterestRate := bu_annualInterestRate e,
             ib_annualManagementFee := bu_annualManagementFee e, ib_updatedAt := ev_timestamp e\<rparr>) s1"
  using assms unfolding handleBatchUpdated_def Let_def and_then_Inr by auto

text \<open>What an operation leaves alone: the trove's position and collateral.\<close>

definition samePosition :: "trove \<Rightarrow> trove \<Rightarrow> bool" where
  "samePosition t u \<longleftrightarrow> tr_collateral t = tr_collateral u \<and> trovePosition t = trovePosition u \<and>
     tr_borrower t = tr_borrower u"

lemma operation_blocks_position:
  "openingTrove e t = Inr t1 \<Longrightarrow> samePosition t1 t"
  "samePosition (closingTrove e t) t"
  "samePosition (userAction e t) t"
  "samePosition (redemption e t) t"
  by (auto simp: openingTrove_def closingTrove_def userAction_def redemption_def samePosition_def
      trovePosition_def outcome_Inr split: if_splits)

lemma liquidation_position:
  assumes "liquidation h ctx e t s = Inr (t2, s1)"
  shows "samePosition t2 t" and "st_troves s1 = st_troves s \<and> st_brackets s1 = st_brackets s \<and>
    st_batches s1 = st_batches s \<and> st_powers s1 = st_powers s"
  using assms
  by (auto simp: liquidation_def samePosition_def trovePosition_def outcome_Inr
      split: if_splits dest: getCollSurplusFrom_frame)

lemma handleTroveOperationE:
  assumes "handleTroveOperation h ctx e s = Inr s'"
  obtains c t t1 t2 s1 where "ctx_getString ctx ''collId'' = Inr c"
    and "st_troves s (troveFullId h c (to_troveId e)) = Some t"
    and "openingTrove e t = Inr t1"
    and "liquidation h ctx e (redemption e (userAction e (closingTrove e t1))) s = Inr (t2, s1)"
    and "s' = save_trove (troveFullId h c (to_troveId e)) t2 s1"
    and "samePosition t2 t"
proof -
  from assms obtain c t t1 t2 s1 where r: "ctx_getString ctx ''collId'' = Inr c"
    "st_troves s (troveFullId h c (to_troveId e)) = Some t" "openingTrove e t = Inr t1"
    "liquidation h ctx e (redemption e (userAction e (closingTrove e t1))) s = Inr (t2, s1)"
    "s' = save_trove (troveFullId h c (to_troveId e)) t2 s1"
    unfolding handleTroveOperation_def loadTrove_def and_then_Inr or_throw_Inr by auto
  moreover have "samePosition t2 t"
    using liquidation_position(1) [OF r(4)] operation_blocks_position [of e] r(3)
    by (simp add: samePosition_def)
  ultimately show thesis by (rule that)
qed

section \<open>Every handler keeps the ledger\<close>

definition contextsGood :: "store \<Rightarrow> bool" where
  "contextsGood s \<longleftrightarrow> (\<forall>x \<in> set (st_sources s). registrySource x)"

lemma enabled_context:
  assumes "enabled ev s" and "contextsGood s" and "eventSource ev = Some (tmpl, ctx)"
    and "tmpl \<noteq> CollSurplusPool_template"
  shows "\<exists>a i n. ctx = collateralContext a (collIdOf i) i n"
  using assms by (auto simp: enabled_def contextsGood_def registrySource_def list_ex_iff)

lemma keyed_troveFullId: "CHR '':'' \<notin> set c \<Longrightarrow> keyedBy (troveFullId h c i) c' \<longleftrightarrow> c' = c"
  unfolding troveFullId_def by (rule keyedBy_key)

lemma keyed_batchId: "CHR '':'' \<notin> set c \<Longrightarrow> keyedBy (batchId h c m) c' \<longleftrightarrow> c' = c"
  unfolding batchId_def by (rule keyedBy_key)

lemma ledger_trove_coll:
  assumes "ledger s" and "CHR '':'' \<notin> set c" and "st_troves s (troveFullId h c i) = Some t"
  shows "tr_collateral t = c"
  using assms keyed_troveFullId [OF assms(2), of h i "tr_collateral t"] by (simp add: ledger_def)

lemma ledger_batch_coll:
  assumes "ledger s" and "CHR '':'' \<notin> set c" and "st_batches s (batchId h c m) = Some b"
  shows "ib_collateral b = c"
  using assms keyed_batchId [OF assms(2), of h m "ib_collateral b"] by (simp add: ledger_def)

lemma ledger_handleTroveUpdated:
  assumes "handleTroveUpdated h ctx e s = Inr s'" and led: "ledger s"
    and c: "ctx_getString ctx ''collId'' = Inr c" "CHR '':'' \<notin> set c"
  shows "ledger s'"
  using assms(1)
proof (rule handleTroveUpdatedE)
  fix c' t s1
  assume c': "ctx_getString ctx ''collId'' = Inr c'"
    and t: "st_troves s (troveFullId h c' (tu_troveId e)) = Some t"
    and upd: "updateRateBracketDebt c' (tr_interestRate t) (tu_annualInterestRate e) (tr_debt t) (tu_debt e)
           (tr_updatedAt t) (ev_timestamp e) s = Inr s1"
    and s': "s' = save_trove (troveFullId h c' (tu_troveId e))
       (t\<lparr>tr_debt := tu_debt e, tr_deposit := tu_coll e, tr_stake := tu_stake e,
          tr_interestRate := tu_annualInterestRate e, tr_interestBatch := None,
          tr_updatedAt := ev_timestamp e\<rparr>) s1"
  have "tr_collateral t = c'" using ledger_trove_coll [OF led] t c c' by auto
  then show ?thesis unfolding s'
    by (intro ledger_trove_moved [OF led upd t]) (simp_all add: trovePosition_def)
qed

lemma ledger_handleBatchedTroveUpdated:
  assumes "handleBatchedTroveUpdated h ctx e s = Inr s'" and led: "ledger s"
    and c: "ctx_getString ctx ''collId'' = Inr c" "CHR '':'' \<notin> set c"
  shows "ledger s'"
  using assms(1)
proof (rule handleBatchedTroveUpdatedE)
  fix b c' t s1
  assume c': "ctx_getString ctx ''collId'' = Inr c'"
    and t: "st_troves s (troveFullId h c' (btu_troveId e)) = Some t"
    and upd: "updateRateBracketDebt c' (tr_interestRate t) 0 (tr_debt t) 0 (tr_updatedAt t) (ev_timestamp e) s = Inr s1"
    and s': "s' = save_trove (troveFullId h c' (btu_troveId e))
       (t\<lparr>tr_debt := batchedDebt b (btu_batchDebtShares e), tr_deposit := btu_coll e,
          tr_stake := btu_stake e, tr_interestRate := 0,
          tr_interestBatch := Some (c' @ '':'' @ bytes_hex h (btu_interestBatchManager e)),
          tr_updatedAt := ev_timestamp e\<rparr>) s1"
  have "tr_collateral t = c'" using ledger_trove_coll [OF led] t c c' by auto
  then show ?thesis unfolding s'
    by (intro ledger_trove_moved [OF led upd t]) (simp_all add: trovePosition_def)
qed

lemma ledger_handleBatchUpdated:
  assumes "handleBatchUpdated h ctx e s = Inr s'" and led: "ledger s"
    and c: "ctx_getString ctx ''collId'' = Inr c" "CHR '':'' \<notin> set c"
  shows "ledger s'"
  using assms(1)
proof (rule handleBatchUpdatedE)
  fix c' b s1
  assume c': "ctx_getString ctx ''collId'' = Inr c'"
    and b: "b = (case st_batches s (batchId h c' (bu_interestBatchManager e)) of None \<Rightarrow> newBatch c' e | Some b \<Rightarrow> b)"
    and upd: "updateRateBracketDebt c' (ib_annualInterestRate b) (bu_annualInterestRate e) (ib_debt b) (bu_debt e)
           (ib_updatedAt b) (ev_timestamp e) s = Inr s1"
    and s': "s' = save_batch (batchId h c' (bu_interestBatchManager e))
          (b\<lparr>ib_debt := bu_debt e, ib_coll := bu_coll e, ib_annualInterestRate := bu_annualInterestRate e,
             ib_annualManagementFee := bu_annualManagementFee e, ib_updatedAt := ev_timestamp e\<rparr>) s1"
  have cc: "c' = c" using c(1) c' by simp
  have coll: "ib_collateral b = c'"
    using b cc c(2) ledger_batch_coll [OF led c(2)] by (auto simp: newBatch_def split: option.splits)
  have old: "case st_batches s (batchId h c' (bu_interestBatchManager e)) of None \<Rightarrow> ib_annualInterestRate b = 0
      | Some b0 \<Rightarrow> ib_collateral b0 = c' \<and> batchPosition b0 = positionAt (ib_annualInterestRate b) (ib_debt b) (ib_updatedAt b)"
    using b coll by (auto simp: newBatch_def batchPosition_def split: option.splits)
  show ?thesis unfolding s'
    by (rule ledger_batch_moved [OF led upd old])
      (simp_all add: coll batchPosition_def cc keyed_batchId c(2))
qed

lemma ledger_handleTroveOperation:
  assumes "handleTroveOperation h ctx e s = Inr s'" and led: "ledger s"
  shows "ledger s'"
  using assms(1)
proof (rule handleTroveOperationE)
  fix c t t1 t2 s1
  assume t: "st_troves s (troveFullId h c (to_troveId e)) = Some t"
    and liq: "liquidation h ctx e (redemption e (userAction e (closingTrove e t1))) s = Inr (t2, s1)"
    and s': "s' = save_trove (troveFullId h c (to_troveId e)) t2 s1" and same: "samePosition t2 t"
  note frame = liquidation_position(2) [OF liq]
  have "ledger s1" using led ledger_cong [of s1 s] frame by simp
  then show ?thesis unfolding s'
    by (rule ledger_trove_kept) (use t frame same in \<open>simp add: samePosition_def\<close>)
qed

lemma ledger_handleTransfer:
  assumes "handleTransfer h ctx e s = Inr s'" and led: "ledger s"
    and c: "ctx_getString ctx ''collId'' = Inr c" "CHR '':'' \<notin> set c"
  shows "ledger s'"
  using assms(1)
proof (rule handleTransferE)
  fix i c' t s1 s2
  assume c': "ctx_getString ctx ''collId'' = Inr c'"
    and mint: "nt_from e = zero_address \<Longrightarrow> st_troves s (troveFullId h c' (nt_tokenId e)) = None \<and> t = newTrove h c' (nt_tokenId e)"
    and move: "nt_from e \<noteq> zero_address \<Longrightarrow> st_troves s (troveFullId h c' (nt_tokenId e)) = Some t"
    and s1: "s1 = save_trove (troveFullId h c' (nt_tokenId e)) (t\<lparr>tr_previousOwner := tr_borrower t, tr_borrower := nt_to e\<rparr>) s"
    and d: "updateBorrowerTrovesCount h ctx (-1) (nt_from e) i s1 = Inr s2"
    and u: "updateBorrowerTrovesCount h ctx 1 (nt_to e) i s2 = Inr s'"
  have "ledger s1" unfolding s1
    by (rule ledger_trove_kept [OF led])
      (use mint move c c' in \<open>cases "nt_from e = zero_address";
        auto simp: newTrove_def trovePosition_def keyed_troveFullId\<close>)
  moreover have "ledger s' = ledger s1"
    by (rule ledger_cong)
      (simp_all add: updateBorrowerTrovesCount_frame [OF d] updateBorrowerTrovesCount_frame [OF u])
  ultimately show ?thesis by simp
qed

lemma ledger_handle:
  assumes "handle h w ev s = Inr s'" and led: "ledger s" and good: "contextsGood s" and en: "enabled ev s"
  shows "ledger s'"
proof (cases ev)
  case (TroveUpdated ctx e)
  then obtain a i n where "ctx = collateralContext a (collIdOf i) i n"
    using enabled_context [OF en good, of TroveManager_template ctx] by auto
  with TroveUpdated assms(1) led show ?thesis by (auto intro: ledger_handleTroveUpdated)
next
  case (BatchedTroveUpdated ctx e)
  then obtain a i n where "ctx = collateralContext a (collIdOf i) i n"
    using enabled_context [OF en good, of TroveManager_template ctx] by auto
  with BatchedTroveUpdated assms(1) led show ?thesis by (auto intro: ledger_handleBatchedTroveUpdated)
next
  case (BatchUpdated ctx e)
  then obtain a i n where "ctx = collateralContext a (collIdOf i) i n"
    using enabled_context [OF en good, of TroveManager_template ctx] by auto
  with BatchUpdated assms(1) led show ?thesis by (auto intro: ledger_handleBatchUpdated)
next
  case (Transfer ctx e)
  then obtain a i n where "ctx = collateralContext a (collIdOf i) i n"
    using enabled_context [OF en good, of TroveNFT_template ctx] by auto
  with Transfer assms(1) led show ?thesis by (auto intro: ledger_handleTransfer)
next
  case (TroveOperation ctx e)
  with assms(1) led show ?thesis by (auto intro: ledger_handleTroveOperation)
next
  case (CollateralRegistryAddressChanged r)
  with assms(1) have "st_brackets s' = st_brackets s" "st_troves s' = st_troves s" "st_batches s' = st_batches s"
    by (auto simp: handleCollateralRegistryAddressChanged_def outcome_Inr Let_def dest!: addCollaterals_frame)
  with led show ?thesis by (simp add: ledger_cong [of s' s])
next
  case (AllocateLQTY e)
  with assms(1) have "st_brackets s' = st_brackets s" "st_troves s' = st_troves s" "st_batches s' = st_batches s"
    by (simp_all add: handleAllocateLQTY_frame)
  with led show ?thesis by (simp add: ledger_cong [of s' s])
next
  case (CollBalanceUpdated ctx e)
  with assms(1) have "st_brackets s' = st_brackets s \<and> st_troves s' = st_troves s \<and> st_batches s' = st_batches s"
    by (auto dest: handleCollBalanceUpdated_frame(1))
  with led show ?thesis by (simp add: ledger_cong [of s' s])
next
  case (DepositLQTY e)
  with assms(1) have "st_brackets s' = st_brackets s \<and> st_troves s' = st_troves s \<and> st_batches s' = st_batches s"
    by (auto simp: handleDepositLQTY_def Let_def)
  with led show ?thesis by (simp add: ledger_cong [of s' s])
next
  case (WithdrawLQTY e)
  with assms(1) have "st_brackets s' = st_brackets s \<and> st_troves s' = st_troves s \<and> st_batches s' = st_batches s"
    by (auto simp: handleWithdrawLQTY_def Let_def)
  with led show ?thesis by (simp add: ledger_cong [of s' s])
next
  case (RegisterInitiative i)
  with assms(1) have "st_brackets s' = st_brackets s \<and> st_troves s' = st_troves s \<and> st_batches s' = st_batches s"
    by (auto simp: handleRegisterInitiative_def)
  with led show ?thesis by (simp add: ledger_cong [of s' s])
next
  case (UnregisterInitiative i)
  with assms(1) have "st_brackets s' = st_brackets s \<and> st_troves s' = st_troves s \<and> st_batches s' = st_batches s"
    by (auto simp: handleUnregisterInitiative_def outcome_Inr)
  with led show ?thesis by (simp add: ledger_cong [of s' s])
qed

section \<open>The other invariants of a run\<close>

lemma setCollSurplusPool_sources:
  assumes "setCollSurplusPool ctx pool s = Inr s'" and "contextsGood s"
  shows "contextsGood s'"
proof -
  from assms(1) obtain c a where "ctx_getString ctx ''collId'' = Inr c" and "st_addresses s c = Some a"
      and rest: "(if ca_collSurplusPool a = None then
        and_then (ctx_getI32 ctx ''collIndex'') (\<lambda>i.
          Inr (s\<lparr>st_sources := st_sources s @ [(CollSurplusPool_template, pool, Map.empty(''collIndex'' \<mapsto> Ctx_i32 i))],
            st_addresses := (st_addresses s)(c \<mapsto> a\<lparr>ca_collSurplusPool := Some pool\<rparr>)\<rparr>))
        else Inr s) = (Inr s' :: store outcome)"
    unfolding setCollSurplusPool_def and_then_Inr or_throw_Inr by (elim exE conjE) (rule that)
  with assms(2) show ?thesis
    by (cases "ca_collSurplusPool a = None") (auto simp: outcome_Inr contextsGood_def)
qed

lemma getCollSurplusFrom_sources:
  assumes "getCollSurplusFrom h ctx li receipt s = Inr (change, logs, s')" and "contextsGood s"
  shows "contextsGood s'"
  using assms(1)
proof (cases rule: getCollSurplusFromE)
  case (log logs' i s1 account)
  have "contextsGood s1" using log(3) assms(2) by (rule setCollSurplusPool_sources)
  then show ?thesis
    using getCollSurplusBalanceChange_Inr [OF log(6)] by (auto simp: contextsGood_def save_borrower_def)
qed (use assms(2) in simp)

lemma updateRateBracketDebt_sources:
  assumes "updateRateBracketDebt c r r' d d' t now s = Inr s'"
  shows "st_sources s' = st_sources s"
  using assms
  by (elim updateRateBracketDebtE)
    (auto simp: addToNewBracket_def saveHeld_def save_bracket_def Let_def split: if_splits option.splits)

definition countsBalanced :: "store \<Rightarrow> bool" where
  "countsBalanced s \<longleftrightarrow> finite (dom (st_borrowers s)) \<and>
     (\<forall>j. tally (troveCount j) (st_borrowers s) = 0) \<and> tally bo_troves (st_borrowers s) = 0"

lemma sameCounts_count: "sameCounts y x \<Longrightarrow> troveCount j y = troveCount j x"
  by (simp add: sameCounts_def troveCount_def)

lemma surplusOnly_counts:
  assumes "surplusOnly s s'" and "countsBalanced s"
  shows "countsBalanced s'"
proof -
  have fin: "finite (dom (st_borrowers s))" using assms(2) by (simp add: countsBalanced_def)
  show ?thesis
    using surplusOnly_tally(1) [OF assms(1) fin sameCounts_count]
      surplusOnly_tally [OF assms(1) fin, of bo_troves] assms(2)
    by (auto simp: countsBalanced_def sameCounts_def)
qed

lemma rateBracketId_nonempty [simp]: "rateBracketId c r \<noteq> []"
  by (simp add: rateBracketId_def)

lemma updateRateBracketDebt_ids:
  assumes "updateRateBracketDebt c r r' d d' t now s = Inr s'" and "idsNonempty s"
  shows "idsNonempty s'"
proof -
  have "[] \<notin> dom (st_brackets s')"
    using assms(2) by (auto simp: updateRateBracketDebt_dom [OF assms(1)] idsNonempty_def
        rateBracketId_nonempty [symmetric] split: if_splits)
  then show ?thesis by (simp add: idsNonempty_def domIff)
qed

lemma addCollaterals_counts:
  assumes "handleCollateralRegistryAddressChanged w r s = Inr s'" and "contextsGood s"
  shows "st_brackets s' = st_brackets s \<and> st_borrowers s' = st_borrowers s \<and> st_powers s' = st_powers s \<and> contextsGood s'"
  using assms
  by (auto simp: handleCollateralRegistryAddressChanged_def outcome_Inr Let_def contextsGood_def
      dest: addCollaterals_frame addCollaterals_sources)

lemma others_of_update:
  assumes "updateRateBracketDebt c r r' d d' t now s = Inr s1" and "idsNonempty s" "contextsGood s" "countsBalanced s"
  shows "idsNonempty s1 \<and> contextsGood s1 \<and> countsBalanced s1"
  using assms updateRateBracketDebt_ids [OF assms(1)] updateRateBracketDebt_sources [OF assms(1)]
    updateRateBracketDebt_frame [OF assms(1)]
  by (simp add: contextsGood_def countsBalanced_def)

definition othersGood :: "store \<Rightarrow> bool" where
  "othersGood s \<longleftrightarrow> idsNonempty s \<and> contextsGood s \<and> countsBalanced s"

lemma othersGood_cong:
  assumes "st_brackets s' = st_brackets s" "st_sources s' = st_sources s" "st_borrowers s' = st_borrowers s"
  shows "othersGood s' \<longleftrightarrow> othersGood s"
  using assms by (simp add: othersGood_def idsNonempty_def contextsGood_def countsBalanced_def)

lemma othersGood_save [simp]:
  "othersGood (save_trove i t s) = othersGood s"
  "othersGood (save_batch i b s) = othersGood s"
  "othersGood (save_power i p s) = othersGood s"
  "othersGood (saveAllocation x s) = othersGood s"
  by (rule othersGood_cong; simp add: save_trove_def save_batch_def save_power_def saveAllocation_def Let_def
      split: prod.splits option.splits)+

lemma liquidation_others:
  assumes "liquidation h ctx e t s = Inr (t2, s1)" and "othersGood s"
  shows "othersGood s1"
proof (cases "to_operation e = OP_LIQUIDATE")
  case True
  with assms(1) obtain surplus logs where
      get: "getCollSurplusFrom h ctx (ev_logIndex e) (ev_receipt e) s = Inr (surplus, logs, s1)"
    by (auto simp: liquidation_def outcome_Inr)
  show ?thesis
    using assms(2) getCollSurplusFrom_sources [OF get] surplusOnly_counts [OF getCollSurplusFrom_borrowers [OF get]]
      getCollSurplusFrom_frame [OF get]
    by (simp add: othersGood_def idsNonempty_def)
qed (use assms in \<open>simp add: liquidation_def\<close>)

lemma handleTransfer_others:
  assumes "handleTransfer h ctx e s = Inr s'" and "othersGood s"
  shows "othersGood s'"
proof -
  have fin: "finite (dom (st_borrowers s))" using assms(2) by (simp add: othersGood_def countsBalanced_def)
  have "st_brackets s' = st_brackets s \<and> st_sources s' = st_sources s"
    using assms(1) by (elim handleTransferE updateBorrowerTrovesCountE)
      (simp add: save_borrower_def save_trove_def)
  then show ?thesis
    using assms(2) handleTransfer_tally [OF assms(1) fin]
    by (simp add: othersGood_def idsNonempty_def contextsGood_def countsBalanced_def)
qed

lemma othersGood_handle:
  assumes h: "handle h w ev s = Inr s'" and good: "othersGood s"
  shows "othersGood s'"
proof (cases ev)
  case (TroveUpdated ctx e)
  with h good show ?thesis
    by (auto elim!: handleTroveUpdatedE dest: others_of_update simp: othersGood_def [of s] intro: others_of_update [folded othersGood_def])
next
  case (BatchedTroveUpdated ctx e)
  with h good show ?thesis
    by (auto elim!: handleBatchedTroveUpdatedE simp: othersGood_def [of s] intro: others_of_update [folded othersGood_def])
next
  case (BatchUpdated ctx e)
  with h good show ?thesis
    by (auto elim!: handleBatchUpdatedE simp: othersGood_def [of s] intro: others_of_update [folded othersGood_def])
next
  case (TroveOperation ctx e)
  with h good show ?thesis by (auto elim!: handleTroveOperationE dest: liquidation_others)
next
  case (Transfer ctx e)
  with h good show ?thesis by (auto dest: handleTransfer_others)
next
  case (CollBalanceUpdated ctx e)
  then have e: "handleCollBalanceUpdated h ctx e s = Inr s'" using h by simp
  show ?thesis
    using good handleCollBalanceUpdated_frame [OF e] surplusOnly_counts [of s s']
    by (simp add: othersGood_def idsNonempty_def contextsGood_def)
next
  case (CollateralRegistryAddressChanged r)
  then have r: "handleCollateralRegistryAddressChanged w r s = Inr s'" using h by simp
  show ?thesis
    using good addCollaterals_counts [OF r] by (simp add: othersGood_def idsNonempty_def countsBalanced_def)
next
  case (AllocateLQTY e)
  with h good show ?thesis by (auto elim!: handleAllocateLQTYE)
next
  case (DepositLQTY e)
  with h good show ?thesis by (auto simp: handleDepositLQTY_def Let_def)
next
  case (WithdrawLQTY e)
  with h good show ?thesis by (auto simp: handleWithdrawLQTY_def Let_def)
next
  case (RegisterInitiative i)
  with h have "st_brackets s' = st_brackets s \<and> st_sources s' = st_sources s \<and> st_borrowers s' = st_borrowers s"
    by (auto simp: handleRegisterInitiative_def)
  with good show ?thesis by (simp add: othersGood_cong [of s' s])
next
  case (UnregisterInitiative i)
  with h have "st_brackets s' = st_brackets s \<and> st_sources s' = st_sources s \<and> st_borrowers s' = st_borrowers s"
    by (auto simp: handleUnregisterInitiative_def outcome_Inr)
  with good show ?thesis by (simp add: othersGood_cong [of s' s])
qed

section \<open>Reachable stores\<close>

lemma othersGood_empty: "othersGood empty_store"
  by (simp add: othersGood_def empty_store_def idsNonempty_def contextsGood_def countsBalanced_def)

lemma reachable_invariants: "reachable h w s \<Longrightarrow> ledger s \<and> othersGood s"
proof (induction rule: reachable.induct)
  case start
  show ?case by (simp add: ledger_empty othersGood_empty)
next
  case (step s ev s')
  then have "ledger s'" using ledger_handle [OF step(3)] by (simp add: othersGood_def)
  moreover have "othersGood s'" using othersGood_handle [OF step(3)] step.IH by simp
  ultimately show ?case by simp
qed

lemma powersAgree_empty: "powersAgree empty_store"
  by (auto simp: powersAgree_def empty_store_def getVotingPower_def noPower_def usersSum_def)

lemma powersAgree_cong: "st_powers s' = st_powers s \<Longrightarrow> powersAgree s' = powersAgree s"
  by (simp add: powersAgree_def getVotingPower_def usersSum_def)

lemma handle_powers:
  assumes h: "handle h w ev s = Inr s'" and agree: "powersAgree s" and good: "contextsGood s"
    and hex: "\<And>b. bytes_hex h b \<noteq> ''total''"
  shows "powersAgree s'"
proof (cases ev)
  case (DepositLQTY e)
  with h agree hex show ?thesis by (auto intro: handleDepositLQTY_agree)
next
  case (WithdrawLQTY e)
  with h agree hex show ?thesis by (auto intro: handleWithdrawLQTY_agree)
next
  case (AllocateLQTY e)
  with h agree hex show ?thesis by (auto intro: handleAllocateLQTY_agree)
next
  case (TroveUpdated ctx e)
  with h have "st_powers s' = st_powers s"
    by (auto elim!: handleTroveUpdatedE dest: updateRateBracketDebt_frame)
  with agree show ?thesis by (simp add: powersAgree_cong [of s' s])
next
  case (BatchedTroveUpdated ctx e)
  with h have "st_powers s' = st_powers s"
    by (auto elim!: handleBatchedTroveUpdatedE dest: updateRateBracketDebt_frame)
  with agree show ?thesis by (simp add: powersAgree_cong [of s' s])
next
  case (BatchUpdated ctx e)
  with h have "st_powers s' = st_powers s"
    by (auto elim!: handleBatchUpdatedE dest: updateRateBracketDebt_frame)
  with agree show ?thesis by (simp add: powersAgree_cong [of s' s])
next
  case (TroveOperation ctx e)
  with h have "st_powers s' = st_powers s"
    by (auto elim!: handleTroveOperationE dest: liquidation_position(2))
  with agree show ?thesis by (simp add: powersAgree_cong [of s' s])
next
  case (Transfer ctx e)
  with h have "st_powers s' = st_powers s"
    by (auto elim!: handleTransferE updateBorrowerTrovesCountE)
  with agree show ?thesis by (simp add: powersAgree_cong [of s' s])
next
  case (CollBalanceUpdated ctx e)
  with h have "st_powers s' = st_powers s" by (auto dest: handleCollBalanceUpdated_frame(1))
  with agree show ?thesis by (simp add: powersAgree_cong [of s' s])
next
  case (CollateralRegistryAddressChanged r)
  with h good have "st_powers s' = st_powers s" by (auto dest: addCollaterals_counts)
  with agree show ?thesis by (simp add: powersAgree_cong [of s' s])
next
  case (RegisterInitiative i)
  with h have "st_powers s' = st_powers s" by (auto simp: handleRegisterInitiative_def)
  with agree show ?thesis by (simp add: powersAgree_cong [of s' s])
next
  case (UnregisterInitiative i)
  with h have "st_powers s' = st_powers s" by (auto simp: handleUnregisterInitiative_def outcome_Inr)
  with agree show ?thesis by (simp add: powersAgree_cong [of s' s])
qed

lemma reachable_powersAgree:
  assumes "reachable h w s" and hex: "\<And>b. bytes_hex h b \<noteq> ''total''"
  shows "powersAgree s"
  using assms(1)
proof (induction rule: reachable.induct)
  case start
  show ?case by (rule powersAgree_empty)
next
  case (step s ev s')
  show ?case
    by (rule handle_powers [OF step(3) step.IH _ hex])
      (use reachable_invariants [OF step(1)] in \<open>simp add: othersGood_def\<close>)
qed

section \<open>No bracket is missing\<close>

lemma ledger_books:
  assumes "ledger s" and "st_brackets s k = Some b"
  shows "books w b = troveShares w k s + batchShares w k s"
proof -
  have "booked w s k = troveShares w k s + batchShares w k s" using assms(1) by (simp add: ledger_def)
  with assms(2) show ?thesis by (simp add: booked_def)
qed

lemma handleBatchUpdated_returns:
  assumes led: "ledger s" and "contextsGood s" and "enabled (BatchUpdated ctx e) s"
  shows "returns (handleBatchUpdated h ctx e s)"
proof -
  obtain a i n where ctx: "ctx = collateralContext a (collIdOf i) i n"
    using enabled_context [OF assms(3,2)] by fastforce
  let ?b = "case st_batches s (batchId h (collIdOf i) (bu_interestBatchManager e)) of
    None \<Rightarrow> newBatch (collIdOf i) e | Some b \<Rightarrow> b"
  have "ib_annualInterestRate ?b = 0 \<or> st_brackets s (rateBracketId (collIdOf i) (ib_annualInterestRate ?b)) \<noteq> None"
  proof (cases "st_batches s (batchId h (collIdOf i) (bu_interestBatchManager e))")
    case (Some b)
    have "hasBracket s (ib_collateral b) (batchPosition b)" using led Some by (simp add: ledger_def)
    moreover have "ib_collateral b = collIdOf i" by (rule ledger_batch_coll [OF led collIdOf_no_colon Some])
    ultimately show ?thesis using Some by (simp add: hasBracket_def batchPosition_def)
  qed (simp add: newBatch_def)
  then have "returns (updateRateBracketDebt (collIdOf i) (ib_annualInterestRate ?b) (bu_annualInterestRate e)
      (ib_debt ?b) (bu_debt e) (ib_updatedAt ?b) (ev_timestamp e) s)"
    by (simp only: updateRateBracketDebt_returns)
  then show ?thesis by (auto simp: ctx handleBatchUpdated_def Let_def returns_iff)
qed

lemma handleTroveUpdated_returns:
  assumes led: "ledger s" and "contextsGood s" and "enabled (TroveUpdated ctx e) s"
  shows "\<exists>c. ctx_getString ctx ''collId'' = Inr c \<and>
    (returns (handleTroveUpdated h ctx e s) \<longleftrightarrow> st_troves s (troveFullId h c (tu_troveId e)) \<noteq> None)"
proof -
  obtain a i n where ctx: "ctx = collateralContext a (collIdOf i) i n"
    using enabled_context [OF assms(3,2)] by fastforce
  have "returns (updateRateBracketDebt (collIdOf i) (tr_interestRate t) r' d d' t0 now s)"
    if t: "st_troves s (troveFullId h (collIdOf i) (tu_troveId e)) = Some t" for t r' d d' t0 now
  proof -
    have "hasBracket s (tr_collateral t) (trovePosition t)" using led t by (simp add: ledger_def)
    moreover have "tr_collateral t = collIdOf i" by (rule ledger_trove_coll [OF led collIdOf_no_colon t])
    ultimately show ?thesis by (simp add: hasBracket_def trovePosition_def updateRateBracketDebt_returns)
  qed
  then have "returns (handleTroveUpdated h ctx e s) \<longleftrightarrow> st_troves s (troveFullId h (collIdOf i) (tu_troveId e)) \<noteq> None"
    unfolding returns_iff ctx
    by (fastforce simp: handleTroveUpdated_def loadTrove_def outcome_Inr)
  then show ?thesis by (simp add: ctx)
qed

end
