(* ===== verification/Subgraph_Owners.thy ===== *)
theory Subgraph_Owners
  imports Subgraph_Run
begin

text \<open>
  Owners and their counts: along a run in which every transfer names the trove's current
  owner (what ERC-721 guarantees of its Transfer events), the count a borrower keeps for a
  collateral is the number of that collateral's troves it owns. The zero address is the
  exception: it pays for every mint.
\<close>

section \<open>Counting troves by owner\<close>

definition ownedBy :: "bytes \<Rightarrow> string \<Rightarrow> trove \<Rightarrow> i32" where
  "ownedBy o1 c t = (if tr_borrower t = o1 \<and> tr_collateral t = c then 1 else 0)"

definition ownersAgree :: "host \<Rightarrow> store \<Rightarrow> bool" where
  "ownersAgree h s \<longleftrightarrow> (\<forall>o1 i. o1 \<noteq> zero_address \<longrightarrow>
     entry_share (troveCount i) (st_borrowers s (bytes_hex h o1)) = tally (ownedBy o1 (collIdOf i)) (st_troves s))"

definition honestTransfer :: "host \<Rightarrow> subgraph_event \<Rightarrow> store \<Rightarrow> bool" where
  "honestTransfer h ev s = (case ev of
     Transfer ctx e \<Rightarrow>
       nt_from e = zero_address \<or>
       (case ctx_getString ctx ''collId'' of
          Inl _ \<Rightarrow> True
        | Inr c \<Rightarrow> (case st_troves s (troveFullId h c (nt_tokenId e)) of
            None \<Rightarrow> True | Some t \<Rightarrow> tr_borrower t = nt_from e))
   | _ \<Rightarrow> True)"

inductive honestlyReachable :: "host \<Rightarrow> contracts \<Rightarrow> store \<Rightarrow> bool" for h w where
  start: "honestlyReachable h w empty_store"
| step: "honestlyReachable h w s \<Longrightarrow> enabled ev s \<Longrightarrow> honestTransfer h ev s \<Longrightarrow> handle h w ev s = Inr s' \<Longrightarrow>
     honestlyReachable h w s'"

lemma honestlyReachable_reachable: "honestlyReachable h w s \<Longrightarrow> reachable h w s"
  by (induction rule: honestlyReachable.induct) (auto intro: reachable.intros)

section \<open>Frames\<close>

text \<open>Writing a trove with the same owner and collateral keeps every owner's number.\<close>

lemma owned_kept:
  assumes "finite (dom m)" and "m i = Some t" and "tr_borrower t' = tr_borrower t" and "tr_collateral t' = tr_collateral t"
  shows "tally (ownedBy o1 c) (m(i \<mapsto> t')) = tally (ownedBy o1 c) m"
  using assms by (simp add: tally_upd ownedBy_def)

lemma ownersAgree_cong:
  assumes "\<And>o1 c. tally (ownedBy o1 c) (st_troves s') = tally (ownedBy o1 c) (st_troves s)"
    and "\<And>i k. entry_share (troveCount i) (st_borrowers s' k) = entry_share (troveCount i) (st_borrowers s k)"
  shows "ownersAgree h s' = ownersAgree h s"
  using assms by (simp add: ownersAgree_def)

lemma surplusOnly_shares:
  assumes "surplusOnly s s'"
  shows "entry_share (troveCount i) (st_borrowers s' k) = entry_share (troveCount i) (st_borrowers s k)"
  using assms by (auto simp: surplusOnly_def sameCounts_count)

lemma collIdOf_inject [simp]: "collIdOf i = collIdOf j \<longleftrightarrow> i = j"
  by (auto simp: collIdOf_def intro: signed_word_eqI)

section \<open>Transfers\<close>

lemma updateBorrowerTrovesCount_share:
  assumes upd: "updateBorrowerTrovesCount h ctx delta b i s = Inr s'"
  shows "entry_share (troveCount j) (st_borrowers s' k) = entry_share (troveCount j) (st_borrowers s k)
    + (if k = bytes_hex h b \<and> j = i then delta else 0)"
  using upd
proof (rule updateBorrowerTrovesCountE)
  fix count info
  assume info: "loadOrNewBorrower count (bytes_hex h b) s = Inr info"
    and len: "unat i < length (bo_trovesByCollateral info)"
    and s': "s' = save_borrower (bytes_hex h b) (bumped delta i info) s"
  have "entry_share (troveCount j) (st_borrowers s (bytes_hex h b)) = troveCount j info"
    using info by (rule loadOrNewBorrower_share) simp
  moreover have "troveCount j (bumped delta i info) = troveCount j info + (if j = i then delta else 0)"
    using len by (auto simp: troveCount_def nth_list_update word_unat_eq_iff)
  ultimately show ?thesis using s' by auto
qed

lemma ownersAgree_transfer:
  assumes tr: "handleTransfer h (collateralContext a (collIdOf n) n m) e s = Inr s'"
    and agree: "ownersAgree h s" and led: "ledger s"
    and honest: "honestTransfer h (Transfer (collateralContext a (collIdOf n) n m) e) s"
    and inj: "inj (bytes_hex h)"
  shows "ownersAgree h s'"
  using tr
proof (rule handleTransferE)
  fix i c t s1 s2
  assume i: "ctx_getI32 (collateralContext a (collIdOf n) n m) ''collIndex'' = Inr i"
    and c: "ctx_getString (collateralContext a (collIdOf n) n m) ''collId'' = Inr c"
    and mint: "nt_from e = zero_address \<Longrightarrow> st_troves s (troveFullId h c (nt_tokenId e)) = None \<and> t = newTrove h c (nt_tokenId e)"
    and move: "nt_from e \<noteq> zero_address \<Longrightarrow> st_troves s (troveFullId h c (nt_tokenId e)) = Some t"
    and s1: "s1 = save_trove (troveFullId h c (nt_tokenId e)) (t\<lparr>tr_previousOwner := tr_borrower t, tr_borrower := nt_to e\<rparr>) s"
    and d: "updateBorrowerTrovesCount h (collateralContext a (collIdOf n) n m) (-1) (nt_from e) i s1 = Inr s2"
    and u: "updateBorrowerTrovesCount h (collateralContext a (collIdOf n) n m) 1 (nt_to e) i s2 = Inr s'"
  have [simp]: "i = n" "c = collIdOf n" using i c by simp_all
  have fin: "finite (dom (st_troves s))" using led by (simp add: ledger_def)
  have troves: "st_troves s' = st_troves s1"
    by (simp add: updateBorrowerTrovesCount_frame [OF d] updateBorrowerTrovesCount_frame [OF u])
  have coll: "tr_collateral t = collIdOf n"
    using mint move ledger_trove_coll [OF led, of "collIdOf n" h "nt_tokenId e" t]
    by (cases "nt_from e = zero_address") (auto simp: newTrove_def)
  have from_owner: "nt_from e \<noteq> zero_address \<Longrightarrow> tr_borrower t = nt_from e"
    using honest move by (auto simp: honestTransfer_def)
  have count: "entry_share (troveCount j) (st_borrowers s' (bytes_hex h o1)) =
      entry_share (troveCount j) (st_borrowers s (bytes_hex h o1))
      + (if o1 = nt_from e \<and> j = n then -1 else 0) + (if o1 = nt_to e \<and> j = n then 1 else 0)" for j o1
    by (simp add: updateBorrowerTrovesCount_share [OF d] updateBorrowerTrovesCount_share [OF u] s1
        inj_eq [OF inj])
  have owned: "tally (ownedBy o1 (collIdOf j)) (st_troves s') =
      tally (ownedBy o1 (collIdOf j)) (st_troves s)
      + (if o1 = nt_from e \<and> j = n then -1 else 0) + (if o1 = nt_to e \<and> j = n then 1 else 0)"
    if "o1 \<noteq> zero_address" for j o1
    using that mint move from_owner coll fin unfolding troves s1
    by (cases "nt_from e = zero_address") (auto simp: tally_upd ownedBy_def)
  show "ownersAgree h s'"
    using agree by (simp add: ownersAgree_def count owned)
qed

section \<open>Every handler\<close>

lemma ownersAgree_handle:
  assumes h: "handle h w ev s = Inr s'" and agree: "ownersAgree h s" and led: "ledger s"
    and good: "contextsGood s" and en: "enabled ev s" and honest: "honestTransfer h ev s"
    and inj: "inj (bytes_hex h)"
  shows "ownersAgree h s'"
proof -
  have fin: "finite (dom (st_troves s))" using led by (simp add: ledger_def)
  show ?thesis
  proof (cases ev)
    case (Transfer ctx e)
    then obtain a i n where "ctx = collateralContext a (collIdOf i) i n"
      using enabled_context [OF en good, of TroveNFT_template ctx] by auto
    with Transfer h honest show ?thesis by (auto intro: ownersAgree_transfer [OF _ agree led _ inj])
  next
    case (TroveUpdated ctx e)
    then have "handleTroveUpdated h ctx e s = Inr s'" using h by simp
    then have "ownersAgree h s' = ownersAgree h s"
      by (elim handleTroveUpdatedE, intro ownersAgree_cong)
        (use fin in \<open>auto dest!: updateRateBracketDebt_frame simp: owned_kept\<close>)
    with agree show ?thesis by simp
  next
    case (BatchedTroveUpdated ctx e)
    then have "handleBatchedTroveUpdated h ctx e s = Inr s'" using h by simp
    then have "ownersAgree h s' = ownersAgree h s"
      by (elim handleBatchedTroveUpdatedE, intro ownersAgree_cong)
        (use fin in \<open>auto dest!: updateRateBracketDebt_frame simp: owned_kept\<close>)
    with agree show ?thesis by simp
  next
    case (BatchUpdated ctx e)
    then have "handleBatchUpdated h ctx e s = Inr s'" using h by simp
    then have "ownersAgree h s' = ownersAgree h s"
      by (elim handleBatchUpdatedE, intro ownersAgree_cong) (auto dest!: updateRateBracketDebt_frame)
    with agree show ?thesis by simp
  next
    case (TroveOperation ctx e)
    then have "handleTroveOperation h ctx e s = Inr s'" using h by simp
    then show ?thesis
    proof (rule handleTroveOperationE)
      fix c t t1 t2 s1
      assume t: "st_troves s (troveFullId h c (to_troveId e)) = Some t"
        and liq: "liquidation h ctx e (redemption e (userAction e (closingTrove e t1))) s = Inr (t2, s1)"
        and s': "s' = save_trove (troveFullId h c (to_troveId e)) t2 s1" and same: "samePosition t2 t"
      have "surplusOnly s s1"
        using liq by (auto simp: liquidation_def outcome_Inr surplusOnly_def [of s1 s1]
            split: if_splits dest: getCollSurplusFrom_borrowers)
      then have "ownersAgree h s' = ownersAgree h s"
        by (intro ownersAgree_cong)
          (use s' t same fin liquidation_position(2) [OF liq] in
            \<open>auto simp: samePosition_def owned_kept surplusOnly_shares\<close>)
      with agree show ?thesis by simp
    qed
  next
    case (CollBalanceUpdated ctx e)
    then have e: "handleCollBalanceUpdated h ctx e s = Inr s'" using h by simp
    have "ownersAgree h s' = ownersAgree h s"
      by (intro ownersAgree_cong) (use handleCollBalanceUpdated_frame [OF e] in \<open>simp_all add: surplusOnly_shares\<close>)
    with agree show ?thesis by simp
  next
    case (CollateralRegistryAddressChanged r)
    then have "st_troves s' = st_troves s \<and> st_borrowers s' = st_borrowers s"
      using h by (auto simp: handleCollateralRegistryAddressChanged_def outcome_Inr Let_def dest!: addCollaterals_frame)
    then show ?thesis using agree ownersAgree_cong [of s' s h] by simp
  next
    case (AllocateLQTY e)
    then have "st_troves s' = st_troves s \<and> st_borrowers s' = st_borrowers s"
      using h by (simp add: handleAllocateLQTY_frame)
    then show ?thesis using agree ownersAgree_cong [of s' s h] by simp
  next
    case (DepositLQTY e)
    then have "st_troves s' = st_troves s \<and> st_borrowers s' = st_borrowers s"
      using h by (auto simp: handleDepositLQTY_def Let_def)
    then show ?thesis using agree ownersAgree_cong [of s' s h] by simp
  next
    case (WithdrawLQTY e)
    then have "st_troves s' = st_troves s \<and> st_borrowers s' = st_borrowers s"
      using h by (auto simp: handleWithdrawLQTY_def Let_def)
    then show ?thesis using agree ownersAgree_cong [of s' s h] by simp
  next
    case (RegisterInitiative i)
    then have "st_troves s' = st_troves s \<and> st_borrowers s' = st_borrowers s"
      using h by (auto simp: handleRegisterInitiative_def)
    then show ?thesis using agree ownersAgree_cong [of s' s h] by simp
  next
    case (UnregisterInitiative i)
    then have "st_troves s' = st_troves s \<and> st_borrowers s' = st_borrowers s"
      using h by (auto simp: handleUnregisterInitiative_def outcome_Inr)
    then show ?thesis using agree ownersAgree_cong [of s' s h] by simp
  qed
qed

lemma ownersAgree_reachable:
  assumes "honestlyReachable h w s" and inj: "inj (bytes_hex h)"
  shows "ownersAgree h s"
  using assms(1)
proof (induction rule: honestlyReachable.induct)
  case start
  show ?case by (simp add: ownersAgree_def empty_store_def)
next
  case (step s ev s')
  then have "ledger s \<and> othersGood s" by (intro reachable_invariants honestlyReachable_reachable)
  then show ?case
    using ownersAgree_handle [OF step(4) step.IH _ _ step(2,3) inj] by (simp add: othersGood_def)
qed

end
