(* ===== verification/Subgraph_Sample.thy ===== *)
theory Subgraph_Sample
  imports Subgraph_Owners
begin

text \<open>
  A concrete run of the subgraph, used by the witnesses: one collateral is registered, a
  trove is minted, gets a debt and a rate, and a batch is opened. The runtime prints hex
  in an injective stand-in, and every contract view answers.
\<close>

fun runEvents :: "host \<Rightarrow> contracts \<Rightarrow> subgraph_event list \<Rightarrow> store \<Rightarrow> store outcome" where
  "runEvents h w [] s = Inr s"
| "runEvents h w (ev # evs) s =
     (if enabled ev s \<and> honestTransfer h ev s then and_then (handle h w ev s) (runEvents h w evs)
      else Inl ''not enabled'')"

lemma runEvents_honest:
  "honestlyReachable h w s \<Longrightarrow> runEvents h w evs s = Inr s' \<Longrightarrow> honestlyReachable h w s'"
  by (induction evs arbitrary: s) (auto simp: outcome_Inr split: if_splits intro: honestlyReachable.step)

text \<open>Bytes as text: every byte as 256 plus its value in decimal digits.\<close>

definition sampleHost :: host where
  "sampleHost = \<lparr>big_hex = (\<lambda>n. ''0x'' @ dec_of_int n),
     bytes_hex = (\<lambda>b. ''0x'' @ concat (map (\<lambda>x. [char_of (unat x)]) b))\<rparr>"

definition sampleContracts :: contracts where
  "sampleContracts = \<lparr>reg_totalCollaterals = (\<lambda>_. Inr 1), reg_getToken = (\<lambda>_ _. Inr [1]),
     reg_getTroveManager = (\<lambda>_ _. Inr [2]), tm_borrowerOperations = (\<lambda>_. Inr [3]),
     tm_sortedTroves = (\<lambda>_. Inr [4]), tm_stabilityPool = (\<lambda>_. Inr [5]), tm_troveNFT = (\<lambda>_. Inr [6]),
     bo_MCR = (\<lambda>_. Inr 1100000000000000000)\<rparr>"

definition sampleContext :: ds_context where
  "sampleContext = collateralContext (newAddresses (collIdOf 0) [3] [4] [5] [1] [2] [6]) (collIdOf 0) 0 1"

definition sampleMint :: nft_transfer where
  "sampleMint = \<lparr>ev_timestamp = 100, ev_logIndex = 1, ev_receipt = None,
     nt_from = zero_address, nt_to = replicate 20 7, nt_tokenId = 42\<rparr>"

definition sampleUpdate :: trove_updated where
  "sampleUpdate = \<lparr>ev_timestamp = 100, ev_logIndex = 2, ev_receipt = None,
     tu_troveId = 42, tu_debt = 2000, tu_coll = 5, tu_stake = 5, tu_annualInterestRate = 44123456789012345\<rparr>"

definition sampleBatch :: batch_updated where
  "sampleBatch = \<lparr>ev_timestamp = 200, ev_logIndex = 3, ev_receipt = None,
     bu_interestBatchManager = replicate 20 9, bu_operation = 0, bu_debt = 300, bu_coll = 1,
     bu_annualInterestRate = 44000000000000000, bu_annualManagementFee = 0, bu_totalDebtShares = 300,
     bu_debtIncreaseFromUpfrontFee = 0\<rparr>"

definition sampleDeposit :: lqty_event where
  "sampleDeposit = \<lparr>ev_timestamp = 300, ev_logIndex = 4, ev_receipt = None,
     lq_user = replicate 20 7, lq_amount = 1000\<rparr>"

definition sampleEvents :: "subgraph_event list" where
  "sampleEvents = [CollateralRegistryAddressChanged [0], Transfer sampleContext sampleMint,
     TroveUpdated sampleContext sampleUpdate, BatchUpdated sampleContext sampleBatch,
     DepositLQTY sampleDeposit]"

lemma sampleContext_get [simp]:
  "ctx_getString sampleContext ''collId'' = Inr (collIdOf 0)"
  "ctx_getI32 sampleContext ''collIndex'' = Inr 0"
  "ctx_getI32 sampleContext ''totalCollaterals'' = Inr 1"
  by (simp_all add: sampleContext_def)

section \<open>The run, step by step\<close>

definition sampleStore1 :: store where
  "sampleStore1 = empty_store\<lparr>
     st_collaterals := [collIdOf 0 \<mapsto> \<lparr>co_collIndex = 0, co_minCollRatio = 1100000000000000000\<rparr>],
     st_addresses := [collIdOf 0 \<mapsto> newAddresses (collIdOf 0) [3] [4] [5] [1] [2] [6]],
     st_sources := [(TroveManager_template, [2], sampleContext), (TroveNFT_template, [6], sampleContext)]\<rparr>"

lemma sample_step1: "handle sampleHost sampleContracts (CollateralRegistryAddressChanged [0]) empty_store = Inr sampleStore1"
  by (simp add: handleCollateralRegistryAddressChanged_def sampleContracts_def addCollateral_def
      sampleStore1_def empty_store_def sampleContext_def newAddresses_def Let_def)

definition sampleKey :: string where
  "sampleKey = troveFullId sampleHost (collIdOf 0) 42"

definition sampleStore2 :: store where
  "sampleStore2 = sampleStore1\<lparr>
     st_troves := [sampleKey \<mapsto> (newTrove sampleHost (collIdOf 0) 42)\<lparr>tr_previousOwner := zero_address, tr_borrower := replicate 20 7\<rparr>],
     st_borrowers := [bytes_hex sampleHost zero_address \<mapsto> bumped (-1) 0 (newBorrower 1),
                      bytes_hex sampleHost (replicate 20 7) \<mapsto> bumped 1 0 (newBorrower 1)]\<rparr>"

lemma sampleHost_hex_inj: "inj (bytes_hex sampleHost)"
proof (rule injI)
  fix x y :: bytes
  have char: "char_of (unat a) = char_of (unat b) \<longleftrightarrow> a = b" for a b :: "8 word"
  proof -
    have "unat c < 2 ^ LENGTH(8)" for c :: "8 word" by (rule unsigned_less)
    then have "unat (c :: 8 word) < 256" for c by simp
    then show ?thesis by (metis of_char_of mod_less word_unat_eq_iff)
  qed
  have "concat (map (\<lambda>a. [char_of (unat a)]) z) = map (\<lambda>a. char_of (unat a)) z" for z :: bytes
    by (induction z) simp_all
  moreover assume "bytes_hex sampleHost x = bytes_hex sampleHost y"
  ultimately have "map (\<lambda>a. char_of (unat a)) x = map (\<lambda>a. char_of (unat a)) y"
    by (simp add: sampleHost_def)
  then show "x = y" by (rule map_injective) (rule injI, simp only: char)
qed

lemma sampleHost_not_total: "bytes_hex sampleHost b \<noteq> ''total''"
  by (simp add: sampleHost_def)

lemma sample_step2: "handle sampleHost sampleContracts (Transfer sampleContext sampleMint) sampleStore1 = Inr sampleStore2"
proof -
  have ne: "bytes_hex sampleHost (replicate 20 7) \<noteq> bytes_hex sampleHost zero_address"
    by (simp add: inj_eq [OF sampleHost_hex_inj] zero_address_def)
  have [simp]: "(replicate 20 7 :: bytes) \<noteq> zero_address" by (simp add: zero_address_def)
  show ?thesis
    by (simp add: handleTransfer_def sampleMint_def createTrove_def sampleStore1_def empty_store_def Let_def
        updateBorrowerTrovesCount_def loadOrNewBorrower_def array_at_def array_put_def newBorrower_def
        save_trove_def save_borrower_def sampleStore2_def sampleKey_def bumped_def newTrove_def ne ne [symmetric])
qed

definition sampleBracket :: bracket where
  "sampleBracket = \<lparr>bk_collateral = collIdOf 0, bk_rate = 44000000000000000, bk_totalDebt = 2000,
     bk_sumDebtTimesRateD36 = 2000 * 44123456789012345, bk_pendingDebtTimesOneYearD36 = 0, bk_updatedAt = 100\<rparr>"

definition sampleStore3 :: store where
  "sampleStore3 = save_trove sampleKey
     ((newTrove sampleHost (collIdOf 0) 42)\<lparr>tr_previousOwner := zero_address, tr_borrower := replicate 20 7,
        tr_debt := 2000, tr_deposit := 5, tr_stake := 5, tr_interestRate := 44123456789012345,
        tr_interestBatch := None, tr_updatedAt := 100\<rparr>)
     (save_bracket (rateBracketId (collIdOf 0) 44000000000000000) sampleBracket sampleStore2)"

lemma sample_step3: "handle sampleHost sampleContracts (TroveUpdated sampleContext sampleUpdate) sampleStore2 = Inr sampleStore3"
proof -
  define k where "k = troveFullId sampleHost (collIdOf 0) 42"
  have [simp]: "getRateFloored 44123456789012345 = 44000000000000000"
    by (simp add: getRateFloored_eq tdiv_nonneg)
  have [simp]: "rateBracketId (collIdOf 0) 44000000000000000 = rateBracketId (collIdOf 0) 44123456789012345"
    by (simp add: rateBracketId_def getRateFloored_eq tdiv_nonneg)
  have tr: "st_troves sampleStore2 k = Some ((newTrove sampleHost (collIdOf 0) 42)\<lparr>tr_previousOwner := zero_address, tr_borrower := replicate 20 7\<rparr>)"
    by (simp add: sampleStore2_def sampleKey_def k_def)
  have br: "st_brackets sampleStore2 = Map.empty"
    by (simp add: sampleStore2_def sampleStore1_def empty_store_def)
  have "updateRateBracketDebt (collIdOf 0) 0 44123456789012345 0 2000 0 100 sampleStore2 =
      Inr (save_bracket (rateBracketId (collIdOf 0) 44123456789012345) sampleBracket sampleStore2)"
    by (simp add: updateRateBracketDebt_def removeFromPrevBracket_def addToNewBracket_def loadOrNewBracket_def
        newBracket_def creditBracket_def saveHeld_def br sampleBracket_def Let_def)
  then show ?thesis
    by (simp add: handleTroveUpdated_def loadTrove_def sampleUpdate_def tr [unfolded k_def] newTrove_def
        sampleStore3_def sampleKey_def)
qed

definition sampleBatchBracket :: bracket where
  "sampleBatchBracket = \<lparr>bk_collateral = collIdOf 0, bk_rate = 44000000000000000, bk_totalDebt = 2300,
     bk_sumDebtTimesRateD36 = 2000 * 44123456789012345 + 300 * 44000000000000000,
     bk_pendingDebtTimesOneYearD36 = 2000 * 44123456789012345 * 100, bk_updatedAt = 200\<rparr>"

definition sampleStore4 :: store where
  "sampleStore4 = save_batch (batchId sampleHost (collIdOf 0) (replicate 20 9))
     \<lparr>ib_collateral = collIdOf 0, ib_batchManager = replicate 20 9, ib_debt = 300, ib_coll = 1,
      ib_annualInterestRate = 44000000000000000, ib_annualManagementFee = 0, ib_updatedAt = 200\<rparr>
     (save_bracket (rateBracketId (collIdOf 0) 44000000000000000) sampleBatchBracket sampleStore3)"

lemma sample_step4: "handle sampleHost sampleContracts (BatchUpdated sampleContext sampleBatch) sampleStore3 = Inr sampleStore4"
proof -
  have [simp]: "getRateFloored 44000000000000000 = 44000000000000000"
    by (simp add: getRateFloored_eq tdiv_nonneg)
  have br: "st_brackets sampleStore3 = [rateBracketId (collIdOf 0) 44000000000000000 \<mapsto> sampleBracket]"
    by (simp add: sampleStore3_def sampleStore2_def sampleStore1_def empty_store_def)
  have ba: "st_batches sampleStore3 = Map.empty"
    by (simp add: sampleStore3_def sampleStore2_def sampleStore1_def empty_store_def)
  have "updateRateBracketDebt (collIdOf 0) 0 44000000000000000 0 300 200 200 sampleStore3 =
      Inr (save_bracket (rateBracketId (collIdOf 0) 44000000000000000) sampleBatchBracket sampleStore3)"
    by (simp add: updateRateBracketDebt_def removeFromPrevBracket_def addToNewBracket_def loadOrNewBracket_def
        creditBracket_def saveHeld_def br sampleBracket_def sampleBatchBracket_def Let_def)
  then show ?thesis
    by (simp add: handleBatchUpdated_def sampleBatch_def ba newBatch_def sampleStore4_def Let_def)
qed

definition sampleStore :: store where
  "sampleStore = save_power ''total'' (noPower\<lparr>vp_unallocatedLQTY := 1000, vp_unallocatedOffset := 1000 * 300\<rparr>)
     (save_power (bytes_hex sampleHost (replicate 20 7))
       (noPower\<lparr>vp_unallocatedLQTY := 1000, vp_unallocatedOffset := 1000 * 300\<rparr>) sampleStore4)"

lemma sample_step5: "handle sampleHost sampleContracts (DepositLQTY sampleDeposit) sampleStore4 = Inr sampleStore"
proof -
  have p: "st_powers sampleStore4 = Map.empty"
    by (simp add: sampleStore4_def sampleStore3_def sampleStore2_def sampleStore1_def empty_store_def)
  show ?thesis
    by (simp add: handleDepositLQTY_def sampleDeposit_def getVotingPower_def p noPower_def sampleStore_def
        sampleHost_not_total Let_def)
qed

lemma sample_enabled:
  "enabled (CollateralRegistryAddressChanged [0]) empty_store"
  "enabled (Transfer sampleContext sampleMint) sampleStore1"
  "enabled (TroveUpdated sampleContext sampleUpdate) sampleStore2"
  "enabled (BatchUpdated sampleContext sampleBatch) sampleStore3"
  "enabled (DepositLQTY sampleDeposit) sampleStore4"
  by (simp_all add: enabled_def sampleStore1_def sampleStore2_def sampleStore3_def sampleStore4_def save_trove_def
      save_bracket_def save_batch_def)

lemma sample_honest: "nt_from sampleMint = zero_address"
  by (simp add: sampleMint_def)

lemma sample_run: "runEvents sampleHost sampleContracts sampleEvents empty_store = Inr sampleStore"
  by (simp add: sampleEvents_def sample_enabled honestTransfer_def sampleMint_def [symmetric]
      sample_honest sample_step1 sample_step2 sample_step3 sample_step4 sample_step5 del: handle.simps)

lemma sampleStore_honest: "honestlyReachable sampleHost sampleContracts sampleStore"
  by (rule runEvents_honest [OF honestlyReachable.start sample_run])

lemma sampleStore_reachable: "reachable sampleHost sampleContracts sampleStore"
  by (rule honestlyReachable_reachable [OF sampleStore_honest])

lemma sampleStore_parts:
  "st_brackets sampleStore (rateBracketId (collIdOf 0) 44000000000000000) = Some sampleBatchBracket"
  "enabled (TroveUpdated sampleContext e) sampleStore"
  "enabled (BatchUpdated sampleContext e') sampleStore"
  "st_troves sampleStore sampleKey \<noteq> None"
  by (simp_all add: sampleStore_def sampleStore4_def sampleStore3_def enabled_def sampleStore2_def sampleStore1_def
      save_power_def save_batch_def save_trove_def save_bracket_def)

end
