(* ===== verification/Subgraph_Properties.thy ===== *)
theory Subgraph_Properties
  imports Subgraph_Sample
begin

text \<open>
  What the subgraph promises, over every run of its handlers, each property with a
  concrete run it applies to.
\<close>

section \<open>The bracket ledger\<close>

text \<open>
  C1: In every reachable store, each interest-rate bracket's total debt is exactly the sum of
  the debts of the troves and batches whose floored rate names that bracket (a zero rate
  names none), and its debt-times-rate sum is the sum of their debt times their own,
  unfloored, rate.
\<close>

theorem brackets_balance:
  assumes "reachable h w s" and "st_brackets s k = Some b"
  shows "bk_totalDebt b =
      tally (\<lambda>t. if tr_interestRate t \<noteq> 0 \<and> rateBracketId (tr_collateral t) (tr_interestRate t) = k
                 then tr_debt t else 0) (st_troves s) +
      tally (\<lambda>i. if ib_annualInterestRate i \<noteq> 0 \<and> rateBracketId (ib_collateral i) (ib_annualInterestRate i) = k
                 then ib_debt i else 0) (st_batches s) \<and>
    bk_sumDebtTimesRateD36 b =
      tally (\<lambda>t. if rateBracketId (tr_collateral t) (tr_interestRate t) = k
                 then tr_debt t * tr_interestRate t else 0) (st_troves s) +
      tally (\<lambda>i. if rateBracketId (ib_collateral i) (ib_annualInterestRate i) = k
                 then ib_debt i * ib_annualInterestRate i else 0) (st_batches s)"
proof -
  from reachable_invariants [OF assms(1)] have led: "ledger s" by simp
  have "(if r \<noteq> 0 \<and> rateBracketId c r = k then d else 0) = shareIn By_debt k c (positionAt r d u)"
    "(if rateBracketId c r = k then d * r else 0) = shareIn By_yearly k c (positionAt r d u)" for r c u and d :: int
    by (simp_all add: shareIn_def)
  with ledger_books [OF led assms(2), of By_debt] ledger_books [OF led assms(2), of By_yearly] show ?thesis
    by (simp add: troveShares_def batchShares_def trovePosition_def batchPosition_def)
qed

lemma brackets_balance_witness: "bk_totalDebt sampleBatchBracket = 2300 \<and>
    (tally (\<lambda>t. if tr_interestRate t \<noteq> 0 \<and> rateBracketId (tr_collateral t) (tr_interestRate t)
          = rateBracketId (collIdOf 0) 44000000000000000 then tr_debt t else 0) (st_troves sampleStore) +
     tally (\<lambda>i. if ib_annualInterestRate i \<noteq> 0 \<and> rateBracketId (ib_collateral i) (ib_annualInterestRate i)
          = rateBracketId (collIdOf 0) 44000000000000000 then ib_debt i else 0) (st_batches sampleStore) = 2300)"
  using brackets_balance [OF sampleStore_reachable sampleStore_parts(1)]
  by (simp add: sampleBatchBracket_def)

text \<open>
  C19: In every reachable store, the total-debt script, reading the brackets page by page,
  ends with the debt of all troves and batches plus the simple interest each has accrued
  since its own last update, rounded once at the end.
\<close>

theorem total_debt_script:
  assumes "reachable h w s"
  shows "totalDebtMain (serveBrackets s) now = Some (Inr (tdiv
    (tally (\<lambda>t. if tr_interestRate t = 0 then 0
        else tr_debt t * ONE_YEAR_D18 + tr_debt t * tr_interestRate t * (now - tr_updatedAt t)) (st_troves s) +
     tally (\<lambda>i. if ib_annualInterestRate i = 0 then 0
        else ib_debt i * ONE_YEAR_D18 + ib_debt i * ib_annualInterestRate i * (now - ib_updatedAt i)) (st_batches s))
    ONE_YEAR_D18))"
proof -
  from reachable_invariants [OF assms] have "ledger s" and "idsNonempty s"
    by (simp_all add: othersGood_def)
  from totalDebtMain_served [OF this, of now] show ?thesis
    by (simp add: totalOwedTimesYear_def owedTimesYear_def trovePosition_def batchPosition_def cong: if_cong)
qed

lemma total_debt_script_witness:
  "\<exists>d. totalDebtMain (serveBrackets sampleStore) 500 = Some (Inr d)"
  using total_debt_script [OF sampleStore_reachable, of 500] by blast

text \<open>
  C12: In every reachable store, a batch update from an instantiated trove manager never
  throws, and a trove update throws only when its trove does not exist: the bracket that is
  debited is always there.
\<close>

theorem updates_find_their_bracket:
  assumes "reachable h w s"
  shows "(enabled (BatchUpdated ctx be) s \<longrightarrow> returns (handleBatchUpdated h ctx be s)) \<and>
    (enabled (TroveUpdated ctx te) s \<longrightarrow>
      (\<exists>c. ctx_getString ctx ''collId'' = Inr c \<and>
         (returns (handleTroveUpdated h ctx te s) \<longleftrightarrow> st_troves s (troveFullId h c (tu_troveId te)) \<noteq> None)))"
proof -
  from reachable_invariants [OF assms] have "ledger s" and "contextsGood s"
    by (simp_all add: othersGood_def)
  then show ?thesis using handleBatchUpdated_returns handleTroveUpdated_returns by blast
qed

lemma updates_find_their_bracket_witness:
  "returns (handleBatchUpdated sampleHost sampleContext sampleBatch sampleStore) \<and>
   returns (handleTroveUpdated sampleHost sampleContext sampleUpdate sampleStore)"
  using updates_find_their_bracket [OF sampleStore_reachable, of sampleContext sampleBatch sampleUpdate] sampleStore_parts
  by (simp add: sampleKey_def sampleUpdate_def)

section \<open>Borrowers\<close>

text \<open>
  C25: In every reachable store, each column of the borrowers' per-collateral trove counts and
  the column of their trove totals sum to zero as 32-bit numbers: every trove a borrower
  gains is one another (or the zero address, for a mint) loses.
\<close>

theorem trove_counts_conserved:
  assumes "reachable h w s"
  shows "tally (troveCount i) (st_borrowers s) = 0 \<and> tally bo_troves (st_borrowers s) = 0"
  using reachable_invariants [OF assms] by (simp add: othersGood_def countsBalanced_def)

lemma trove_counts_conserved_witness:
  "tally (troveCount 0) (st_borrowers sampleStore) = 0 \<and> tally bo_troves (st_borrowers sampleStore) = 0"
  by (rule trove_counts_conserved [OF sampleStore_reachable])

text \<open>
  C18: When every transfer names the trove's current owner and hex strings tell addresses
  apart, the count a borrower other than the zero address holds for collateral \<open>i\<close> is the
  number of troves of that collateral whose owner it is (modulo 2^32).
\<close>

theorem trove_counts_are_ownership:
  assumes "honestlyReachable h w s" and "inj (bytes_hex h)" and "owner \<noteq> zero_address"
    and "st_borrowers s (bytes_hex h owner) = Some info" and "unat i < length (bo_trovesByCollateral info)"
  shows "bo_trovesByCollateral info ! unat i =
    tally (\<lambda>t. if tr_borrower t = owner \<and> tr_collateral t = collIdOf i then 1 else 0) (st_troves s)"
proof -
  have "entry_share (troveCount i) (st_borrowers s (bytes_hex h owner)) = tally (ownedBy owner (collIdOf i)) (st_troves s)"
    using ownersAgree_reachable [OF assms(1,2)] assms(3) unfolding ownersAgree_def by blast
  with assms(4,5) show ?thesis by (simp add: troveCount_def ownedBy_def [abs_def])
qed

lemma trove_counts_are_ownership_witness:
  "tally (\<lambda>t. if tr_borrower t = replicate 20 7 \<and> tr_collateral t = collIdOf 0 then 1 else 0)
     (st_troves sampleStore) = (1 :: i32)"
proof -
  have ne: "bytes_hex sampleHost (replicate 20 7) \<noteq> bytes_hex sampleHost zero_address" "replicate 20 7 \<noteq> zero_address"
    by (simp_all add: inj_eq [OF sampleHost_hex_inj] zero_address_def)
  have "st_borrowers sampleStore (bytes_hex sampleHost (replicate 20 7)) = Some (bumped 1 0 (newBorrower 1))"
    by (simp add: sampleStore_def sampleStore4_def sampleStore3_def sampleStore2_def ne [symmetric] ne)
  from trove_counts_are_ownership [OF sampleStore_honest sampleHost_hex_inj ne(2) this, of 0] show ?thesis
    by (simp add: bumped_def newBorrower_def)
qed

section \<open>Voting power\<close>

text \<open>
  C20: In every reachable store (no address printing as the word total), the entity named
  total holds, for each of the four voting-power fields, the sum over all users.
\<close>

theorem voting_power_total:
  assumes "reachable h w s" and "\<And>b. bytes_hex h b \<noteq> ''total''"
    and "f \<in> {vp_allocatedLQTY, vp_allocatedOffset, vp_unallocatedLQTY, vp_unallocatedOffset}"
  shows "f (getVotingPower ''total'' s) = tally f ((st_powers s)(''total'' := None))"
  using reachable_powersAgree [OF assms(1,2)] assms(3) unfolding powersAgree_def usersSum_def by blast

lemma voting_power_total_witness:
  "tally vp_unallocatedOffset ((st_powers sampleStore)(''total'' := None)) = 300000"
proof -
  have "vp_unallocatedOffset (getVotingPower ''total'' sampleStore) = 300000"
    by (simp add: sampleStore_def getVotingPower_def)
  then show ?thesis
    using voting_power_total [OF sampleStore_reachable sampleHost_not_total, of vp_unallocatedOffset] by simp
qed

text \<open>
  C26: An allocation moves what it says, and only that. With \<open>p\<close> the user's voting power and \<open>(vote, veto, voteOffset, vetoOffset)\<close>
  the user's stance on the initiative before the event (that of the epoch, or the latest one), the handler adds the event's
  votes and vetoes and two offsets to the user's stance of the epoch and to everybody's, and moves the same amounts from the
  unallocated to the allocated part of the user's power and of the total. Votes that are given take their share, rounded down, of
  the user's unallocated offset; votes that are taken back take their share of the offset of the user's own votes; the
  same holds for vetoes with the offset of the vetoes. Taking back every vote (or veto) leaves no offset behind.
\<close>

theorem allocation_moves_power:
  assumes "handleAllocateLQTY h e s = Inr s'" and "bytes_hex h (aq_user e) \<noteq> ''total''"
    and "stanceOf (Some (bytes_hex h (aq_user e))) (bytes_hex h (aq_initiative e)) (aq_atEpoch e) s = (vote, veto, voteOffset, vetoOffset)"
    and "stanceOf None (bytes_hex h (aq_initiative e)) (aq_atEpoch e) s = (allVotes, allVetoes, allVoteOffset, allVetoOffset)"
    and "getVotingPower (bytes_hex h (aq_user e)) s = p" and "getVotingPower ''total'' s = q"
  shows "\<exists>dVote dVeto.
    stanceOf (Some (bytes_hex h (aq_user e))) (bytes_hex h (aq_initiative e)) (aq_atEpoch e) s'
      = (vote + aq_deltaVoteLQTY e, veto + aq_deltaVetoLQTY e, voteOffset + dVote, vetoOffset + dVeto) \<and>
    stanceOf None (bytes_hex h (aq_initiative e)) (aq_atEpoch e) s'
      = (allVotes + aq_deltaVoteLQTY e, allVetoes + aq_deltaVetoLQTY e, allVoteOffset + dVote, allVetoOffset + dVeto) \<and>
    getVotingPower (bytes_hex h (aq_user e)) s' = \<lparr>vp_allocatedLQTY = vp_allocatedLQTY p + aq_deltaVoteLQTY e + aq_deltaVetoLQTY e,
      vp_allocatedOffset = vp_allocatedOffset p + dVote + dVeto, vp_unallocatedLQTY = vp_unallocatedLQTY p - aq_deltaVoteLQTY e - aq_deltaVetoLQTY e,
      vp_unallocatedOffset = vp_unallocatedOffset p - dVote - dVeto\<rparr> \<and>
    getVotingPower ''total'' s' = \<lparr>vp_allocatedLQTY = vp_allocatedLQTY q + aq_deltaVoteLQTY e + aq_deltaVetoLQTY e,
      vp_allocatedOffset = vp_allocatedOffset q + dVote + dVeto, vp_unallocatedLQTY = vp_unallocatedLQTY q - aq_deltaVoteLQTY e - aq_deltaVetoLQTY e,
      vp_unallocatedOffset = vp_unallocatedOffset q - dVote - dVeto\<rparr> \<and>
    (0 < aq_deltaVoteLQTY e \<and> 0 < vp_unallocatedLQTY p \<and> 0 \<le> vp_unallocatedOffset p \<longrightarrow>
       floorShare (aq_deltaVoteLQTY e) (vp_unallocatedLQTY p) (vp_unallocatedOffset p) dVote) \<and>
    (aq_deltaVoteLQTY e < 0 \<and> 0 < vote \<and> 0 \<le> voteOffset \<longrightarrow> floorShare (- aq_deltaVoteLQTY e) vote voteOffset (- dVote)) \<and>
    (0 < aq_deltaVetoLQTY e \<and> 0 < vp_unallocatedLQTY p \<and> 0 \<le> vp_unallocatedOffset p \<longrightarrow>
       floorShare (aq_deltaVetoLQTY e) (vp_unallocatedLQTY p) (vp_unallocatedOffset p) dVeto) \<and>
    (aq_deltaVetoLQTY e < 0 \<and> 0 < veto \<and> 0 \<le> vetoOffset \<longrightarrow> floorShare (- aq_deltaVetoLQTY e) veto vetoOffset (- dVeto)) \<and>
    (aq_deltaVoteLQTY e = 0 \<longrightarrow> dVote = 0) \<and> (aq_deltaVetoLQTY e = 0 \<longrightarrow> dVeto = 0) \<and>
    (aq_deltaVoteLQTY e = - vote \<and> 0 < vote \<longrightarrow> voteOffset + dVote = 0) \<and>
    (aq_deltaVetoLQTY e = - veto \<and> 0 < veto \<longrightarrow> vetoOffset + dVeto = 0)"
  using handleAllocateLQTY_stances [OF assms(1-4), unfolded assms(5,6)]
  by (intro exI [of _ "deltaOffset (aq_deltaVoteLQTY e) p vote voteOffset"] exI [of _ "deltaOffset (aq_deltaVetoLQTY e) p veto vetoOffset"])
    (simp add: allocatePower_def deltaOffset_gives deltaOffset_takes deltaOffset_full deltaOffset_none)

definition sampleAllocate :: allocate_lqty where
  "sampleAllocate = \<lparr>ev_timestamp = 400, ev_logIndex = 5, ev_receipt = None,
     aq_user = replicate 20 7, aq_initiative = [8], aq_deltaVoteLQTY = 400, aq_deltaVetoLQTY = 0, aq_atEpoch = 3\<rparr>"

lemma sampleStore_power:
  "getVotingPower (bytes_hex sampleHost (replicate 20 7)) sampleStore
     = \<lparr>vp_allocatedLQTY = 0, vp_allocatedOffset = 0, vp_unallocatedLQTY = 1000, vp_unallocatedOffset = 300000\<rparr>"
  "getVotingPower ''total'' sampleStore
     = \<lparr>vp_allocatedLQTY = 0, vp_allocatedOffset = 0, vp_unallocatedLQTY = 1000, vp_unallocatedOffset = 300000\<rparr>"
  by (simp_all add: sampleStore_def getVotingPower_def sampleHost_not_total noPower_def)

lemma sampleStore_allocations: "st_allocations sampleStore = Map.empty" "st_allocIndex sampleStore = Map.empty"
  by (simp_all add: sampleStore_def sampleStore4_def sampleStore3_def sampleStore2_def sampleStore1_def empty_store_def
      save_power_def save_trove_def save_bracket_def save_batch_def)

lemma sample_allocate: "\<exists>s'. handleAllocateLQTY sampleHost sampleAllocate sampleStore = Inr s'"
  by (simp add: handleAllocateLQTY_def getAllocation_def sampleStore_allocations Let_def)

lemma allocation_moves_power_witness:
  "\<exists>s'. handleAllocateLQTY sampleHost sampleAllocate sampleStore = Inr s' \<and>
     stanceOf (Some (bytes_hex sampleHost (replicate 20 7))) (bytes_hex sampleHost [8]) 3 s' = (400, 0, 120000, 0) \<and>
     vp_allocatedLQTY (getVotingPower (bytes_hex sampleHost (replicate 20 7)) s') = 400 \<and>
     vp_unallocatedOffset (getVotingPower (bytes_hex sampleHost (replicate 20 7)) s') = 180000"
proof -
  obtain s' where run: "handleAllocateLQTY sampleHost sampleAllocate sampleStore = Inr s'" using sample_allocate by blast
  let ?u = "bytes_hex sampleHost (aq_user sampleAllocate)" and ?i = "bytes_hex sampleHost (aq_initiative sampleAllocate)"
  have none: "stanceOf k ?i (aq_atEpoch sampleAllocate) sampleStore = (0, 0, 0, 0)" for k
    by (simp add: stanceOf_def sampleStore_allocations)
  have power: "getVotingPower ?u sampleStore
      = \<lparr>vp_allocatedLQTY = 0, vp_allocatedOffset = 0, vp_unallocatedLQTY = 1000, vp_unallocatedOffset = 300000\<rparr>"
    using sampleStore_power(1) by (simp add: sampleAllocate_def)
  have e: "aq_user sampleAllocate = replicate 20 7" "aq_initiative sampleAllocate = [8]" "aq_atEpoch sampleAllocate = 3"
    "aq_deltaVoteLQTY sampleAllocate = 400" "aq_deltaVetoLQTY sampleAllocate = 0" by (simp_all add: sampleAllocate_def)
  have "\<exists>a. stanceOf (Some (bytes_hex sampleHost (replicate 20 7))) (bytes_hex sampleHost [8]) 3 s' = (400, 0, a, 0) \<and>
    vp_allocatedLQTY (getVotingPower (bytes_hex sampleHost (replicate 20 7)) s') = 400 \<and>
    vp_unallocatedOffset (getVotingPower (bytes_hex sampleHost (replicate 20 7)) s') = 300000 - a \<and> floorShare 400 1000 300000 a"
    using allocation_moves_power [OF run sampleHost_not_total none none power sampleStore_power(2)] unfolding e
    by (elim exE conjE) (simp del: split_paired_Ex)
  then obtain a where a: "stanceOf (Some (bytes_hex sampleHost (replicate 20 7))) (bytes_hex sampleHost [8]) 3 s' = (400, 0, a, 0)"
    "vp_allocatedLQTY (getVotingPower (bytes_hex sampleHost (replicate 20 7)) s') = 400"
    "vp_unallocatedOffset (getVotingPower (bytes_hex sampleHost (replicate 20 7)) s') = 300000 - a" "floorShare 400 1000 300000 a" by blast
  have "a = 120000" using a(4) by (auto simp: floorShare_def)
  with a run show ?thesis by simp
qed

section \<open>Reading other events of the transaction\<close>

text \<open>
  C27: Although each decode reverses the bytes of the word it reads in place, the six words of
  a BatchUpdated log are all read as they were sent, big-endian: when the log two places on
  holds at least seven words, the event reconstructed from it carries exactly those numbers.
\<close>

theorem batch_event_decoded:
  assumes "ev_receipt e = Some logs" and "findLog (\<lambda>l. lg_logIndex l = ev_logIndex e + 2) logs = Some i"
    and "1 < length (lg_topics (logs ! i))" and "length (lg_topics (logs ! i) ! 1) = 32"
    and "7 * 32 \<le> length (lg_data (logs ! i))"
  shows "\<exists>b. getBatchUpdatedEventFrom e = Inr b \<and> bu_interestBatchManager b = drop 12 (lg_topics (logs ! i) ! 1) \<and>
    [bu_debt b, bu_coll b, bu_annualInterestRate b, bu_annualManagementFee b, bu_totalDebtShares b,
     bu_debtIncreaseFromUpfrontFee b] =
    map (\<lambda>j. foldl (\<lambda>a b. 256 * a + uint b) 0 (subarray (lg_data (logs ! i)) (j * 32) (j * 32 + 32))) [1, 2, 3, 4, 5, 6]"
proof -
  define d where "d = lg_data (logs ! i)"
  have len: "length d \<ge> 224" using assms(5) by (simp add: d_def)
  have step: "word_at (snd (decodeUint256 x j)) k = word_at x k"
    if "length x = length d" "j \<noteq> k" "j \<le> 6" "k \<le> 6" for x j k
    using word_at_other [of j k x] that len by simp
  define rd where "rd x j = snd (decodeUint256 x j)" for x j
  have rd [simp]: "decodeUint256 x j = (word_at x j, rd x j)" for x j
    by (rule prod_eqI) (simp_all only: rd_def decodeUint256_value fst_conv snd_conv)
  have l [simp]: "length (rd x j) = length x" for x j by (simp only: rd_def length_decodeUint256)
  have s [simp]: "word_at (rd x j) k = word_at x k" if "length x = length d" "j \<noteq> k" "j \<le> 6" "k \<le> 6" for x j k
    using step [OF that] by (simp only: rd_def)
  have w: "foldl (\<lambda>a b. 256 * a + uint b) 0 (subarray d (j * 32) (j * 32 + 32)) = word_at d j" if "j \<le> 6" for j
    using word_at_big_endian [of j d] that len by simp
  have addr: "decodeAddress (lg_topics (logs ! i) ! 1) 0 = Inr (drop 12 (lg_topics (logs ! i) ! 1))"
    using assms(4) by (simp add: decodeAddress_def subarray_def Let_def)
  have u8: "decodeUint8 d 0 = Inr (ucast (d ! 31))" using len by (simp add: decodeUint8_def)
  have map: "map (\<lambda>j. foldl (\<lambda>a b. 256 * a + uint b) 0 (subarray d (j * 32) (j * 32 + 32))) [1, 2, 3, 4, 5, 6]
      = map (word_at d) [1, 2, 3, 4, 5, 6]"
    by (rule map_cong [OF refl w]) auto
  show ?thesis unfolding d_def [symmetric] map
    by (simp add: getBatchUpdatedEventFrom_def assms(1,2) assms(3) [simplified] addr [simplified] u8 Let_def d_def [symmetric])
qed

definition sampleBatchLog :: log where
  "sampleBatchLog = \<lparr>lg_address = [2], lg_logIndex = 9, lg_topics = [[], replicate 12 0 @ replicate 20 9],
     lg_data = replicate 32 0 @ replicate 31 0 @ [77] @ replicate 160 0\<rparr>"

definition sampleBatchedUpdate :: batched_trove_updated where
  "sampleBatchedUpdate = \<lparr>ev_timestamp = 100, ev_logIndex = 7, ev_receipt = Some [sampleBatchLog], btu_troveId = 42,
     btu_interestBatchManager = replicate 20 9, btu_batchDebtShares = 1, btu_coll = 1, btu_stake = 1\<rparr>"

lemma batch_event_decoded_witness:
  "\<exists>b. getBatchUpdatedEventFrom sampleBatchedUpdate = Inr b \<and> bu_debt b = 77"
proof -
  have "\<exists>b. getBatchUpdatedEventFrom sampleBatchedUpdate = Inr b \<and>
     bu_interestBatchManager b = drop 12 (lg_topics ([sampleBatchLog] ! 0) ! 1) \<and>
    [bu_debt b, bu_coll b, bu_annualInterestRate b, bu_annualManagementFee b, bu_totalDebtShares b,
     bu_debtIncreaseFromUpfrontFee b] =
    map (\<lambda>j. foldl (\<lambda>a b. 256 * a + uint b) 0 (subarray (lg_data ([sampleBatchLog] ! 0)) (j * 32) (j * 32 + 32))) [1, 2, 3, 4, 5, 6]"
    by (rule batch_event_decoded) (simp_all add: sampleBatchedUpdate_def sampleBatchLog_def)
  moreover have "foldl (\<lambda>a b. 256 * a + uint b) 0 (subarray (lg_data sampleBatchLog) (1 * 32) (1 * 32 + 32)) = 77"
    by code_simp
  ultimately show ?thesis by auto
qed

section \<open>Trove operations\<close>

text \<open>
  C28: A trove operation that is not a liquidation touches nothing but its trove, never the
  debt, the rate, the owner or the collateral; a redemption adds one to the count (32-bit)
  and the redeemed amounts to the sums and marks the trove redeemed; a user's action resets
  all three; and the trove ends as closed exactly for a close, as redeemed exactly for a
  redemption, and as it was for applying pending debt.
\<close>

theorem trove_operation_effect:
  assumes "handleTroveOperation h ctx e s = Inr s'" and "to_operation e \<noteq> OP_LIQUIDATE"
    and "ctx_getString ctx ''collId'' = Inr c" and "st_troves s (troveFullId h c (to_troveId e)) = Some t"
  shows "\<exists>t'. s' = save_trove (troveFullId h c (to_troveId e)) t' s \<and>
    tr_debt t' = tr_debt t \<and> tr_interestRate t' = tr_interestRate t \<and> tr_borrower t' = tr_borrower t \<and>
    tr_collateral t' = tr_collateral t \<and>
    (if to_operation e = OP_REDEEM_COLLATERAL then
       tr_status t' = St_redeemed \<and> tr_redemptionCount t' = tr_redemptionCount t + 1 \<and>
       tr_redeemedColl t' = tr_redeemedColl t - to_collChangeFromOperation e \<and>
       tr_redeemedDebt t' = tr_redeemedDebt t - to_debtChangeFromOperation e
     else if to_operation e = OP_APPLY_PENDING_DEBT then
       tr_status t' = tr_status t \<and> tr_redemptionCount t' = tr_redemptionCount t
     else tr_status t' = (if to_operation e = OP_CLOSE_TROVE then St_closed else St_active) \<and>
       tr_redemptionCount t' = 0 \<and> tr_redeemedColl t' = 0 \<and> tr_redeemedDebt t' = 0 \<and>
       tr_lastUserActionAt t' = ev_timestamp e)"
  using assms(1)
proof (rule handleTroveOperationE)
  fix c' t0 t1 t2 s1
  assume "ctx_getString ctx ''collId'' = Inr c'" "st_troves s (troveFullId h c' (to_troveId e)) = Some t0"
    and t1: "openingTrove e t0 = Inr t1"
    and liq: "liquidation h ctx e (redemption e (userAction e (closingTrove e t1))) s = Inr (t2, s1)"
    and s': "s' = save_trove (troveFullId h c' (to_troveId e)) t2 s1"
  then have [simp]: "c' = c" "t0 = t" using assms(3,4) by auto
  have eqs: "s1 = s" "t2 = redemption e (userAction e (closingTrove e t1))"
    using liq assms(2) by (simp_all add: liquidation_def)
  from t1 have "t1 = t \<or> (\<exists>a l. t1 = t\<lparr>tr_createdAt := a, tr_mightBeLeveraged := l\<rparr>)"
    by (auto simp: openingTrove_def outcome_Inr split: if_splits)
  then show ?thesis unfolding s' eqs
    using assms(2) by (intro exI [of _ "redemption e (userAction e (closingTrove e t1))"])
      (auto simp: redemption_def userAction_def closingTrove_def op_codes)
qed

definition sampleRedemption :: trove_operation where
  "sampleRedemption = \<lparr>ev_timestamp = 400, ev_logIndex = 1, ev_receipt = None, to_troveId = 42, to_operation = 6,
     to_collChangeFromOperation = -1, to_debtChangeFromOperation = -600\<rparr>"

lemma trove_operation_effect_witness:
  "\<exists>s' t'. handleTroveOperation sampleHost sampleContext sampleRedemption sampleStore = Inr s' \<and>
     st_troves s' sampleKey = Some t' \<and> tr_redeemedDebt t' = 600 \<and> tr_status t' = St_redeemed"
proof -
  obtain t where t: "st_troves sampleStore (troveFullId sampleHost (collIdOf 0) (to_troveId sampleRedemption)) = Some t"
    and z: "tr_redeemedDebt t = 0"
    by (simp add: sampleStore_def sampleStore4_def sampleStore3_def sampleKey_def sampleRedemption_def newTrove_def)
  then obtain s' where s': "handleTroveOperation sampleHost sampleContext sampleRedemption sampleStore = Inr s'"
    by (simp add: handleTroveOperation_def loadTrove_def openingTrove_def liquidation_def sampleRedemption_def op_codes)
  have op: "to_operation sampleRedemption \<noteq> OP_LIQUIDATE" "to_operation sampleRedemption = OP_REDEEM_COLLATERAL"
    by (simp_all add: sampleRedemption_def op_codes)
  from trove_operation_effect [OF s' op(1) sampleContext_get(1) t] op(2) z
  have "\<exists>t'. st_troves s' sampleKey = Some t' \<and> tr_redeemedDebt t' = 600 \<and> tr_status t' = St_redeemed"
    by (auto simp: sampleKey_def sampleRedemption_def)
  with s' show ?thesis by blast
qed

text \<open>
  C29: A trove operation that liquidates, and that is handled without an error, leaves its trove liquidated and closed
  at the event's time, with the amounts the operation took as positive numbers, the price of word 9 of the first
  Liquidation log after the event exactly as the chain sent it (decoding the surplus log in between leaves that log's data
  untouched), and the collateral surplus: nothing when no balance update stands four logs earlier, and otherwise the new
  balance of that log less the balance the borrower had, which becomes the new one. The rest of the trove, every other trove and every bracket
  and batch stay as they were.
\<close>

theorem liquidation_recorded:
  assumes "handleTroveOperation h ctx e s = Inr s'" and "to_operation e = OP_LIQUIDATE"
    and "ctx_getString ctx ''collId'' = Inr c" and "st_troves s (troveFullId h c (to_troveId e)) = Some t"
  shows "\<exists>logs i surplus. ev_receipt e = Some logs \<and>
    findLog (\<lambda>l. ev_logIndex e < lg_logIndex l \<and> has_topic0 LIQUIDATION_TOPIC l) logs = Some i \<and>
    st_troves s' = (st_troves s)(troveFullId h c (to_troveId e) \<mapsto> t\<lparr>tr_closedAt := Some (ev_timestamp e), tr_status := St_liquidated,
      tr_liquidatedColl := Some (- to_collChangeFromOperation e), tr_liquidatedDebt := Some (- to_debtChangeFromOperation e),
      tr_collSurplus := Some surplus, tr_priceAtLiquidation := Some (word_at (lg_data (logs ! i)) 9)\<rparr>) \<and>
    st_brackets s' = st_brackets s \<and> st_batches s' = st_batches s \<and>
    (findSurplusLog logs (ev_logIndex e - 4) = None \<longrightarrow> surplus = 0 \<and> st_borrowers s' = st_borrowers s) \<and>
    (\<forall>j. findSurplusLog logs (ev_logIndex e - 4) = Some j \<longrightarrow> (\<exists>account info index.
       decodeAddress (lg_topics (logs ! j) ! 1) 0 = Inr account \<and> st_borrowers s (bytes_hex h account) = Some info \<and>
       ctx_getI32 ctx ''collIndex'' = Inr index \<and>
       surplus = word_at (lg_data (logs ! j)) 0 - bo_collSurplusBalance info ! unat index \<and>
       st_borrowers s' = (st_borrowers s)(bytes_hex h account \<mapsto>
         info\<lparr>bo_collSurplusBalance := (bo_collSurplusBalance info)[unat index := word_at (lg_data (logs ! j)) 0]\<rparr>)))"
  using assms(1)
proof (rule handleTroveOperationE)
  fix c' t0 t1 t2 s1
  assume "ctx_getString ctx ''collId'' = Inr c'" "st_troves s (troveFullId h c' (to_troveId e)) = Some t0"
    and t1: "openingTrove e t0 = Inr t1"
    and liq: "liquidation h ctx e (redemption e (userAction e (closingTrove e t1))) s = Inr (t2, s1)"
    and s': "s' = save_trove (troveFullId h c' (to_troveId e)) t2 s1"
  then have [simp]: "c' = c" "t0 = t" using assms(3,4) by auto
  have closed: "redemption e (userAction e (closingTrove e t1)) = t\<lparr>tr_closedAt := Some (ev_timestamp e)\<rparr>"
    using t1 assms(2) by (simp add: openingTrove_def redemption_def userAction_def closingTrove_def op_codes)
  obtain logs i surplus where l: "ev_receipt e = Some logs"
    "findLog (\<lambda>l. ev_logIndex e < lg_logIndex l \<and> has_topic0 LIQUIDATION_TOPIC l) logs = Some i"
    and t2: "t2 = t\<lparr>tr_closedAt := Some (ev_timestamp e), tr_status := St_liquidated,
      tr_liquidatedColl := Some (- to_collChangeFromOperation e), tr_liquidatedDebt := Some (- to_debtChangeFromOperation e),
      tr_collSurplus := Some surplus, tr_priceAtLiquidation := Some (word_at (lg_data (logs ! i)) 9)\<rparr>"
    and surplus: "surplusFrom h ctx (ev_logIndex e) logs s surplus s1"
    using liquidation_run [OF liq assms(2)] unfolding closed by blast
  have frame: "st_troves s1 = st_troves s" "st_brackets s1 = st_brackets s" "st_batches s1 = st_batches s"
    using surplus by (simp_all add: surplusFrom_def)
  show ?thesis
    using l surplus frame unfolding s' t2 surplusFrom_def
    by (intro exI [of _ logs] exI [of _ i] exI [of _ surplus]) (simp add: save_trove_def)
qed

text \<open>A liquidation with a top-up: the borrower's surplus for the collateral goes from 0 to 3, and the price is 77.\<close>

definition sampleLiquidation :: trove_operation where
  "sampleLiquidation = \<lparr>ev_timestamp = 400, ev_logIndex = 5,
     ev_receipt = Some [\<lparr>lg_address = [2], lg_logIndex = 1, lg_topics = [COLL_BALANCE_UPDATED_TOPIC, replicate 12 0 @ replicate 20 7],
         lg_data = replicate 31 0 @ [3]\<rparr>,
       \<lparr>lg_address = [2], lg_logIndex = 6, lg_topics = [LIQUIDATION_TOPIC], lg_data = replicate 319 0 @ [77]\<rparr>],
     to_troveId = 42, to_operation = 5, to_collChangeFromOperation = -5, to_debtChangeFromOperation = -2000\<rparr>"

lemma sampleLiquidation_logs:
  "findLog (\<lambda>l. ev_logIndex sampleLiquidation < lg_logIndex l \<and> has_topic0 LIQUIDATION_TOPIC l) (the (ev_receipt sampleLiquidation)) = Some 1"
  "findSurplusLog (the (ev_receipt sampleLiquidation)) (ev_logIndex sampleLiquidation - 4) = Some 0"
  by (simp_all add: sampleLiquidation_def has_topic0_def)

lemma little_endian_zeros: "little_endian (replicate n 0) = 0"
  by (induction n) simp_all

lemma sampleLiquidation_words:
  "word_at (replicate 31 0 @ [3]) 0 = 3" "word_at (replicate 319 0 @ [77]) 9 = 77"
  by (simp_all add: word_at_def subarray_def little_endian_zeros)

lemma sampleStore_borrower:
  "st_borrowers sampleStore (bytes_hex sampleHost (replicate 20 7)) = Some (bumped 1 0 (newBorrower 1))"
  by (simp add: sampleStore_def sampleStore4_def sampleStore3_def sampleStore2_def bumped_def newBorrower_def)

lemma sampleStore_address:
  "st_addresses sampleStore (collIdOf 0) = Some (newAddresses (collIdOf 0) [3] [4] [5] [1] [2] [6])"
  by (simp add: sampleStore_def sampleStore4_def sampleStore3_def sampleStore2_def sampleStore1_def
      save_power_def save_trove_def save_bracket_def save_batch_def)

lemma sampleStore_trove: "\<exists>t. st_troves sampleStore (troveFullId sampleHost (collIdOf 0) 42) = Some t"
  by (simp add: sampleStore_def sampleStore4_def sampleStore3_def sampleKey_def)

lemma sample_account: "decodeAddress (replicate 12 0 @ replicate 20 7) 0 = Inr (replicate 20 7)"
  by (simp add: decodeAddress_def subarray_def)

lemma sample_pool:
  "\<exists>s1. setCollSurplusPool sampleContext [2] sampleStore = Inr s1 \<and> st_borrowers s1 = st_borrowers sampleStore"
  by (simp add: setCollSurplusPool_def sampleStore_address newAddresses_def)

lemma sample_topUp:
  assumes "st_borrowers s1 = st_borrowers sampleStore"
  shows "\<exists>s2. getCollSurplusBalanceChange sampleHost sampleContext (replicate 20 7) 3 s1 = Inr (3, s2)"
  by (simp add: getCollSurplusBalanceChange_def loadBorrower_def assms sampleStore_borrower array_at_def array_put_def
      bumped_def newBorrower_def)

lemma sample_liquidation: "\<exists>t' s'. liquidation sampleHost sampleContext sampleLiquidation t sampleStore = Inr (t', s')"
proof -
  obtain s1 s2 where run: "setCollSurplusPool sampleContext [2] sampleStore = Inr s1"
    "getCollSurplusBalanceChange sampleHost sampleContext (replicate 20 7) 3 s1 = Inr (3, s2)"
    using sample_pool sample_topUp by blast
  have "\<exists>logs. getCollSurplusFrom sampleHost sampleContext (ev_logIndex sampleLiquidation) (ev_receipt sampleLiquidation) sampleStore = Inr (3, logs, s2) \<and>
    findLog (\<lambda>l. ev_logIndex sampleLiquidation < lg_logIndex l \<and> has_topic0 LIQUIDATION_TOPIC l) logs = Some 1"
    using run by (simp add: getCollSurplusFrom_def sampleLiquidation_def has_topic0_def sample_account decodeUint256_def Let_def
        topics_distinct) (simp add: subarray_def little_endian_zeros)
  then show ?thesis
    by (auto simp: liquidation_def sampleLiquidation_def op_codes getPriceAtLiquidationFrom_def)
qed

lemma liquidation_recorded_witness:
  "\<exists>s' t'. handleTroveOperation sampleHost sampleContext sampleLiquidation sampleStore = Inr s' \<and> st_troves s' sampleKey = Some t' \<and>
     tr_closedAt t' = Some 400 \<and> tr_status t' = St_liquidated \<and> tr_liquidatedDebt t' = Some 2000 \<and> tr_liquidatedColl t' = Some 5 \<and>
     tr_collSurplus t' = Some 3 \<and> tr_priceAtLiquidation t' = Some 77"
proof -
  obtain t where t: "st_troves sampleStore (troveFullId sampleHost (collIdOf 0) (to_troveId sampleLiquidation)) = Some t"
    using sampleStore_trove by (auto simp: sampleLiquidation_def)
  have op: "to_operation sampleLiquidation = OP_LIQUIDATE" by (simp add: sampleLiquidation_def op_codes)
  obtain t2 s2 where "liquidation sampleHost sampleContext sampleLiquidation
      (redemption sampleLiquidation (userAction sampleLiquidation (closingTrove sampleLiquidation t))) sampleStore = Inr (t2, s2)"
    using sample_liquidation by blast
  then obtain s' where run: "handleTroveOperation sampleHost sampleContext sampleLiquidation sampleStore = Inr s'"
    using t op by (simp add: handleTroveOperation_def loadTrove_def openingTrove_def op_codes)
  from liquidation_recorded [OF run op sampleContext_get(1) t] obtain logs i surplus where l: "ev_receipt sampleLiquidation = Some logs"
    "findLog (\<lambda>l. ev_logIndex sampleLiquidation < lg_logIndex l \<and> has_topic0 LIQUIDATION_TOPIC l) logs = Some i"
    and tr: "st_troves s' = (st_troves sampleStore)(troveFullId sampleHost (collIdOf 0) (to_troveId sampleLiquidation) \<mapsto>
      t\<lparr>tr_closedAt := Some (ev_timestamp sampleLiquidation), tr_status := St_liquidated,
        tr_liquidatedColl := Some (- to_collChangeFromOperation sampleLiquidation),
        tr_liquidatedDebt := Some (- to_debtChangeFromOperation sampleLiquidation),
        tr_collSurplus := Some surplus, tr_priceAtLiquidation := Some (word_at (lg_data (logs ! i)) 9)\<rparr>)"
    and top_up: "\<forall>j. findSurplusLog logs (ev_logIndex sampleLiquidation - 4) = Some j \<longrightarrow> (\<exists>account info index.
       decodeAddress (lg_topics (logs ! j) ! 1) 0 = Inr account \<and> st_borrowers sampleStore (bytes_hex sampleHost account) = Some info \<and>
       ctx_getI32 sampleContext ''collIndex'' = Inr index \<and>
       surplus = word_at (lg_data (logs ! j)) 0 - bo_collSurplusBalance info ! unat index)"
    by blast
  have i: "i = 1" "findSurplusLog logs (ev_logIndex sampleLiquidation - 4) = Some 0" using l sampleLiquidation_logs by simp_all
  have logs: "logs ! 1 = \<lparr>lg_address = [2], lg_logIndex = 6, lg_topics = [LIQUIDATION_TOPIC], lg_data = replicate 319 0 @ [77]\<rparr>"
    "lg_topics (logs ! 0) ! 1 = replicate 12 0 @ replicate 20 7" "lg_data (logs ! 0) = replicate 31 0 @ [3]"
    using l(1) by (auto simp: sampleLiquidation_def)
  have "surplus = 3"
    using top_up [rule_format, OF i(2)] unfolding logs sample_account sampleLiquidation_words(1) sampleContext_get(2)
    by (auto simp: sampleStore_borrower bumped_def newBorrower_def)
  then show ?thesis
    using run tr by (simp add: i(1) logs(1) [simplified] sampleLiquidation_words sampleKey_def) (simp add: sampleLiquidation_def)
qed

section \<open>Collaterals and rates\<close>

text \<open>
  When the registry names \<open>n\<close> collaterals, handling its address creates exactly the
  collaterals numbered 0 to n-1 beside the ones already there and two data sources for
  each, and touches no trove, batch, bracket or borrower.
\<close>

theorem registry_collaterals:
  assumes "handleCollateralRegistryAddressChanged w registry s = Inr s'"
    and "reg_totalCollaterals w registry = Inr n" and "0 \<le> n" and "n < 2 ^ 31"
  shows "dom (st_collaterals s') = dom (st_collaterals s) \<union> (\<lambda>i. dec_of_int i) ` {0..<n} \<and>
    length (st_sources s') = length (st_sources s) + 2 * nat n \<and>
    st_troves s' = st_troves s \<and> st_brackets s' = st_brackets s \<and> st_batches s' = st_batches s \<and>
    st_borrowers s' = st_borrowers s"
proof -
  have small: "sint (word_of_int i :: i32) = i" if "0 \<le> i" "i < 2 ^ 31" for i
    using that by (simp add: sint_sbintrunc' signed_take_bit_int_eq_self)
  have add: "addCollaterals w registry (word_of_int n) [0..<nat n] s = Inr s'"
    using assms small [OF assms(3,4)]
    by (simp add: handleCollateralRegistryAddressChanged_def Let_def)
  have "(\<lambda>i. collIdOf (of_nat i)) ` set [0..<nat n] = (\<lambda>i. dec_of_int i) ` {0..<n}"
  proof -
    have "collIdOf (of_nat i) = dec_of_int (int i)" if "i < nat n" for i
      using small [of "int i"] that assms(4) by (simp add: collIdOf_def)
    then have "(\<lambda>i. collIdOf (of_nat i)) ` set [0..<nat n] = (\<lambda>i. dec_of_int (int i)) ` {0..<nat n}"
      by (intro image_cong) auto
    also have "\<dots> = dec_of_int ` int ` {0..<nat n}" by (simp add: image_image)
    also have "int ` {0..<nat n} = {0..<n}" using assms(3) by (simp add: image_int_atLeastLessThan)
    finally show ?thesis .
  qed
  with addCollaterals_dom [OF add] addCollaterals_frame [OF add] show ?thesis by simp
qed

lemma registry_collaterals_witness:
  "dom (st_collaterals sampleStore1) = {''0''}"
  using registry_collaterals [of sampleContracts "[0]" empty_store sampleStore1 1] sample_step1
  by (simp add: sampleContracts_def empty_store_def dec_of_int_def dec_of_nat.simps digit_char_def image_constant_conv)

text \<open>
  C30: A non-negative rate is filed under the multiple of 0.1% just below it, flooring is
  idempotent, and two collaterals' brackets share an id only when the collateral and the
  floored rate are the same.
\<close>

theorem rate_brackets_partition:
  assumes "0 \<le> rate"
  shows "getRateFloored rate \<le> rate \<and> rate < getRateFloored rate + 10 ^ 15 \<and> 10 ^ 15 dvd getRateFloored rate \<and>
    getRateFloored (getRateFloored rate) = getRateFloored rate \<and>
    (rateBracketId (collIdOf i) rate = rateBracketId (collIdOf j) rate' \<longleftrightarrow>
       i = j \<and> getRateFloored rate = getRateFloored rate')"
  using getRateFloored_bounds [OF assms] getRateFloored_idem [of rate]
    rateBracketId_inject [OF collIdOf_no_colon collIdOf_no_colon, of i rate j rate'] by simp

lemma rate_brackets_partition_witness: "10 ^ 15 dvd getRateFloored 44123456789012345"
  using rate_brackets_partition [of 44123456789012345] by simp

end
