(* ===== verification/P2P_Amounts.thy ===== *)
theory P2P_Amounts
  imports JS_Runtime
begin

text \<open>
  The amounts of the peer-to-peer loan screens: \<open>parseAmount\<close> and \<open>formatAmount\<close> of
  screens/P2PLoansScreen/loanPresentation.tsx and the term arithmetic of termMath.ts, on
  exact integers in a token's smallest unit.
\<close>

section \<open>Reading and printing amounts\<close>

definition MAX_UINT256 :: int where
  "MAX_UINT256 = 2 ^ 256 - 1"

text \<open>The pattern of \<open>parseAmount\<close>: digits, and then either nothing or a point and digits.\<close>

definition amountWhole :: "string \<Rightarrow> string" where
  "amountWhole t = takeWhile is_digit t"

definition amountFraction :: "string \<Rightarrow> string" where
  "amountFraction t = tl (dropWhile is_digit t)"

definition amountPattern :: "string \<Rightarrow> bool" where
  "amountPattern t \<longleftrightarrow> amountWhole t \<noteq> [] \<and>
     (case dropWhile is_digit t of [] \<Rightarrow> True
      | c # f \<Rightarrow> c = CHR ''.'' \<and> f \<noteq> [] \<and> list_all is_digit f)"

definition parseAmount :: "string \<Rightarrow> nat \<Rightarrow> int outcome" where
  "parseAmount value decimals =
     (let t = js_trim value; whole = amountWhole t; fraction = amountFraction t in
      if \<not> amountPattern t then Inl ''Enter amounts using digits and a decimal point.''
      else if length fraction > decimals then
        Inl (''This token supports no more than '' @ dec_of_nat decimals @ '' decimal places.'')
      else if length whole > 78 then Inl ''This amount is too large.''
      else and_then (js_BigInt whole) (\<lambda>w.
           and_then (js_BigInt (pad_end decimals (CHR ''0'') fraction)) (\<lambda>f.
           let result = w * 10 ^ decimals + f in
           if result \<ge> 2 ^ 256 then Inl ''This amount is too large.'' else Inr result)))"

definition formatAmount :: "int \<Rightarrow> nat \<Rightarrow> string" where
  "formatAmount value decimals =
     (let scale = 10 ^ decimals;
          fraction = strip_zeros (pad_start decimals (CHR ''0'') (dec_of_int (tmod value scale)))
      in dec_of_int (tdiv value scale) @ (if fraction = '''' then '''' else ''.'' @ fraction))"

section \<open>Term arithmetic\<close>

fun validDecimals :: "js_number \<Rightarrow> bool" where
  "validDecimals (JS_int d) = (0 \<le> d \<and> d \<le> 255)"
| "validDecimals _ = False"

fun safeAmount :: "string \<Rightarrow> js_number \<Rightarrow> int option" where
  "safeAmount text (JS_int d) =
     (if \<not> validDecimals (JS_int d) then None
      else case parseAmount text (nat d) of Inr v \<Rightarrow> Some v | Inl _ \<Rightarrow> None)"
| "safeAmount text _ = None"

fun interestFromBps :: "string \<Rightarrow> js_number \<Rightarrow> js_number \<Rightarrow> string option" where
  "interestFromBps loan (JS_int d) (JS_int bps) =
     (if \<not> isSafeInteger bps \<or> bps < 0 then None
      else case safeAmount loan (JS_int d) of
        None \<Rightarrow> None
      | Some amount \<Rightarrow>
          (let interest = tdiv (amount * bps) 10000
           in if interest \<le> MAX_UINT256 then Some (formatAmount interest (nat d)) else None))"
| "interestFromBps loan _ _ = None"

definition rateBps :: "string \<Rightarrow> string \<Rightarrow> js_number \<Rightarrow> int option" where
  "rateBps loan interest decimals =
     (case (safeAmount loan decimals, safeAmount interest decimals) of
        (Some amount, Some fee) \<Rightarrow>
          if amount = 0 then None
          else (let bps = tdiv (fee * 10000) amount in if bps \<le> MAX_SAFE_INTEGER then Some bps else None)
      | _ \<Rightarrow> None)"

fun scaledCollateral :: "string \<Rightarrow> js_number \<Rightarrow> js_number \<Rightarrow> string option" where
  "scaledCollateral anchor (JS_int d) (JS_int percent) =
     (if percent < 25 \<or> percent > 200 then None
      else case safeAmount anchor (JS_int d) of
        None \<Rightarrow> None
      | Some amount \<Rightarrow>
          if amount = 0 then None
          else (let scaled = tdiv (amount * percent) 100 in
                if scaled > MAX_UINT256 then None
                else Some (formatAmount (if scaled = 0 then 1 else scaled) (nat d))))"
| "scaledCollateral anchor _ _ = None"

fun ratioText :: "int \<Rightarrow> js_number \<Rightarrow> int \<Rightarrow> js_number \<Rightarrow> string option" where
  "ratioText numerator (JS_int nd) denominator (JS_int dd) =
     (if \<not> validDecimals (JS_int nd) \<or> \<not> validDecimals (JS_int dd) \<or> numerator < 0 \<or> denominator \<le> 0 then None
      else (let scaled = tdiv (numerator * 10 ^ nat dd * 1000000) (denominator * 10 ^ nat nd)
            in Some (if numerator > 0 \<and> scaled = 0 then ''<0.000001'' else formatAmount scaled 6)))"
| "ratioText _ _ _ _ = None"

section \<open>Printing an amount and reading it back\<close>

lemma formatAmount_nonneg:
  assumes "0 \<le> v"
  shows "formatAmount v d = dec_of_nat (nat (v div 10 ^ d)) @
    (let f = strip_zeros (pad_start d (CHR ''0'') (dec_of_nat (nat (v mod 10 ^ d))))
     in if f = '''' then '''' else ''.'' @ f)"
proof -
  have "0 \<le> v div 10 ^ d" "0 \<le> v mod 10 ^ d" using assms by (simp_all add: pos_imp_zdiv_nonneg_iff)
  with assms show ?thesis by (simp add: formatAmount_def dec_of_int_def Let_def leD)
qed

lemma pad_start_digits: "list_all is_digit s \<Longrightarrow> list_all is_digit (pad_start n (CHR ''0'') s)"
  by (auto simp: pad_start_def list_all_iff)

lemma fraction_text:
  fixes r :: nat
  assumes "r < 10 ^ d"
  defines "f \<equiv> strip_zeros (pad_start d (CHR ''0'') (dec_of_nat r))"
  shows "list_all is_digit f" and "length f \<le> d" and "nat_of_dec (pad_end d (CHR ''0'') f) = r"
proof -
  let ?p = "pad_start d (CHR ''0'') (dec_of_nat r)"
  have digits: "list_all is_digit ?p" by (intro pad_start_digits dec_of_nat_all_digits)
  then show "list_all is_digit f"
    using strip_zeros_set [of ?p] by (auto simp: f_def list_all_iff)
  have *: "length f \<le> d \<and> nat_of_dec (pad_end d (CHR ''0'') f) = r"
  proof (cases "d = 0")
    case True
    then show ?thesis using assms(1)
      by (simp add: f_def pad_start_def pad_end_def dec_of_nat.simps digit_char_def strip_zeros_def)
  next
    case False
    then have len: "length ?p = d" using length_dec_of_nat [OF assms(1)] by (simp add: pad_start_def)
    then have "pad_end d (CHR ''0'') f = ?p" unfolding f_def by (rule pad_end_strip_zeros)
    moreover have "length f \<le> d" using length_strip_zeros [of ?p] len by (simp add: f_def)
    ultimately show ?thesis by simp
  qed
  then show "length f \<le> d" and "nat_of_dec (pad_end d (CHR ''0'') f) = r" by simp_all
qed

text \<open>A text of the pattern is read as its whole and fractional digits.\<close>

lemma js_BigInt_all_digits: "list_all is_digit s \<Longrightarrow> js_BigInt s = Inr (int (nat_of_dec s))"
proof (cases "s = []")
  case True
  then show ?thesis by (simp add: js_BigInt_def js_trim_def)
qed (rule js_BigInt_digits)

lemma js_trim_amount:
  assumes "w \<noteq> []" and "list_all is_digit w" and "list_all is_digit f"
  shows "js_trim (w @ (if f = [] then [] else CHR ''.'' # f)) = w @ (if f = [] then [] else CHR ''.'' # f)"
  using assms by (intro js_trim_id) (auto simp: list_all_iff)

lemma amount_parts:
  assumes "w \<noteq> []" and "list_all is_digit w" and "list_all is_digit f"
  defines "t \<equiv> w @ (if f = [] then [] else CHR ''.'' # f)"
  shows "amountWhole t = w" and "amountFraction t = f" and "amountPattern t"
proof -
  have point: "\<not> is_digit (CHR ''.'')" by (simp add: is_digit_def)
  have take: "takeWhile is_digit t = w" and drop: "dropWhile is_digit t = (if f = [] then [] else CHR ''.'' # f)"
    using assms(2) point unfolding t_def by (auto simp: list_all_iff takeWhile_append dropWhile_append)
  then show "amountWhole t = w" "amountFraction t = f" "amountPattern t"
    using assms(1,3) by (simp_all add: amountWhole_def amountFraction_def amountPattern_def)
qed

lemma parseAmount_parts:
  assumes "w \<noteq> []" and "list_all is_digit w" and "list_all is_digit f" and "length f \<le> d" and "length w \<le> 78"
  shows "parseAmount (w @ (if f = [] then [] else CHR ''.'' # f)) d =
    (let v = int (nat_of_dec w) * 10 ^ d + int (nat_of_dec (pad_end d (CHR ''0'') f))
     in if v \<ge> 2 ^ 256 then Inl ''This amount is too large.'' else Inr v)"
proof -
  have "list_all is_digit (pad_end d (CHR ''0'') f)" using assms(3) by (auto simp: pad_end_def list_all_iff)
  then show ?thesis
    unfolding parseAmount_def js_trim_amount [OF assms(1-3)] Let_def amount_parts(1,2) [OF assms(1-3)]
    using assms amount_parts(3) [OF assms(1-3)]
    by (simp only: js_BigInt_all_digits and_then_simps not_True_eq_False if_False linorder_not_less [symmetric] simp_thms)
qed

lemma parse_formatAmount:
  assumes "0 \<le> v" and "v < 2 ^ 256"
  shows "parseAmount (formatAmount v d) d = Inr v"
proof -
  define w where "w = dec_of_nat (nat (v div 10 ^ d))"
  define r where "r = nat (v mod 10 ^ d)"
  define f where "f = strip_zeros (pad_start d (CHR ''0'') (dec_of_nat r))"
  have shown: "formatAmount v d = w @ (if f = [] then [] else CHR ''.'' # f)"
    using formatAmount_nonneg [OF assms(1), of d] by (simp add: w_def r_def f_def Let_def)
  have "v div 10 ^ d \<le> v div 1" using assms(1) by (intro zdiv_mono2) simp_all
  then have "nat (v div 10 ^ d) < 2 ^ 256" using assms(2) by (simp add: nat_less_iff)
  also have "(2 :: nat) ^ 256 < 10 ^ 78" by simp
  finally have len: "length w \<le> 78" unfolding w_def by (rule length_dec_of_nat) simp
  have "0 \<le> v mod 10 ^ d" "v mod 10 ^ d < 10 ^ d" by simp_all
  then have r: "r < 10 ^ d" by (simp add: r_def nat_less_iff)
  note frac = fraction_text [OF r, folded f_def]
  have w: "w \<noteq> []" "list_all is_digit w" by (simp_all add: w_def dec_of_nat_all_digits)
  have "int (nat_of_dec w) = v div 10 ^ d" using assms(1) by (simp add: w_def pos_imp_zdiv_nonneg_iff)
  moreover have "int r = v mod 10 ^ d" by (simp add: r_def)
  ultimately have "int (nat_of_dec w) * 10 ^ d + int r = v" by (simp only: div_mult_mod_eq)
  with parseAmount_parts [OF w frac(1,2) len] frac(3) assms(2) show ?thesis
    by (simp add: shown Let_def)
qed

text \<open>What reading an amount means: the exact decimal value, in smallest units, below \<open>2^256\<close>.\<close>

lemma amountPattern_digits:
  assumes "amountPattern t"
  shows "list_all is_digit (amountWhole t)" and "amountWhole t \<noteq> []" and "list_all is_digit (amountFraction t)"
  using assms
  by (auto simp: amountPattern_def amountWhole_def amountFraction_def list_all_iff dropWhile_eq_Nil_conv
      dest: set_takeWhileD split: list.splits)
   (metis dropWhile_eq_Nil_conv list.sel(2) list.set(1) empty_iff)+

lemma parseAmountE:
  assumes "parseAmount value d = Inr v"
  obtains w f where "w = amountWhole (js_trim value)" and "f = amountFraction (js_trim value)"
    and "amountPattern (js_trim value)" and "length f \<le> d" and "length w \<le> 78"
    and "v = int (nat_of_dec w) * 10 ^ d + int (nat_of_dec (pad_end d (CHR ''0'') f))" and "0 \<le> v" and "v < 2 ^ 256"
proof -
  let ?t = "js_trim value"
  have pat: "amountPattern ?t" and len: "length (amountFraction ?t) \<le> d" "length (amountWhole ?t) \<le> 78"
    using assms by (auto simp: parseAmount_def Let_def split: if_splits)
  have digits: "list_all is_digit (pad_end d (CHR ''0'') (amountFraction ?t))"
    using amountPattern_digits(3) [OF pat] by (auto simp: pad_end_def list_all_iff)
  show thesis
    by (rule that [OF refl refl pat len])
      (use assms pat len js_BigInt_all_digits [OF amountPattern_digits(1) [OF pat]] js_BigInt_all_digits [OF digits]
        in \<open>auto simp: parseAmount_def Let_def split: if_splits\<close>)
qed

lemma parseAmount_bounds:
  assumes "parseAmount value d = Inr v"
  shows "0 \<le> v" and "v < 2 ^ 256"
  using assms by (auto elim: parseAmountE)

lemma parseAmount_value:
  assumes "parseAmount value d = Inr v"
  shows "v * 10 ^ length (amountFraction (js_trim value)) =
    int (nat_of_dec (amountWhole (js_trim value) @ amountFraction (js_trim value))) * 10 ^ d"
  using assms
proof (rule parseAmountE)
  fix w f
  assume f: "f = amountFraction (js_trim value)" and w: "w = amountWhole (js_trim value)" and len: "length f \<le> d"
    and v: "v = int (nat_of_dec w) * 10 ^ d + int (nat_of_dec (pad_end d (CHR ''0'') f))"
  have "nat_of_dec (pad_end d (CHR ''0'') f) = nat_of_dec f * 10 ^ (d - length f)"
    by (simp add: pad_end_def nat_of_dec_append)
  moreover have "(10 :: int) ^ d = 10 ^ length f * 10 ^ (d - length f)"
    using len by (simp flip: power_add)
  ultimately show ?thesis by (simp add: v f [symmetric] w [symmetric] nat_of_dec_append algebra_simps)
qed

section \<open>Terms\<close>

lemma safeAmount_Some: "safeAmount s (JS_int d) = Some v \<longleftrightarrow> validDecimals (JS_int d) \<and> parseAmount s (nat d) = Inr v"
  by (auto split: sum.splits)

declare safeAmount.simps(1) [simp del]

lemma interestFromBps_Some:
  assumes "interestFromBps loan (JS_int d) (JS_int bps) = Some s"
  shows "\<exists>a. safeAmount loan (JS_int d) = Some a \<and> safeAmount s (JS_int d) = Some (a * bps div 10000)"
proof -
  from assms obtain a where a: "safeAmount loan (JS_int d) = Some a" and b: "0 \<le> bps"
      and small: "tdiv (a * bps) 10000 \<le> MAX_UINT256" and s: "s = formatAmount (tdiv (a * bps) 10000) (nat d)"
    by (auto simp: Let_def split: if_splits option.splits)
  have a0: "0 \<le> a" using a parseAmount_bounds(1) by (auto simp: safeAmount_Some)
  with b have "0 \<le> a * bps" by simp
  then have "tdiv (a * bps) 10000 = a * bps div 10000" "0 \<le> a * bps div 10000"
    by (simp_all add: pos_imp_zdiv_nonneg_iff)
  with small parse_formatAmount [of "a * bps div 10000" "nat d"] have "parseAmount s (nat d) = Inr (a * bps div 10000)"
    by (simp add: s MAX_UINT256_def)
  with a show ?thesis by (auto simp: safeAmount_Some)
qed

lemma rateBps_of_interest:
  assumes "safeAmount loan (JS_int d) = Some a" and "safeAmount s (JS_int d) = Some (a * bps div 10000)"
    and "rateBps loan s (JS_int d) = Some r" and "0 \<le> bps"
  shows "r \<le> bps" and "a * bps mod 10000 = 0 \<Longrightarrow> r = bps"
proof -
  let ?i = "a * bps div 10000"
  have "a \<noteq> 0" using assms(1-3) by (auto simp: rateBps_def split: if_splits)
  moreover have "0 \<le> a" using assms(1) parseAmount_bounds(1) by (auto simp: safeAmount_Some)
  ultimately have a: "0 < a" by simp
  have i: "0 \<le> ?i" using a assms(4) by (simp add: pos_imp_zdiv_nonneg_iff)
  have r: "r = ?i * 10000 div a"
    using assms a i by (auto simp: rateBps_def Let_def split: if_splits)
  have "?i * 10000 \<le> a * bps" 
    using div_mult_mod_eq [of "a * bps" 10000] pos_mod_sign [of 10000 "a * bps"] by linarith
  then have "r \<le> a * bps div a" unfolding r using a by (intro zdiv_mono1) simp_all
  with a show "r \<le> bps" by simp
  assume "a * bps mod 10000 = 0"
  then have "?i * 10000 = a * bps" by (simp add: mod_eq_0_iff_dvd)
  then show "r = bps" unfolding r using a by simp
qed

lemma scaledCollateral_Some:
  assumes "scaledCollateral anchor (JS_int d) (JS_int p) = Some s"
  shows "\<exists>a. safeAmount anchor (JS_int d) = Some a \<and> 0 < a \<and> safeAmount s (JS_int d) = Some (max 1 (a * p div 100))"
proof -
  from assms obtain a where a: "safeAmount anchor (JS_int d) = Some a" and p: "0 \<le> p" and nz: "a \<noteq> 0"
      and small: "\<not> tdiv (a * p) 100 > MAX_UINT256"
      and s: "s = formatAmount (if tdiv (a * p) 100 = 0 then 1 else tdiv (a * p) 100) (nat d)"
    by (auto simp: Let_def split: if_splits option.splits)
  have a0: "0 \<le> a" using a parseAmount_bounds(1) by (auto simp: safeAmount_Some)
  with p have t: "tdiv (a * p) 100 = a * p div 100" "0 \<le> a * p div 100"
    by (simp_all add: pos_imp_zdiv_nonneg_iff)
  then have "(if tdiv (a * p) 100 = 0 then 1 else tdiv (a * p) 100) = max 1 (a * p div 100)" by auto
  with small t parse_formatAmount [of "max 1 (a * p div 100)" "nat d"]
  have "parseAmount s (nat d) = Inr (max 1 (a * p div 100))" by (simp add: s MAX_UINT256_def)
  with a a0 nz show ?thesis by (auto simp: safeAmount_Some)
qed

lemma replicate_numeral_chars: "replicate (numeral k) c = c # replicate (pred_numeral k) (c :: char)"
  by (simp add: numeral_eq_Suc)

lemmas digit_text = is_digit_def nat_of_dec_def digit_value_def pad_end_def replicate_numeral_chars

section \<open>Properties\<close>

text \<open>
  C33: Every amount a token can hold, printed by formatAmount with the token's decimals, is
  read back by parseAmount as the same integer.
\<close>

theorem amounts_round_trip:
  assumes "0 \<le> v" and "v < 2 ^ 256"
  shows "parseAmount (formatAmount v d) d = Inr v"
  by (rule parse_formatAmount [OF assms])

lemma amounts_round_trip_witness: "parseAmount (formatAmount 1050000 6) 6 = Inr 1050000"
  by (rule amounts_round_trip) simp_all

text \<open>
  C35: The interest a rate in basis points gives is an amount that reads back as the exact
  floor of principal times rate over 10000, and the rate shown for it never exceeds the rate
  it came from, with equality whenever the division was exact.
\<close>

theorem interest_and_rate_agree:
  assumes "interestFromBps loan (JS_int d) (JS_int bps) = Some s"
  shows "\<exists>a. safeAmount loan (JS_int d) = Some a \<and> safeAmount s (JS_int d) = Some (a * bps div 10000) \<and>
    (case rateBps loan s (JS_int d) of None \<Rightarrow> True
     | Some r \<Rightarrow> r \<le> bps \<and> (a * bps mod 10000 = 0 \<longrightarrow> r = bps))"
proof -
  have b: "0 \<le> bps" using assms by (auto split: if_splits)
  from interestFromBps_Some [OF assms] obtain a where
    a: "safeAmount loan (JS_int d) = Some a" "safeAmount s (JS_int d) = Some (a * bps div 10000)" by auto
  then show ?thesis using rateBps_of_interest [OF a _ b] by (auto split: option.split)
qed

lemma interest_and_rate_agree_witness:
  "\<exists>a. safeAmount ''2500.50'' (JS_int 6) = Some a \<and> safeAmount (formatAmount 125025000 6) (JS_int 6) = Some (a * 500 div 10000)"
proof -
  have "parseAmount ''2500.50'' 6 = Inr 2500500000"
    using parseAmount_parts [of "''2500''" "''50''" 6] by (simp add: digit_text)
  then have "interestFromBps ''2500.50'' (JS_int 6) (JS_int 500) = Some (formatAmount 125025000 6)"
    by (simp add: safeAmount.simps(1) MAX_UINT256_def isSafeInteger_def MAX_SAFE_INTEGER_def)
  from interest_and_rate_agree [OF this] show ?thesis by blast
qed

text \<open>
  Scaling a collateral anchor by a percentage gives an amount that reads back as the
  floor of the scaled amount, but never less than one smallest unit.
\<close>

theorem scaled_collateral_positive:
  assumes "scaledCollateral anchor (JS_int d) (JS_int p) = Some s"
  shows "\<exists>a. safeAmount anchor (JS_int d) = Some a \<and> 0 < a \<and> safeAmount s (JS_int d) = Some (max 1 (a * p div 100))"
  by (rule scaledCollateral_Some [OF assms])

lemma scaled_collateral_positive_witness:
  "\<exists>a. safeAmount ''0.000001'' (JS_int 6) = Some a \<and> safeAmount (formatAmount 1 6) (JS_int 6) = Some (max 1 (a * 25 div 100))"
proof -
  have "scaledCollateral ''0.000001'' (JS_int 6) (JS_int 25) = Some (formatAmount 1 6)"
    using parseAmount_parts [of "''0''" "''000001''" 6]
    by (simp add: digit_text safeAmount.simps(1) MAX_UINT256_def)
  from scaled_collateral_positive [OF this] show ?thesis by blast
qed

text \<open>
  C34: Whatever parseAmount accepts is the decimal number the text spells, exactly: the
  result times ten to the number of fraction digits is the number of all digits times ten to
  the token's decimals, the fraction has at most that many digits, and the result fits 256
  bits.
\<close>

theorem parsed_amount_exact:
  assumes "parseAmount value d = Inr v"
  shows "v * 10 ^ length (amountFraction (js_trim value)) =
    int (nat_of_dec (amountWhole (js_trim value) @ amountFraction (js_trim value))) * 10 ^ d \<and>
    length (amountFraction (js_trim value)) \<le> d \<and> 0 \<le> v \<and> v < 2 ^ 256"
  using parseAmount_value [OF assms] parseAmount_bounds [OF assms] assms by (auto elim: parseAmountE)

lemma parsed_amount_exact_witness:
  "(1050000 :: int) * 10 ^ length (amountFraction (js_trim ''1.05'')) =
    int (nat_of_dec (amountWhole (js_trim ''1.05'') @ amountFraction (js_trim ''1.05''))) * 10 ^ 6"
proof -
  have "parseAmount ''1.05'' 6 = Inr 1050000"
    using parseAmount_parts [of "''1''" "''05''" 6] by (simp add: digit_text)
  from parsed_amount_exact [OF this] show ?thesis by blast
qed

end
