(* ===== verification/P2P_Model.thy ===== *)
theory P2P_Model
  imports P2P_Amounts
begin

text \<open>
  The data of the peer-to-peer client (p2p/client.ts): deployments, loans, credits and
  terms, and the small functions every part shares (addresses, the final deadline, the state
  a loan is shown in). Addresses and hashes are text as they are in the program; numbers the
  client has checked are integers. A character outside the first 256 code points in a
  message is written as its escape.
\<close>

section \<open>Data\<close>

record deployment =
  dp_chainId :: int
  dp_chainName :: string
  dp_rpcUrl :: string
  dp_address :: string
  dp_loanToken :: string
  dp_collateralToken :: string
  dp_loanSymbol :: string
  dp_collateralSymbol :: string
  dp_loanDecimals :: nat
  dp_collateralDecimals :: nat
  dp_version :: "int option"
  dp_vaultImplementation :: "string option"
  dp_vaultImplementationHash :: "string option"
  dp_collateralName :: "string option"
  dp_legacy :: "bool option"
  dp_runtimeHash :: string
  dp_startBlock :: string

datatype loan_status = Ls_open | Ls_active | Ls_repaid | Ls_claimed | Ls_cancelled | Ls_expired

record loan_credit =
  lc_beneficiary :: string
  lc_nominal :: int
  lc_available :: int
  lc_unavailable :: bool

record extension_proposal =
  ep_proposer :: string
  ep_nonce :: int
  ep_oldDeadline :: int
  ep_newDeadline :: int
  ep_expiresAt :: int

record loan_credits =
  cr_USDG :: loan_credit
  cr_COLLATERAL :: loan_credit

record loan =
  ln_id :: int
  ln_isPublic :: bool
  ln_createdAt :: int
  ln_lender :: string
  ln_borrower :: string
  ln_principal :: int
  ln_collateral :: int
  ln_interest :: int
  ln_durationDays :: int
  ln_expiresAt :: int
  ln_dueAt :: int
  ln_status :: loan_status
  ln_repaymentDeadline :: "int option"
  ln_vault :: "string option"
  ln_fundingAvailable :: "int option"
  ln_collateralAvailable :: "int option"
  ln_loanCredits :: "loan_credits option"
  ln_extensionProposal :: "extension_proposal option"

record offer =
  of_market :: deployment
  of_loan :: loan

record terms =
  tm_borrower :: string
  tm_principal :: int
  tm_collateral :: int
  tm_interest :: int
  tm_durationDays :: int
  tm_expiresAt :: int

section \<open>Shared functions\<close>

definition GRACE :: int where
  "GRACE = 86400"

definition ZERO_ADDRESS :: string where
  "ZERO_ADDRESS = ''0x'' @ replicate 40 (CHR ''0'')"

definition sameAddress :: "string \<Rightarrow> string \<Rightarrow> bool" where
  "sameAddress a b \<longleftrightarrow> js_lower a = js_lower b"

definition hexText :: "nat \<Rightarrow> string \<Rightarrow> bool" where
  "hexText n s \<longleftrightarrow> length s = n + 2 \<and> take 2 s = ''0x'' \<and> list_all is_hex (drop 2 s)"

definition validAddress :: "string \<Rightarrow> bool" where
  "validAddress value \<longleftrightarrow> hexText 40 value \<and> \<not> sameAddress value ZERO_ADDRESS"

definition offerKey :: "offer \<Rightarrow> string" where
  "offerKey x = js_lower (dp_address (of_market x)) @ '':'' @ dec_of_int (ln_id (of_loan x))"

definition isLegacy :: "deployment \<Rightarrow> bool" where
  "isLegacy m \<longleftrightarrow> dp_legacy m = Some True \<or> dp_version m \<notin> {Some 2, Some 3}"

definition loanAmount :: "int \<Rightarrow> deployment \<Rightarrow> string" where
  "loanAmount v m = formatAmount v (dp_loanDecimals m) @ '' '' @ dp_loanSymbol m"

definition collateralAmount :: "int \<Rightarrow> deployment \<Rightarrow> string" where
  "collateralAmount v m = formatAmount v (dp_collateralDecimals m) @ '' '' @ dp_collateralSymbol m"

definition finalDeadline :: "loan \<Rightarrow> int" where
  "finalDeadline l = (case ln_repaymentDeadline l of Some d \<Rightarrow> d | None \<Rightarrow> ln_dueAt l + GRACE)"

definition middle_dot :: string where
  "middle_dot = '' '' @ [CHR 0xB7] @ '' ''"

definition loanState :: "loan \<Rightarrow> int \<Rightarrow> string" where
  "loanState l now =
     (case ln_status l of
        Ls_open \<Rightarrow>
          if now \<ge> ln_expiresAt l then ''Expired'' @ middle_dot @ ''refund available''
          else if ln_vault l \<notin> {None, Some ''''} \<and> ln_fundingAvailable l = None then ''Funding balance unavailable''
          else if (case ln_fundingAvailable l of None \<Rightarrow> False | Some f \<Rightarrow> f < ln_principal l)
            then ''Funding shortfall'' @ middle_dot @ ''cannot accept''
          else ''Funded'' @ middle_dot @ ''open''
      | Ls_active \<Rightarrow>
          if now > finalDeadline l then ''Default'' @ middle_dot @ ''collateral claimable''
          else if now > ln_dueAt l then
            (if finalDeadline l > ln_dueAt l + GRACE then ''Extended'' @ middle_dot @ ''repayment due''
             else ''Grace period'' @ middle_dot @ ''repayment due'')
          else ''Active loan''
      | Ls_repaid \<Rightarrow> ''Repaid'' | Ls_claimed \<Rightarrow> ''Settled in collateral''
      | Ls_cancelled \<Rightarrow> ''Cancelled'' | Ls_expired \<Rightarrow> ''Expired'')"

lemma sameAddress_refl [simp]: "sameAddress a a"
  by (simp add: sameAddress_def)

lemma sameAddress_sym: "sameAddress a b \<Longrightarrow> sameAddress b a"
  by (simp add: sameAddress_def)

lemma sameAddress_trans: "sameAddress a b \<Longrightarrow> sameAddress b c \<Longrightarrow> sameAddress a c"
  by (simp add: sameAddress_def)

end
