(* ===== verification/P2P_Offers.thy ===== *)
theory P2P_Offers
  imports P2P_Model
begin

text \<open>
  Offers on the loan screens: the rate shown and the order of a list
  (loanPresentation.tsx), the checks on a new offer (offerValidation.ts) and the credits a
  repayment is paid from (v3Terms.ts). How the browser reads a local date is an argument.
\<close>

section \<open>Rates and the order of offers\<close>

definition hasRate :: "loan \<Rightarrow> bool" where
  "hasRate l \<longleftrightarrow> ln_principal l > 0 \<and> ln_interest l \<ge> 0"

definition fixedInterestPercent :: "loan \<Rightarrow> string" where
  "fixedInterestPercent l =
     (if \<not> hasRate l then [CHR 0x5C] @ ''u2014''
      else (let hundredths = tdiv (ln_interest l * 10000) (ln_principal l) in
            if ln_interest l > 0 \<and> hundredths = 0 then ''<0.01%''
            else formatAmount hundredths 2 @ ''%''))"

definition knownCreatedAt :: "loan \<Rightarrow> int" where
  "knownCreatedAt l = (if isSafeInteger (ln_createdAt l) \<and> ln_createdAt l > 0 then ln_createdAt l else 0)"

definition compareRates :: "bool \<Rightarrow> loan \<Rightarrow> loan \<Rightarrow> int" where
  "compareRates descending a b =
     (if hasRate a \<noteq> hasRate b then (if hasRate a then -1 else 1)
      else if \<not> hasRate a then 0
      else compare (ln_interest a * ln_principal b) (ln_interest b * ln_principal a) * (if descending then -1 else 1))"

definition compareBy :: "string \<Rightarrow> loan \<Rightarrow> loan \<Rightarrow> int" where
  "compareBy key a b =
     (if key = ''amount'' then compare (ln_principal a) (ln_principal b)
      else if key = ''amount-desc'' then compare (ln_principal b) (ln_principal a)
      else if key = ''duration'' then compare (ln_durationDays a) (ln_durationDays b)
      else if key = ''duration-desc'' then compare (ln_durationDays b) (ln_durationDays a)
      else if key = ''interest'' then compare (ln_interest a) (ln_interest b)
      else if key = ''rate'' then compareRates False a b
      else if key = ''rate-desc'' then compareRates True a b
      else if key = ''expiry'' then compare (ln_expiresAt a) (ln_expiresAt b)
      else compare (knownCreatedAt b) (knownCreatedAt a))"

definition compareOffers :: "string \<Rightarrow> offer \<Rightarrow> offer \<Rightarrow> int" where
  "compareOffers key =
     or_else (\<lambda>a b. compareBy key (of_loan a) (of_loan b))
    (or_else (\<lambda>a b. compare (js_lower (dp_address (of_market a))) (js_lower (dp_address (of_market b))))
    (or_else (\<lambda>a b. compare (dp_chainId (of_market a)) (dp_chainId (of_market b)))
             (\<lambda>a b. compare (ln_id (of_loan b)) (ln_id (of_loan a)))))"

definition sortOffers :: "offer list \<Rightarrow> string \<Rightarrow> offer list" where
  "sortOffers offers key = js_sort (compareOffers key) offers"

text \<open>The comparator is consistent for every key, the cross-multiplied rates included.\<close>

lemma compare_flip: "compare y x = - compare x y"
  by (auto simp: compare_def)

lemma compare_key_down: "comparator (\<lambda>x y. compare (f y) (f x))"
  by unfold_locales (auto simp: compare_def split: if_splits)

lemma compare_le: "compare x y \<le> 0 \<longleftrightarrow> x \<le> y"
  by (auto simp: compare_def)

lemma compare_ge: "0 \<le> compare x y \<longleftrightarrow> y \<le> x"
  by (auto simp: compare_def)

lemma cross_trans:
  fixes i :: int
  assumes "0 < q" and "0 < p" and "0 < r" and "i * q \<le> j * p" and "j * r \<le> k * q"
  shows "i * r \<le> k * p"
proof -
  have "i * q * r \<le> j * p * r" using assms by (simp add: mult_right_mono)
  also have "\<dots> \<le> k * q * p" using mult_right_mono [OF assms(5), of p] assms by (simp add: algebra_simps)
  finally have "(i * r) * q \<le> (k * p) * q" by (simp add: algebra_simps)
  with assms(1) show ?thesis by simp
qed

lemma comparator_compareRates: "comparator (compareRates descending)"
proof unfold_locales
  show "sgn (compareRates descending y x) = - sgn (compareRates descending x y)" for x y
    by (auto simp: compareRates_def compare_def)
  show "compareRates descending x z \<le> 0" if "compareRates descending x y \<le> 0" and "compareRates descending y z \<le> 0" for x y z
  proof (cases "hasRate x \<and> hasRate y \<and> hasRate z")
    case True
    then have pos: "0 < ln_principal x" "0 < ln_principal y" "0 < ln_principal z" by (simp_all add: hasRate_def)
    show ?thesis
    proof (cases descending)
      case False
      with that True cross_trans [of "ln_principal y" "ln_principal x" "ln_principal z" "ln_interest x" "ln_interest y" "ln_interest z"] pos
      show ?thesis by (simp add: compareRates_def compare_le)
    next
      case d: True
      have "ln_interest z * ln_principal y \<le> ln_interest y * ln_principal z"
        "ln_interest y * ln_principal x \<le> ln_interest x * ln_principal y"
        using that True d by (simp_all add: compareRates_def compare_ge)
      then have "ln_interest z * ln_principal x \<le> ln_interest x * ln_principal z"
        by (intro cross_trans [OF pos(2,3,1)])
      with True d show ?thesis by (simp add: compareRates_def compare_ge)
    qed
  next
    case False
    with that show ?thesis
      by (cases "hasRate x"; cases "hasRate y"; cases "hasRate z") (simp_all add: compareRates_def)
  qed
qed

lemma comparator_map: "comparator c \<Longrightarrow> comparator (\<lambda>x y. c (f x) (f y))"
  unfolding comparator_def by blast

lemma comparator_if: "comparator c \<Longrightarrow> comparator d \<Longrightarrow> comparator (\<lambda>x y. if P then c x y else d x y)"
  by (cases P) simp_all

lemma comparator_compareBy: "comparator (compareBy key)"
  unfolding compareBy_def [abs_def]
  by (intro comparator_if compare_key compare_key_down comparator_compareRates)

interpretation offers: comparator "compareOffers key" for key
  unfolding compareOffers_def
  by (intro comparator_or_else compare_key compare_key_down
      comparator_map [OF comparator_compareBy, where f = of_loan])

section \<open>Checking a new offer\<close>

datatype offer_field = F_borrower | F_principal | F_collateral | F_interest | F_duration | F_expiry

record offer_input =
  oi_borrower :: string
  oi_principal :: string
  oi_collateral :: string
  oi_interest :: string
  oi_duration :: string
  oi_expiry :: string
  oi_visibility :: string

record offer_context =
  oc_market :: deployment
  oc_account :: string
  oc_balance :: int
  oc_now :: int
  oc_marketAddresses :: "string list"

type_synonym offer_errors = "offer_field \<rightharpoonup> string"

definition noErrors :: "offer_errors \<Rightarrow> bool" where
  "noErrors errors \<longleftrightarrow> list_all (\<lambda>f. errors f = None)
     [F_borrower, F_principal, F_collateral, F_interest, F_duration, F_expiry]"

definition checkBorrower :: "offer_input \<Rightarrow> offer_context \<Rightarrow> offer_errors \<Rightarrow> offer_errors" where
  "checkBorrower i c errors =
     (if oi_visibility i = ''private'' then
        (if js_trim (oi_borrower i) = '''' then errors(F_borrower \<mapsto> ''Enter the borrower wallet address.'')
         else if \<not> validAddress (oi_borrower i) \<or> sameAddress (oi_borrower i) (oc_account c)
            \<or> list_ex (\<lambda>a. sameAddress a (oi_borrower i)) (oc_marketAddresses c)
         then errors(F_borrower \<mapsto> ''Enter a valid borrower wallet different from your wallet and the lending contracts.'')
         else errors)
      else errors)"

fun fieldLabel :: "offer_field \<Rightarrow> string" where
  "fieldLabel F_principal = ''Loan amount''"
| "fieldLabel F_collateral = ''Collateral''"
| "fieldLabel F_interest = ''Interest''"
| "fieldLabel _ = ''undefined''"

definition readAmount :: "offer_field \<Rightarrow> string \<Rightarrow> nat \<Rightarrow> offer_errors \<Rightarrow> int option \<times> offer_errors" where
  "readAmount field text' decimals errors =
     (if js_trim text' = '''' then
        (None, errors(field \<mapsto>
           (if field = F_interest then ''Enter the interest amount, or 0 for no interest.''
            else if field = F_principal then ''Enter the loan amount.''
            else ''Enter the collateral amount.'')))
      else case parseAmount text' decimals of
        Inl cause \<Rightarrow> (None, errors(field \<mapsto> fieldLabel field @ '': '' @ cause))
      | Inr value \<Rightarrow>
          (Some value,
           if field \<noteq> F_interest \<and> value \<le> 0
           then errors(field \<mapsto> fieldLabel field @ '' must be greater than zero.'') else errors))"

definition checkTotals :: "offer_context \<Rightarrow> int option \<Rightarrow> int option \<Rightarrow> offer_errors \<Rightarrow> offer_errors" where
  "checkTotals c loan interest errors =
     (let e1 = (case (loan, interest) of
          (Some p, Some i) \<Rightarrow> if p + i \<ge> 2 ^ 256
            then errors(F_interest \<mapsto> ''Total repayment is too large. Reduce the principal or interest.'') else errors
        | _ \<Rightarrow> errors)
      in case loan of
           Some p \<Rightarrow> if p > oc_balance c
             then e1(F_principal \<mapsto> ''Your wallet needs '' @ loanAmount p (oc_market c) @ '' to fund this offer.'') else e1
         | None \<Rightarrow> e1)"

definition durationDaysOf :: "string \<Rightarrow> int" where
  "durationDaysOf d = int (nat_of_dec d)"

definition checkDuration :: "string \<Rightarrow> offer_errors \<Rightarrow> offer_errors" where
  "checkDuration d errors =
     (if js_trim d = '''' then errors(F_duration \<mapsto> ''Enter the loan duration in days.'')
      else if \<not> (d \<noteq> [] \<and> list_all is_digit d) \<or> \<not> isSafeInteger (durationDaysOf d) \<or> durationDaysOf d \<le> 0
         \<or> \<not> isSafeInteger (durationDaysOf d * GRACE)
      then errors(F_duration \<mapsto> ''Enter the loan duration as a positive whole number of days.'')
      else errors)"

text \<open>\<open>expiresAt\<close> is the date in whole seconds, NaN (\<open>None\<close>) when the browser cannot read it.\<close>

definition checkExpiry :: "string \<Rightarrow> int option \<Rightarrow> int \<Rightarrow> offer_errors \<Rightarrow> offer_errors" where
  "checkExpiry e expiresAt now errors =
     (if js_trim e = '''' then errors(F_expiry \<mapsto> ''Choose an offer expiry date and time.'')
      else case expiresAt of
        None \<Rightarrow> errors(F_expiry \<mapsto> ''Enter a valid offer expiry date and time.'')
      | Some t \<Rightarrow>
          if \<not> isSafeInteger t then errors(F_expiry \<mapsto> ''Enter a valid offer expiry date and time.'')
          else if t \<le> now then errors(F_expiry \<mapsto> ''Choose an offer expiry in the future.'')
          else errors)"

definition checkCalendar :: "string \<Rightarrow> int option \<Rightarrow> offer_errors \<Rightarrow> offer_errors" where
  "checkCalendar d expiresAt errors =
     (case expiresAt of
        Some t \<Rightarrow>
          if errors F_duration = None \<and> errors F_expiry = None
            \<and> t + durationDaysOf d * 86400 + 86400 > 8640000000000
          then errors(F_duration \<mapsto> ''The selected terms exceed the supported calendar range. Choose an earlier expiry or shorter duration.'')
          else errors
      | None \<Rightarrow> errors)"

definition validateOfferDraft ::
    "(string \<Rightarrow> int option) \<Rightarrow> offer_input \<Rightarrow> offer_context \<Rightarrow> terms option \<times> offer_errors" where
  "validateOfferDraft dateMillis i c =
     (let e0 = checkBorrower i c Map.empty;
          (loan, e1) = readAmount F_principal (oi_principal i) (dp_loanDecimals (oc_market c)) e0;
          (collateral, e2) = readAmount F_collateral (oi_collateral i) (dp_collateralDecimals (oc_market c)) e1;
          (interest, e3) = readAmount F_interest (oi_interest i) (dp_loanDecimals (oc_market c)) e2;
          e4 = checkTotals c loan interest e3;
          e5 = checkDuration (oi_duration i) e4;
          expiresAt = map_option (\<lambda>ms. ms div 1000) (dateMillis (oi_expiry i));
          e6 = checkExpiry (oi_expiry i) expiresAt (oc_now c) e5;
          e7 = checkCalendar (oi_duration i) expiresAt e6
      in case (loan, collateral, interest, expiresAt) of
           (Some p, Some k, Some f, Some t) \<Rightarrow>
             if noErrors e7 then
               (Some \<lparr>tm_borrower = (if oi_visibility i = ''public'' then ZERO_ADDRESS else oi_borrower i),
                      tm_principal = p, tm_collateral = k, tm_interest = f,
                      tm_durationDays = durationDaysOf (oi_duration i), tm_expiresAt = t\<rparr>, Map.empty)
             else (None, e7)
         | _ \<Rightarrow> (None, e7))"

text \<open>No step ever removes an error, so a draft without errors passed every check.\<close>

definition grows :: "offer_errors \<Rightarrow> offer_errors \<Rightarrow> bool" where
  "grows e e' \<longleftrightarrow> dom e \<subseteq> dom e'"

lemma noErrors_iff: "noErrors e \<longleftrightarrow> e = Map.empty"
proof
  assume "noErrors e"
  then have "e f = None" for f by (cases f) (simp_all add: noErrors_def)
  then show "e = Map.empty" by auto
qed (simp add: noErrors_def)

lemma checks_grow:
  "grows e (checkBorrower i c e)" "grows e (snd (readAmount f t d e))" "grows e (checkTotals c p q e)"
  "grows e (checkDuration u e)" "grows e (checkExpiry x y n e)" "grows e (checkCalendar u y e)"
  by (auto simp: grows_def checkBorrower_def readAmount_def checkTotals_def checkDuration_def checkExpiry_def
      checkCalendar_def Let_def split: sum.split option.split if_splits)

lemma grows_empty: "grows e Map.empty \<Longrightarrow> e = Map.empty"
  by (simp add: grows_def)

lemma checkBorrower_ok:
  "checkBorrower i c Map.empty = Map.empty \<Longrightarrow> oi_visibility i = ''private'' \<Longrightarrow>
   validAddress (oi_borrower i) \<and> \<not> sameAddress (oi_borrower i) (oc_account c) \<and>
   (\<forall>a \<in> set (oc_marketAddresses c). \<not> sameAddress a (oi_borrower i))"
  by (auto simp: checkBorrower_def list_ex_iff split: if_splits)

lemma readAmount_ok:
  assumes "readAmount f t d Map.empty = (v, Map.empty)"
  shows "\<exists>a. v = Some a \<and> parseAmount t d = Inr a \<and> (f \<noteq> F_interest \<longrightarrow> 0 < a)"
  using assms by (auto simp: readAmount_def split: if_splits sum.splits)

lemma checkTotals_ok:
  "checkTotals c (Some p) (Some q) Map.empty = Map.empty \<Longrightarrow> p + q < 2 ^ 256 \<and> p \<le> oc_balance c"
  by (auto simp: checkTotals_def Let_def split: if_splits)

lemma checkDuration_ok:
  "checkDuration d Map.empty = Map.empty \<Longrightarrow>
   0 < durationDaysOf d \<and> isSafeInteger (durationDaysOf d * GRACE) \<and> list_all is_digit d"
  by (auto simp: checkDuration_def split: if_splits)

lemma checkExpiry_ok:
  "checkExpiry e y now Map.empty = Map.empty \<Longrightarrow> \<exists>t. y = Some t \<and> now < t \<and> isSafeInteger t"
  by (auto simp: checkExpiry_def split: if_splits option.splits)

lemma checkCalendar_ok:
  "checkCalendar d (Some t) Map.empty = Map.empty \<Longrightarrow> t + durationDaysOf d * 86400 + 86400 \<le> 8640000000000"
  by (auto simp: checkCalendar_def split: if_splits)

lemma validateOfferDraft_steps:
  obtains l k f x e0 e1 e2 e3 e4 e5 e6 e7 where "e0 = checkBorrower i c Map.empty"
    and "readAmount F_principal (oi_principal i) (dp_loanDecimals (oc_market c)) e0 = (l, e1)"
    and "readAmount F_collateral (oi_collateral i) (dp_collateralDecimals (oc_market c)) e1 = (k, e2)"
    and "readAmount F_interest (oi_interest i) (dp_loanDecimals (oc_market c)) e2 = (f, e3)"
    and "e4 = checkTotals c l f e3" and "e5 = checkDuration (oi_duration i) e4"
    and "x = map_option (\<lambda>ms. ms div 1000) (dm (oi_expiry i))"
    and "e6 = checkExpiry (oi_expiry i) x (oc_now c) e5" and "e7 = checkCalendar (oi_duration i) x e6"
    and "validateOfferDraft dm i c = (case (l, k, f, x) of
      (Some p, Some k, Some f, Some t) \<Rightarrow>
        if noErrors e7 then
          (Some \<lparr>tm_borrower = (if oi_visibility i = ''public'' then ZERO_ADDRESS else oi_borrower i),
                 tm_principal = p, tm_collateral = k, tm_interest = f,
                 tm_durationDays = durationDaysOf (oi_duration i), tm_expiresAt = t\<rparr>, Map.empty)
        else (None, e7)
    | _ \<Rightarrow> (None, e7))"
proof -
  define e0 where "e0 = checkBorrower i c Map.empty"
  obtain l e1 where r1: "readAmount F_principal (oi_principal i) (dp_loanDecimals (oc_market c)) e0 = (l, e1)" by fastforce
  obtain k e2 where r2: "readAmount F_collateral (oi_collateral i) (dp_collateralDecimals (oc_market c)) e1 = (k, e2)" by fastforce
  obtain f e3 where r3: "readAmount F_interest (oi_interest i) (dp_loanDecimals (oc_market c)) e2 = (f, e3)" by fastforce
  define e4 where "e4 = checkTotals c l f e3"
  define e5 where "e5 = checkDuration (oi_duration i) e4"
  define x where "x = map_option (\<lambda>ms. ms div 1000) (dm (oi_expiry i))"
  define e6 where "e6 = checkExpiry (oi_expiry i) x (oc_now c) e5"
  define e7 where "e7 = checkCalendar (oi_duration i) x e6"
  show thesis
    by (rule that [OF e0_def r1 r2 r3 e4_def e5_def x_def e6_def e7_def])
      (simp only: validateOfferDraft_def Let_def e0_def [symmetric] r1 prod.case r2 r3
        e4_def [symmetric] e5_def [symmetric] x_def [symmetric] e6_def [symmetric] e7_def [symmetric])
qed

lemma validateOfferDraft_Some:
  assumes "validateOfferDraft dm i c = (Some t, e)"
  shows "e = Map.empty \<and> (\<exists>p k f ms.
    parseAmount (oi_principal i) (dp_loanDecimals (oc_market c)) = Inr p \<and> 0 < p \<and>
    parseAmount (oi_collateral i) (dp_collateralDecimals (oc_market c)) = Inr k \<and> 0 < k \<and>
    parseAmount (oi_interest i) (dp_loanDecimals (oc_market c)) = Inr f \<and>
    p + f < 2 ^ 256 \<and> p \<le> oc_balance c \<and>
    dm (oi_expiry i) = Some ms \<and> oc_now c < ms div 1000 \<and>
    0 < durationDaysOf (oi_duration i) \<and>
    ms div 1000 + durationDaysOf (oi_duration i) * 86400 + 86400 \<le> 8640000000000 \<and>
    (oi_visibility i = ''private'' \<longrightarrow> validAddress (oi_borrower i) \<and> \<not> sameAddress (oi_borrower i) (oc_account c) \<and>
       (\<forall>a \<in> set (oc_marketAddresses c). \<not> sameAddress a (oi_borrower i))) \<and>
    t = \<lparr>tm_borrower = (if oi_visibility i = ''public'' then ZERO_ADDRESS else oi_borrower i),
         tm_principal = p, tm_collateral = k, tm_interest = f,
         tm_durationDays = durationDaysOf (oi_duration i), tm_expiresAt = ms div 1000\<rparr>)"
proof -
  obtain l k f x e0 e1 e2 e3 e4 e5 e6 e7 where e0_def: "e0 = checkBorrower i c Map.empty"
    and r1: "readAmount F_principal (oi_principal i) (dp_loanDecimals (oc_market c)) e0 = (l, e1)"
    and r2: "readAmount F_collateral (oi_collateral i) (dp_collateralDecimals (oc_market c)) e1 = (k, e2)"
    and r3: "readAmount F_interest (oi_interest i) (dp_loanDecimals (oc_market c)) e2 = (f, e3)"
    and e4_def: "e4 = checkTotals c l f e3" and e5_def: "e5 = checkDuration (oi_duration i) e4"
    and x_def: "x = map_option (\<lambda>ms. ms div 1000) (dm (oi_expiry i))"
    and e6_def: "e6 = checkExpiry (oi_expiry i) x (oc_now c) e5" and e7_def: "e7 = checkCalendar (oi_duration i) x e6"
    and val: "validateOfferDraft dm i c = (case (l, k, f, x) of
      (Some p, Some k, Some f, Some t) \<Rightarrow>
        if noErrors e7 then
          (Some \<lparr>tm_borrower = (if oi_visibility i = ''public'' then ZERO_ADDRESS else oi_borrower i),
                 tm_principal = p, tm_collateral = k, tm_interest = f,
                 tm_durationDays = durationDaysOf (oi_duration i), tm_expiresAt = t\<rparr>, Map.empty)
        else (None, e7)
    | _ \<Rightarrow> (None, e7))"
    by (rule validateOfferDraft_steps)
  from assms val obtain p kk ff tt where s: "l = Some p" "k = Some kk" "f = Some ff" "x = Some tt" and no: "noErrors e7"
      and t: "t = \<lparr>tm_borrower = (if oi_visibility i = ''public'' then ZERO_ADDRESS else oi_borrower i),
                 tm_principal = p, tm_collateral = kk, tm_interest = ff,
                 tm_durationDays = durationDaysOf (oi_duration i), tm_expiresAt = tt\<rparr>" and e: "e = Map.empty"
    by (auto split: option.splits if_splits)
  have e7: "e7 = Map.empty" using no by (simp add: noErrors_iff)
  have e6: "e6 = Map.empty" using e7 checks_grow(6) grows_empty unfolding e7_def by metis
  have e5: "e5 = Map.empty" using e6 checks_grow(5) grows_empty unfolding e6_def by metis
  have e4: "e4 = Map.empty" using e5 checks_grow(4) grows_empty unfolding e5_def by metis
  have e3: "e3 = Map.empty" using e4 checks_grow(3) grows_empty unfolding e4_def by metis
  have e2: "e2 = Map.empty" using e3 r3 checks_grow(2) grows_empty by (metis snd_conv)
  have e1: "e1 = Map.empty" using e2 r2 checks_grow(2) grows_empty by (metis snd_conv)
  have e0: "e0 = Map.empty" using e1 r1 checks_grow(2) grows_empty by (metis snd_conv)
  from s(4) obtain ms where ms: "dm (oi_expiry i) = Some ms" "tt = ms div 1000" by (auto simp: x_def)
  have exp: "oc_now c < tt" using checkExpiry_ok e6 e5 s(4) unfolding e6_def by fastforce
  have "checkTotals c (Some p) (Some ff) Map.empty = Map.empty" using e4 e3 s unfolding e4_def by simp
  note tot = checkTotals_ok [OF this]
  have "checkDuration (oi_duration i) Map.empty = Map.empty" using e5 e4 unfolding e5_def by simp
  note dur = checkDuration_ok [OF this]
  have "checkCalendar (oi_duration i) (Some tt) Map.empty = Map.empty" using e7 e6 s(4) unfolding e7_def by simp
  note cal = checkCalendar_ok [OF this]
  have bor: "oi_visibility i = ''private'' \<longrightarrow> validAddress (oi_borrower i) \<and> \<not> sameAddress (oi_borrower i) (oc_account c) \<and>
       (\<forall>a \<in> set (oc_marketAddresses c). \<not> sameAddress a (oi_borrower i))"
    using checkBorrower_ok e0 unfolding e0_def by blast
  have "readAmount F_principal (oi_principal i) (dp_loanDecimals (oc_market c)) Map.empty = (Some p, Map.empty)"
    "readAmount F_collateral (oi_collateral i) (dp_collateralDecimals (oc_market c)) Map.empty = (Some kk, Map.empty)"
    "readAmount F_interest (oi_interest i) (dp_loanDecimals (oc_market c)) Map.empty = (Some ff, Map.empty)"
    using r1 r2 r3 e0 e1 e2 e3 s by simp_all
  from this [THEN readAmount_ok] show ?thesis
    using tot dur cal bor exp ms t e by auto
qed

lemma readAmount_None: "readAmount f t d e = (None, e') \<Longrightarrow> e' \<noteq> Map.empty"
  by (auto simp: readAmount_def split: if_splits sum.splits)

lemma checkExpiry_None: "checkExpiry u None now e \<noteq> Map.empty"
  by (simp add: checkExpiry_def)

lemma grows_nonempty: "grows e e' \<Longrightarrow> e \<noteq> Map.empty \<Longrightarrow> e' \<noteq> Map.empty"
  using grows_empty by blast

lemma validateOfferDraft_None:
  assumes "validateOfferDraft dm i c = (None, e)"
  shows "e \<noteq> Map.empty"
proof -
  obtain l k f x e0 e1 e2 e3 e4 e5 e6 e7 where
        r1: "readAmount F_principal (oi_principal i) (dp_loanDecimals (oc_market c)) e0 = (l, e1)"
    and r2: "readAmount F_collateral (oi_collateral i) (dp_collateralDecimals (oc_market c)) e1 = (k, e2)"
    and r3: "readAmount F_interest (oi_interest i) (dp_loanDecimals (oc_market c)) e2 = (f, e3)"
    and e4_def: "e4 = checkTotals c l f e3" and e5_def: "e5 = checkDuration (oi_duration i) e4"
    and e6_def: "e6 = checkExpiry (oi_expiry i) x (oc_now c) e5" and e7_def: "e7 = checkCalendar (oi_duration i) x e6"
    and val: "validateOfferDraft dm i c = (case (l, k, f, x) of
      (Some p, Some k, Some f, Some t) \<Rightarrow>
        if noErrors e7 then
          (Some \<lparr>tm_borrower = (if oi_visibility i = ''public'' then ZERO_ADDRESS else oi_borrower i),
                 tm_principal = p, tm_collateral = k, tm_interest = f,
                 tm_durationDays = durationDaysOf (oi_duration i), tm_expiresAt = t\<rparr>, Map.empty)
        else (None, e7)
    | _ \<Rightarrow> (None, e7))"
    by (rule validateOfferDraft_steps)
  have e: "e = e7" using assms val by (auto split: option.splits if_splits)
  have up: "e6 \<noteq> Map.empty \<Longrightarrow> e7 \<noteq> Map.empty" "e5 \<noteq> Map.empty \<Longrightarrow> e6 \<noteq> Map.empty"
    "e4 \<noteq> Map.empty \<Longrightarrow> e5 \<noteq> Map.empty" "e3 \<noteq> Map.empty \<Longrightarrow> e4 \<noteq> Map.empty"
    unfolding e4_def e5_def e6_def e7_def by (rule grows_nonempty [OF checks_grow(6)] grows_nonempty [OF checks_grow(5)]
        grows_nonempty [OF checks_grow(4)] grows_nonempty [OF checks_grow(3)]; assumption)+
  have up': "e2 \<noteq> Map.empty \<Longrightarrow> e3 \<noteq> Map.empty" "e1 \<noteq> Map.empty \<Longrightarrow> e2 \<noteq> Map.empty"
    using checks_grow(2) grows_nonempty r2 r3 by (metis snd_conv)+
  consider "l = None" | "k = None" | "f = None" | "x = None" | "\<not> noErrors e7"
    using assms val by (auto split: option.splits if_splits)
  then have "e7 \<noteq> Map.empty"
  proof cases
    case 1
    with r1 readAmount_None up up' show ?thesis by blast
  next
    case 2
    with r2 readAmount_None up up' show ?thesis by blast
  next
    case 3
    with r3 readAmount_None up show ?thesis by blast
  next
    case 4
    then have "e6 \<noteq> Map.empty" unfolding e6_def by (simp add: checkExpiry_None)
    then show ?thesis by (rule up)
  next
    case 5
    then show ?thesis by (simp add: noErrors_iff)
  qed
  then show ?thesis by (simp add: e)
qed

section \<open>Paying with credits\<close>

record credit_plan =
  cp_sourceIds :: "int list"
  cp_sourceAmounts :: "int list"
  cp_walletAmount :: int
  cp_creditAmount :: int

definition eligibleCredit :: "string \<Rightarrow> int \<Rightarrow> loan \<Rightarrow> bool" where
  "eligibleCredit account target l \<longleftrightarrow> ln_id l \<noteq> target \<and>
     (case ln_loanCredits l of None \<Rightarrow> False
      | Some cs \<Rightarrow> sameAddress (lc_beneficiary (cr_USDG cs)) account
          \<and> lc_available (cr_USDG cs) > 0 \<and> lc_nominal (cr_USDG cs) > 0)"

definition usableCredit :: "loan \<Rightarrow> int" where
  "usableCredit l = (case ln_loanCredits l of None \<Rightarrow> 0
     | Some cs \<Rightarrow> if lc_available (cr_USDG cs) < lc_nominal (cr_USDG cs)
                 then lc_available (cr_USDG cs) else lc_nominal (cr_USDG cs))"

text \<open>The loop: \<open>taken\<close> are the sources so far, newest last; their ids are the set \<open>seen\<close>.\<close>

fun takeCredits :: "string \<Rightarrow> int \<Rightarrow> (int \<times> int) list \<Rightarrow> int \<Rightarrow> loan list \<Rightarrow> (int \<times> int) list \<times> int" where
  "takeCredits account target taken remaining [] = (taken, remaining)"
| "takeCredits account target taken remaining (l # ls) =
     (if remaining \<le> 0 \<or> length taken = 16 then (taken, remaining)
      else if ln_id l \<in> fst ` set taken \<or> \<not> eligibleCredit account target l
      then takeCredits account target taken remaining ls
      else (let amount = (if usableCredit l < remaining then usableCredit l else remaining)
            in takeCredits account target (taken @ [(ln_id l, amount)]) (remaining - amount) ls))"

definition planCreditRepayment :: "loan list \<Rightarrow> string \<Rightarrow> int \<Rightarrow> int \<Rightarrow> credit_plan" where
  "planCreditRepayment loans account target owed =
     (case takeCredits account target [] owed (js_sort (\<lambda>a b. compare (ln_id a) (ln_id b)) loans) of
        (taken, remaining) \<Rightarrow>
          \<lparr>cp_sourceIds = map fst taken, cp_sourceAmounts = map snd taken,
           cp_walletAmount = remaining, cp_creditAmount = owed - remaining\<rparr>)"

text \<open>The ids do not repeat, every source is an eligible loan and no more than its credit is taken.\<close>

definition soundSources :: "string \<Rightarrow> int \<Rightarrow> loan list \<Rightarrow> (int \<times> int) list \<Rightarrow> bool" where
  "soundSources account target loans taken \<longleftrightarrow> distinct (map fst taken) \<and> length taken \<le> 16 \<and>
     (\<forall>(i, a) \<in> set taken. 0 < a \<and> (\<exists>l \<in> set loans. ln_id l = i \<and> eligibleCredit account target l \<and> a \<le> usableCredit l))"

lemma usableCredit_pos: "eligibleCredit account target l \<Longrightarrow> 0 < usableCredit l"
  by (auto simp: eligibleCredit_def usableCredit_def split: option.splits)

lemma takeCredits_sound:
  assumes "soundSources account target loans taken" and "set ls \<subseteq> set loans" and "0 \<le> remaining"
    and "takeCredits account target taken remaining ls = (taken', remaining')"
  shows "soundSources account target loans taken' \<and> 0 \<le> remaining' \<and>
    sum_list (map snd taken') + remaining' = sum_list (map snd taken) + remaining"
  using assms
proof (induction ls arbitrary: taken remaining)
  case (Cons l ls)
  show ?case
  proof (cases "remaining \<le> 0 \<or> length taken = 16 \<or> ln_id l \<in> fst ` set taken \<or> \<not> eligibleCredit account target l")
    case True
    then consider "(taken, remaining) = (taken', remaining')" | "takeCredits account target taken remaining ls = (taken', remaining')"
      using Cons.prems(4) by (simp only: takeCredits.simps split: if_split_asm) blast+
    then show ?thesis
    proof cases
      case 2
      with Cons.prems show ?thesis by (intro Cons.IH) simp_all
    qed (use Cons.prems in auto)
  next
    case False
    let ?a = "if usableCredit l < remaining then usableCredit l else remaining"
    have pos: "0 < ?a" "?a \<le> usableCredit l" "?a \<le> remaining" using False usableCredit_pos [of account target l] by auto
    have "soundSources account target loans (taken @ [(ln_id l, ?a)])"
      using False Cons.prems(1,2) pos by (auto simp: soundSources_def)
    moreover have "takeCredits account target (taken @ [(ln_id l, ?a)]) (remaining - ?a) ls = (taken', remaining')"
      using False Cons.prems(4) by (simp add: Let_def split: if_splits)
    ultimately show ?thesis
      using Cons.IH [of "taken @ [(ln_id l, ?a)]" "remaining - ?a"] Cons.prems(2) pos by simp
  qed
qed auto

text \<open>When something is left to pay and there was room, every eligible credit was used up.\<close>

lemma takeCredits_keeps:
  "takeCredits account target t r ms = (t', r') \<Longrightarrow> fst ` set t \<subseteq> fst ` set t'"
proof (induction ms arbitrary: t r)
  case (Cons m ms)
  let ?a = "if usableCredit m < r then usableCredit m else r"
  consider "(t, r) = (t', r')" | "takeCredits account target t r ms = (t', r')"
    | "takeCredits account target (t @ [(ln_id m, ?a)]) (r - ?a) ms = (t', r')"
    using Cons.prems by (simp only: takeCredits.simps Let_def split: if_split_asm)
  then show ?case
  proof cases
    case 3
    from Cons.IH [OF this] show ?thesis by simp
  qed (use Cons.IH in auto)
qed simp

lemma takeCredits_greedy:
  assumes "takeCredits account target taken remaining ls = (taken', remaining')"
    and "0 < remaining'" and "length taken' < 16" and "l \<in> set ls" and "eligibleCredit account target l"
  shows "ln_id l \<in> fst ` set taken'"
  using assms
proof (induction ls arbitrary: taken remaining)
  case (Cons m ls)
  note keep = takeCredits_keeps
  show ?case
  proof (cases "remaining \<le> 0 \<or> length taken = 16")
    case True
    with Cons.prems show ?thesis by auto
  next
    case False
    show ?thesis
    proof (cases "ln_id m \<in> fst ` set taken \<or> \<not> eligibleCredit account target m")
      case True
      with False Cons.prems have rest: "takeCredits account target taken remaining ls = (taken', remaining')" by (simp split: if_splits)
      show ?thesis
      proof (cases "l = m")
        case True
        with Cons.prems(5) \<open>ln_id m \<in> fst ` set taken \<or> \<not> eligibleCredit account target m\<close> keep(1) [OF rest]
        show ?thesis by auto
      qed (use Cons rest in auto)
    next
      case new: False
      let ?a = "if usableCredit m < remaining then usableCredit m else remaining"
      have rest: "takeCredits account target (taken @ [(ln_id m, ?a)]) (remaining - ?a) ls = (taken', remaining')"
        using False new Cons.prems(1) by (simp add: Let_def split: if_splits)
      show ?thesis
      proof (cases "l = m")
        case True
        then show ?thesis using keep(1) [OF rest] by auto
      qed (use Cons rest in auto)
    qed
  qed
qed simp

section \<open>Properties\<close>

text \<open>
  C31: An offer draft is turned into terms exactly when it has no error, and then the terms
  are the parsed amounts: a positive principal within the wallet's balance and positive
  collateral, a repayment below 2^256, an expiry in the future, a duration whose final
  deadline stays in the calendar, and, for a private offer, a well-formed borrower that is
  neither the lender nor a lending contract.
\<close>

theorem offer_draft_valid:
  assumes "validateOfferDraft dateMillis i c = (t, errors)"
  shows "(t = None \<longleftrightarrow> errors \<noteq> Map.empty) \<and> (\<forall>u. t = Some u \<longrightarrow>
    parseAmount (oi_principal i) (dp_loanDecimals (oc_market c)) = Inr (tm_principal u) \<and>
    parseAmount (oi_collateral i) (dp_collateralDecimals (oc_market c)) = Inr (tm_collateral u) \<and>
    parseAmount (oi_interest i) (dp_loanDecimals (oc_market c)) = Inr (tm_interest u) \<and>
    0 < tm_principal u \<and> tm_principal u \<le> oc_balance c \<and> 0 < tm_collateral u \<and>
    tm_principal u + tm_interest u < 2 ^ 256 \<and> oc_now c < tm_expiresAt u \<and> 0 < tm_durationDays u \<and>
    tm_expiresAt u + tm_durationDays u * GRACE + GRACE \<le> 8640000000000 \<and>
    (oi_visibility i = ''public'' \<longrightarrow> tm_borrower u = ZERO_ADDRESS) \<and>
    (oi_visibility i = ''private'' \<longrightarrow> validAddress (tm_borrower u) \<and> \<not> sameAddress (tm_borrower u) (oc_account c) \<and>
       (\<forall>a \<in> set (oc_marketAddresses c). \<not> sameAddress a (tm_borrower u))))"
proof (cases t)
  case None
  with assms validateOfferDraft_None show ?thesis by auto
next
  case (Some u)
  with validateOfferDraft_Some [of dateMillis i c u errors] assms show ?thesis by (auto simp: GRACE_def)
qed

definition sampleMarket :: deployment where
  "sampleMarket = \<lparr>dp_chainId = 4663, dp_chainName = ''Robinhood'', dp_rpcUrl = ''/api/rpc'',
     dp_address = ''0x'' @ replicate 40 (CHR ''a''), dp_loanToken = ''0x'' @ replicate 40 (CHR ''b''),
     dp_collateralToken = ''0x'' @ replicate 40 (CHR ''c''), dp_loanSymbol = ''USDG'', dp_collateralSymbol = ''SLV'',
     dp_loanDecimals = 6, dp_collateralDecimals = 18, dp_version = Some 3, dp_vaultImplementation = None,
     dp_vaultImplementationHash = None, dp_collateralName = None, dp_legacy = None,
     dp_runtimeHash = ''0x'' @ replicate 64 (CHR ''d''), dp_startBlock = ''1''\<rparr>"

definition sampleDraft :: offer_input where
  "sampleDraft = \<lparr>oi_borrower = '''', oi_principal = ''1.05'', oi_collateral = ''1'', oi_interest = ''0'',
     oi_duration = ''30'', oi_expiry = ''2030'', oi_visibility = ''public''\<rparr>"

definition sampleOfferContext :: offer_context where
  "sampleOfferContext = \<lparr>oc_market = sampleMarket, oc_account = ''0x'' @ replicate 40 (CHR ''e''), oc_balance = 2000000,
     oc_now = 1000, oc_marketAddresses = []\<rparr>"

lemma sampleDraft_valid:
  "validateOfferDraft (\<lambda>_. Some 2000000) sampleDraft sampleOfferContext =
    (Some \<lparr>tm_borrower = ZERO_ADDRESS, tm_principal = 1050000, tm_collateral = 10 ^ 18, tm_interest = 0,
       tm_durationDays = 30, tm_expiresAt = 2000\<rparr>, Map.empty)"
proof -
  have p: "parseAmount ''1.05'' 6 = Inr 1050000" "parseAmount ''1'' 18 = Inr (10 ^ 18)" "parseAmount ''0'' 6 = Inr 0"
    using parseAmount_parts [of "''1''" "''05''" 6] parseAmount_parts [of "''1''" "[]" 18]
      parseAmount_parts [of "''0''" "[]" 6] by (simp_all add: digit_text)
  have trim: "js_trim ''1.05'' \<noteq> []" "js_trim ''1'' \<noteq> []" "js_trim ''0'' \<noteq> []" "js_trim ''30'' \<noteq> []" "js_trim ''2030'' \<noteq> []"
    by (simp_all add: js_trim_def is_space_def)
  have d: "durationDaysOf ''30'' = 30" "list_all is_digit ''30''"
    by (simp_all add: durationDaysOf_def digit_text)
  show ?thesis
    by (simp add: validateOfferDraft_def sampleDraft_def sampleOfferContext_def sampleMarket_def checkBorrower_def
        readAmount_def p trim checkTotals_def checkDuration_def d is_digit_def isSafeInteger_def MAX_SAFE_INTEGER_def GRACE_def
        checkExpiry_def checkCalendar_def noErrors_def Let_def)
qed

lemma offer_draft_valid_witness:
  "\<exists>u. validateOfferDraft (\<lambda>_. Some 2000000) sampleDraft sampleOfferContext = (Some u, Map.empty) \<and>
     0 < tm_principal u \<and> oc_now sampleOfferContext < tm_expiresAt u"
  using offer_draft_valid [OF sampleDraft_valid] sampleDraft_valid by blast

text \<open>
  C36: Sorting the offers keeps every offer and orders the list by the comparator, and by
  rate it puts the offers without a rate last and the others in the exact order of interest
  over principal, compared by cross-multiplication.
\<close>

theorem offers_sorted:
  "mset (sortOffers offers key) = mset offers \<and>
   sorted_wrt (\<lambda>a b. compareOffers key a b \<le> 0) (sortOffers offers key) \<and>
   (key = ''rate'' \<longrightarrow> sorted_wrt (\<lambda>a b. hasRate (of_loan b) \<longrightarrow> hasRate (of_loan a) \<and>
      ln_interest (of_loan a) * ln_principal (of_loan b) \<le> ln_interest (of_loan b) * ln_principal (of_loan a))
      (sortOffers offers key))"
proof -
  have sorted: "sorted_wrt (\<lambda>a b. compareOffers key a b \<le> 0) (sortOffers offers key)"
    unfolding sortOffers_def by (rule offers.js_sort_sorted)
  have "hasRate (of_loan b) \<longrightarrow> hasRate (of_loan a) \<and>
      ln_interest (of_loan a) * ln_principal (of_loan b) \<le> ln_interest (of_loan b) * ln_principal (of_loan a)"
    if "compareOffers ''rate'' a b \<le> 0" for a b
  proof -
    have "compareRates False (of_loan a) (of_loan b) \<le> 0"
      using that by (auto simp: compareOffers_def or_else_def compareBy_def split: if_splits)
    then show ?thesis by (auto simp: compareRates_def compare_le split: if_splits)
  qed
  then have "key = ''rate'' \<longrightarrow> sorted_wrt (\<lambda>a b. hasRate (of_loan b) \<longrightarrow> hasRate (of_loan a) \<and>
      ln_interest (of_loan a) * ln_principal (of_loan b) \<le> ln_interest (of_loan b) * ln_principal (of_loan a))
      (sortOffers offers key)"
    using sorted by (auto elim!: sorted_wrt_mono_rel [rotated])
  with sorted show ?thesis by (simp add: sortOffers_def)
qed

definition sampleCredits :: "string \<Rightarrow> int \<Rightarrow> int \<Rightarrow> loan_credits" where
  "sampleCredits owner nominal available = (let c = \<lparr>lc_beneficiary = owner, lc_nominal = nominal, lc_available = available, lc_unavailable = False\<rparr>
     in \<lparr>cr_USDG = c, cr_COLLATERAL = c\<rparr>)"

definition sampleLoanOf :: "int \<Rightarrow> int \<Rightarrow> int \<Rightarrow> loan_credits option \<Rightarrow> loan" where
  "sampleLoanOf i lent interest credits = \<lparr>ln_id = i, ln_isPublic = True, ln_createdAt = 0, ln_lender = ''0xa'', ln_borrower = ''0xb'',
     ln_principal = lent, ln_collateral = 1, ln_interest = interest, ln_durationDays = 30, ln_expiresAt = 0, ln_dueAt = 0, ln_status = Ls_open,
     ln_repaymentDeadline = None, ln_vault = None, ln_fundingAvailable = None, ln_collateralAvailable = None, ln_loanCredits = credits,
     ln_extensionProposal = None\<rparr>"

definition sampleOfferOf :: "int \<Rightarrow> int \<Rightarrow> int \<Rightarrow> offer" where
  "sampleOfferOf i lent interest = \<lparr>of_market = sampleMarket, of_loan = sampleLoanOf i lent interest None\<rparr>"

text \<open>Offers of ten, of no and of five per cent, in this order.\<close>

lemma offers_sorted_witness:
  "\<exists>a b c. sortOffers [sampleOfferOf 1 300 30, sampleOfferOf 2 0 0, sampleOfferOf 3 200 10] ''rate'' = [a, b, c] \<and>
     map (\<lambda>x. ln_id (of_loan x)) [a, b, c] = [3, 1, 2] \<and> hasRate (of_loan a) \<and> hasRate (of_loan b) \<and> \<not> hasRate (of_loan c) \<and>
     ln_interest (of_loan a) * ln_principal (of_loan b) \<le> ln_interest (of_loan b) * ln_principal (of_loan a)"
proof -
  let ?a = "sampleOfferOf 3 200 10" and ?b = "sampleOfferOf 1 300 30" and ?c = "sampleOfferOf 2 0 0"
  have rates: "hasRate (of_loan ?a)" "hasRate (of_loan ?b)" "\<not> hasRate (of_loan ?c)"
    by (simp_all add: hasRate_def sampleOfferOf_def sampleLoanOf_def)
  have sort: "sortOffers [?b, ?c, ?a] ''rate'' = [?a, ?b, ?c]"
    by (simp add: sortOffers_def js_sort_def compareOffers_def or_else_def compareBy_def compareRates_def rates compare_def)
      (simp add: sampleOfferOf_def sampleLoanOf_def)
  from offers_sorted [of "[?b, ?c, ?a]" "''rate''"]
  have "ln_interest (of_loan ?a) * ln_principal (of_loan ?b) \<le> ln_interest (of_loan ?b) * ln_principal (of_loan ?a)"
    using rates(2) by (simp add: sort)
  then show ?thesis using sort rates
    by (intro exI [of _ ?a] exI [of _ ?b] exI [of _ ?c]) (simp add: sampleOfferOf_def sampleLoanOf_def)
qed

text \<open>
  C32: The credits a repayment is planned from are at most sixteen distinct loans other than
  the one repaid, each held by the payer and used for a positive amount within its available
  and nominal credit; with the wallet's part they add up to exactly what is owed; and the
  wallet pays something while sources are left only when every eligible credit is used.
\<close>

theorem credit_plan_sound:
  assumes "0 \<le> owed"
  shows "let plan = planCreditRepayment loans account target owed in
    distinct (cp_sourceIds plan) \<and> length (cp_sourceIds plan) \<le> 16 \<and>
    length (cp_sourceAmounts plan) = length (cp_sourceIds plan) \<and>
    (\<forall>(i, a) \<in> set (zip (cp_sourceIds plan) (cp_sourceAmounts plan)). 0 < a \<and>
       (\<exists>l \<in> set loans. ln_id l = i \<and> eligibleCredit account target l \<and> a \<le> usableCredit l)) \<and>
    sum_list (cp_sourceAmounts plan) + cp_walletAmount plan = owed \<and> 0 \<le> cp_walletAmount plan \<and>
    cp_creditAmount plan = sum_list (cp_sourceAmounts plan) \<and>
    (0 < cp_walletAmount plan \<and> length (cp_sourceIds plan) < 16 \<longrightarrow>
       (\<forall>l \<in> set loans. eligibleCredit account target l \<longrightarrow> ln_id l \<in> set (cp_sourceIds plan)))"
proof -
  obtain taken remaining where t: "takeCredits account target [] owed (js_sort (\<lambda>a b. compare (ln_id a) (ln_id b)) loans) = (taken, remaining)"
    by fastforce
  have plan: "planCreditRepayment loans account target owed = \<lparr>cp_sourceIds = map fst taken, cp_sourceAmounts = map snd taken,
      cp_walletAmount = remaining, cp_creditAmount = owed - remaining\<rparr>"
    by (simp add: planCreditRepayment_def t)
  have "soundSources account target loans taken \<and> 0 \<le> remaining \<and> sum_list (map snd taken) + remaining = owed"
    using takeCredits_sound [OF _ _ assms(1) t, of loans] by (simp add: soundSources_def)
  moreover have "ln_id l \<in> set (map fst taken)" if "0 < remaining" "length taken < 16" "l \<in> set loans" "eligibleCredit account target l" for l
    using takeCredits_greedy [OF t that(1,2) _ that(4)] that(3) by simp
  ultimately show ?thesis by (auto simp: plan soundSources_def zip_map_fst_snd Let_def)
qed

text \<open>700 are owed on loan 1; loan 2 has a credit of another account, loan 3 one of 400 of the payer.\<close>

lemma credit_plan_sound_witness:
  "\<exists>plan. planCreditRepayment [sampleLoanOf 3 900 1 (Some (sampleCredits ''0xa'' 400 500)), sampleLoanOf 1 900 1 (Some (sampleCredits ''0xa'' 50 50)),
       sampleLoanOf 2 900 1 (Some (sampleCredits ''0xb'' 600 600))] ''0xa'' 1 700 = plan \<and>
     cp_sourceIds plan = [3] \<and> cp_sourceAmounts plan = [400] \<and> cp_walletAmount plan = 300 \<and> cp_creditAmount plan = 400"
proof -
  let ?loans = "[sampleLoanOf 3 900 1 (Some (sampleCredits ''0xa'' 400 500)), sampleLoanOf 1 900 1 (Some (sampleCredits ''0xa'' 50 50)),
       sampleLoanOf 2 900 1 (Some (sampleCredits ''0xb'' 600 600))]"
  let ?plan = "planCreditRepayment ?loans ''0xa'' 1 700"
  have plan: "cp_sourceIds ?plan = [3] \<and> cp_sourceAmounts ?plan = [400]"
    by (simp add: planCreditRepayment_def js_sort_def compare_def sampleLoanOf_def sampleCredits_def eligibleCredit_def usableCredit_def
        sameAddress_def js_lower_def js_lower_char_def Let_def)
  moreover have "sum_list (cp_sourceAmounts ?plan) + cp_walletAmount ?plan = 700 \<and> cp_creditAmount ?plan = sum_list (cp_sourceAmounts ?plan)"
    using credit_plan_sound [of 700 ?loans "''0xa''" 1] unfolding Let_def by simp
  ultimately show ?thesis by simp
qed

end
