(* ===== verification/JS_Json.thy ===== *)
theory JS_Json
  imports JS_Runtime
begin

text \<open>
  Values that come from outside as JSON, the type \<open>unknown\<close> of the sources, and the checks
  made on them. Reading a property of \<open>null\<close> or \<open>undefined\<close> throws; of any other value that
  has no such property it is \<open>undefined\<close>, which is \<open>None\<close> here.
\<close>

datatype json = J_null | J_bool bool | J_num js_number | J_str string
  | J_arr "json list" | J_obj "(string \<times> json) list"

text \<open>The last of two equal keys counts.\<close>

definition j_field :: "json \<Rightarrow> string \<Rightarrow> json option" where
  "j_field v k = (case v of J_obj kvs \<Rightarrow> map_of (rev kvs) k | _ \<Rightarrow> None)"

definition j_string :: "json option \<Rightarrow> string option" where
  "j_string v = (case v of Some (J_str s) \<Rightarrow> Some s | _ \<Rightarrow> None)"

definition j_int :: "json option \<Rightarrow> int option" where
  "j_int v = (case v of Some (J_num (JS_int n)) \<Rightarrow> Some n | _ \<Rightarrow> None)"

definition j_bool :: "json option \<Rightarrow> bool option" where
  "j_bool v = (case v of Some (J_bool b) \<Rightarrow> Some b | _ \<Rightarrow> None)"

definition j_array :: "json option \<Rightarrow> json list option" where
  "j_array v = (case v of Some (J_arr xs) \<Rightarrow> Some xs | _ \<Rightarrow> None)"

definition j_truthy :: "json option \<Rightarrow> bool" where
  "j_truthy v = (case v of None \<Rightarrow> False | Some J_null \<Rightarrow> False | Some (J_bool b) \<Rightarrow> b
     | Some (J_num (JS_int n)) \<Rightarrow> n \<noteq> 0 | Some (J_num _) \<Rightarrow> True
     | Some (J_str s) \<Rightarrow> s \<noteq> '''' | Some _ \<Rightarrow> True)"

definition safe_nat :: "json option \<Rightarrow> bool" where
  "safe_nat v = (case j_int v of Some n \<Rightarrow> isSafeInteger n \<and> 0 \<le> n | None \<Rightarrow> False)"

lemma j_string_Some [simp]: "j_string v = Some s \<longleftrightarrow> v = Some (J_str s)"
  by (auto simp: j_string_def split: option.splits json.splits)

lemma j_int_Some [simp]: "j_int v = Some n \<longleftrightarrow> v = Some (J_num (JS_int n))"
  by (auto simp: j_int_def split: option.splits json.splits js_number.splits)

section \<open>Shapes of text\<close>

text \<open>\<open>/^0x[0-9a-f]{n}$/i\<close> and the decimal \<open>/^(0|[1-9]\\d{0,77})$/\<close>.\<close>

definition hex_word :: "nat \<Rightarrow> string \<Rightarrow> bool" where
  "hex_word n s \<longleftrightarrow> length s = n + 2 \<and> take 2 s \<in> {''0x'', ''0X''} \<and> list_all is_hex (drop 2 s)"

definition hex_bytes :: "string \<Rightarrow> bool" where
  "hex_bytes s \<longleftrightarrow> 2 \<le> length s \<and> even (length s) \<and> take 2 s \<in> {''0x'', ''0X''} \<and> list_all is_hex (drop 2 s)"

definition decimal_text :: "string \<Rightarrow> bool" where
  "decimal_text s \<longleftrightarrow> s = ''0'' \<or> (s \<noteq> '''' \<and> length s \<le> 78 \<and> hd s \<noteq> CHR ''0'' \<and> list_all is_digit s)"

definition uint_text :: "string \<Rightarrow> bool" where
  "uint_text s \<longleftrightarrow> decimal_text s \<and> int (nat_of_dec s) < 2 ^ 256"

lemma uint_text_BigInt: "uint_text s \<Longrightarrow> js_BigInt s = Inr (int (nat_of_dec s))"
  by (rule js_BigInt_digits) (auto simp: uint_text_def decimal_text_def)

end
