(* ===== verification/P2P_Pending.thy ===== *)
theory P2P_Pending
  imports JS_Json P2P_Model
begin

text \<open>
  p2p/pending-transactions.ts: the transaction a browser has broadcast and not yet seen
  confirmed, kept in local storage under the lower-case key with a mirror in session storage
  for older tabs. Stored text is either plain text or the JSON of a value; parsing plain text
  throws. Whether storage works at all is part of the browser's state: it takes every write or refuses every write,
  so a quota that is reached between the two writes of one save (the record and its marker) is not modelled. Viem's loose
  \<open>isAddress\<close> is an argument.
\<close>

section \<open>The browser's storage\<close>

datatype stored = Plain string | Encoded json

record browser =
  br_local :: "string \<rightharpoonup> stored"
  br_session :: "string \<rightharpoonup> stored"
  br_localWorks :: bool
  br_sessionWorks :: bool

definition getLocal :: "string \<Rightarrow> browser \<Rightarrow> stored option outcome" where
  "getLocal k b = demand (br_localWorks b) ''storage'' (Inr (br_local b k))"

definition setLocal :: "string \<Rightarrow> stored \<Rightarrow> browser \<Rightarrow> browser outcome" where
  "setLocal k v b = demand (br_localWorks b) ''storage'' (Inr (b\<lparr>br_local := (br_local b)(k \<mapsto> v)\<rparr>))"

definition removeLocal :: "string \<Rightarrow> browser \<Rightarrow> browser outcome" where
  "removeLocal k b = demand (br_localWorks b) ''storage'' (Inr (b\<lparr>br_local := (br_local b)(k := None)\<rparr>))"

definition getSession :: "string \<Rightarrow> browser \<Rightarrow> stored option outcome" where
  "getSession k b = demand (br_sessionWorks b) ''storage'' (Inr (br_session b k))"

definition parseStored :: "stored \<Rightarrow> json option" where
  "parseStored v = (case v of Plain _ \<Rightarrow> None | Encoded j \<Rightarrow> Some j)"

section \<open>Intents\<close>

definition validHash :: "json option \<Rightarrow> bool" where
  "validHash v = (case j_string v of Some s \<Rightarrow> hex_word 64 s | None \<Rightarrow> False)"

definition uintField :: "json option \<Rightarrow> bool" where
  "uintField v = (case j_string v of Some s \<Rightarrow> uint_text s | None \<Rightarrow> False)"

definition addressField :: "(string \<Rightarrow> bool) \<Rightarrow> json option \<Rightarrow> bool" where
  "addressField isAddr v = (case v of Some (J_str s) \<Rightarrow> isAddr s
     | None \<Rightarrow> isAddr '''' | Some J_null \<Rightarrow> isAddr '''' | _ \<Rightarrow> False)"

definition inputField :: "json option \<Rightarrow> bool" where
  "inputField v = (case j_string v of Some s \<Rightarrow> hex_bytes s \<and> length s \<le> 32770 | None \<Rightarrow> False)"

definition validPendingIntent :: "(string \<Rightarrow> bool) \<Rightarrow> json option \<Rightarrow> bool" where
  "validPendingIntent isAddr value = (case value of
     Some (J_obj kvs) \<Rightarrow>
       (let f = j_field (J_obj kvs) in
        addressField isAddr (f ''from'') \<and> addressField isAddr (f ''to'') \<and> safe_nat (f ''nonce'')
        \<and> uintField (f ''value'') \<and> uintField (f ''submittedBlock'') \<and> inputField (f ''input''))
   | _ \<Rightarrow> False)"

text \<open>\<open>{ ...requested, nonce: 0, submittedBlock: "0" }\<close>\<close>

definition asIntent :: "json \<Rightarrow> json" where
  "asIntent v = J_obj ((case v of J_obj kvs \<Rightarrow> kvs | _ \<Rightarrow> []) @
     [(''nonce'', J_num (JS_int 0)), (''submittedBlock'', J_str ''0'')])"

definition validRequested :: "(string \<Rightarrow> bool) \<Rightarrow> json \<Rightarrow> bool" where
  "validRequested isAddr v = validPendingIntent isAddr (Some (asIntent v))"

section \<open>Records\<close>

record pending_record =
  pr_version :: int
  pr_hash :: string
  pr_savedAt :: js_number
  pr_intent :: "json option"
  pr_requested :: "json option"

definition encodeRecord :: "pending_record \<Rightarrow> json" where
  "encodeRecord r = J_obj
     ([(''version'', J_num (JS_int (pr_version r))), (''hash'', J_str (pr_hash r)), (''savedAt'', J_num (pr_savedAt r))]
      @ (case pr_intent r of None \<Rightarrow> [] | Some i \<Rightarrow> [(''intent'', i)])
      @ (case pr_requested r of None \<Rightarrow> [] | Some q \<Rightarrow> [(''requested'', q)]))"

definition durableKey :: "string \<Rightarrow> string" where
  "durableKey key = replaceFirst '':pending:'' '':durable:'' (js_lower key)"

definition readRecord :: "(string \<Rightarrow> bool) \<Rightarrow> stored \<Rightarrow> pending_record option" where
  "readRecord isAddr raw = (case parseStored raw of None \<Rightarrow> None | Some v \<Rightarrow>
     (case (j_int (j_field v ''version''), j_string (j_field v ''hash''), j_field v ''savedAt'') of
        (Some n, Some h, Some (J_num at)) \<Rightarrow>
          if n \<in> {1, 2} \<and> hex_word 64 h \<and> at \<noteq> JS_infinite
             \<and> (j_field v ''intent'' = None \<or> n = 2 \<and> validPendingIntent isAddr (j_field v ''intent''))
             \<and> (case j_field v ''requested'' of None \<Rightarrow> True | Some q \<Rightarrow> n = 2 \<and> validRequested isAddr q)
          then Some \<lparr>pr_version = n, pr_hash = h, pr_savedAt = at,
                     pr_intent = j_field v ''intent'', pr_requested = j_field v ''requested''\<rparr>
          else None
      | _ \<Rightarrow> None))"

text \<open>What an earlier record of the same transaction keeps alive: a valid intent, a valid request.\<close>

definition retainedIntent :: "(string \<Rightarrow> bool) \<Rightarrow> string \<Rightarrow> stored option \<Rightarrow> json option" where
  "retainedIntent isAddr hash previous =
     (case Option.bind previous parseStored of
        Some v \<Rightarrow> if j_field v ''hash'' = Some (J_str hash) \<and> validPendingIntent isAddr (j_field v ''intent'')
                  then j_field v ''intent'' else None
      | None \<Rightarrow> None)"

definition retainedRequest :: "(string \<Rightarrow> bool) \<Rightarrow> string \<Rightarrow> stored option \<Rightarrow> json option" where
  "retainedRequest isAddr hash previous =
     (case Option.bind previous parseStored of
        Some v \<Rightarrow> (case j_field v ''requested'' of
          Some q \<Rightarrow> if j_field v ''hash'' = Some (J_str hash) \<and> j_truthy (Some q) \<and> validRequested isAddr q
                    then Some q else None
        | None \<Rightarrow> None)
      | None \<Rightarrow> None)"

fun orElse :: "'a option \<Rightarrow> 'a option \<Rightarrow> 'a option" where
  "orElse (Some x) _ = Some x"
| "orElse None y = y"

section \<open>Operations\<close>

definition requirePendingStorage :: "browser \<Rightarrow> browser outcome" where
  "requirePendingStorage b =
     demand (br_localWorks b)
       ''Browser storage is unavailable. Enable site storage before submitting so pending transactions can be recovered after reopening.''
       (removeLocal ''turret:p2p:storage-check'' b)"

definition savePending ::
    "(string \<Rightarrow> bool) \<Rightarrow> int \<Rightarrow> string \<Rightarrow> string \<Rightarrow> json option \<Rightarrow> json option \<Rightarrow> browser \<Rightarrow> browser outcome" where
  "savePending isAddr now key hash intent requested b =
     demand (hex_word 64 hash) ''The wallet returned an invalid transaction hash.''
    (demand (intent = None \<or> validPendingIntent isAddr intent) ''The pending transaction intent is invalid.''
    (demand (case requested of None \<Rightarrow> True | Some q \<Rightarrow> validRequested isAddr q) ''The requested transaction call is invalid.''
    (and_then (getLocal (js_lower key) b) (\<lambda>previous.
     let r = \<lparr>pr_version = 2, pr_hash = hash, pr_savedAt = JS_int now,
              pr_intent = orElse intent (retainedIntent isAddr hash previous),
              pr_requested = orElse requested (retainedRequest isAddr hash previous)\<rparr>
     in and_then (setLocal (js_lower key) (Encoded (encodeRecord r)) b) (\<lambda>b1.
        and_then (setLocal (durableKey key) (Plain ''1'') b1) (\<lambda>b2.
        Inr (if br_sessionWorks b2 then b2\<lparr>br_session := (br_session b2)(key \<mapsto> Plain hash)\<rparr> else b2)))))))"

definition loadPendingRecord ::
    "(string \<Rightarrow> bool) \<Rightarrow> int \<Rightarrow> string \<Rightarrow> browser \<Rightarrow> (pending_record option \<times> browser) outcome" where
  "loadPendingRecord isAddr now key b =
     and_then (getLocal (js_lower key) b) (\<lambda>raw.
     case raw of
       Some v \<Rightarrow>
         and_then (or_throw (readRecord isAddr v)
           ''A saved pending transaction could not be read. Check its status in your wallet before repairing this browser's site data.'')
         (\<lambda>r. Inr (Some r, b))
     | None \<Rightarrow>
         and_then (getLocal (durableKey key) b) (\<lambda>durable.
         if durable = Some (Plain ''1'') then Inr (None, b)
         else and_then (getSession key b) (\<lambda>legacy.
           case legacy of
             None \<Rightarrow> Inr (None, b)
           | Some (Plain h) \<Rightarrow>
               demand (hex_word 64 h) ''The previous transaction record is invalid. Check its status in your wallet.''
               (and_then (savePending isAddr now key h None None b) (\<lambda>b'.
                Inr (Some \<lparr>pr_version = 2, pr_hash = h, pr_savedAt = JS_int now, pr_intent = None, pr_requested = None\<rparr>, b')))
           | Some (Encoded _) \<Rightarrow>
               Inl ''The previous transaction record is invalid. Check its status in your wallet.'')))"

definition updatePendingIntent ::
    "(string \<Rightarrow> bool) \<Rightarrow> int \<Rightarrow> string \<Rightarrow> string \<Rightarrow> json \<Rightarrow> browser \<Rightarrow> (bool \<times> browser) outcome" where
  "updatePendingIntent isAddr now key hash intent b =
     and_then (loadPendingRecord isAddr now key b) (\<lambda>(current, b1).
     case current of
       None \<Rightarrow> Inr (False, b1)
     | Some r \<Rightarrow>
         if pr_hash r \<noteq> hash then Inr (False, b1)
         else if pr_intent r \<noteq> None then Inr (True, b1)
         else and_then (savePending isAddr now key hash (Some intent) None b1) (\<lambda>b2. Inr (True, b2)))"

definition loadPending :: "(string \<Rightarrow> bool) \<Rightarrow> int \<Rightarrow> string \<Rightarrow> browser \<Rightarrow> (string option \<times> browser) outcome" where
  "loadPending isAddr now key b =
     and_then (loadPendingRecord isAddr now key b) (\<lambda>(r, b'). Inr (map_option pr_hash r, b'))"

definition clearPending :: "(string \<Rightarrow> bool) \<Rightarrow> int \<Rightarrow> string \<Rightarrow> string \<Rightarrow> browser \<Rightarrow> browser outcome" where
  "clearPending isAddr now key hash b =
     and_then (loadPending isAddr now key b) (\<lambda>(h, b1).
     and_then (if h = Some hash then removeLocal (js_lower key) b1 else Inr b1) (\<lambda>b2.
     Inr (if br_sessionWorks b2 \<and> br_session b2 key = Some (Plain hash)
          then b2\<lparr>br_session := (br_session b2)(key := None)\<rparr> else b2)))"

section \<open>Reading back what was saved\<close>

lemma j_field_encodeRecord:
  "j_field (encodeRecord r) ''version'' = Some (J_num (JS_int (pr_version r)))"
  "j_field (encodeRecord r) ''hash'' = Some (J_str (pr_hash r))"
  "j_field (encodeRecord r) ''savedAt'' = Some (J_num (pr_savedAt r))"
  "j_field (encodeRecord r) ''intent'' = pr_intent r"
  "j_field (encodeRecord r) ''requested'' = pr_requested r"
  by (simp_all add: encodeRecord_def j_field_def split: option.split)

definition goodRecord :: "(string \<Rightarrow> bool) \<Rightarrow> pending_record \<Rightarrow> bool" where
  "goodRecord isAddr r \<longleftrightarrow> pr_version r = 2 \<and> hex_word 64 (pr_hash r) \<and> pr_savedAt r \<noteq> JS_infinite \<and>
     (pr_intent r = None \<or> validPendingIntent isAddr (pr_intent r)) \<and>
     (case pr_requested r of None \<Rightarrow> True | Some q \<Rightarrow> validRequested isAddr q)"

lemma readRecord_encode: "goodRecord isAddr r \<Longrightarrow> readRecord isAddr (Encoded (encodeRecord r)) = Some r"
  by (auto simp: goodRecord_def readRecord_def parseStored_def j_field_encodeRecord j_int_def j_string_def
      split: option.split)

lemma retained_valid:
  "retainedIntent isAddr hash p = None \<or> validPendingIntent isAddr (retainedIntent isAddr hash p)"
  "case retainedRequest isAddr hash p of None \<Rightarrow> True | Some q \<Rightarrow> validRequested isAddr q"
  by (auto simp: retainedIntent_def retainedRequest_def split: option.split)

lemma savePendingE:
  assumes "savePending isAddr now key hash intent requested b = Inr b'"
  obtains r where "goodRecord isAddr r" and "pr_hash r = hash" and "pr_savedAt r = JS_int now" and "br_localWorks b"
    and "pr_intent r = orElse intent (retainedIntent isAddr hash (br_local b (js_lower key)))"
    and "br_local b' = (br_local b)(js_lower key \<mapsto> Encoded (encodeRecord r), durableKey key \<mapsto> Plain ''1'')"
    and "br_session b' = (if br_sessionWorks b then (br_session b)(key \<mapsto> Plain hash) else br_session b)"
    and "br_localWorks b' = br_localWorks b" and "br_sessionWorks b' = br_sessionWorks b"
proof -
  define previous where "previous = br_local b (js_lower key)"
  define r where "r = \<lparr>pr_version = 2, pr_hash = hash, pr_savedAt = JS_int now,
              pr_intent = orElse intent (retainedIntent isAddr hash previous),
              pr_requested = orElse requested (retainedRequest isAddr hash previous)\<rparr>"
  have ok: "hex_word 64 hash" "intent = None \<or> validPendingIntent isAddr intent"
    "case requested of None \<Rightarrow> True | Some q \<Rightarrow> validRequested isAddr q" "br_localWorks b"
    using assms by (auto simp: savePending_def getLocal_def demand_def split: if_splits)
  have good: "goodRecord isAddr r"
    using ok retained_valid [of isAddr hash previous]
    by (cases intent; cases requested) (auto simp: goodRecord_def r_def)
  have b': "b' = (let b2 = b\<lparr>br_local := (br_local b)(js_lower key \<mapsto> Encoded (encodeRecord r), durableKey key \<mapsto> Plain ''1'')\<rparr>
      in if br_sessionWorks b2 then b2\<lparr>br_session := (br_session b2)(key \<mapsto> Plain hash)\<rparr> else b2)"
    using assms ok by (auto simp: savePending_def getLocal_def setLocal_def Let_def previous_def r_def)
  show thesis
    by (rule that [OF good]) (simp_all add: b' Let_def ok, simp_all add: r_def previous_def)
qed

lemma durable_differs:
  assumes "contains '':pending:'' (js_lower key)"
  shows "durableKey key \<noteq> js_lower key"
  unfolding durableKey_def by (rule replaceFirst_changes [OF assms]) simp_all

lemma load_saved:
  assumes "savePending isAddr now key hash intent requested b = Inr b'" and "contains '':pending:'' (js_lower key)"
  shows "\<exists>r. loadPendingRecord isAddr now' key b' = Inr (Some r, b') \<and> pr_hash r = hash \<and>
    pr_intent r = orElse intent (retainedIntent isAddr hash (br_local b (js_lower key)))"
  using assms(1)
proof (rule savePendingE)
  fix r
  assume r: "goodRecord isAddr r" "pr_hash r = hash"
    "pr_intent r = orElse intent (retainedIntent isAddr hash (br_local b (js_lower key)))"
    and b': "br_local b' = (br_local b)(js_lower key \<mapsto> Encoded (encodeRecord r), durableKey key \<mapsto> Plain ''1'')"
    "br_localWorks b' = br_localWorks b" and works: "br_localWorks b"
  show ?thesis
    using r b' works durable_differs [OF assms(2)]
    by (auto simp: loadPendingRecord_def getLocal_def readRecord_encode)
qed

text \<open>A load that finds a record leaves the storage as it is.\<close>

lemma loadPendingRecord_local:
  assumes "loadPendingRecord isAddr now key b = Inr (r, b')" and "br_local b (js_lower key) = Some v"
  shows "b' = b \<and> r = readRecord isAddr v \<and> r \<noteq> None"
  using assms by (auto simp: loadPendingRecord_def getLocal_def demand_Inr and_then_Inr or_throw_Inr)

lemma loadPendingRecord_works:
  "loadPendingRecord isAddr now key b = Inr (r, b') \<Longrightarrow> br_localWorks b \<and> br_localWorks b' \<and> br_sessionWorks b' = br_sessionWorks b"
  by (auto simp: loadPendingRecord_def getLocal_def getSession_def outcome_Inr elim!: savePendingE
      split: option.splits stored.splits if_splits)

lemma clearPending_kept:
  assumes clear: "clearPending isAddr now key hash b = Inr b'"
    and v: "br_local b (js_lower key) = Some v" and other: "\<And>r. readRecord isAddr v = Some r \<Longrightarrow> pr_hash r \<noteq> hash"
  shows "br_local b' = br_local b"
proof -
  from clear obtain r b1 where load: "loadPendingRecord isAddr now key b = Inr (r, b1)"
    and rest: "and_then (if map_option pr_hash r = Some hash then removeLocal (js_lower key) b1 else Inr b1) (\<lambda>b2.
      Inr (if br_sessionWorks b2 \<and> br_session b2 key = Some (Plain hash)
          then b2\<lparr>br_session := (br_session b2)(key := None)\<rparr> else b2)) = (Inr b' :: browser outcome)"
    by (auto simp: clearPending_def loadPending_def and_then_Inr)
  from loadPendingRecord_local [OF load v] other have "b1 = b" and "map_option pr_hash r \<noteq> Some hash"
    by (auto split: option.splits)
  with rest show ?thesis by (auto split: if_splits)
qed

lemma clear_after_save:
  assumes save: "savePending isAddr now key hash intent requested b = Inr b1" and key: "contains '':pending:'' (js_lower key)"
    and clear: "clearPending isAddr now' key hash b1 = Inr b2" and mirror: "br_local b3 = br_local b2" "br_localWorks b3"
  shows "loadPending isAddr now'' key b3 = Inr (None, b3)"
proof -
  from load_saved [OF save key] obtain r where load: "loadPendingRecord isAddr now' key b1 = Inr (Some r, b1)" "pr_hash r = hash"
    by blast
  have works: "br_localWorks b1" using loadPendingRecord_works [OF load(1)] by simp
  have dur: "br_local b1 (durableKey key) = Some (Plain ''1'')" using save by (auto elim: savePendingE)
  have "br_local b2 = (br_local b1)(js_lower key := None)"
    using clear load works
    by (auto simp: clearPending_def loadPending_def removeLocal_def split: if_splits)
  with dur durable_differs [OF key] have "br_local b3 (js_lower key) = None" "br_local b3 (durableKey key) = Some (Plain ''1'')"
    by (simp_all add: mirror)
  then show ?thesis using mirror(2) by (simp add: loadPending_def loadPendingRecord_def getLocal_def)
qed

section \<open>Properties\<close>

text \<open>
  C37: A transaction saved as pending is what the next load returns: the same hash, with the
  intent given or, when none is given, the valid intent an earlier record of the same hash
  had, so a re-save never loses the original nonce.
\<close>

theorem pending_round_trip:
  assumes "savePending isAddr now key hash intent requested b = Inr b'" and "contains '':pending:'' (js_lower key)"
  shows "loadPending isAddr now' key b' = Inr (Some hash, b') \<and>
    (\<exists>r. loadPendingRecord isAddr now' key b' = Inr (Some r, b') \<and>
      (intent \<noteq> None \<longrightarrow> pr_intent r = intent) \<and>
      (intent = None \<longrightarrow> pr_intent r = retainedIntent isAddr hash (br_local b (js_lower key))))"
  using load_saved [OF assms, of now'] by (cases intent) (auto simp: loadPending_def)

definition emptyBrowser :: browser where
  "emptyBrowser = \<lparr>br_local = Map.empty, br_session = Map.empty, br_localWorks = True, br_sessionWorks = True\<rparr>"

definition sampleKeyText :: string where
  "sampleKeyText = ''turret:p2p:pending:0xa''"

definition sampleHash :: string where
  "sampleHash = ''0x'' @ replicate 64 (CHR ''a'')"

lemma sampleKeyText_pending: "contains '':pending:'' (js_lower sampleKeyText)"
  by (simp add: sampleKeyText_def js_lower_def js_lower_char_def Let_def)

lemma sampleHash_hash: "hex_word 64 sampleHash"
  by (simp add: sampleHash_def hex_word_def is_hex_def is_lower_hex_def list_all_iff)

lemma sample_save: "\<exists>b'. savePending (\<lambda>_. True) 7 sampleKeyText sampleHash None None emptyBrowser = Inr b'"
  by (simp add: savePending_def sampleHash_hash getLocal_def setLocal_def emptyBrowser_def Let_def)

lemma pending_round_trip_witness:
  "\<exists>b'. loadPending (\<lambda>_. True) 8 sampleKeyText b' = Inr (Some sampleHash, b')"
  using pending_round_trip [OF _ sampleKeyText_pending] sample_save by blast

text \<open>
  C38: Clearing with a hash other than the one on record changes nothing in local storage,
  and after the recorded transaction is cleared no later load finds it again, whatever an
  older tab's session mirror still holds.
\<close>

theorem cleared_stays_cleared:
  assumes "savePending isAddr now key hash intent requested b = Inr b1" and "contains '':pending:'' (js_lower key)"
    and "clearPending isAddr now' key h b1 = Inr b2"
  shows "(h \<noteq> hash \<longrightarrow> br_local b2 = br_local b1) \<and>
    (h = hash \<longrightarrow> loadPending isAddr now'' key (b2\<lparr>br_session := anything\<rparr>) = Inr (None, b2\<lparr>br_session := anything\<rparr>))"
proof (intro conjI impI)
  assume h: "h \<noteq> hash"
  obtain r where r: "goodRecord isAddr r" "pr_hash r = hash" "br_local b1 (js_lower key) = Some (Encoded (encodeRecord r))"
    using assms(1) durable_differs [OF assms(2)] by (auto elim!: savePendingE)
  show "br_local b2 = br_local b1"
    by (rule clearPending_kept [OF assms(3) r(3)]) (use r h readRecord_encode in auto)
next
  assume h: "h = hash"
  have "br_localWorks b2"
    using assms(3) loadPendingRecord_works
    by (fastforce simp: clearPending_def loadPending_def removeLocal_def outcome_Inr split: if_splits)
  then show "loadPending isAddr now'' key (b2\<lparr>br_session := anything\<rparr>) = Inr (None, b2\<lparr>br_session := anything\<rparr>)"
    using assms h by (intro clear_after_save [of isAddr now key hash intent requested b b1 now' b2]) simp_all
qed

lemma cleared_stays_cleared_witness:
  "\<exists>b2. loadPending (\<lambda>_. True) 9 sampleKeyText (b2\<lparr>br_session := [sampleKeyText \<mapsto> Plain sampleHash]\<rparr>) =
     Inr (None, b2\<lparr>br_session := [sampleKeyText \<mapsto> Plain sampleHash]\<rparr>)"
proof -
  obtain b1 where b1: "savePending (\<lambda>_. True) 7 sampleKeyText sampleHash None None emptyBrowser = Inr b1"
    using sample_save by blast
  obtain r where r: "loadPendingRecord (\<lambda>_. True) 8 sampleKeyText b1 = Inr (Some r, b1)" "pr_hash r = sampleHash"
    using load_saved [OF b1 sampleKeyText_pending, of 8] by blast
  from loadPendingRecord_works [OF r(1)] r
  have "\<exists>b2. clearPending (\<lambda>_. True) 8 sampleKeyText sampleHash b1 = Inr b2"
    by (simp add: clearPending_def loadPending_def removeLocal_def)
  then show ?thesis using cleared_stays_cleared [OF b1 sampleKeyText_pending] by blast
qed

end
