(* ===== verification/JS_Async.thy ===== *)
theory JS_Async
  imports JS_Runtime
begin

text \<open>
  Asynchronous code that reads the outside world: a computation is given the whole history
  of the world, one state per instant, and the instant it starts at; every read sees the
  world of its own instant and takes one. A rejected promise is \<open>Inl\<close> of the message. Nothing
  is assumed about how the world changes between two reads; a property that needs a
  stable world says so.
\<close>

type_synonym ('w, 'a) io = "(nat \<Rightarrow> 'w) \<Rightarrow> nat \<Rightarrow> 'a outcome \<times> nat"

definition ioReturn :: "'a \<Rightarrow> ('w, 'a) io" where
  "ioReturn x = (\<lambda>w t. (Inr x, t))"

definition ioThrow :: "string \<Rightarrow> ('w, 'a) io" where
  "ioThrow msg = (\<lambda>w t. (Inl msg, t))"

definition ioRead :: "('w \<Rightarrow> 'a outcome) \<Rightarrow> ('w, 'a) io" where
  "ioRead f = (\<lambda>w t. (f (w t), Suc t))"

definition ioBind :: "('w, 'a) io \<Rightarrow> ('a \<Rightarrow> ('w, 'b) io) \<Rightarrow> ('w, 'b) io" where
  "ioBind m k = (\<lambda>w t. case m w t of (Inl e, t') \<Rightarrow> (Inl e, t') | (Inr x, t') \<Rightarrow> k x w t')"

text \<open>\<open>try m catch h\<close>, where the handler does not look at the error.\<close>

definition ioCatch :: "('w, 'a) io \<Rightarrow> ('w, 'a) io \<Rightarrow> ('w, 'a) io" where
  "ioCatch m h = (\<lambda>w t. case m w t of (Inl e, t') \<Rightarrow> h w t' | r \<Rightarrow> r)"

definition ioDemand :: "bool \<Rightarrow> string \<Rightarrow> ('w, 'a) io \<Rightarrow> ('w, 'a) io" where
  "ioDemand ok msg m = (if ok then m else ioThrow msg)"

definition ioLift :: "'a outcome \<Rightarrow> ('w, 'a) io" where
  "ioLift r = (\<lambda>w t. (r, t))"

fun ioMap :: "('a \<Rightarrow> ('w, 'b) io) \<Rightarrow> 'a list \<Rightarrow> ('w, 'b list) io" where
  "ioMap f [] = ioReturn []"
| "ioMap f (x # xs) = ioBind (f x) (\<lambda>y. ioBind (ioMap f xs) (\<lambda>ys. ioReturn (y # ys)))"

named_theorems io_simps \<open>running a computation\<close>

lemma io_run [io_simps]:
  "ioReturn x w t = (Inr x, t)"
  "ioThrow msg w t = (Inl msg, t)"
  "ioRead f w t = (f (w t), Suc t)"
  "ioLift r w t = (r, t)"
  "ioDemand ok msg m w t = (if ok then m w t else (Inl msg, t))"
  by (simp_all add: ioReturn_def ioThrow_def ioRead_def ioLift_def ioDemand_def)

lemma ioBind_Inr: "ioBind m k w t = (Inr y, t') \<longleftrightarrow> (\<exists>x t1. m w t = (Inr x, t1) \<and> k x w t1 = (Inr y, t'))"
  by (auto simp: ioBind_def split: prod.split sum.split)

lemma ioDemand_Inr: "ioDemand ok msg m w t = (Inr y, t') \<longleftrightarrow> ok \<and> m w t = (Inr y, t')"
  by (simp add: ioDemand_def ioThrow_def)

lemma ioReturn_Inr: "ioReturn x w t = (Inr y, t') \<longleftrightarrow> y = x \<and> t' = t"
  by (auto simp: ioReturn_def)

lemma ioRead_Inr: "ioRead f w t = (Inr y, t') \<longleftrightarrow> f (w t) = Inr y \<and> t' = Suc t"
  by (auto simp: ioRead_def)

lemma ioLift_Inr: "ioLift r w t = (Inr y, t') \<longleftrightarrow> r = Inr y \<and> t' = t"
  by (auto simp: ioLift_def)

lemma ioThrow_Inr [simp]: "ioThrow msg w t \<noteq> (Inr y, t')"
  by (simp add: ioThrow_def)

lemma ioCatch_Inr: "ioCatch m h w t = (Inr y, t') \<longleftrightarrow>
    m w t = (Inr y, t') \<or> (\<exists>e t1. m w t = (Inl e, t1) \<and> h w t1 = (Inr y, t'))"
  by (auto simp: ioCatch_def split: prod.split sum.split)

lemmas io_Inr = ioBind_Inr ioDemand_Inr ioReturn_Inr ioRead_Inr ioLift_Inr ioCatch_Inr

lemma ioBind_run [io_simps]:
  "m w t = (Inr x, t1) \<Longrightarrow> ioBind m k w t = k x w t1"
  "m w t = (Inl e, t1) \<Longrightarrow> ioBind m k w t = (Inl e, t1)"
  by (simp_all add: ioBind_def)

lemma ioMap_Inr: "ioMap f xs w t = (Inr ys, t') \<Longrightarrow> list_all2 (\<lambda>x y. \<exists>t1 t2. f x w t1 = (Inr y, t2)) xs ys"
  by (induction xs arbitrary: ys t) (auto simp: io_Inr)

section \<open>What every result of a computation satisfies\<close>

definition yields :: "(nat \<Rightarrow> 'w) \<Rightarrow> ('a \<Rightarrow> bool) \<Rightarrow> ('w, 'a) io \<Rightarrow> bool" where
  "yields w P m \<longleftrightarrow> (\<forall>t r t'. m w t = (Inr r, t') \<longrightarrow> P r)"

named_theorems yields_rules \<open>how the results of a composed computation follow from those of its parts\<close>

lemma yieldsD: "yields w P m \<Longrightarrow> m w t = (Inr r, t') \<Longrightarrow> P r"
  by (auto simp: yields_def)

lemma yieldsI: "(\<And>t r t'. m w t = (Inr r, t') \<Longrightarrow> P r) \<Longrightarrow> yields w P m"
  by (auto simp: yields_def)

lemma yields_return [yields_rules]: "P x \<Longrightarrow> yields w P (ioReturn x)"
  by (auto simp: yields_def io_Inr)

lemma yields_throw [yields_rules]: "yields w P (ioThrow e)"
  by (auto simp: yields_def)

lemma yields_read: "(\<And>t r. f (w t) = Inr r \<Longrightarrow> P r) \<Longrightarrow> yields w P (ioRead f)"
  by (auto simp: yields_def io_Inr)

lemma yields_demand [yields_rules]: "(ok \<Longrightarrow> yields w P m) \<Longrightarrow> yields w P (ioDemand ok e m)"
  by (auto simp: yields_def io_Inr)

lemma yields_bind: "yields w Q m \<Longrightarrow> (\<And>x. Q x \<Longrightarrow> yields w P (k x)) \<Longrightarrow> yields w P (ioBind m k)"
  unfolding yields_def io_Inr by blast

lemma yields_after: "(\<And>x. yields w P (k x)) \<Longrightarrow> yields w P (ioBind m k)"
  unfolding yields_def io_Inr by blast

lemma yields_readBind: "(\<And>t x. f (w t) = Inr x \<Longrightarrow> yields w P (k x)) \<Longrightarrow> yields w P (ioBind (ioRead f) k)"
  unfolding yields_def io_Inr by blast

lemma yields_catch: "yields w P m \<Longrightarrow> yields w P h \<Longrightarrow> yields w P (ioCatch m h)"
  unfolding yields_def io_Inr by blast

lemma yields_if [yields_rules]: "(b \<Longrightarrow> yields w P m) \<Longrightarrow> (\<not> b \<Longrightarrow> yields w P m') \<Longrightarrow> yields w P (if b then m else m')"
  by simp

lemma yields_option [yields_rules]: "(x = None \<Longrightarrow> yields w P m) \<Longrightarrow> (\<And>y. x = Some y \<Longrightarrow> yields w P (k y)) \<Longrightarrow>
    yields w P (case x of None \<Rightarrow> m | Some y \<Rightarrow> k y)"
  by (cases x) simp_all

lemma yields_number [yields_rules]: "(\<And>n. x = JS_int n \<Longrightarrow> yields w P (k n)) \<Longrightarrow> yields w P f \<Longrightarrow> yields w P i \<Longrightarrow>
    yields w P (case x of JS_int n \<Rightarrow> k n | JS_frac \<Rightarrow> f | JS_infinite \<Rightarrow> i)"
  by (cases x) simp_all

lemma yields_mono: "yields w Q m \<Longrightarrow> (\<And>x. Q x \<Longrightarrow> P x) \<Longrightarrow> yields w P m"
  unfolding yields_def by blast



section \<open>Time passes\<close>

definition forward :: "('w, 'a) io \<Rightarrow> bool" where
  "forward m \<longleftrightarrow> (\<forall>w t. t \<le> snd (m w t))"

named_theorems forward_rules \<open>computations do not go back in time\<close>

lemma forwardD: "forward m \<Longrightarrow> m w t = (r, t') \<Longrightarrow> t \<le> t'"
  unfolding forward_def by (metis snd_conv)

lemma forward_basic [forward_rules]:
  "forward (ioReturn x)" "forward (ioThrow e)" "forward (ioRead f)" "forward (ioLift r)"
  by (simp_all add: forward_def io_run)

lemma forward_demand [forward_rules]: "(ok \<Longrightarrow> forward m) \<Longrightarrow> forward (ioDemand ok e m)"
  by (simp add: forward_def io_run)

lemma forward_bind [forward_rules]: "forward m \<Longrightarrow> (\<And>x. forward (k x)) \<Longrightarrow> forward (ioBind m k)"
  unfolding forward_def ioBind_def by (auto split: prod.split sum.split) (metis le_trans snd_conv)+

lemma forward_if [forward_rules]: "(b \<Longrightarrow> forward m) \<Longrightarrow> (\<not> b \<Longrightarrow> forward m') \<Longrightarrow> forward (if b then m else m')"
  by simp

lemma forward_option [forward_rules]: "(x = None \<Longrightarrow> forward m) \<Longrightarrow> (\<And>y. x = Some y \<Longrightarrow> forward (k y)) \<Longrightarrow>
    forward (case x of None \<Rightarrow> m | Some y \<Rightarrow> k y)"
  by (cases x) simp_all

lemma forward_pair [forward_rules]: "(\<And>a b. x = (a, b) \<Longrightarrow> forward (k a b)) \<Longrightarrow> forward (case x of (a, b) \<Rightarrow> k a b)"
  by (cases x) simp

end
