(* ===== verification/P2P_Recovery.thy ===== *)
theory P2P_Recovery
  imports P2P_Pending JS_Async
begin

text \<open>
  p2p/pending-recovery.ts: finding the transaction that used the nonce of a pending one. The
  chain (viem's public client) and the wallet's current account are the world the
  computation reads, one instant per read; the search for the block is a bisection of at
  most 64 probes on the account's historical nonce, then a scan of the last 64 blocks.
\<close>

section \<open>The chain as the client reads it\<close>

record chain_tx =
  tx_hash :: string
  tx_from :: string
  tx_nonce :: int
  tx_to :: "string option"
  tx_value :: int
  tx_input :: string

record chain_receipt =
  rc_hash :: string
  rc_from :: string
  rc_to :: "string option"
  rc_blockHash :: string
  rc_blockNumber :: int
  rc_status :: string

record chain_block =
  cb_number :: "int option"
  cb_hash :: "string option"
  cb_hashes :: "string list"
  cb_txs :: "chain_tx list"

record chain_world =
  cw_head :: "chain_block outcome"
  cw_block :: "int \<Rightarrow> chain_block outcome"
  cw_fullBlock :: "int \<Rightarrow> chain_block outcome"
  cw_tx :: "string \<Rightarrow> chain_tx outcome"
  cw_receipt :: "string \<Rightarrow> chain_receipt outcome"
  cw_count :: "int \<Rightarrow> js_number outcome"
  cw_account :: "string option"

record recovered =
  rp_hash :: string
  rp_receipt :: chain_receipt
  rp_equivalent :: bool
  rp_cancelled :: bool

record pending_intent =
  pi_from :: "string option"
  pi_nonce :: int
  pi_to :: string
  pi_input :: string
  pi_value :: int

definition same :: "string option \<Rightarrow> string \<Rightarrow> bool" where
  "same a b \<longleftrightarrow> (case a of None \<Rightarrow> False | Some x \<Rightarrow> js_lower x = js_lower b)"

text \<open>The fields of an intent that passed \<open>validPendingIntent\<close>.\<close>

definition intentOf :: "json \<Rightarrow> pending_intent" where
  "intentOf v = \<lparr>pi_from = j_string (j_field v ''from''),
     pi_nonce = (case j_int (j_field v ''nonce'') of Some n \<Rightarrow> n | None \<Rightarrow> 0),
     pi_to = (case j_string (j_field v ''to'') of Some s \<Rightarrow> s | None \<Rightarrow> ''''),
     pi_input = (case j_string (j_field v ''input'') of Some s \<Rightarrow> s | None \<Rightarrow> ''''),
     pi_value = (case j_string (j_field v ''value'') of Some s \<Rightarrow> int (nat_of_dec s) | None \<Rightarrow> 0)\<rparr>"

section \<open>Recovery\<close>

definition noSuchTransaction :: string where
  "noSuchTransaction = ''The saved nonce has been used, but its transaction could not be found in the available RPC history. Enter the replacement transaction hash from your wallet to verify it.''"

text \<open>\<open>check\<close>: the wallet must still be on the account, when the caller supplies a getter.\<close>

definition checkAccount :: "bool \<Rightarrow> string \<Rightarrow> (chain_world, unit) io" where
  "checkAccount getter account =
     (if getter then ioRead (\<lambda>w. demand (same (cw_account w) account)
        ''Wallet changed while recovering a pending transaction.'' (Inr ()))
      else ioReturn ())"

definition canonical :: "bool \<Rightarrow> string \<Rightarrow> int \<Rightarrow> string \<Rightarrow> (chain_world, unit) io" where
  "canonical getter account number hash =
     ioBind (checkAccount getter account) (\<lambda>_.
     ioBind (ioRead (\<lambda>w. cw_block w number)) (\<lambda>b.
     ioDemand (same (cb_hash b) hash) ''The chain changed during pending recovery. Retry transaction status.''
     (checkAccount getter account)))"

definition consumesNonce :: "(string \<Rightarrow> bool) \<Rightarrow> string \<Rightarrow> pending_intent \<Rightarrow> chain_tx \<Rightarrow> bool" where
  "consumesNonce isAddr account intent x \<longleftrightarrow> hex_word 64 (tx_hash x) \<and> same (Some (tx_from x)) account
     \<and> tx_nonce x = pi_nonce intent \<and> (case tx_to x of None \<Rightarrow> True | Some a \<Rightarrow> isAddr a) \<and> hex_bytes (tx_input x)"

definition receiptMatches :: "string \<Rightarrow> int \<Rightarrow> chain_tx \<Rightarrow> chain_receipt \<Rightarrow> bool" where
  "receiptMatches account head x r \<longleftrightarrow> same (Some (rc_hash r)) (tx_hash x) \<and> same (Some (rc_from r)) account
     \<and> (case tx_to x of None \<Rightarrow> rc_to r = None | Some a \<Rightarrow> same (rc_to r) a)
     \<and> hex_word 64 (rc_blockHash r) \<and> rc_blockNumber r \<le> head \<and> rc_status r \<in> {''success'', ''reverted''}"

definition verifyTransaction ::
    "(string \<Rightarrow> bool) \<Rightarrow> bool \<Rightarrow> string \<Rightarrow> pending_intent \<Rightarrow> int \<Rightarrow> string \<Rightarrow> chain_tx \<Rightarrow> (chain_world, recovered) io" where
  "verifyTransaction isAddr getter account intent head headHash x =
     ioBind (checkAccount getter account) (\<lambda>_.
     ioDemand (consumesNonce isAddr account intent x) ''That transaction does not consume the saved wallet's original nonce.''
    (ioBind (ioRead (\<lambda>w. cw_receipt w (tx_hash x))) (\<lambda>r.
     ioDemand (receiptMatches account head x r) ''Replacement transaction receipt could not be verified.''
    (ioBind (ioRead (\<lambda>w. cw_block w (rc_blockNumber r))) (\<lambda>b.
     ioDemand (same (cb_hash b) (rc_blockHash r) \<and> list_ex (\<lambda>h. same (Some h) (tx_hash x)) (cb_hashes b))
       ''The replacement receipt is not in the canonical block. Retry transaction status.''
    (ioBind (canonical getter account head headHash) (\<lambda>_.
     ioReturn \<lparr>rp_hash = tx_hash x, rp_receipt = r,
       rp_equivalent = (same (tx_to x) (pi_to intent) \<and> same (Some (tx_input x)) (pi_input intent) \<and> tx_value x = pi_value intent),
       rp_cancelled = (same (tx_to x) account \<and> tx_input x = ''0x'' \<and> tx_value x = 0)\<rparr>)))))))"

definition findNonce :: "string \<Rightarrow> int \<Rightarrow> chain_block \<Rightarrow> chain_tx option" where
  "findNonce account nonce b = List.find (\<lambda>x. same (Some (tx_from x)) account \<and> tx_nonce x = nonce) (cb_txs b)"

fun bisect :: "bool \<Rightarrow> string \<Rightarrow> int \<Rightarrow> nat \<Rightarrow> int \<Rightarrow> int \<Rightarrow> (chain_world, int \<times> int) io" where
  "bisect getter account nonce 0 lower upper = ioReturn (lower, upper)"
| "bisect getter account nonce (Suc probes) lower upper =
     (if lower < upper then
        ioBind (checkAccount getter account) (\<lambda>_.
        let middle = lower + tdiv (upper - lower) 2 in
        ioBind (ioRead (\<lambda>w. cw_count w middle)) (\<lambda>count.
        case count of
          JS_int n \<Rightarrow>
            if isSafeInteger n \<and> 0 \<le> n then
              (if n > nonce then bisect getter account nonce probes lower middle
               else bisect getter account nonce probes (middle + 1) upper)
            else ioThrow noSuchTransaction
        | _ \<Rightarrow> ioThrow noSuchTransaction))
      else ioReturn (lower, upper))"

definition searchHistory :: "bool \<Rightarrow> string \<Rightarrow> int \<Rightarrow> int \<Rightarrow> (chain_world, chain_tx option) io" where
  "searchHistory getter account nonce head =
     ioBind (bisect getter account nonce 64 0 head) (\<lambda>(lower, upper).
     ioDemand (lower = upper) noSuchTransaction
    (ioBind (ioRead (\<lambda>w. cw_fullBlock w lower)) (\<lambda>b. ioReturn (findNonce account nonce b))))"

fun scanBlocks :: "bool \<Rightarrow> string \<Rightarrow> int \<Rightarrow> int list \<Rightarrow> (chain_world, chain_tx option) io" where
  "scanBlocks getter account nonce [] = ioReturn None"
| "scanBlocks getter account nonce (height # heights) =
     ioBind (checkAccount getter account) (\<lambda>_.
     ioBind (ioCatch (ioRead (\<lambda>w. cw_fullBlock w height)) (ioThrow noSuchTransaction)) (\<lambda>b.
     case findNonce account nonce b of
       Some x \<Rightarrow> ioReturn (Some x)
     | None \<Rightarrow> scanBlocks getter account nonce heights))"

definition recentHeights :: "int \<Rightarrow> int list" where
  "recentHeights head = rev [(if head > 63 then head - 63 else 0) .. head]"

definition afterHead ::
    "(string \<Rightarrow> bool) \<Rightarrow> bool \<Rightarrow> string \<Rightarrow> pending_intent \<Rightarrow> string \<Rightarrow> string option \<Rightarrow> int \<Rightarrow> string
     \<Rightarrow> (chain_world, recovered option) io" where
  "afterHead isAddr getter account intent hash replacement head headHash =
     (let verify = verifyTransaction isAddr getter account intent head headHash in
      case (if replacement = Some '''' then None else replacement) of
        Some h \<Rightarrow>
          ioDemand (hex_word 64 h) ''Enter a valid replacement transaction hash.''
         (ioBind (ioRead (\<lambda>w. cw_tx w h)) (\<lambda>x. ioBind (verify x) (\<lambda>r. ioReturn (Some r))))
      | None \<Rightarrow>
          ioBind (ioCatch
            (ioBind (ioRead (\<lambda>w. cw_receipt w hash)) (\<lambda>_.
             ioBind (ioRead (\<lambda>w. cw_tx w hash)) (\<lambda>x. ioBind (verify x) (\<lambda>r. ioReturn (Some r)))))
            (ioBind (checkAccount getter account) (\<lambda>_. ioReturn None))) (\<lambda>direct.
          case direct of
            Some r \<Rightarrow> ioReturn (Some r)
          | None \<Rightarrow>
              ioBind (ioRead (\<lambda>w. cw_count w head)) (\<lambda>count.
              case count of
                JS_int n \<Rightarrow>
                  ioDemand (isSafeInteger n \<and> 0 \<le> n) ''The wallet's canonical nonce is unavailable. Retry transaction status.''
                 (if n \<le> pi_nonce intent then ioBind (canonical getter account head headHash) (\<lambda>_. ioReturn None)
                  else
                    ioBind (ioCatch (searchHistory getter account (pi_nonce intent) head)
                             (ioBind (checkAccount getter account) (\<lambda>_. ioReturn None))) (\<lambda>found.
                    ioBind (case found of Some x \<Rightarrow> ioReturn (Some x)
                            | None \<Rightarrow> scanBlocks getter account (pi_nonce intent) (recentHeights head)) (\<lambda>candidate.
                    case candidate of
                      None \<Rightarrow> ioBind (canonical getter account head headHash) (\<lambda>_. ioThrow noSuchTransaction)
                    | Some x \<Rightarrow> ioBind (verify x) (\<lambda>r. ioReturn (Some r)))))
              | _ \<Rightarrow> ioThrow ''The wallet's canonical nonce is unavailable. Retry transaction status.'')))"

definition recoverPendingTransaction ::
    "(string \<Rightarrow> bool) \<Rightarrow> bool \<Rightarrow> string option \<Rightarrow> pending_record \<Rightarrow> string \<Rightarrow> (chain_world, recovered option) io" where
  "recoverPendingTransaction isAddr getter replacement record account =
     (case pr_intent record of
        None \<Rightarrow> ioThrow ''The saved transaction has no verified original nonce for this wallet. Check the original transaction in your wallet.''
      | Some v \<Rightarrow>
          ioDemand (validPendingIntent isAddr (Some v) \<and> same (pi_from (intentOf v)) account)
            ''The saved transaction has no verified original nonce for this wallet. Check the original transaction in your wallet.''
         (ioBind (checkAccount getter account) (\<lambda>_.
          ioBind (ioRead cw_head) (\<lambda>head.
          case (cb_number head, cb_hash head) of
            (Some n, Some h) \<Rightarrow>
              ioDemand (hex_word 64 h) ''A canonical block is unavailable for pending recovery.''
             (afterHead isAddr getter account (intentOf v) (pr_hash record) replacement n h)
          | _ \<Rightarrow> ioThrow ''A canonical block is unavailable for pending recovery.''))))"

section \<open>What a recovered transaction has been checked for\<close>

definition verifiedBy ::
    "(string \<Rightarrow> bool) \<Rightarrow> string \<Rightarrow> pending_intent \<Rightarrow> int \<Rightarrow> string \<Rightarrow> (nat \<Rightarrow> chain_world) \<Rightarrow> chain_tx \<Rightarrow> recovered \<Rightarrow> bool" where
  "verifiedBy isAddr account intent head headHash w x r \<longleftrightarrow>
     rp_hash r = tx_hash x \<and> consumesNonce isAddr account intent x \<and> receiptMatches account head x (rp_receipt r) \<and>
     (\<exists>i. cw_receipt (w i) (tx_hash x) = Inr (rp_receipt r)) \<and>
     (\<exists>i b. cw_block (w i) (rc_blockNumber (rp_receipt r)) = Inr b \<and> same (cb_hash b) (rc_blockHash (rp_receipt r)) \<and>
       (\<exists>h \<in> set (cb_hashes b). same (Some h) (tx_hash x))) \<and>
     (\<exists>i b. cw_block (w i) head = Inr b \<and> same (cb_hash b) headHash) \<and>
     (rp_equivalent r \<longleftrightarrow> same (tx_to x) (pi_to intent) \<and> same (Some (tx_input x)) (pi_input intent) \<and> tx_value x = pi_value intent) \<and>
     (rp_cancelled r \<longleftrightarrow> same (tx_to x) account \<and> tx_input x = ''0x'' \<and> tx_value x = 0)"

lemma canonical_checked:
  "yields w (\<lambda>_. \<exists>i b. cw_block (w i) number = Inr b \<and> same (cb_hash b) hash) (canonical getter account number hash)"
  unfolding canonical_def yields_def io_Inr by blast

lemma verifyTransaction_verified:
  "yields w (verifiedBy isAddr account intent head headHash w x) (verifyTransaction isAddr getter account intent head headHash x)"
  unfolding verifyTransaction_def
  by (rule yields_bind [OF canonical_checked] yields_after yields_demand yields_readBind yields_return)+ (auto simp: verifiedBy_def list_ex_iff)

text \<open>Where the transaction itself was read: by its hash, or in a block.\<close>

definition servedTx :: "string option \<Rightarrow> string \<Rightarrow> (nat \<Rightarrow> chain_world) \<Rightarrow> chain_tx \<Rightarrow> bool" where
  "servedTx replacement hash w x \<longleftrightarrow> (case (if replacement = Some '''' then None else replacement) of
      Some h \<Rightarrow> \<exists>i. cw_tx (w i) h = Inr x
    | None \<Rightarrow> (\<exists>i. cw_tx (w i) hash = Inr x) \<or> (\<exists>i n b. cw_fullBlock (w i) n = Inr b \<and> x \<in> set (cb_txs b)))"

definition foundBy :: "(string \<Rightarrow> bool) \<Rightarrow> string \<Rightarrow> pending_intent \<Rightarrow> string \<Rightarrow> string option \<Rightarrow> int \<Rightarrow> string \<Rightarrow> (nat \<Rightarrow> chain_world)
    \<Rightarrow> recovered option \<Rightarrow> bool" where
  "foundBy isAddr account intent hash replacement head headHash w r \<longleftrightarrow>
     (\<forall>y. r = Some y \<longrightarrow> (\<exists>x. servedTx replacement hash w x \<and> verifiedBy isAddr account intent head headHash w x y))"

lemma verified_found:
  assumes "servedTx replacement hash w x"
  shows "yields w (foundBy isAddr account intent hash replacement head headHash w)
     (ioBind (verifyTransaction isAddr getter account intent head headHash x) (\<lambda>r. ioReturn (Some r)))"
  by (rule yields_bind [OF verifyTransaction_verified], rule yields_return) (use assms in \<open>auto simp: foundBy_def\<close>)

lemma none_found: "foundBy isAddr account intent hash replacement head headHash w None"
  by (simp add: foundBy_def)

text \<open>The searches return transactions of blocks they read.\<close>

definition inSomeBlock :: "(nat \<Rightarrow> chain_world) \<Rightarrow> chain_tx option \<Rightarrow> bool" where
  "inSomeBlock w found \<longleftrightarrow> (\<forall>x. found = Some x \<longrightarrow> (\<exists>i n b. cw_fullBlock (w i) n = Inr b \<and> x \<in> set (cb_txs b)))"

lemma findNonce_in: "findNonce account nonce b = Some x \<Longrightarrow> x \<in> set (cb_txs b)"
  by (auto simp: findNonce_def find_Some_iff)

lemma findNonce_read: "cw_fullBlock (w i) n = Inr b \<Longrightarrow> inSomeBlock w (findNonce account nonce b)"
  using findNonce_in unfolding inSomeBlock_def by blast

lemma searchHistory_in: "yields w (inSomeBlock w) (searchHistory getter account nonce head)"
  using findNonce_read unfolding searchHistory_def yields_def io_Inr
  by (fastforce split: prod.splits simp: io_Inr)

lemma scanBlocks_in: "yields w (inSomeBlock w) (scanBlocks getter account nonce heights)"
proof (induction heights)
  case Nil
  show ?case by (simp add: yields_return inSomeBlock_def)
next
  case (Cons height heights)
  have read: "yields w (\<lambda>b. inSomeBlock w (findNonce account nonce b)) (ioCatch (ioRead (\<lambda>w. cw_fullBlock w height)) (ioThrow noSuchTransaction))"
    by (rule yields_catch [OF yields_read yields_throw]) (rule findNonce_read)
  show ?case
    unfolding scanBlocks.simps
  proof (rule yields_after, rule yields_bind [OF read])
    fix b assume "inSomeBlock w (findNonce account nonce b)"
    then show "yields w (inSomeBlock w) (case findNonce account nonce b of None \<Rightarrow> scanBlocks getter account nonce heights | Some x \<Rightarrow> ioReturn (Some x))"
      using Cons.IH by (cases "findNonce account nonce b") (auto intro: yields_return)
  qed
qed

lemma afterHead_verified:
  "yields w (foundBy isAddr account intent hash replacement head headHash w) (afterHead isAddr getter account intent hash replacement head headHash)"
proof (cases "if replacement = Some '''' then None else replacement")
  case (Some h)
  have "servedTx replacement hash w x" if "cw_tx (w i) h = Inr x" for x i
    using that Some by (auto simp: servedTx_def)
  then show ?thesis
    unfolding afterHead_def Let_def Some option.case by (intro yields_demand yields_readBind verified_found)
next
  case None
  have served: "servedTx replacement hash w x" if "cw_tx (w i) hash = Inr x \<or> inSomeBlock w (Some x)" for x i
    using that None by (auto simp: servedTx_def inSomeBlock_def)
  let ?P = "foundBy isAddr account intent hash replacement head headHash w"
  let ?verify = "\<lambda>x. ioBind (verifyTransaction isAddr getter account intent head headHash x) (\<lambda>r. ioReturn (Some r))"
  have direct: "yields w ?P
      (ioCatch (ioBind (ioRead (\<lambda>w. cw_receipt w hash)) (\<lambda>_. ioBind (ioRead (\<lambda>w. cw_tx w hash)) ?verify))
         (ioBind (checkAccount getter account) (\<lambda>_. ioReturn None)))"
  proof (rule yields_catch)
    show "yields w ?P (ioBind (ioRead (\<lambda>w. cw_receipt w hash)) (\<lambda>_. ioBind (ioRead (\<lambda>w. cw_tx w hash)) ?verify))"
      by (rule yields_after, rule yields_readBind, rule verified_found) (use served in blast)
    show "yields w ?P (ioBind (checkAccount getter account) (\<lambda>_. ioReturn None))"
      by (rule yields_after, rule yields_return, rule none_found)
  qed
  have search: "yields w (inSomeBlock w) (ioCatch (searchHistory getter account nonce head) (ioBind (checkAccount getter account) (\<lambda>_. ioReturn None)))"
    for nonce
    by (rule yields_catch [OF searchHistory_in], rule yields_after, rule yields_return) (simp add: inSomeBlock_def)
  have scan: "yields w (inSomeBlock w) (case found of None \<Rightarrow> scanBlocks getter account nonce heights | Some x \<Rightarrow> ioReturn (Some x))"
    if "inSomeBlock w found" for found nonce heights
    using that scanBlocks_in by (cases found) (auto intro: yields_return)
  have verify: "yields w ?P (?verify x)" if "inSomeBlock w (Some x)" for x
    using served [of undefined x] that by (intro verified_found) blast
  have candidate: "yields w ?P (ioBind (case found of None \<Rightarrow> scanBlocks getter account nonce heights | Some x \<Rightarrow> ioReturn (Some x))
      (\<lambda>candidate. case candidate of None \<Rightarrow> ioBind (canonical getter account head headHash) (\<lambda>_. ioThrow noSuchTransaction) | Some x \<Rightarrow> ?verify x))"
    if "inSomeBlock w found" for found nonce heights
    by (rule yields_bind [OF scan [OF that]], rule yields_option, rule yields_after, rule yields_throw, rule verify) simp
  show ?thesis
    unfolding afterHead_def Let_def None option.case
    by (rule yields_bind [OF direct], rule yields_option)
      (rule yields_demand yields_if yields_number yields_throw yields_bind [OF search] candidate yields_return none_found yields_after
        | simp add: foundBy_def)+
qed

lemma recover_verified:
  assumes "recoverPendingTransaction isAddr getter replacement record account w t = (Inr (Some r), t')"
  obtains v latest head headHash i x where "pr_intent record = Some v" and "validPendingIntent isAddr (Some v)"
    and "same (pi_from (intentOf v)) account" and "cw_head (w i) = Inr latest" and "cb_number latest = Some head" and "cb_hash latest = Some headHash"
    and "servedTx replacement (pr_hash record) w x" and "verifiedBy isAddr account (intentOf v) head headHash w x r"
proof -
  obtain v where v: "pr_intent record = Some v"
    using assms by (cases "pr_intent record") (simp_all add: recoverPendingTransaction_def)
  have "\<exists>i latest hash n t1. validPendingIntent isAddr (Some v) \<and> same (pi_from (intentOf v)) account \<and>
      cw_head (w i) = Inr latest \<and> cb_number latest = Some n \<and> cb_hash latest = Some hash \<and>
      afterHead isAddr getter account (intentOf v) (pr_hash record) replacement n hash w t1 = (Inr (Some r), t')"
    using assms v unfolding recoverPendingTransaction_def
    by (simp add: io_Inr split: option.splits) blast
  then obtain i latest hash n t1 where valid: "validPendingIntent isAddr (Some v)" "same (pi_from (intentOf v)) account"
    and head: "cw_head (w i) = Inr latest" "cb_number latest = Some n" "cb_hash latest = Some hash"
    and run: "afterHead isAddr getter account (intentOf v) (pr_hash record) replacement n hash w t1 = (Inr (Some r), t')"
    by blast
  have "\<exists>x. servedTx replacement (pr_hash record) w x \<and> verifiedBy isAddr account (intentOf v) n hash w x r"
    using yieldsD [OF afterHead_verified run] by (simp add: foundBy_def)
  with that v valid head show thesis by blast
qed

section \<open>The bisection\<close>

text \<open>
  When the nonces at heights the search looks at stay what they are and do not decrease with the height, the search ends,
  after at most as many probes as the range has binary digits, at the first height where the nonce has passed. The rest
  of the world may change between the reads.
\<close>

lemma checkAccount_run:
  assumes "\<And>t. getter \<Longrightarrow> same (cw_account (w t)) account"
  shows "checkAccount getter account w t = (Inr (), t + (if getter then 1 else 0))"
  using assms by (cases getter) (simp_all add: checkAccount_def io_run demand_def)

lemma bisect_finds:
  assumes account: "\<And>t. getter \<Longrightarrow> same (cw_account (w t)) account"
    and counts: "\<And>t h. lower \<le> h \<Longrightarrow> h < upper \<Longrightarrow> cw_count (w t) h = Inr (JS_int (f h)) \<and> isSafeInteger (f h) \<and> 0 \<le> f h"
    and mono: "\<And>h k. lower \<le> h \<Longrightarrow> h \<le> k \<Longrightarrow> k \<le> upper \<Longrightarrow> f h \<le> f k"
    and "f upper > nonce" and "lower \<le> upper" and "upper - lower < 2 ^ probes"
  shows "\<exists>k t'. bisect getter account nonce probes lower upper w t = (Inr (k, k), t') \<and> t' \<le> t + 2 * probes \<and> lower \<le> k \<and> k \<le> upper \<and>
    f k > nonce \<and> (\<forall>h. lower \<le> h \<longrightarrow> h < k \<longrightarrow> f h \<le> nonce)"
  using counts mono assms(4-6)
proof (induction probes arbitrary: lower upper t)
  case 0
  then have "lower = upper" by simp
  with 0 show ?case by (auto simp: ioReturn_def)
next
  case (Suc probes)
  show ?case
  proof (cases "lower < upper")
    case False
    with Suc.prems show ?thesis by (auto simp: ioReturn_def)
  next
    case True
    define m where "m = lower + (upper - lower) div 2"
    have m: "lower \<le> m" "m < upper" using True by (simp_all add: m_def)
    have half: "m - lower < 2 ^ probes" "upper - (m + 1) < 2 ^ probes"
      using Suc.prems(5) by (simp_all add: m_def)
    obtain t1 where chk: "checkAccount getter account w t = (Inr (), t1)" and t1: "t1 \<le> t + 1"
      using checkAccount_run [where w = w, OF account] by (cases getter) auto
    have step: "bisect getter account nonce (Suc probes) lower upper w t =
        (if f m > nonce then bisect getter account nonce probes lower m w (Suc t1)
         else bisect getter account nonce probes (m + 1) upper w (Suc t1))"
      using True Suc.prems(1) [OF m] chk
      by (simp add: ioBind_def io_run m_def [symmetric] Let_def)
    show ?thesis
    proof (cases "f m > nonce")
      case True
      have "\<exists>k t'. bisect getter account nonce probes lower m w (Suc t1) = (Inr (k, k), t') \<and> t' \<le> Suc t1 + 2 * probes \<and> lower \<le> k \<and> k \<le> m \<and>
          f k > nonce \<and> (\<forall>h. lower \<le> h \<longrightarrow> h < k \<longrightarrow> f h \<le> nonce)"
        by (rule Suc.IH) (use Suc.prems m half True in auto)
      with step True m t1 show ?thesis by force
    next
      case False
      have "\<exists>k t'. bisect getter account nonce probes (m + 1) upper w (Suc t1) = (Inr (k, k), t') \<and> t' \<le> Suc t1 + 2 * probes \<and> m + 1 \<le> k \<and>
          k \<le> upper \<and> f k > nonce \<and> (\<forall>h. m + 1 \<le> h \<longrightarrow> h < k \<longrightarrow> f h \<le> nonce)"
        by (rule Suc.IH) (use Suc.prems m half in auto)
      then obtain k t' where k: "bisect getter account nonce probes (m + 1) upper w (Suc t1) = (Inr (k, k), t')" "t' \<le> Suc t1 + 2 * probes"
        "m + 1 \<le> k" "k \<le> upper" "f k > nonce" "\<forall>h. m + 1 \<le> h \<longrightarrow> h < k \<longrightarrow> f h \<le> nonce" by blast
      have "f h \<le> nonce" if "lower \<le> h" "h < k" for h
      proof (cases "h \<le> m")
        case True
        then have "f h \<le> f m" using Suc.prems(2) [of h m] that m by simp
        with False show ?thesis by simp
      qed (use k that in auto)
      with k m step t1 False show ?thesis by (intro exI [of _ k] exI [of _ t']) auto
    qed
  qed
qed

section \<open>A used nonce is found\<close>

text \<open>\<open>steady\<close>: the reads at and below the head do not change while the recovery runs; the head itself may grow.\<close>

definition blockSteady :: "(nat \<Rightarrow> chain_world) \<Rightarrow> int \<Rightarrow> string \<Rightarrow> bool" where
  "blockSteady w head headHash \<longleftrightarrow> (\<forall>t. \<exists>b. cw_block (w t) head = Inr b \<and> same (cb_hash b) headHash)"

lemma canonical_run:
  assumes "\<And>t. getter \<Longrightarrow> same (cw_account (w t)) account" and "blockSteady w number hash"
  shows "\<exists>t'. canonical getter account number hash w t = (Inr (), t') \<and> t' \<le> t + 3"
proof -
  obtain b where "cw_block (w (t + (if getter then 1 else 0))) number = Inr b" "same (cb_hash b) hash"
    using assms(2) unfolding blockSteady_def by blast
  then show ?thesis by (cases getter) (simp_all add: canonical_def ioBind_def io_run checkAccount_run [where w = w, OF assms(1)])
qed

definition acceptedReceipt :: "chain_world \<Rightarrow> string \<Rightarrow> int \<Rightarrow> chain_tx \<Rightarrow> chain_receipt \<Rightarrow> bool" where
  "acceptedReceipt v account head x r \<longleftrightarrow> cw_receipt v (tx_hash x) = Inr r \<and> receiptMatches account head x r \<and>
     (\<exists>b. cw_block v (rc_blockNumber r) = Inr b \<and> same (cb_hash b) (rc_blockHash r) \<and>
       list_ex (\<lambda>h. same (Some h) (tx_hash x)) (cb_hashes b))"

lemma verifyTransaction_run:
  assumes "\<And>t. getter \<Longrightarrow> same (cw_account (w t)) account" and "blockSteady w head headHash"
    and "consumesNonce isAddr account intent x" and "\<And>t. acceptedReceipt (w t) account head x r"
  shows "\<exists>y t'. verifyTransaction isAddr getter account intent head headHash x w t = (Inr y, t') \<and> t' \<le> t + 6 \<and>
    rp_hash y = tx_hash x \<and> rp_receipt y = r"
proof -
  let ?t = "t + (if getter then 1 else 0)"
  have r: "cw_receipt (w ?t) (tx_hash x) = Inr r" "receiptMatches account head x r"
    using assms(4) [of ?t] by (auto simp: acceptedReceipt_def)
  obtain b where b: "cw_block (w (Suc ?t)) (rc_blockNumber r) = Inr b"
    "same (cb_hash b) (rc_blockHash r)" "list_ex (\<lambda>h. same (Some h) (tx_hash x)) (cb_hashes b)"
    using assms(4) [of "Suc ?t"] by (auto simp: acceptedReceipt_def)
  obtain t1 where c: "canonical getter account head headHash w (Suc (Suc ?t)) = (Inr (), t1)" "t1 \<le> Suc (Suc ?t) + 3"
    using canonical_run [where w = w, OF assms(1,2)] by blast
  show ?thesis
    using r b c assms(3)
    by (cases getter) (simp_all add: verifyTransaction_def ioBind_def io_run checkAccount_run [where w = w, OF assms(1)])
qed

lemma searchHistory_run:
  assumes "\<And>t. getter \<Longrightarrow> same (cw_account (w t)) account"
    and "\<And>t h. 0 \<le> h \<Longrightarrow> h < head \<Longrightarrow> cw_count (w t) h = Inr (JS_int (f h)) \<and> isSafeInteger (f h) \<and> 0 \<le> f h"
    and "\<And>h k. 0 \<le> h \<Longrightarrow> h \<le> k \<Longrightarrow> k \<le> head \<Longrightarrow> f h \<le> f k"
    and "f head > nonce" and "0 \<le> head" and "head < 2 ^ 64"
    and found: "\<And>t k. 0 \<le> k \<Longrightarrow> k \<le> head \<Longrightarrow> f k > nonce \<Longrightarrow> (\<forall>h. 0 \<le> h \<longrightarrow> h < k \<longrightarrow> f h \<le> nonce) \<Longrightarrow>
      \<exists>b. cw_fullBlock (w t) k = Inr b \<and> findNonce account nonce b = Some x"
  shows "\<exists>t'. searchHistory getter account nonce head w t = (Inr (Some x), t') \<and> t' \<le> t + 129"
proof -
  have "\<exists>k t'. bisect getter account nonce 64 0 head w t = (Inr (k, k), t') \<and> t' \<le> t + 2 * 64 \<and> 0 \<le> k \<and> k \<le> head \<and>
      f k > nonce \<and> (\<forall>h. 0 \<le> h \<longrightarrow> h < k \<longrightarrow> f h \<le> nonce)"
    by (rule bisect_finds [where w = w, OF assms(1-5)]) (use assms(6) in auto)
  then obtain k t1 where k: "bisect getter account nonce 64 0 head w t = (Inr (k, k), t1)" "t1 \<le> t + 2 * 64" "0 \<le> k" "k \<le> head" "f k > nonce"
      "\<forall>h. 0 \<le> h \<longrightarrow> h < k \<longrightarrow> f h \<le> nonce" by blast
  obtain b where "cw_fullBlock (w t1) k = Inr b" "findNonce account nonce b = Some x" using found [OF k(3-6)] by blast
  with k(1,2) show ?thesis by (auto simp: searchHistory_def ioBind_def io_run)
qed

lemma afterHead_run:
  assumes account: "\<And>t. getter \<Longrightarrow> same (cw_account (w t)) account"
    and direct: "\<And>t. \<exists>e. cw_receipt (w t) hash = Inl e"
    and head: "blockSteady w head headHash"
    and count: "\<And>t. cw_count (w t) head = Inr (JS_int (f head))" "isSafeInteger (f head)" "0 \<le> f head" "f head > pi_nonce intent"
    and search: "\<And>t. \<exists>t'. searchHistory getter account (pi_nonce intent) head w t = (Inr (Some x), t') \<and> t' \<le> t + 129"
    and tx: "consumesNonce isAddr account intent x" "\<And>t. acceptedReceipt (w t) account head x r"
  shows "\<exists>y t'. afterHead isAddr getter account intent hash None head headHash w t = (Inr (Some y), t') \<and> t' \<le> t + 138 \<and>
    rp_hash y = tx_hash x \<and> rp_receipt y = r"
proof -
  let ?t = "Suc (Suc t + (if getter then 1 else 0))"
  obtain e where e: "cw_receipt (w t) hash = Inl e" using direct by blast
  obtain t1 where found: "searchHistory getter account (pi_nonce intent) head w ?t = (Inr (Some x), t1)" "t1 \<le> ?t + 129"
    using search by blast
  obtain y t2 where y: "verifyTransaction isAddr getter account intent head headHash x w t1 = (Inr y, t2)" "t2 \<le> t1 + 6" "rp_hash y = tx_hash x"
    "rp_receipt y = r"
    using verifyTransaction_run [where w = w, OF account head tx] by blast
  have "afterHead isAddr getter account intent hash None head headHash w t = (Inr (Some y), t2)"
    using e count found y
    by (simp add: afterHead_def Let_def ioBind_def ioCatch_def io_run checkAccount_run [where w = w, OF account])
  with y found(2) show ?thesis by (cases getter) auto
qed

section \<open>Properties\<close>

text \<open>
  C13: What recovery reports has been checked against the chain. The transaction it speaks of was read from the node, under
  the replacement hash if one was entered and otherwise under the saved hash or in a block; it is the wallet's own
  and uses the saved nonce; its receipt was read under its hash and matches it at a height of at most the head that was
  read first; the receipt's block was read, has the receipt's hash and lists the transaction; the head block was
  read again with its first hash; and \<open>equivalent\<close> and \<open>cancelled\<close> are decided on the fields of that very transaction.
  No assumption is made on how the chain changes between reads.
\<close>

theorem recovered_is_verified:
  assumes "recoverPendingTransaction isAddr getter replacement record account w t = (Inr (Some r), t')"
  shows "\<exists>v latest head headHash h x b again i j k m. pr_intent record = Some v \<and> same (pi_from (intentOf v)) account \<and>
    servedTx replacement (pr_hash record) w x \<and>
    tx_hash x = rp_hash r \<and> same (Some (tx_from x)) account \<and> tx_nonce x = pi_nonce (intentOf v) \<and>
    cw_head (w h) = Inr latest \<and> cb_number latest = Some head \<and> cb_hash latest = Some headHash \<and>
    cw_receipt (w i) (rp_hash r) = Inr (rp_receipt r) \<and> receiptMatches account head x (rp_receipt r) \<and>
    cw_block (w j) (rc_blockNumber (rp_receipt r)) = Inr b \<and> same (cb_hash b) (rc_blockHash (rp_receipt r)) \<and>
    m \<in> set (cb_hashes b) \<and> same (Some m) (rp_hash r) \<and>
    cw_block (w k) head = Inr again \<and> same (cb_hash again) headHash \<and>
    (rp_equivalent r \<longleftrightarrow> same (tx_to x) (pi_to (intentOf v)) \<and> same (Some (tx_input x)) (pi_input (intentOf v)) \<and>
      tx_value x = pi_value (intentOf v)) \<and>
    (rp_cancelled r \<longleftrightarrow> same (tx_to x) account \<and> tx_input x = ''0x'' \<and> tx_value x = 0)"
proof -
  obtain v latest head headHash h x where v: "pr_intent record = Some v" "same (pi_from (intentOf v)) account"
    "cw_head (w h) = Inr latest" "cb_number latest = Some head" "cb_hash latest = Some headHash" "servedTx replacement (pr_hash record) w x"
    and x: "verifiedBy isAddr account (intentOf v) head headHash w x r"
    using recover_verified [OF assms] by metis
  from x obtain i j b m where "tx_hash x = rp_hash r" "cw_receipt (w i) (rp_hash r) = Inr (rp_receipt r)"
    "cw_block (w j) (rc_blockNumber (rp_receipt r)) = Inr b" "same (cb_hash b) (rc_blockHash (rp_receipt r))"
    "m \<in> set (cb_hashes b)" "same (Some m) (rp_hash r)"
    unfolding verifiedBy_def by metis
  moreover from x obtain k again where "cw_block (w k) head = Inr again" "same (cb_hash again) headHash"
    unfolding verifiedBy_def by blast
  moreover have "same (Some (tx_from x)) account" "tx_nonce x = pi_nonce (intentOf v)" "receiptMatches account head x (rp_receipt r)"
    "rp_equivalent r \<longleftrightarrow> same (tx_to x) (pi_to (intentOf v)) \<and> same (Some (tx_input x)) (pi_input (intentOf v)) \<and>
      tx_value x = pi_value (intentOf v)"
    "rp_cancelled r \<longleftrightarrow> same (tx_to x) account \<and> tx_input x = ''0x'' \<and> tx_value x = 0"
    using x unfolding verifiedBy_def consumesNonce_def by blast+
  ultimately show ?thesis using v
    by (intro exI [of _ v] exI [of _ latest] exI [of _ head] exI [of _ headHash] exI [of _ h] exI [of _ x] exI [of _ b] exI [of _ again]
        exI [of _ i] exI [of _ j] exI [of _ k] exI [of _ m]) (intro conjI; assumption)
qed

text \<open>
  C17: A used nonce is found. No replacement hash was entered, and the node has no receipt under the saved hash. The reads
  at and below the head that was read first do not change while the recovery runs (the head may grow): the node serves
  the wallet's nonce at every height, it never decreases with the height, the first block where it has passed the saved one
  holds the transaction \<open>x\<close> of the wallet with that nonce, and \<open>x\<close> and its receipt are consistent. Then, whatever the
  height of the chain below 2 to the 64, recovery ends and reports that transaction with its receipt, and it has read the
  node and the wallet at most 140 times: 64 probes with a look at the wallet each, and 12 other reads.
\<close>

theorem used_nonce_is_found:
  assumes "pr_intent record = Some intent" and "validPendingIntent isAddr (Some intent)"
    and "same (pi_from (intentOf intent)) account" and "\<And>i. getter \<Longrightarrow> same (cw_account (w i)) account"
    and "cw_head (w (t + (if getter then 1 else 0))) = Inr latest" and "cb_number latest = Some head" and "cb_hash latest = Some headHash"
    and "hex_word 64 headHash" and "blockSteady w head headHash" and "0 \<le> head" and "head < 2 ^ 64"
    and "\<And>i. \<exists>e. cw_receipt (w i) (pr_hash record) = Inl e"
    and "\<And>i h. 0 \<le> h \<Longrightarrow> h \<le> head \<Longrightarrow> cw_count (w i) h = Inr (JS_int (f h)) \<and> isSafeInteger (f h) \<and> 0 \<le> f h"
    and "\<And>h k. 0 \<le> h \<Longrightarrow> h \<le> k \<Longrightarrow> k \<le> head \<Longrightarrow> f h \<le> f k" and "f head > pi_nonce (intentOf intent)"
    and "\<And>i k. 0 \<le> k \<Longrightarrow> k \<le> head \<Longrightarrow> f k > pi_nonce (intentOf intent) \<Longrightarrow>
      (\<forall>h. 0 \<le> h \<longrightarrow> h < k \<longrightarrow> f h \<le> pi_nonce (intentOf intent)) \<Longrightarrow>
      \<exists>b. cw_fullBlock (w i) k = Inr b \<and> findNonce account (pi_nonce (intentOf intent)) b = Some x"
    and "consumesNonce isAddr account (intentOf intent) x" and "\<And>i. acceptedReceipt (w i) account head x r"
  shows "\<exists>y t'. recoverPendingTransaction isAddr getter None record account w t = (Inr (Some y), t') \<and> t' \<le> t + 140 \<and>
    rp_hash y = tx_hash x \<and> rp_receipt y = r"
proof -
  let ?t = "Suc (t + (if getter then 1 else 0))"
  have search: "\<exists>t'. searchHistory getter account (pi_nonce (intentOf intent)) head w t = (Inr (Some x), t') \<and> t' \<le> t + 129" for t
    by (rule searchHistory_run [where f = f]) (use assms in auto)
  have "\<exists>y t'. afterHead isAddr getter account (intentOf intent) (pr_hash record) None head headHash w ?t = (Inr (Some y), t') \<and>
      t' \<le> ?t + 138 \<and> rp_hash y = tx_hash x \<and> rp_receipt y = r"
    by (rule afterHead_run [where f = f, OF assms(4) assms(12) assms(9) _ _ _ _ search]) (use assms in auto)
  then obtain y t' where y: "afterHead isAddr getter account (intentOf intent) (pr_hash record) None head headHash w ?t = (Inr (Some y), t')"
      "t' \<le> ?t + 138" "rp_hash y = tx_hash x" "rp_receipt y = r" by blast
  have "recoverPendingTransaction isAddr getter None record account w t = (Inr (Some y), t')"
    using assms(1-3,5-8) y(1)
    by (simp add: recoverPendingTransaction_def ioBind_def io_run checkAccount_run [where w = w, OF assms(4)])
  with y show ?thesis by (cases getter) auto
qed


text \<open>A chain of six blocks whose block 3 holds the only transaction of the wallet.\<close>

definition sampleWord :: "char \<Rightarrow> string" where
  "sampleWord c = ''0x'' @ replicate 64 c"

lemma sampleWord_hash: "is_hex c \<Longrightarrow> hex_word 64 (sampleWord c)"
  by (simp add: sampleWord_def hex_word_def list_all_iff)

definition sampleTx :: chain_tx where
  "sampleTx = \<lparr>tx_hash = sampleWord (CHR ''b''), tx_from = ''0xa'', tx_nonce = 0, tx_to = Some ''0xc'', tx_value = 0, tx_input = ''0x''\<rparr>"

definition sampleBlock :: "int \<Rightarrow> chain_block" where
  "sampleBlock h = \<lparr>cb_number = Some h, cb_hash = Some (sampleWord (CHR ''d'')),
     cb_hashes = (if h = 3 then [sampleWord (CHR ''b'')] else []), cb_txs = (if h = 3 then [sampleTx] else [])\<rparr>"

definition sampleReceipt :: chain_receipt where
  "sampleReceipt = \<lparr>rc_hash = sampleWord (CHR ''b''), rc_from = ''0xa'', rc_to = Some ''0xc'', rc_blockHash = sampleWord (CHR ''d''),
     rc_blockNumber = 3, rc_status = ''success''\<rparr>"

definition sampleNonce :: "int \<Rightarrow> int" where
  "sampleNonce h = (if h < 3 then 0 else 1)"

definition sampleChain :: chain_world where
  "sampleChain = \<lparr>cw_head = Inr (sampleBlock 5), cw_block = (\<lambda>h. Inr (sampleBlock h)), cw_fullBlock = (\<lambda>h. Inr (sampleBlock h)),
     cw_tx = (\<lambda>_. Inr sampleTx), cw_receipt = (\<lambda>h. if h = sampleWord (CHR ''b'') then Inr sampleReceipt else Inl ''not found''),
     cw_count = (\<lambda>h. Inr (JS_int (sampleNonce h))), cw_account = Some ''0xa''\<rparr>"

definition sampleIntent :: json where
  "sampleIntent = J_obj [(''from'', J_str ''0xa''), (''nonce'', J_num (JS_int 0)), (''to'', J_str ''0xc''),
     (''input'', J_str ''0x''), (''value'', J_str ''0''), (''submittedBlock'', J_str ''0'')]"

definition samplePending :: pending_record where
  "samplePending = \<lparr>pr_version = 2, pr_hash = sampleWord (CHR ''e''), pr_savedAt = JS_int 0, pr_intent = Some sampleIntent, pr_requested = None\<rparr>"

lemma sampleIntent_fields:
  "intentOf sampleIntent = \<lparr>pi_from = Some ''0xa'', pi_nonce = 0, pi_to = ''0xc'', pi_input = ''0x'', pi_value = 0\<rparr>"
  by (simp add: intentOf_def sampleIntent_def j_field_def j_string_def j_int_def digit_text)

lemma sampleIntent_valid: "validPendingIntent (\<lambda>_. True) (Some sampleIntent)"
  by (simp add: validPendingIntent_def sampleIntent_def j_field_def j_string_def j_int_def addressField_def safe_nat_def
      uintField_def inputField_def uint_text_def decimal_text_def hex_bytes_def isSafeInteger_def MAX_SAFE_INTEGER_def
      Let_def digit_text)

lemma sampleWord_same: "same (Some (sampleWord c)) (sampleWord d) \<longleftrightarrow> js_lower_char c = js_lower_char d"
  by (auto simp: same_def sampleWord_def js_lower_def)

lemma sampleTx_consumes: "consumesNonce (\<lambda>_. True) ''0xa'' (intentOf sampleIntent) sampleTx"
  by (simp add: consumesNonce_def sampleTx_def sampleIntent_fields sampleWord_hash same_def is_hex_def is_lower_hex_def hex_bytes_def)

lemma sampleReceipt_accepted: "acceptedReceipt sampleChain ''0xa'' 5 sampleTx sampleReceipt"
  by (simp add: acceptedReceipt_def sampleChain_def sampleTx_def receiptMatches_def sampleReceipt_def sampleBlock_def
      sampleWord_same sampleWord_hash is_hex_def is_lower_hex_def) (simp add: same_def)

lemma sample_found:
  assumes "sampleNonce k > 0" and "\<forall>h. 0 \<le> h \<longrightarrow> h < k \<longrightarrow> sampleNonce h \<le> 0"
  shows "findNonce ''0xa'' 0 (sampleBlock k) = Some sampleTx"
proof -
  have "k = 3"
    using assms(1) spec [OF assms(2), of 3] by (simp add: sampleNonce_def split: if_splits)
  then show ?thesis
    by (simp add: findNonce_def sampleBlock_def sampleTx_def same_def)
qed


lemma sampleWord_eq: "sampleWord c = sampleWord d \<longleftrightarrow> c = d"
  by (auto simp: sampleWord_def)

lemma sampleWord_d: "hex_word 64 (sampleWord (CHR ''d''))" "hex_word 64 (sampleWord (CHR ''b''))"
  by (simp_all add: sampleWord_hash is_hex_def is_lower_hex_def)

lemma sampleChain_reads:
  "cw_head sampleChain = Inr (sampleBlock 5)" "cw_block sampleChain h = Inr (sampleBlock h)"
  "cw_fullBlock sampleChain h = Inr (sampleBlock h)" "cw_tx sampleChain q = Inr sampleTx"
  "cw_receipt sampleChain (sampleWord (CHR ''e'')) = Inl ''not found''"
  "cw_count sampleChain h = Inr (JS_int (sampleNonce h))" "cw_account sampleChain = Some ''0xa''"
  "cb_number (sampleBlock h) = Some h" "cb_hash (sampleBlock h) = Some (sampleWord (CHR ''d''))"
  "pr_intent samplePending = Some sampleIntent" "pr_hash samplePending = sampleWord (CHR ''e'')"
  by (simp_all add: sampleChain_def sampleBlock_def samplePending_def sampleWord_eq)

text \<open>The same chain, a block higher at every read.\<close>

definition growingChain :: "nat \<Rightarrow> chain_world" where
  "growingChain i = sampleChain\<lparr>cw_head := Inr (sampleBlock (4 + int i))\<rparr>"

lemma growingChain_reads:
  "cw_head (growingChain i) = Inr (sampleBlock (4 + int i))" "cw_block (growingChain i) h = Inr (sampleBlock h)"
  "cw_fullBlock (growingChain i) h = Inr (sampleBlock h)" "cw_receipt (growingChain i) (sampleWord (CHR ''e'')) = Inl ''not found''"
  "cw_count (growingChain i) h = Inr (JS_int (sampleNonce h))" "cw_account (growingChain i) = Some ''0xa''"
  by (simp_all add: growingChain_def sampleChain_reads)

lemma growingChain_accepted: "acceptedReceipt (growingChain i) ''0xa'' 5 sampleTx sampleReceipt"
  using sampleReceipt_accepted by (simp add: growingChain_def acceptedReceipt_def)

lemma growingChain_steady: "blockSteady growingChain 5 (sampleWord (CHR ''d''))"
  by (simp add: blockSteady_def growingChain_reads sampleChain_reads same_def)

lemma used_nonce_is_found_witness:
  "\<exists>y t'. recoverPendingTransaction (\<lambda>_. True) True None samplePending ''0xa'' growingChain 0 = (Inr (Some y), t') \<and> t' \<le> 0 + 140 \<and>
     rp_hash y = tx_hash sampleTx \<and> rp_receipt y = sampleReceipt"
  by (rule used_nonce_is_found [where intent = sampleIntent and latest = "sampleBlock 5" and head = 5 and
        headHash = "sampleWord (CHR ''d'')" and f = sampleNonce,
        OF _ sampleIntent_valid _ _ _ _ _ sampleWord_d(1) growingChain_steady _ _ _ _ _ _ _ sampleTx_consumes growingChain_accepted])
    (use sample_found in \<open>auto simp: growingChain_reads sampleChain_reads sampleIntent_fields same_def sampleNonce_def isSafeInteger_def MAX_SAFE_INTEGER_def\<close>)

lemma recovered_is_verified_witness:
  "\<exists>(r :: recovered) (x :: chain_tx) b m. cw_tx sampleChain (sampleWord (CHR ''b'')) = Inr x \<and> tx_hash x = rp_hash r \<and> tx_nonce x = 0 \<and>
     cw_receipt sampleChain (rp_hash r) = Inr (rp_receipt r) \<and> cw_block sampleChain (rc_blockNumber (rp_receipt r)) = Inr b \<and>
     same (cb_hash b) (rc_blockHash (rp_receipt r)) \<and> m \<in> set (cb_hashes b) \<and> same (Some m) (rp_hash r)"
proof -
  let ?b = "sampleWord (CHR ''b'')"
  have steady: "blockSteady (\<lambda>_. sampleChain) 5 (sampleWord (CHR ''d''))"
    by (simp add: blockSteady_def sampleChain_reads same_def)
  obtain y t where y: "verifyTransaction (\<lambda>_. True) False ''0xa'' (intentOf sampleIntent) 5 (sampleWord (CHR ''d'')) sampleTx
      (\<lambda>_. sampleChain) 2 = (Inr y, t)"
    using verifyTransaction_run [where w = "\<lambda>_. sampleChain" and getter = False, OF _ steady sampleTx_consumes sampleReceipt_accepted, of 2]
    by auto
  have "recoverPendingTransaction (\<lambda>_. True) False (Some ?b) samplePending ''0xa'' (\<lambda>_. sampleChain) 0 = (Inr (Some y), t)"
    using y sampleIntent_valid
    by (simp add: recoverPendingTransaction_def sampleChain_reads afterHead_def ioBind_def io_run checkAccount_def sampleWord_d
        numeral_2_eq_2 sampleIntent_fields same_def) (simp add: sampleWord_def)
  from recovered_is_verified [OF this] obtain v and x :: chain_tx and b m where x: "pr_intent samplePending = Some v"
    "servedTx (Some ?b) (pr_hash samplePending) (\<lambda>_. sampleChain) x" "tx_hash x = rp_hash y"
    "tx_nonce x = pi_nonce (intentOf v)" "cw_receipt sampleChain (rp_hash y) = Inr (rp_receipt y)"
    "cw_block sampleChain (rc_blockNumber (rp_receipt y)) = Inr b" "same (cb_hash b) (rc_blockHash (rp_receipt y))"
    "m \<in> set (cb_hashes b)" "same (Some m) (rp_hash y)"
    by (elim exE conjE) (rule that, assumption+)
  have "cw_tx sampleChain ?b = Inr x" using x(2) by (simp add: servedTx_def sampleWord_def)
  moreover have "tx_nonce x = 0" using x(1,4) by (simp add: sampleChain_reads(10) sampleIntent_fields)
  ultimately show ?thesis using x(3,5-9) by blast
qed

end
