(* ===== verification/JS_Proc.thy ===== *)
theory JS_Proc
  imports JS_Runtime
begin

text \<open>
  Asynchronous code that also keeps a state, such as a service on its database. A computation
  gets the history of the world, the instant it starts at and the state; a read sees the
  world of its own instant and takes one. A rejected promise is \<open>Inl\<close> of the error, and what
  was written before it stays written. The second part is a logic of such computations:
  \<open>triple\<close> says what holds after a result and what holds after an error.
\<close>

type_synonym ('w, 's, 'a) proc = "(nat \<Rightarrow> 'w) \<Rightarrow> nat \<Rightarrow> 's \<Rightarrow> 'a outcome \<times> nat \<times> 's"

definition pReturn :: "'a \<Rightarrow> ('w, 's, 'a) proc" where
  "pReturn x = (\<lambda>w t s. (Inr x, t, s))"

definition pThrow :: "string \<Rightarrow> ('w, 's, 'a) proc" where
  "pThrow e = (\<lambda>w t s. (Inl e, t, s))"

definition pRead :: "('w \<Rightarrow> 'a outcome) \<Rightarrow> ('w, 's, 'a) proc" where
  "pRead f = (\<lambda>w t s. (f (w t), Suc t, s))"

definition pGet :: "('s \<Rightarrow> 'a) \<Rightarrow> ('w, 's, 'a) proc" where
  "pGet f = (\<lambda>w t s. (Inr (f s), t, s))"

definition pModify :: "('s \<Rightarrow> 's) \<Rightarrow> ('w, 's, unit) proc" where
  "pModify f = (\<lambda>w t s. (Inr (), t, f s))"

definition pBind :: "('w, 's, 'a) proc \<Rightarrow> ('a \<Rightarrow> ('w, 's, 'b) proc) \<Rightarrow> ('w, 's, 'b) proc" where
  "pBind m k = (\<lambda>w t s. case m w t s of (Inl e, t', s') \<Rightarrow> (Inl e, t', s') | (Inr x, t', s') \<Rightarrow> k x w t' s')"

definition pCatch :: "('w, 's, 'a) proc \<Rightarrow> (string \<Rightarrow> ('w, 's, 'a) proc) \<Rightarrow> ('w, 's, 'a) proc" where
  "pCatch m h = (\<lambda>w t s. case m w t s of (Inl e, t', s') \<Rightarrow> h e w t' s' | r \<Rightarrow> r)"

definition pDemand :: "bool \<Rightarrow> string \<Rightarrow> ('w, 's, 'a) proc \<Rightarrow> ('w, 's, 'a) proc" where
  "pDemand ok e m = (if ok then m else pThrow e)"

definition pLift :: "'a outcome \<Rightarrow> ('w, 's, 'a) proc" where
  "pLift r = (\<lambda>w t s. (r, t, s))"

fun pFold :: "('b \<Rightarrow> 'a \<Rightarrow> ('w, 's, 'a) proc) \<Rightarrow> 'b list \<Rightarrow> 'a \<Rightarrow> ('w, 's, 'a) proc" where
  "pFold f [] a = pReturn a"
| "pFold f (x # xs) a = pBind (f x a) (pFold f xs)"

lemma proc_run:
  "pReturn x w t s = (Inr x, t, s)" "pThrow e w t s = (Inl e, t, s)" "pRead f w t s = (f (w t), Suc t, s)"
  "pGet g w t s = (Inr (g s), t, s)" "pModify h w t s = (Inr (), t, h s)" "pLift r w t s = (r, t, s)"
  "pDemand ok e m w t s = (if ok then m w t s else (Inl e, t, s))"
  by (simp_all add: pReturn_def pThrow_def pRead_def pGet_def pModify_def pLift_def pDemand_def)

lemma pBind_run:
  "m w t s = (Inr x, t1, s1) \<Longrightarrow> pBind m k w t s = k x w t1 s1"
  "m w t s = (Inl e, t1, s1) \<Longrightarrow> pBind m k w t s = (Inl e, t1, s1)"
  by (simp_all add: pBind_def)

lemma pCatch_run:
  "m w t s = (Inr x, t1, s1) \<Longrightarrow> pCatch m h w t s = (Inr x, t1, s1)"
  "m w t s = (Inl e, t1, s1) \<Longrightarrow> pCatch m h w t s = h e w t1 s1"
  by (simp_all add: pCatch_def)

section \<open>What holds after a computation\<close>

definition triple :: "(nat \<Rightarrow> 'w) \<Rightarrow> ('s \<Rightarrow> bool) \<Rightarrow> ('w, 's, 'a) proc \<Rightarrow> ('a \<Rightarrow> 's \<Rightarrow> bool) \<Rightarrow> ('s \<Rightarrow> bool) \<Rightarrow> bool" where
  "triple w P m Q E \<longleftrightarrow> (\<forall>t s. P s \<longrightarrow> (case m w t s of (Inr x, _, s') \<Rightarrow> Q x s' | (Inl e, _, s') \<Rightarrow> E s'))"

lemma tripleD_Inr: "triple w P m Q E \<Longrightarrow> P s \<Longrightarrow> m w t s = (Inr x, t', s') \<Longrightarrow> Q x s'"
  unfolding triple_def by (drule spec [of _ t], drule spec [of _ s]) simp

lemma tripleD_Inl: "triple w P m Q E \<Longrightarrow> P s \<Longrightarrow> m w t s = (Inl e, t', s') \<Longrightarrow> E s'"
  unfolding triple_def by (drule spec [of _ t], drule spec [of _ s]) simp

lemma tripleD_any: "triple w P m (\<lambda>_. E) E \<Longrightarrow> P s \<Longrightarrow> m w t s = (r, t', s') \<Longrightarrow> E s'"
  by (cases r) (blast dest: tripleD_Inr tripleD_Inl)+

lemma triple_pre: "triple w P m Q E \<Longrightarrow> (\<And>s. P' s \<Longrightarrow> P s) \<Longrightarrow> triple w P' m Q E"
  by (auto simp: triple_def)

lemma triple_post: "triple w P m Q E \<Longrightarrow> (\<And>x s. Q x s \<Longrightarrow> Q' x s) \<Longrightarrow> (\<And>s. E s \<Longrightarrow> E' s) \<Longrightarrow> triple w P m Q' E'"
  unfolding triple_def by (auto split: sum.splits prod.splits) force+

lemma triple_return: "(\<And>s. P s \<Longrightarrow> Q x s) \<Longrightarrow> triple w P (pReturn x) Q E"
  by (simp add: triple_def proc_run)

lemma triple_throw: "(\<And>s. P s \<Longrightarrow> E s) \<Longrightarrow> triple w P (pThrow e) Q E"
  by (simp add: triple_def proc_run)

lemma triple_read: "(\<And>t x s. P s \<Longrightarrow> f (w t) = Inr x \<Longrightarrow> Q x s) \<Longrightarrow> (\<And>s. P s \<Longrightarrow> E s) \<Longrightarrow> triple w P (pRead f) Q E"
  by (auto simp: triple_def proc_run split: sum.split)

lemma triple_lift: "(\<And>x s. P s \<Longrightarrow> r = Inr x \<Longrightarrow> Q x s) \<Longrightarrow> (\<And>s. P s \<Longrightarrow> E s) \<Longrightarrow> triple w P (pLift r) Q E"
  by (auto simp: triple_def proc_run split: sum.split)

lemma triple_get: "(\<And>s. P s \<Longrightarrow> Q (f s) s) \<Longrightarrow> triple w P (pGet f) Q E"
  by (simp add: triple_def proc_run)

lemma triple_modify: "(\<And>s. P s \<Longrightarrow> Q () (f s)) \<Longrightarrow> triple w P (pModify f) Q E"
  by (simp add: triple_def proc_run)

lemma triple_bind: "triple w P m R E \<Longrightarrow> (\<And>x. triple w (R x) (k x) Q E) \<Longrightarrow> triple w P (pBind m k) Q E"
  unfolding triple_def pBind_def by (fastforce split: sum.splits prod.splits)

lemma triple_catch: "triple w P m Q F \<Longrightarrow> (\<And>e. triple w F (h e) Q E) \<Longrightarrow> triple w P (pCatch m h) Q E"
  unfolding triple_def pCatch_def by (fastforce split: sum.splits prod.splits)

lemma triple_demand: "(ok \<Longrightarrow> triple w P m Q E) \<Longrightarrow> (\<And>s. P s \<Longrightarrow> E s) \<Longrightarrow> triple w P (pDemand ok e m) Q E"
  by (auto simp: pDemand_def intro: triple_throw)

lemma triple_if: "(b \<Longrightarrow> triple w P m Q E) \<Longrightarrow> (\<not> b \<Longrightarrow> triple w P m' Q E) \<Longrightarrow> triple w P (if b then m else m') Q E"
  by simp

lemma triple_option: "(x = None \<Longrightarrow> triple w P m Q E) \<Longrightarrow> (\<And>y. x = Some y \<Longrightarrow> triple w P (k y) Q E) \<Longrightarrow>
    triple w P (case x of None \<Rightarrow> m | Some y \<Rightarrow> k y) Q E"
  by (cases x) simp_all

lemma triple_fold:
  "(\<And>x a. triple w (I a) (f x a) I E) \<Longrightarrow> triple w (I a) (pFold f xs a) I E"
  by (induction xs arbitrary: a) (auto intro: triple_return triple_bind)

lemma triple_gets: "(\<And>s. P s \<Longrightarrow> triple w (\<lambda>s'. s' = s \<and> P s) (k (f s)) Q E) \<Longrightarrow> triple w P (pBind (pGet f) k) Q E"
  unfolding triple_def pBind_def pGet_def by simp

section \<open>Steps that leave the state alone\<close>

lemma triple_readK:
  "(\<And>t x. f (w t) = Inr x \<Longrightarrow> triple w P (k x) Q E) \<Longrightarrow> (\<And>s. P s \<Longrightarrow> E s) \<Longrightarrow> triple w P (pBind (pRead f) k) Q E"
  unfolding triple_def pBind_def pRead_def by (auto split: sum.splits)

lemma triple_liftK:
  "(\<And>x. r = Inr x \<Longrightarrow> triple w P (k x) Q E) \<Longrightarrow> (\<And>s. P s \<Longrightarrow> E s) \<Longrightarrow> triple w P (pBind (pLift r) k) Q E"
  unfolding triple_def pBind_def pLift_def by (auto split: sum.splits)

lemma triple_getK:
  "(\<And>x. triple w (\<lambda>s. P s \<and> x = f s) (k x) Q E) \<Longrightarrow> triple w P (pBind (pGet f) k) Q E"
  unfolding triple_def pBind_def pGet_def by auto

lemma triple_keepK:
  assumes "triple w P m (\<lambda>_. P) P" and "\<And>x. triple w P (k x) Q E" and "\<And>s. P s \<Longrightarrow> E s"
  shows "triple w P (pBind m k) Q E"
proof (rule triple_bind)
  show "triple w P m (\<lambda>_. P) E" by (rule triple_post [OF assms(1)]) (use assms(3) in auto)
qed (rule assms(2))


end
