(* ===== verification/P2P_World.thy ===== *)
theory P2P_World
  imports P2P_Recovery JS_Proc
begin

text \<open>
  What the peer-to-peer client (p2p/client.ts) runs in: the node it reads, the connected
  wallet, the clock, and the state it shares with the rest of the page and with other tabs (the
  connected account, the lock, the browser's storage, the caches of p2p/health.ts). An await
  takes one instant, in which everything else may run: \<open>cl_others\<close> is what it does to that
  state. \<open>cl_flight\<close> is a reconciliation that another call has under way, with its outcome. A contract read is decoded by viem to the type its ABI gives, so the reads are one
  field per type of result. A read that the program starts with others in a
  \<open>Promise.all\<close> is made in the order written.
\<close>

section \<open>Reads\<close>

datatype call_arg = Arg_address string | Arg_uint int | Arg_uints "int list"

record block_head =
  bh_number :: "int option"
  bh_hash :: "string option"
  bh_timestamp :: int

record verified_block =
  vb_number :: int
  vb_hash :: string
  vb_timestamp :: int

record offer_row =
  or_lender :: string
  or_borrower :: string
  or_principal :: int
  or_collateral :: int
  or_interest :: int
  or_duration :: int
  or_expiresAt :: int
  or_dueAt :: int
  or_status :: int

record extension_row =
  er_proposer :: string
  er_nonce :: int
  er_oldDeadline :: int
  er_newDeadline :: int
  er_expiresAt :: int

datatype replaced_reason = Repriced | Cancelled_tx | Replaced_tx

record replacement =
  rl_reason :: replaced_reason
  rl_replaced :: chain_tx
  rl_transaction :: chain_tx
  rl_receipt :: chain_receipt

text \<open>The events of the market's contract that p2p/activity.ts reads, with the arguments of its ABI.\<close>

datatype activity_event =
    OfferCreated int string string int int int int int
  | OfferAccepted int int int
  | OfferClosed int int
  | LoanRepaid int string int
  | LoanDefaulted int
  | CreditAdded string string int
  | Withdrawn string string string int
  | LoanCreditAdded int string string int
  | LoanCreditSpent int int string int
  | LoanCreditWithdrawn int string string string int int
  | ExtensionProposed int string int int int int
  | ExtensionCancelled int int
  | ExtensionAccepted int string int int int

record activity_log =
  al_address :: string
  al_blockNumber :: int
  al_blockHash :: string
  al_transactionHash :: string
  al_logIndex :: int
  al_removed :: bool
  al_event :: activity_event

text \<open>A call the wallet is asked to sign: the contract, the function and its arguments.\<close>

record wallet_call =
  wc_to :: string
  wc_function :: string
  wc_args :: "call_arg list"

section \<open>The state of the client\<close>

record token_component =
  tc_address :: string
  tc_runtimeHash :: string

record token_baseline =
  tk_address :: string
  tk_runtimeHash :: string
  tk_implementationSlot :: string
  tk_beaconSlot :: string
  tk_decimals :: js_number
  tk_checks :: "string list"
  tk_beacon :: "token_component option"
  tk_implementation :: "token_component option"

record baseline =
  bl_schemaVersion :: int
  bl_chainId :: int
  bl_blockNumber :: string
  bl_blockHash :: string
  bl_tokens :: "token_baseline list"

datatype stage_status = St_signature | St_pending | St_confirmed

record stage =
  sg_status :: stage_status
  sg_hash :: "string option"
  sg_message :: string

text \<open>\<open>pc_stages\<close> and \<open>pc_requests\<close> record, oldest first, what the page was shown and what the wallet was asked to sign.\<close>

record client_state =
  pc_account :: "string option"
  pc_busy :: bool
  pc_hashes :: "string \<rightharpoonup> string"
  pc_storage :: browser
  pc_tokens :: "((string \<times> token_baseline) \<times> string option) list"
  pc_baselines :: "int \<rightharpoonup> int \<times> baseline"
  pc_stages :: "stage list"
  pc_requests :: "wallet_call list"

record client_world =
  cl_chain :: chain_world
  cl_chainId :: "int outcome"
  cl_latest :: "block_head outcome"
  cl_block :: "int \<Rightarrow> block_head outcome"
  cl_code :: "string \<Rightarrow> int \<Rightarrow> string option outcome"
  cl_slot :: "string \<Rightarrow> string \<Rightarrow> int \<Rightarrow> string outcome"
  cl_address :: "string \<Rightarrow> string \<Rightarrow> call_arg list \<Rightarrow> int \<Rightarrow> string outcome"
  cl_uint :: "string \<Rightarrow> string \<Rightarrow> call_arg list \<Rightarrow> int option \<Rightarrow> int outcome"
  cl_bool :: "string \<Rightarrow> string \<Rightarrow> call_arg list \<Rightarrow> int \<Rightarrow> bool outcome"
  cl_offer :: "string \<Rightarrow> int \<Rightarrow> int option \<Rightarrow> offer_row outcome"
  cl_credit :: "string \<Rightarrow> int \<Rightarrow> string \<Rightarrow> int \<Rightarrow> (string \<times> int \<times> int) outcome"
  cl_extension :: "string \<Rightarrow> int \<Rightarrow> int \<Rightarrow> extension_row outcome"
  cl_page :: "string \<Rightarrow> string \<Rightarrow> call_arg list \<Rightarrow> int \<Rightarrow> (int list \<times> int) outcome"
  cl_activePage :: "string \<Rightarrow> string \<Rightarrow> int \<Rightarrow> int \<Rightarrow> int \<Rightarrow> (int list \<times> int \<times> int) outcome"
  cl_balance :: "string \<Rightarrow> int \<Rightarrow> int outcome"
  cl_baseline :: "baseline outcome"
  cl_logs :: "string \<Rightarrow> int \<Rightarrow> int \<Rightarrow> activity_log list outcome"
  cl_activeIndex :: "string \<Rightarrow> json option outcome"
  cl_aborted :: bool
  cl_requestAccounts :: "string list outcome"
  cl_accounts :: "string list outcome"
  cl_walletChain :: "int outcome"
  cl_simulate :: "string \<Rightarrow> wallet_call \<Rightarrow> unit outcome"
  cl_send :: "wallet_call \<Rightarrow> string outcome"
  cl_transaction :: "string \<Rightarrow> (chain_tx \<times> int option) outcome"
  cl_wait :: "string \<Rightarrow> (chain_receipt \<times> replacement list) outcome"
  cl_flight :: "string \<Rightarrow> bool outcome option"
  cl_clock :: int
  cl_others :: "client_state \<Rightarrow> client_state"

text \<open>What the client takes from viem: the strict and the loose \<open>isAddress\<close>, \<open>getAddress\<close>, \<open>keccak256\<close>, \<open>encodeFunctionData\<close> and the
  name of the contract's error that an error carries, if it is one.\<close>

record viem =
  vi_isAddress :: "string \<Rightarrow> bool"
  vi_looseAddress :: "string \<Rightarrow> bool"
  vi_getAddress :: "string \<Rightarrow> string outcome"
  vi_keccak :: "string \<Rightarrow> string"
  vi_encode :: "string \<Rightarrow> call_arg list \<Rightarrow> string"
  vi_revertName :: "string \<Rightarrow> string option"

type_synonym 'a client = "(client_world, client_state, 'a) proc"

section \<open>Steps\<close>

definition cRead :: "(client_world \<Rightarrow> 'a outcome) \<Rightarrow> 'a client" where
  "cRead f = (\<lambda>w t s. (f (w t), Suc t, cl_others (w t) s))"

definition cNow :: "int client" where
  "cNow = (\<lambda>w t s. (Inr (cl_clock (w t)), t, s))"

text \<open>A synchronous operation on the browser's storage, which may read the clock.\<close>

definition cStorage :: "(int \<Rightarrow> browser \<Rightarrow> ('a \<times> browser) outcome) \<Rightarrow> 'a client" where
  "cStorage f = (\<lambda>w t s. case f (cl_clock (w t)) (pc_storage s) of
     Inl e \<Rightarrow> (Inl e, t, s) | Inr (x, b) \<Rightarrow> (Inr x, t, s\<lparr>pc_storage := b\<rparr>))"

definition cStage :: "stage_status \<Rightarrow> string option \<Rightarrow> string \<Rightarrow> unit client" where
  "cStage status hash message = pModify (\<lambda>s. s\<lparr>pc_stages := pc_stages s @ [\<lparr>sg_status = status, sg_hash = hash, sg_message = message\<rparr>]\<rparr>)"

text \<open>A computation of p2p/pending-recovery.ts: it reads the chain and, through its getter, the client's account.\<close>

definition drift :: "(nat \<Rightarrow> client_world) \<Rightarrow> nat \<Rightarrow> client_state \<Rightarrow> nat \<Rightarrow> client_state" where
  "drift w t s i = fold (\<lambda>j. cl_others (w j)) [t..<i] s"

definition cChain :: "(chain_world, 'a) io \<Rightarrow> 'a client" where
  "cChain m = (\<lambda>w t s.
     case m (\<lambda>i. (cl_chain (w i))\<lparr>cw_account := pc_account (drift w t s i)\<rparr>) t of
       (r, t') \<Rightarrow> (r, t', drift w t s t'))"

text \<open>\<open>ids.map\<close> of asynchronous functions, awaited together.\<close>

fun cMap :: "('a \<Rightarrow> 'b client) \<Rightarrow> 'a list \<Rightarrow> 'b list client" where
  "cMap f [] = pReturn []"
| "cMap f (x # xs) = pBind (f x) (\<lambda>y. pBind (cMap f xs) (\<lambda>ys. pReturn (y # ys)))"

definition cTry :: "'a client \<Rightarrow> 'a option client" where
  "cTry m = pCatch (pBind m (\<lambda>x. pReturn (Some x))) (\<lambda>_. pReturn None)"

text \<open>\<open>/^0x0{40}$/i\<close>\<close>

definition zeroAddressText :: "string \<Rightarrow> bool" where
  "zeroAddressText a \<longleftrightarrow> hex_word 40 a \<and> list_all (\<lambda>c. c = CHR ''0'') (drop 2 a)"

definition marketVersion :: "deployment \<Rightarrow> int" where
  "marketVersion m = (case dp_version m of Some v \<Rightarrow> v | None \<Rightarrow> 1)"

text \<open>\<open>[...new Set(xs)]\<close>: the first of each value.\<close>

definition distinctFirst :: "'a list \<Rightarrow> 'a list" where
  "distinctFirst xs = rev (remdups (rev xs))"

lemma set_distinctFirst [simp]: "set (distinctFirst xs) = set xs" and distinct_distinctFirst [simp]: "distinct (distinctFirst xs)"
  by (simp_all add: distinctFirst_def)

lemma distinctFirst_empty [simp]: "distinctFirst xs = [] \<longleftrightarrow> xs = []"
  by (simp add: distinctFirst_def)

section \<open>What holds after these steps\<close>

text \<open>A condition on the state that nothing running meanwhile can break.\<close>

definition stable :: "(nat \<Rightarrow> client_world) \<Rightarrow> (client_state \<Rightarrow> bool) \<Rightarrow> bool" where
  "stable w P \<longleftrightarrow> (\<forall>t s. P s \<longrightarrow> P (cl_others (w t) s))"

lemma stableD: "stable w P \<Longrightarrow> P s \<Longrightarrow> P (cl_others (w t) s)"
  by (simp add: stable_def)

lemma stable_True [simp]: "stable w (\<lambda>_. True)"
  by (simp add: stable_def)

lemma stable_conj: "stable w P \<Longrightarrow> stable w Q \<Longrightarrow> stable w (\<lambda>s. P s \<and> Q s)"
  by (simp add: stable_def)

lemma stable_const: "stable w (\<lambda>_. b)"
  by (simp add: stable_def)

lemma stable_drift: "stable w P \<Longrightarrow> P s \<Longrightarrow> P (drift w t s i)"
proof -
  assume st: "stable w P"
  have "P s \<Longrightarrow> P (fold (\<lambda>j. cl_others (w j)) js s)" for js
    by (induction js arbitrary: s) (simp_all add: stableD [OF st])
  then show "P s \<Longrightarrow> P (drift w t s i)" by (simp add: drift_def)
qed

lemma triple_cRead:
  "stable w P \<Longrightarrow> (\<And>t x s. P s \<Longrightarrow> f (w t) = Inr x \<Longrightarrow> Q x s) \<Longrightarrow> (\<And>s. P s \<Longrightarrow> E s) \<Longrightarrow> triple w P (cRead f) Q E"
  unfolding triple_def cRead_def by (auto simp: stable_def split: sum.split)

lemma triple_cReadK:
  "stable w P \<Longrightarrow> (\<And>t x. f (w t) = Inr x \<Longrightarrow> triple w P (k x) Q E) \<Longrightarrow> (\<And>s. P s \<Longrightarrow> E s) \<Longrightarrow> triple w P (pBind (cRead f) k) Q E"
  unfolding triple_def pBind_def cRead_def by (auto simp: stable_def split: sum.splits)

lemma triple_cNowK: "(\<And>t. triple w P (k (cl_clock (w t))) Q E) \<Longrightarrow> triple w P (pBind cNow k) Q E"
  unfolding triple_def pBind_def cNow_def by (auto split: sum.splits)

lemma triple_cStage: "(\<And>s st. P s \<Longrightarrow> Q () (s\<lparr>pc_stages := st\<rparr>)) \<Longrightarrow> triple w P (cStage a b c) Q E"
  by (simp add: cStage_def triple_modify)

lemma triple_cChain:
  "stable w P \<Longrightarrow> (\<And>s. P s \<Longrightarrow> E s) \<Longrightarrow> triple w P (cChain m) (\<lambda>_. P) E"
  unfolding triple_def cChain_def by (auto simp: stable_drift split: sum.splits prod.splits)

lemma triple_cMap:
  "(\<And>x. x \<in> set xs \<Longrightarrow> triple w P (f x) (\<lambda>_. P) E) \<Longrightarrow> triple w P (cMap f xs) (\<lambda>_. P) E"
proof (induction xs)
  case (Cons x xs)
  show ?case unfolding cMap.simps
    by (rule triple_bind [OF Cons.prems], simp, rule triple_bind [OF Cons.IH], rule Cons.prems, simp, rule triple_return, simp)
qed (simp add: triple_return)

lemma triple_cTry: "triple w P m (\<lambda>_. P) P \<Longrightarrow> triple w P (cTry m) (\<lambda>_. P) E"
  unfolding cTry_def by (rule triple_catch [where F = P], rule triple_bind, assumption) (simp_all add: triple_return)

end
