(* ===== verification/P2P_Health.thy ===== *)
theory P2P_Health
  imports P2P_World "HOL-Library.AList"
begin

text \<open>
  p2p/health-core.mjs and p2p/health.ts: whether a market is fit for new loans at a block. The
  results of token checks are kept per block and token, the baseline for a minute; here an
  entry is made when its promise is fulfilled (the program makes it before and removes it when the
  promise is rejected). A comparison of milliseconds divided by 1000 with whole seconds is
  written without the division.
\<close>

section \<open>Baselines\<close>

definition IMPLEMENTATION_SLOT :: string where
  "IMPLEMENTATION_SLOT = ''0x360894a13ba1a3210667c828492db98dca3e2076cc3735a920a3ca505d382bbc''"

definition BEACON_SLOT :: string where
  "BEACON_SLOT = ''0xa3f0ad74e5423aebfd80d3ef4346578335a9a72aeaee59ff6cb3582b35133d50''"

definition slotAddress :: "string \<Rightarrow> string option outcome" where
  "slotAddress slot =
     demand (hex_word 64 slot \<and> list_all (\<lambda>c. c = CHR ''0'') (take 24 (drop 2 slot))) ''Invalid proxy slot''
       (Inr (if slot = ''0x'' @ replicate 64 (CHR ''0'') then None else Some (''0x'' @ slice_from_end 40 slot)))"

definition checkNames :: "string list" where
  "checkNames = [''paused'', ''tokenPaused'', ''isFrozen'', ''isBlocked'']"

definition escrowChecks :: "string list" where
  "escrowChecks = [''isFrozen'', ''isBlocked'']"

definition componentOk :: "token_component \<Rightarrow> bool" where
  "componentOk c \<longleftrightarrow> hex_word 40 (tc_address c) \<and> hex_word 64 (tc_runtimeHash c)"

fun validateTokens :: "string list \<Rightarrow> token_baseline list \<Rightarrow> unit outcome" where
  "validateTokens seen [] = Inr ()"
| "validateTokens seen (token # tokens) =
     demand (hex_word 40 (tk_address token) \<and> js_lower (tk_address token) \<notin> set seen \<and> hex_word 64 (tk_runtimeHash token)
         \<and> hex_word 64 (tk_implementationSlot token) \<and> hex_word 64 (tk_beaconSlot token)
         \<and> (case tk_decimals token of JS_int n \<Rightarrow> 0 \<le> n \<and> n \<le> 36 | _ \<Rightarrow> False)
         \<and> distinct (tk_checks token) \<and> list_all (\<lambda>name. name \<in> set checkNames) (tk_checks token)) ''Token baseline is invalid''
    (and_then (slotAddress (tk_implementationSlot token)) (\<lambda>implementation.
     and_then (slotAddress (tk_beaconSlot token)) (\<lambda>beacon.
     demand (\<not> (implementation \<noteq> None \<and> beacon \<noteq> None)
         \<and> (tk_beacon token \<noteq> None) = (beacon \<noteq> None)
         \<and> (tk_implementation token \<noteq> None) = (implementation \<noteq> None \<or> beacon \<noteq> None)) ''Token baseline proxy binding is invalid''
    (demand ((case (tk_beacon token, beacon) of (Some c, Some a) \<Rightarrow> sameAddress (tc_address c) a | _ \<Rightarrow> True)
         \<and> (case (tk_implementation token, implementation) of (Some c, Some a) \<Rightarrow> sameAddress (tc_address c) a | _ \<Rightarrow> True))
       ''Token baseline proxy binding is invalid''
    (demand (case tk_beacon token of None \<Rightarrow> True | Some c \<Rightarrow> componentOk c) ''Token baseline component is invalid''
    (demand (case tk_implementation token of None \<Rightarrow> True | Some c \<Rightarrow> componentOk c) ''Token baseline component is invalid''
      (validateTokens (js_lower (tk_address token) # seen) tokens)))))))"

definition validateTokenBaseline :: "baseline \<Rightarrow> int \<Rightarrow> unit outcome" where
  "validateTokenBaseline b chainId =
     demand (bl_schemaVersion b = 1 \<and> bl_chainId b = chainId \<and> length (bl_tokens b) \<le> 250
         \<and> bl_blockNumber b \<noteq> [] \<and> list_all is_digit (bl_blockNumber b) \<and> hex_word 64 (bl_blockHash b)) ''Token baseline is unavailable''
       (validateTokens [] (bl_tokens b))"

section \<open>Tokens\<close>

definition codeHash :: "viem \<Rightarrow> string \<Rightarrow> verified_block \<Rightarrow> string client" where
  "codeHash lib address block =
     pBind (cRead (\<lambda>w. cl_code w address (vb_number block))) (\<lambda>code.
     case code of
       Some c \<Rightarrow> pDemand (c \<noteq> '''' \<and> c \<noteq> ''0x'') ''Token code unavailable'' (pReturn (vi_keccak lib c))
     | None \<Rightarrow> pThrow ''Token code unavailable'')"

text \<open>The first of the checks that holds, as the reason; \<open>None\<close> when none does.\<close>

fun pausedChecks :: "string \<Rightarrow> verified_block \<Rightarrow> string list \<Rightarrow> string option client" where
  "pausedChecks address block [] = pReturn None"
| "pausedChecks address block (name # names) =
     pBind (cRead (\<lambda>w. cl_bool w address name [] (vb_number block))) (\<lambda>result.
     if result then pReturn (Some ''A token is paused. New loans are unavailable.'') else pausedChecks address block names)"

definition beaconChanged :: "viem \<Rightarrow> token_baseline \<Rightarrow> verified_block \<Rightarrow> bool client" where
  "beaconChanged lib token block =
     (case tk_beacon token of
        None \<Rightarrow> pReturn False
      | Some beacon \<Rightarrow>
          pBind (codeHash lib (tc_address beacon) block) (\<lambda>hash.
          if \<not> sameAddress hash (tc_runtimeHash beacon) then pReturn True
          else pBind (cRead (\<lambda>w. cl_address w (tc_address beacon) ''implementation'' [] (vb_number block))) (\<lambda>a.
            case tk_implementation token of
              None \<Rightarrow> pThrow ''Cannot read properties of undefined''
            | Some implementation \<Rightarrow> pReturn (\<not> sameAddress a (tc_address implementation)))))"

definition implementationChanged :: "viem \<Rightarrow> token_baseline \<Rightarrow> verified_block \<Rightarrow> bool client" where
  "implementationChanged lib token block =
     (case tk_implementation token of
        None \<Rightarrow> pReturn False
      | Some implementation \<Rightarrow>
          pBind (codeHash lib (tc_address implementation) block) (\<lambda>hash. pReturn (\<not> sameAddress hash (tc_runtimeHash implementation))))"

definition checkToken :: "viem \<Rightarrow> token_baseline \<Rightarrow> verified_block \<Rightarrow> string option client" where
  "checkToken lib token block =
     pBind (codeHash lib (tk_address token) block) (\<lambda>hash.
     pBind (cRead (\<lambda>w. cl_slot w (tk_address token) IMPLEMENTATION_SLOT (vb_number block))) (\<lambda>implementationSlot.
     pBind (cRead (\<lambda>w. cl_slot w (tk_address token) BEACON_SLOT (vb_number block))) (\<lambda>beaconSlot.
     pBind (cRead (\<lambda>w. cl_uint w (tk_address token) ''decimals'' [] (Some (vb_number block)))) (\<lambda>decimals.
     pDemand (hex_word 64 implementationSlot \<and> hex_word 64 beaconSlot) ''Token storage check unavailable''
    (if \<not> sameAddress hash (tk_runtimeHash token) \<or> \<not> sameAddress implementationSlot (tk_implementationSlot token)
        \<or> \<not> sameAddress beaconSlot (tk_beaconSlot token) \<or> JS_int decimals \<noteq> tk_decimals token
     then pReturn (Some ''Token code or configuration changed. New loans await review.'')
     else
       pBind (beaconChanged lib token block) (\<lambda>changed.
       if changed then pReturn (Some ''The collateral implementation changed. New loans await review.'')
       else
         pBind (implementationChanged lib token block) (\<lambda>changed.
         if changed then pReturn (Some ''A token implementation changed. New loans await review.'')
         else pausedChecks (tk_address token) block (filter (\<lambda>name. name \<notin> set escrowChecks) (tk_checks token)))))))))"

definition inspectToken :: "viem \<Rightarrow> token_baseline \<Rightarrow> verified_block \<Rightarrow> string option client" where
  "inspectToken lib token block =
     pBind (pGet (\<lambda>s. map_of (pc_tokens s) (vb_hash block, token))) (\<lambda>known.
     case known of
       Some reason \<Rightarrow> pReturn reason
     | None \<Rightarrow>
         pBind (pModify (\<lambda>s. if length (pc_tokens s) > 128 then s\<lparr>pc_tokens := []\<rparr> else s)) (\<lambda>_.
         pBind (checkToken lib token block) (\<lambda>reason.
         pBind (pModify (\<lambda>s. s\<lparr>pc_tokens := AList.update (vb_hash block, token) reason (pc_tokens s)\<rparr>)) (\<lambda>_.
         pReturn reason))))"

text \<open>One reason for every restriction in force against \<open>target\<close>.\<close>

fun restrictions :: "string \<Rightarrow> string \<Rightarrow> string \<Rightarrow> verified_block \<Rightarrow> string list \<Rightarrow> string list client" where
  "restrictions reason address target block [] = pReturn []"
| "restrictions reason address target block (name # names) =
     pBind (cRead (\<lambda>w. cl_bool w address name [Arg_address target] (vb_number block))) (\<lambda>restricted.
     pBind (restrictions reason address target block names) (\<lambda>reasons.
     pReturn (if restricted then reason # reasons else reasons)))"

definition escrowRestrictions :: "string \<Rightarrow> string \<Rightarrow> verified_block \<Rightarrow> token_baseline \<Rightarrow> string list client" where
  "escrowRestrictions reason target block token =
     restrictions reason (tk_address token) target block (filter (\<lambda>name. name \<in> set escrowChecks) (tk_checks token))"

section \<open>Markets\<close>

datatype health_status = H_ok | H_blocked | H_unavailable

record health =
  hl_status :: health_status
  hl_reasons :: "string list"
  hl_blockNumber :: string
  hl_blockHash :: string
  hl_checkedAt :: int

definition unverified :: "string list" where
  "unverified = [''Current token and escrow checks could not be verified. Refresh before creating or accepting a loan.'']"

text \<open>The code of an immutable clone of the vault implementation.\<close>

definition cloneCode :: "string \<Rightarrow> string" where
  "cloneCode implementation = ''0x363d3d373d3d3d363d73'' @ drop 2 implementation @ ''5af43d82803e903d91602b57fd5bf3''"

definition offerVault :: "deployment \<Rightarrow> string \<Rightarrow> token_baseline list \<Rightarrow> verified_block \<Rightarrow> int \<Rightarrow> string list client" where
  "offerVault market implementation tokens block offerId =
    (let at = vb_number block; this = dp_address market in
     pDemand (offerId > 0) ''Invalid offer identity''
    (pBind (cRead (\<lambda>w. cl_address w this ''vaults'' [Arg_uint offerId] at)) (\<lambda>vault.
     pBind (cRead (\<lambda>w. cl_offer w this offerId (Some at))) (\<lambda>offer.
     pDemand (hex_word 40 vault \<and> \<not> zeroAddressText vault \<and> or_principal offer > 0) ''Invalid offer vault''
    (pBind (cRead (\<lambda>w. cl_code w vault at)) (\<lambda>code.
     pDemand (case code of Some c \<Rightarrow> sameAddress c (cloneCode implementation) | None \<Rightarrow> False)
       ''Offer vault is not the verified immutable clone''
    (pBind (cRead (\<lambda>w. cl_address w vault ''manager'' [] at)) (\<lambda>vaultManager.
     pBind (cRead (\<lambda>w. cl_address w vault ''loanToken'' [] at)) (\<lambda>vaultLoan.
     pBind (cRead (\<lambda>w. cl_address w vault ''collateralToken'' [] at)) (\<lambda>vaultCollateral.
     pBind (cRead (\<lambda>w. cl_uint w (dp_loanToken market) ''balanceOf'' [Arg_address vault] (Some at))) (\<lambda>balance.
     pDemand (sameAddress vaultManager this \<and> sameAddress vaultLoan (dp_loanToken market)
         \<and> sameAddress vaultCollateral (dp_collateralToken market) \<and> balance \<ge> 0) ''Invalid offer vault custody''
    (pBind (cMap (escrowRestrictions ''Token transfers for this loan vault are restricted. The offer cannot be accepted.'' vault block) tokens) (\<lambda>restricted.
     pReturn ((if or_status offer \<noteq> 1 \<or> or_expiresAt offer \<le> vb_timestamp block
               then [''This offer is no longer available. Refresh the marketplace.''] else [])
         @ (if balance < or_principal offer
            then [''This offer's vault has a token shortfall. It cannot fund the promised loan.''] else [])
         @ concat restricted))))))))))))))"

definition vaultHealth :: "viem \<Rightarrow> deployment \<Rightarrow> token_baseline list \<Rightarrow> verified_block \<Rightarrow> int option \<Rightarrow> string list client" where
  "vaultHealth lib market tokens block offerId =
    (let at = vb_number block; this = dp_address market in
     case (dp_vaultImplementation market, dp_vaultImplementationHash market) of
       (Some expected, Some expectedHash) \<Rightarrow>
         pDemand (hex_word 40 expected \<and> hex_word 64 expectedHash) ''Missing V3 vault identity''
        (pBind (cRead (\<lambda>w. cl_address w this ''vaultImplementation'' [] at)) (\<lambda>implementation.
         pBind (codeHash lib expected block) (\<lambda>implementationHash.
         pBind (cRead (\<lambda>w. cl_address w expected ''manager'' [] at)) (\<lambda>managerBinding.
         pBind (cRead (\<lambda>w. cl_address w expected ''loanToken'' [] at)) (\<lambda>loanBinding.
         pBind (cRead (\<lambda>w. cl_address w expected ''collateralToken'' [] at)) (\<lambda>collateralBinding.
         pDemand (sameAddress implementation expected \<and> sameAddress implementationHash expectedHash
             \<and> sameAddress managerBinding this \<and> sameAddress loanBinding (dp_loanToken market)
             \<and> sameAddress collateralBinding (dp_collateralToken market)) ''V3 vault identity changed''
          (case offerId of None \<Rightarrow> pReturn [] | Some i \<Rightarrow> offerVault market expected tokens block i)))))))
     | _ \<Rightarrow> pThrow ''Missing V3 vault identity'')"

definition escrowHealth :: "deployment \<Rightarrow> verified_block \<Rightarrow> string list client" where
  "escrowHealth market block =
    (let at = Some (vb_number block); this = dp_address market; loan = dp_loanToken market; coll = dp_collateralToken market in
     pBind (cRead (\<lambda>w. cl_uint w loan ''balanceOf'' [Arg_address this] at)) (\<lambda>cash.
     pBind (cRead (\<lambda>w. cl_uint w coll ''balanceOf'' [Arg_address this] at)) (\<lambda>collateral.
     pBind (cRead (\<lambda>w. cl_uint w this ''reservedPrincipal'' [] at)) (\<lambda>reserved.
     pBind (cRead (\<lambda>w. cl_uint w this ''lockedCollateral'' [] at)) (\<lambda>locked.
     pBind (cRead (\<lambda>w. cl_uint w this ''totalCredits'' [Arg_address loan] at)) (\<lambda>cashCredits.
     pBind (cRead (\<lambda>w. cl_uint w this ''totalCredits'' [Arg_address coll] at)) (\<lambda>collateralCredits.
     pDemand (list_all (\<lambda>v. v \<ge> 0) [cash, collateral, reserved, locked, cashCredits, collateralCredits]) ''Invalid escrow balances''
       (pReturn (if cash < reserved + cashCredits \<or> collateral < locked + collateralCredits
          then [''This escrow has a token shortfall. New loans are unavailable while it is reviewed.''] else [])))))))))"

definition tokenReasons :: "viem \<Rightarrow> deployment \<Rightarrow> verified_block \<Rightarrow> token_baseline \<Rightarrow> string list client" where
  "tokenReasons lib market block token =
     pBind (inspectToken lib token block) (\<lambda>reason.
     pBind (escrowRestrictions ''Token transfers for this escrow are restricted. New loans are unavailable.'' (dp_address market) block token) (\<lambda>restricted.
     pReturn ((case reason of Some r \<Rightarrow> if r = [] then [] else [r] | None \<Rightarrow> []) @ restricted)))"

text \<open>The reasons against new loans; an error means that the market could not be verified.\<close>

definition healthReasons :: "viem \<Rightarrow> deployment \<Rightarrow> baseline \<Rightarrow> verified_block \<Rightarrow> int \<Rightarrow> int option \<Rightarrow> int \<Rightarrow> string list client" where
  "healthReasons lib market b block now offerId started =
    (let at = vb_number block; this = dp_address market in
     pBind (pLift (validateTokenBaseline b (dp_chainId market))) (\<lambda>_.
     pDemand (hex_word 64 (vb_hash block) \<and> \<bar>now - 1000 * vb_timestamp block\<bar> \<le> 180000) ''Chain state is stale''
    (case (List.find (\<lambda>k. sameAddress (tk_address k) (dp_loanToken market)) (bl_tokens b),
           List.find (\<lambda>k. sameAddress (tk_address k) (dp_collateralToken market)) (bl_tokens b)) of
       (Some loanTk, Some collTk) \<Rightarrow>
         pDemand (tk_decimals loanTk = JS_int (int (dp_loanDecimals market)) \<and> tk_decimals collTk = JS_int (int (dp_collateralDecimals market)))
           ''Token decimals differ''
        (pBind (codeHash lib this block) (\<lambda>escrowHash.
         pBind (cRead (\<lambda>w. cl_address w this ''loanToken'' [] at)) (\<lambda>loanBinding.
         pBind (cRead (\<lambda>w. cl_address w this ''collateralToken'' [] at)) (\<lambda>collateralBinding.
         pDemand (sameAddress escrowHash (dp_runtimeHash market) \<and> sameAddress loanBinding (dp_loanToken market)
             \<and> sameAddress collateralBinding (dp_collateralToken market)) ''Escrow identity changed''
        (pBind (cMap (tokenReasons lib market block) [loanTk, collTk]) (\<lambda>tokenRs.
         pBind (if dp_version market = Some 3 then vaultHealth lib market [loanTk, collTk] block offerId
                else escrowHealth market block) (\<lambda>custodyRs.
         pBind (cRead (\<lambda>w. cl_bool w this ''newLoansPaused'' [] at)) (\<lambda>paused.
         pBind (cRead (\<lambda>w. cl_block w at)) (\<lambda>again.
         pDemand (case bh_hash again of Some h \<Rightarrow> sameAddress h (vb_hash block) | None \<Rightarrow> False) ''Chain state changed''
        (pBind cNow (\<lambda>later.
         pDemand (\<bar>now + later - started - 1000 * vb_timestamp block\<bar> \<le> 180000) ''Chain state became stale during verification''
           (pReturn (concat tokenRs @ custodyRs @ (if paused then [''New loans are paused for this market.''] else []))))))))))))))
     | _ \<Rightarrow> pThrow ''Token qualification is missing'')))"

definition inspectP2PHealth :: "viem \<Rightarrow> deployment \<Rightarrow> baseline \<Rightarrow> verified_block \<Rightarrow> int \<Rightarrow> int option \<Rightarrow> health client" where
  "inspectP2PHealth lib market b block now offerId =
    (let observation = (\<lambda>status reasons. \<lparr>hl_status = status, hl_reasons = reasons, hl_blockNumber = dec_of_int (vb_number block),
       hl_blockHash = vb_hash block, hl_checkedAt = now\<rparr>) in
     pBind cNow (\<lambda>started.
     pCatch (pBind (healthReasons lib market b block now offerId started) (\<lambda>reasons.
             pReturn (observation (if reasons = [] then H_ok else H_blocked) (distinctFirst reasons))))
       (\<lambda>_. pReturn (observation H_unavailable unverified))))"

definition loadBaseline :: "int \<Rightarrow> baseline client" where
  "loadBaseline chainId =
     pBind cNow (\<lambda>now.
     pBind (pGet (\<lambda>s. pc_baselines s chainId)) (\<lambda>entry.
     case entry of
       Some (loadedAt, b) \<Rightarrow>
         if now - loadedAt > 60000
         then pCatch (pBind (cRead cl_baseline) (\<lambda>b.
                pBind (pLift (validateTokenBaseline b chainId)) (\<lambda>_.
                pBind (pModify (\<lambda>s. s\<lparr>pc_baselines := (pc_baselines s)(chainId \<mapsto> (now, b))\<rparr>)) (\<lambda>_. pReturn b))))
              (\<lambda>e. pBind (pModify (\<lambda>s. s\<lparr>pc_baselines := (pc_baselines s)(chainId := None)\<rparr>)) (\<lambda>_. pThrow e))
         else pReturn b
     | None \<Rightarrow>
         pBind (cRead cl_baseline) (\<lambda>b.
         pBind (pLift (validateTokenBaseline b chainId)) (\<lambda>_.
         pBind (pModify (\<lambda>s. s\<lparr>pc_baselines := (pc_baselines s)(chainId \<mapsto> (now, b))\<rparr>)) (\<lambda>_. pReturn b)))))"

definition readP2PHealth :: "viem \<Rightarrow> deployment \<Rightarrow> verified_block \<Rightarrow> int option \<Rightarrow> health client" where
  "readP2PHealth lib market block offerId =
     pCatch
       (pBind (loadBaseline (dp_chainId market)) (\<lambda>b.
        pBind cNow (\<lambda>clock.
        inspectP2PHealth lib market b block (if dp_chainId market = 31337 then 1000 * vb_timestamp block else clock) offerId)))
       (\<lambda>_. pBind cNow (\<lambda>clock.
        pReturn \<lparr>hl_status = H_unavailable, hl_reasons = unverified, hl_blockNumber = dec_of_int (vb_number block),
          hl_blockHash = vb_hash block, hl_checkedAt = clock\<rparr>))"

end
