(* ===== verification/P2P_Loans.thy ===== *)
theory P2P_Loans
  imports P2P_Health
begin

text \<open>
  The reads of the peer-to-peer client (p2p/client.ts): the check of the market's contract,
  loans with the details of a V3 vault, and the pages of public, incoming and own
  offers. The results of the reads that run together are collected in the order of the
  identifiers.
\<close>

section \<open>The market's contract\<close>

definition verify :: "viem \<Rightarrow> deployment \<Rightarrow> verified_block client" where
  "verify lib m =
     pBind (cRead cl_chainId) (\<lambda>chainId.
     pDemand (chainId = dp_chainId m) ''The RPC is connected to the wrong chain. No transaction was requested.''
    (pBind (cRead cl_latest) (\<lambda>head.
     case (bh_number head, bh_hash head) of
       (Some number, Some hash) \<Rightarrow>
         pBind (cRead (\<lambda>w. cl_code w (dp_address m) number)) (\<lambda>code.
         pDemand (case code of Some c \<Rightarrow> c \<noteq> '''' \<and> vi_keccak lib c = dp_runtimeHash m | None \<Rightarrow> False)
           ''The deployed P2P contract does not match the verified release. Lending is unavailable.''
        (pBind (cRead (\<lambda>w. cl_address w (dp_address m) ''loanToken'' [] number)) (\<lambda>loan.
         pBind (cRead (\<lambda>w. cl_address w (dp_address m) ''collateralToken'' [] number)) (\<lambda>collateral.
         pDemand (sameAddress loan (dp_loanToken m) \<and> sameAddress collateral (dp_collateralToken m))
           ''Token configuration does not match the contract. Lending is unavailable.''
          (pReturn \<lparr>vb_number = number, vb_hash = hash, vb_timestamp = bh_timestamp head\<rparr>)))))
     | _ \<Rightarrow> pThrow ''A confirmed block is unavailable. Refresh before continuing.'')))"

section \<open>Loans\<close>

definition MAX_TIME :: int where
  "MAX_TIME = 8640000000000"

definition statusOf :: "int \<Rightarrow> loan_status option" where
  "statusOf n = (if n = 1 then Some Ls_open else if n = 2 then Some Ls_active else if n = 3 then Some Ls_repaid
     else if n = 4 then Some Ls_claimed else if n = 5 then Some Ls_cancelled else if n = 6 then Some Ls_expired else None)"

definition loanTime :: "int \<Rightarrow> int outcome" where
  "loanTime value = demand (0 \<le> value \<and> value \<le> MAX_TIME) ''Invalid V3 loan deadline.'' (Inr value)"

definition creditOf :: "viem \<Rightarrow> (string \<times> int \<times> int) option \<Rightarrow> loan_credit outcome" where
  "creditOf lib row = (case row of
     None \<Rightarrow> Inr \<lparr>lc_beneficiary = ZERO_ADDRESS, lc_nominal = 0, lc_available = 0, lc_unavailable = True\<rparr>
   | Some (beneficiary, nominal, available) \<Rightarrow>
       demand (vi_isAddress lib beneficiary \<and> 0 \<le> nominal \<and> 0 \<le> available \<and> available \<le> nominal
           \<and> \<not> (nominal > 0 \<and> zeroAddressText beneficiary)) ''Invalid loan credit.''
         (Inr \<lparr>lc_beneficiary = beneficiary, lc_nominal = nominal, lc_available = available, lc_unavailable = False\<rparr>))"

record vault_details =
  vd_vault :: string
  vd_repaymentDeadline :: int
  vd_fundingAvailable :: "int option"
  vd_collateralAvailable :: "int option"
  vd_loanCredits :: loan_credits
  vd_extensionProposal :: extension_proposal

definition readV3LoanDetails :: "viem \<Rightarrow> deployment \<Rightarrow> int \<Rightarrow> int \<Rightarrow> vault_details client" where
  "readV3LoanDetails lib m i at =
     pBind (cRead (\<lambda>w. cl_address w (dp_address m) ''vaults'' [Arg_uint i] at)) (\<lambda>vault.
     pBind (cRead (\<lambda>w. cl_uint w (dp_address m) ''repaymentDeadline'' [Arg_uint i] (Some at))) (\<lambda>deadline.
     pBind (cTry (cRead (\<lambda>w. cl_credit w (dp_address m) i (dp_loanToken m) at))) (\<lambda>usdRow.
     pBind (cTry (cRead (\<lambda>w. cl_credit w (dp_address m) i (dp_collateralToken m) at))) (\<lambda>collateralRow.
     pBind (cRead (\<lambda>w. cl_extension w (dp_address m) i at)) (\<lambda>extension.
     pDemand (vi_isAddress lib vault \<and> \<not> zeroAddressText vault \<and> vi_isAddress lib (er_proposer extension) \<and> 0 \<le> er_nonce extension)
       ''Invalid V3 loan vault or extension.''
    (pBind (cTry (cRead (\<lambda>w. cl_uint w (dp_loanToken m) ''balanceOf'' [Arg_address vault] (Some at)))) (\<lambda>funding.
     pBind (cTry (cRead (\<lambda>w. cl_uint w (dp_collateralToken m) ''balanceOf'' [Arg_address vault] (Some at)))) (\<lambda>held.
     pBind (pLift (loanTime deadline)) (\<lambda>repaymentDeadline.
     pBind (pLift (creditOf lib usdRow)) (\<lambda>usd.
     pBind (pLift (creditOf lib collateralRow)) (\<lambda>collateral.
     pBind (pLift (loanTime (er_oldDeadline extension))) (\<lambda>oldDeadline.
     pBind (pLift (loanTime (er_newDeadline extension))) (\<lambda>newDeadline.
     pBind (pLift (loanTime (er_expiresAt extension))) (\<lambda>expiresAt.
     pReturn \<lparr>vd_vault = vault, vd_repaymentDeadline = repaymentDeadline, vd_fundingAvailable = funding, vd_collateralAvailable = held,
       vd_loanCredits = \<lparr>cr_USDG = usd, cr_COLLATERAL = collateral\<rparr>,
       vd_extensionProposal = \<lparr>ep_proposer = er_proposer extension, ep_nonce = er_nonce extension,
         ep_oldDeadline = oldDeadline, ep_newDeadline = newDeadline, ep_expiresAt = expiresAt\<rparr>\<rparr>))))))))))))))"

definition loanOf :: "int \<Rightarrow> offer_row \<Rightarrow> loan_status \<Rightarrow> bool \<Rightarrow> int \<Rightarrow> vault_details option \<Rightarrow> loan" where
  "loanOf i row status isPublic createdAt v3 =
     \<lparr>ln_id = i, ln_isPublic = isPublic, ln_createdAt = createdAt, ln_lender = or_lender row, ln_borrower = or_borrower row,
      ln_principal = or_principal row, ln_collateral = or_collateral row, ln_interest = or_interest row,
      ln_durationDays = tdiv (or_duration row) 86400, ln_expiresAt = or_expiresAt row, ln_dueAt = or_dueAt row, ln_status = status,
      ln_repaymentDeadline = map_option vd_repaymentDeadline v3, ln_vault = map_option vd_vault v3,
      ln_fundingAvailable = Option.bind v3 vd_fundingAvailable, ln_collateralAvailable = Option.bind v3 vd_collateralAvailable,
      ln_loanCredits = map_option vd_loanCredits v3, ln_extensionProposal = map_option vd_extensionProposal v3\<rparr>"

definition readLoan :: "viem \<Rightarrow> deployment \<Rightarrow> int \<Rightarrow> int \<Rightarrow> loan client" where
  "readLoan lib m at i =
     pDemand (i > 0) ''Invalid loan identifier.''
    (pBind (cRead (\<lambda>w. cl_offer w (dp_address m) i (Some at))) (\<lambda>row.
     pBind (if marketVersion m \<ge> 2 then cRead (\<lambda>w. cl_bool w (dp_address m) ''isPublicOffer'' [Arg_uint i] at) else pReturn False) (\<lambda>isPublic.
     pBind (if marketVersion m \<ge> 2 then cRead (\<lambda>w. cl_uint w (dp_address m) ''offerCreatedAt'' [Arg_uint i] (Some at)) else pReturn 0) (\<lambda>createdAt.
     case statusOf (or_status row) of
       None \<Rightarrow> pThrow ''The loan is unavailable or has invalid terms.''
     | Some status \<Rightarrow>
         pDemand (list_all (\<lambda>v. v \<le> MAX_SAFE_INTEGER) [or_duration row, or_expiresAt row, or_dueAt row, createdAt])
           ''The loan is unavailable or has invalid terms.''
        (pBind (if dp_version m = Some 3 then pBind (readV3LoanDetails lib m i at) (\<lambda>v. pReturn (Some v)) else pReturn None) (\<lambda>v3.
         pReturn (loanOf i row status isPublic createdAt v3)))))))"

definition readLoans :: "viem \<Rightarrow> deployment \<Rightarrow> int list \<Rightarrow> int \<Rightarrow> loan list client" where
  "readLoans lib m ids at = cMap (readLoan lib m at) ids"

definition getLoan :: "viem \<Rightarrow> deployment \<Rightarrow> int \<Rightarrow> loan client" where
  "getLoan lib m i = pBind (verify lib m) (\<lambda>block. pBind (readLoans lib m [i] (vb_number block)) (\<lambda>loans. pReturn (hd loans)))"

section \<open>Offers\<close>

record offer_page =
  op_offers :: "loan list"
  op_now :: int
  op_blockNumber :: int
  op_paused :: bool
  op_nextCursor :: "int option"
  op_health :: "health option"

definition cursorOf :: "int \<Rightarrow> int option" where
  "cursorOf next = (if next > 0 then Some next else None)"

text \<open>An offer that can still be accepted at the block.\<close>

definition openAt :: "verified_block \<Rightarrow> loan \<Rightarrow> bool" where
  "openAt block l \<longleftrightarrow> ln_status l = Ls_open \<and> ln_expiresAt l > vb_timestamp block"

definition observedBlock :: "verified_block \<Rightarrow> int option \<Rightarrow> verified_block client" where
  "observedBlock verified atBlock =
     pDemand (case atBlock of None \<Rightarrow> True | Some n \<Rightarrow> 0 \<le> n \<and> n \<le> vb_number verified) ''Invalid offer observation block.''
    (if atBlock \<in> {None, Some (vb_number verified)} then pReturn verified
     else pBind (cRead (\<lambda>w. cl_block w (the atBlock))) (\<lambda>observed.
       case (bh_number observed, bh_hash observed) of
         (Some number, Some hash) \<Rightarrow> pReturn \<lparr>vb_number = number, vb_hash = hash, vb_timestamp = bh_timestamp observed\<rparr>
       | _ \<Rightarrow> pThrow ''Offer observation block is unavailable.''))"

definition browse :: "viem \<Rightarrow> deployment \<Rightarrow> int \<Rightarrow> int option \<Rightarrow> offer_page client" where
  "browse lib m cursor atBlock =
     pBind (verify lib m) (\<lambda>verified.
     pBind (observedBlock verified atBlock) (\<lambda>block.
     pBind (readP2PHealth lib m block None) (\<lambda>health.
     pBind (cRead (\<lambda>w. cl_bool w (dp_address m) ''newLoansPaused'' [] (vb_number block))) (\<lambda>paused.
     if marketVersion m < 2
     then pReturn \<lparr>op_offers = [], op_now = js_Number (vb_timestamp block), op_blockNumber = vb_number block, op_paused = paused,
            op_nextCursor = None, op_health = None\<rparr>
     else
       pBind (cRead (\<lambda>w. cl_page w (dp_address m) ''getPublicOfferIds'' [Arg_uint cursor, Arg_uint 40] (vb_number block))) (\<lambda>(ids, next).
       pDemand (length ids \<le> 40 \<and> \<not> (cursor > 0 \<and> next \<ge> cursor)) ''Invalid public offer page. Refresh the marketplace.''
      (pBind (readLoans lib m ids (vb_number block)) (\<lambda>rows.
       pDemand (list_all ln_isPublic rows) ''A private offer was returned in the public market.''
         (pReturn \<lparr>op_offers = filter (openAt block) rows, op_now = js_Number (vb_timestamp block), op_blockNumber = vb_number block,
            op_paused = paused, op_nextCursor = cursorOf next, op_health = Some health\<rparr>))))))))"

definition incomingAt :: "viem \<Rightarrow> deployment \<Rightarrow> string \<Rightarrow> int \<Rightarrow> verified_block \<Rightarrow> (loan list \<times> int option) client" where
  "incomingAt lib m account cursor block =
     pBind (cRead (\<lambda>w. cl_page w (dp_address m) ''getIncomingOfferIds'' [Arg_address account, Arg_uint cursor, Arg_uint 40] (vb_number block))) (\<lambda>(ids, next).
     pDemand (length ids \<le> 40 \<and> distinct ids \<and> \<not> (cursor > 0 \<and> next \<ge> cursor)) ''Invalid incoming offer page.''
    (pBind (readLoans lib m ids (vb_number block)) (\<lambda>offers.
     pDemand (list_all (\<lambda>l. \<not> ln_isPublic l \<and> sameAddress (ln_borrower l) account \<and> \<not> sameAddress (ln_lender l) account) offers)
       ''An unrelated incoming offer was returned.''
       (pReturn (filter (openAt block) offers, cursorOf next)))))"

definition getIncomingOffers :: "viem \<Rightarrow> deployment \<Rightarrow> int \<Rightarrow> (loan list \<times> int option) client" where
  "getIncomingOffers lib m cursor =
     pBind (pGet pc_account) (\<lambda>acc.
     case acc of
       None \<Rightarrow> pThrow ''Connect your wallet to view incoming offers.''
     | Some account \<Rightarrow>
         if dp_version m \<noteq> Some 3 then pReturn ([], None)
         else
           pBind (verify lib m) (\<lambda>block.
           pBind (incomingAt lib m account cursor block) (\<lambda>page.
           pBind (pGet pc_account) (\<lambda>now.
           pDemand (now = Some account) ''Wallet changed while loading incoming offers.'' (pReturn page)))))"

end
