(* ===== verification/P2P_Snapshot.thy ===== *)
theory P2P_Snapshot
  imports P2P_Loans
begin

text \<open>
  The account's side of the peer-to-peer client: the discovery of active loans
  (p2p/active-loans.ts), the page of withdrawal credits and the snapshot of p2p/client.ts.
  The index is an HTTP response; \<open>cl_aborted\<close> says whether the signal of the
  discovery has fired.
\<close>

section \<open>Active loans\<close>

datatype active_status = A_ready | A_syncing | A_unavailable

record active_result =
  ar_loans :: "loan list"
  ar_complete :: bool
  ar_status :: active_status
  ar_message :: "string option"
  ar_blockNumber :: "int option"
  ar_blockHash :: "string option"
  ar_indexedThrough :: "int option"

definition unavailableMessage :: string where
  "unavailableMessage = ''Active loan discovery is unavailable. Known loans remain available; retry loading.''"

definition walletChangedMessage :: string where
  "walletChangedMessage = ''Wallet changed. Load active loans for the selected wallet.''"

definition unavailable :: "string \<Rightarrow> active_result" where
  "unavailable message = \<lparr>ar_loans = [], ar_complete = False, ar_status = A_unavailable, ar_message = Some message,
     ar_blockNumber = None, ar_blockHash = None, ar_indexedThrough = None\<rparr>"

definition currentAccount :: "string \<Rightarrow> bool client" where
  "currentAccount account = pGet (\<lambda>s. same (pc_account s) account)"

text \<open>Whether the signal has fired, which the program looks at without waiting.\<close>

definition signalAborted :: "bool client" where
  "signalAborted = (\<lambda>w t s. (Inr (cl_aborted (w t)), t, s))"

definition startOf :: "deployment \<Rightarrow> int" where
  "startOf m = int (nat_of_dec (dp_startBlock m))"

definition ownsLoan :: "string \<Rightarrow> loan \<Rightarrow> bool" where
  "ownsLoan account l \<longleftrightarrow> sameAddress (ln_lender l) account \<or> sameAddress (ln_borrower l) account"

text \<open>One page of the chain's own active set; \<open>pages\<close> is what is left of the bound of 250.\<close>

fun activePages ::
    "viem \<Rightarrow> deployment \<Rightarrow> string \<Rightarrow> int \<Rightarrow> nat \<Rightarrow> bool \<Rightarrow> int \<Rightarrow> int \<Rightarrow> int list \<Rightarrow> loan list \<Rightarrow> (loan list \<times> bool) client" where
  "activePages lib m account at 0 first cursor revision seen loans = pReturn (loans, False)"
| "activePages lib m account at (Suc pages) first cursor revision seen loans =
     pBind signalAborted (\<lambda>aborted.
     pBind (currentAccount account) (\<lambda>current.
     pDemand (\<not> aborted \<and> current) ''Wallet changed or lookup cancelled''
    (pBind (cRead (\<lambda>w. cl_activePage w (dp_address m) account cursor revision at)) (\<lambda>(ids, next, currentRevision).
     pDemand (length ids \<le> 40 \<and> 0 \<le> next \<and> 0 \<le> currentRevision \<and> (first \<or> currentRevision = revision)
         \<and> (next = 0 \<or> ids \<noteq> [] \<and> next = cursor + int (length ids))
         \<and> list_all (\<lambda>i. i > 0 \<and> i \<notin> set seen) ids \<and> distinct ids) ''Invalid V3 active loan page''
    (pBind (if ids = [] then pReturn [] else readLoans lib m ids at) (\<lambda>rows.
     pDemand (length rows = length ids \<and> distinct (map ln_id rows)
         \<and> list_all (\<lambda>l. ln_id l \<in> set ids \<and> ln_status l = Ls_active \<and> ownsLoan account l) rows) ''Invalid V3 owned active loan''
       (if next = 0 then pReturn (loans @ rows, True)
        else activePages lib m account at pages False next currentRevision (seen @ ids) (loans @ rows))))))))"

definition readV3ActiveLoans :: "viem \<Rightarrow> deployment \<Rightarrow> string \<Rightarrow> int option \<Rightarrow> active_result client" where
  "readV3ActiveLoans lib m account targetBlock =
    (case targetBlock of
       None \<Rightarrow> pThrow ''V3 active loan reader unavailable''
     | Some target \<Rightarrow>
         pBind (cRead cl_chainId) (\<lambda>chainId.
         pBind (cRead (\<lambda>w. cl_block w target)) (\<lambda>before.
         case bh_hash before of
           None \<Rightarrow> pThrow ''Invalid V3 active loan block''
         | Some hash \<Rightarrow>
             pDemand (chainId = dp_chainId m \<and> bh_number before = Some target \<and> hex_word 64 hash) ''Invalid V3 active loan block''
            (pBind (activePages lib m account target 250 True 0 0 [] []) (\<lambda>(loans, complete).
             pBind (cRead (\<lambda>w. cl_block w target)) (\<lambda>after.
             pBind signalAborted (\<lambda>aborted.
             pBind (currentAccount account) (\<lambda>current.
             pDemand (bh_number after = Some target \<and> same (bh_hash after) hash \<and> \<not> aborted \<and> current)
               ''V3 active loan snapshot changed''
               (pReturn \<lparr>ar_loans = loans, ar_complete = complete, ar_status = (if complete then A_ready else A_syncing),
                  ar_message = (if complete then None else Some ''More active loans remain to be loaded. Known loans remain available.''),
                  ar_blockNumber = Some target, ar_blockHash = Some hash, ar_indexedThrough = Some target\<rparr>)))))))))"

text \<open>The response of the index: its block, its hash, how far it got, its identifiers and whether it is complete.\<close>

definition signedText :: "string \<Rightarrow> bool" where
  "signedText v = (let digits = (if take 1 v = ''-'' then drop 1 v else v) in
     1 \<le> length digits \<and> length digits \<le> 78 \<and> list_all is_digit digits)"

definition signedOf :: "string \<Rightarrow> int" where
  "signedOf v = (if take 1 v = ''-'' then - int (nat_of_dec (drop 1 v)) else int (nat_of_dec v))"

definition indexBody :: "deployment \<Rightarrow> string \<Rightarrow> int option \<Rightarrow> json \<Rightarrow> (int \<times> string \<times> int \<times> int list \<times> bool) outcome" where
  "indexBody m account targetBlock body =
    (let f = j_field body in
     case (j_string (f ''market''), j_string (f ''account''), j_string (f ''status''), j_bool (f ''complete''), j_string (f ''blockNumber''),
           j_string (f ''blockHash''), j_string (f ''indexedThrough''), j_array (f ''activeIds'')) of
       (Some market, Some owner, Some status, Some complete, Some number, Some hash, Some through, Some activeIds) \<Rightarrow>
         demand (j_int (f ''schemaVersion'') = Some 1 \<and> j_int (f ''chainId'') = Some (dp_chainId m)
             \<and> sameAddress market (dp_address m) \<and> sameAddress owner account
             \<and> status \<in> {''ready'', ''syncing''} \<and> complete = (status = ''ready'') \<and> uint_text number
             \<and> hex_word 64 hash \<and> signedText through \<and> length activeIds \<le> 10000) ''Invalid active loan response''
        (let blockNumber = int (nat_of_dec number); indexedThrough = signedOf through in
         demand (blockNumber \<ge> startOf m \<and> indexedThrough \<ge> startOf m - 1 \<and> indexedThrough \<le> blockNumber
             \<and> (complete \<longrightarrow> indexedThrough = blockNumber) \<and> targetBlock \<in> {None, Some blockNumber}) ''Invalid active loan block''
        (and_then (map_outcome (\<lambda>v. case v of
             J_str i \<Rightarrow> demand (uint_text i \<and> nat_of_dec i \<noteq> 0) ''Invalid active loan identifier'' (Inr (int (nat_of_dec i)))
           | _ \<Rightarrow> Inl ''Invalid active loan identifier'') activeIds) (\<lambda>ids.
         demand (distinct ids) ''Duplicate active loan identifiers'' (Inr (blockNumber, hash, indexedThrough, ids, complete)))))
     | _ \<Rightarrow> Inl ''Invalid active loan response'')"

text \<open>Pieces of \<open>n + 1\<close> elements.\<close>

fun slices :: "nat \<Rightarrow> 'a list \<Rightarrow> 'a list list" where
  "slices n [] = []"
| "slices n (x # xs) = (x # take n xs) # slices n (drop n xs)"

definition indexedRows :: "viem \<Rightarrow> deployment \<Rightarrow> string \<Rightarrow> int \<Rightarrow> int list \<Rightarrow> loan list client" where
  "indexedRows lib m account at requested =
     pBind (currentAccount account) (\<lambda>current.
     pBind signalAborted (\<lambda>aborted.
     pDemand (current \<and> \<not> aborted) ''Wallet changed''
    (pBind (readLoans lib m requested at) (\<lambda>rows.
     pDemand (length rows = length requested \<and> distinct (map ln_id rows)
         \<and> list_all (\<lambda>l. ln_id l \<in> set requested \<and> ownsLoan account l) rows) ''Active loan index returned an unrelated loan''
       (pReturn (filter (\<lambda>l. ln_status l = Ls_active) rows))))))"

definition indexQuery :: "deployment \<Rightarrow> string \<Rightarrow> int option \<Rightarrow> string" where
  "indexQuery m account targetBlock = ''market='' @ dp_address m @ ''&account='' @ account
     @ (case targetBlock of None \<Rightarrow> '''' | Some n \<Rightarrow> ''&targetBlock='' @ dec_of_int n)"

definition readIndexedLoans :: "viem \<Rightarrow> deployment \<Rightarrow> string \<Rightarrow> int option \<Rightarrow> active_result client" where
  "readIndexedLoans lib m account targetBlock =
     pBind (cRead (\<lambda>w. cl_activeIndex w (indexQuery m account targetBlock))) (\<lambda>response.
     case response of
       None \<Rightarrow> pReturn (unavailable unavailableMessage)
     | Some body \<Rightarrow>
         pBind (pLift (indexBody m account targetBlock body)) (\<lambda>(blockNumber, blockHash, indexedThrough, ids, complete).
         pBind (cRead cl_chainId) (\<lambda>chainId.
         pBind (cRead (\<lambda>w. cl_block w blockNumber)) (\<lambda>before.
         pDemand (chainId = dp_chainId m \<and> bh_number before = Some blockNumber \<and> same (bh_hash before) blockHash)
           ''Active loan block is not canonical''
        (pBind (cMap (indexedRows lib m account blockNumber) (slices 39 ids)) (\<lambda>loans.
         pBind (cRead (\<lambda>w. cl_block w blockNumber)) (\<lambda>after.
         pDemand (bh_number after = Some blockNumber \<and> same (bh_hash after) blockHash) ''Chain changed during active loan verification''
        (pBind (currentAccount account) (\<lambda>current.
         pBind signalAborted (\<lambda>aborted.
         pReturn (if \<not> current \<or> aborted then unavailable walletChangedMessage
           else \<lparr>ar_loans = concat loans, ar_complete = complete, ar_status = (if complete then A_ready else A_syncing),
             ar_message = (if complete then None
               else Some ''Active loan history is still syncing. Known loans remain available; retry loading.''),
             ar_blockNumber = Some blockNumber, ar_blockHash = Some blockHash, ar_indexedThrough = Some indexedThrough\<rparr>)))))))))))"

definition readActiveLoans :: "viem \<Rightarrow> deployment \<Rightarrow> string \<Rightarrow> int option \<Rightarrow> active_result client" where
  "readActiveLoans lib m account targetBlock =
     pBind (currentAccount account) (\<lambda>current.
     if \<not> current then pReturn (unavailable walletChangedMessage)
     else
       pCatch
         (pDemand (vi_looseAddress lib (dp_address m) \<and> vi_looseAddress lib account \<and> uint_text (dp_startBlock m)
             \<and> (case targetBlock of None \<Rightarrow> True | Some n \<Rightarrow> startOf m \<le> n \<and> n < 2 ^ 256)) ''Invalid active loan request''
           (if dp_version m = Some 3 then readV3ActiveLoans lib m account targetBlock else readIndexedLoans lib m account targetBlock))
         (\<lambda>_. pBind (currentAccount account) (\<lambda>still.
            pReturn (unavailable (if still then unavailableMessage else walletChangedMessage)))))"

section \<open>Withdrawal credits\<close>

record credit_page =
  cp_loans :: "loan list"
  cp_nextCursor :: "int option"
  cp_anchorNumber :: int
  cp_anchorHash :: string
  cp_nominalUSDG :: int
  cp_nominalCollateral :: int

definition claimOwned :: "string \<Rightarrow> (string \<times> int \<times> int) option \<Rightarrow> bool" where
  "claimOwned account claim = (case claim of None \<Rightarrow> True | Some (beneficiary, nominal, _) \<Rightarrow> sameAddress beneficiary account \<and> nominal > 0)"

text \<open>Whether one of the loan's two credits is the account's, or cannot be read.\<close>

definition holdsCredit :: "deployment \<Rightarrow> string \<Rightarrow> int \<Rightarrow> int \<Rightarrow> bool client" where
  "holdsCredit m account at i =
     pBind (cTry (cRead (\<lambda>w. cl_credit w (dp_address m) i (dp_loanToken m) at))) (\<lambda>usd.
     pBind (cTry (cRead (\<lambda>w. cl_credit w (dp_address m) i (dp_collateralToken m) at))) (\<lambda>collateral.
     pReturn (claimOwned account usd \<or> claimOwned account collateral)))"

fun ownedIds :: "deployment \<Rightarrow> string \<Rightarrow> int \<Rightarrow> int list list \<Rightarrow> int list client" where
  "ownedIds m account at [] = pReturn []"
| "ownedIds m account at (part # parts) =
     pBind (cMap (holdsCredit m account at) part) (\<lambda>held.
     pBind (pGet pc_account) (\<lambda>now.
     pDemand (now = Some account) ''Wallet changed while loading withdrawal credits.''
    (pBind (ownedIds m account at parts) (\<lambda>rest.
     pReturn (map fst (filter snd (zip part held)) @ rest)))))"

definition creditsUnchanged :: "string \<Rightarrow> int \<Rightarrow> string \<Rightarrow> unit client" where
  "creditsUnchanged account number hash =
     pBind (pGet pc_account) (\<lambda>now.
     pDemand (now = Some account) ''Withdrawal history changed. Refresh to load it again.''
    (pBind (cRead (\<lambda>w. cl_block w number)) (\<lambda>again.
     pDemand (bh_hash again = Some hash) ''Withdrawal history changed. Refresh to load it again.'' (pReturn ()))))"

definition creditPage :: "viem \<Rightarrow> deployment \<Rightarrow> int \<Rightarrow> (int \<times> string) option \<Rightarrow> credit_page client" where
  "creditPage lib m cursor anchor =
     pBind (pGet pc_account) (\<lambda>acc.
     case acc of
       None \<Rightarrow> pThrow ''Connect to a V3 market to load withdrawal credits.''
     | Some account \<Rightarrow>
         pDemand (dp_version m = Some 3) ''Connect to a V3 market to load withdrawal credits.''
        (pBind (verify lib m) (\<lambda>verified.
         let (number, hash) = (case anchor of Some a \<Rightarrow> a | None \<Rightarrow> (vb_number verified, vb_hash verified)) in
         pDemand (number \<le> vb_number verified) ''Credit history changed after a chain reorganization. Refresh to load it again.''
        (pBind (cRead (\<lambda>w. cl_block w number)) (\<lambda>b.
         pDemand (bh_hash b = Some hash) ''Credit history changed after a chain reorganization. Refresh to load it again.''
        (pBind (cRead (\<lambda>w. cl_page w (dp_address m) ''getAccountOfferIds'' [Arg_address account, Arg_uint cursor, Arg_uint 40] number)) (\<lambda>(ids, next).
         pBind (cRead (\<lambda>w. cl_uint w (dp_address m) ''credits'' [Arg_address (dp_loanToken m), Arg_address account] (Some number))) (\<lambda>usd.
         pBind (cRead (\<lambda>w. cl_uint w (dp_address m) ''credits'' [Arg_address (dp_collateralToken m), Arg_address account] (Some number))) (\<lambda>collateral.
         if usd = 0 \<and> collateral = 0
         then
           pBind (creditsUnchanged account number hash) (\<lambda>_.
           pBind (pGet pc_account) (\<lambda>now.
           pDemand (now = Some account) ''Wallet changed while loading withdrawal credits.''
             (pReturn \<lparr>cp_loans = [], cp_nextCursor = None, cp_anchorNumber = number, cp_anchorHash = hash,
                cp_nominalUSDG = usd, cp_nominalCollateral = collateral\<rparr>)))
         else
           pDemand (length ids \<le> 40 \<and> 0 \<le> next \<and> \<not> (cursor > 0 \<and> next \<ge> cursor) \<and> list_all (\<lambda>i. i > 0) ids) ''Invalid withdrawal credit page.''
          (pBind (ownedIds m account number (slices 4 ids)) (\<lambda>owned.
           pBind (readLoans lib m owned number) (\<lambda>loans.
           pBind (creditsUnchanged account number hash) (\<lambda>_.
           pReturn \<lparr>cp_loans = loans, cp_nextCursor = cursorOf next, cp_anchorNumber = number, cp_anchorHash = hash,
             cp_nominalUSDG = usd, cp_nominalCollateral = collateral\<rparr>)))))))))))))"

section \<open>The snapshot\<close>

record snapshot_result =
  sn_account :: string
  sn_now :: int
  sn_blockNumber :: int
  sn_approvedLender :: bool
  sn_paused :: bool
  sn_balanceUSDG :: int
  sn_balanceCollateral :: int
  sn_balancesUnavailable :: "(bool \<times> bool) option"
  sn_creditUSDG :: int
  sn_creditCollateral :: int
  sn_nominalCredits :: "(int \<times> int) option"
  sn_creditsComplete :: "bool option"
  sn_nativeBalance :: int
  sn_offers :: "loan list"
  sn_maxPrincipal :: "int option"
  sn_maxCommitted :: "int option"
  sn_committed :: int
  sn_nextCursor :: "int option"
  sn_health :: health
  sn_activeComplete :: bool
  sn_activeMessage :: "string option"
  sn_incoming :: "(loan list \<times> int option \<times> bool \<times> string option) option"

text \<open>\<open>[...new Map(loans.map(loan => [loan.id, loan])).values()]\<close>: in the order of the first, with the value of the last of each identifier.\<close>

definition loansById :: "loan list \<Rightarrow> loan list" where
  "loansById loans = map (\<lambda>i. last (filter (\<lambda>l. ln_id l = i) loans)) (distinctFirst (map ln_id loans))"

definition creditSum :: "(loan_credits \<Rightarrow> loan_credit) \<Rightarrow> string \<Rightarrow> loan list \<Rightarrow> int" where
  "creditSum which account loans =
     (\<Sum>l\<leftarrow>loans. case ln_loanCredits l of Some c \<Rightarrow> if sameAddress (lc_beneficiary (which c)) account then lc_available (which c) else 0 | None \<Rightarrow> 0)"

definition creditsReadable :: "loan \<Rightarrow> bool" where
  "creditsReadable l = (case ln_loanCredits l of Some c \<Rightarrow> \<not> lc_unavailable (cr_USDG c) \<and> \<not> lc_unavailable (cr_COLLATERAL c) | None \<Rightarrow> True)"

definition tokenBalance :: "deployment \<Rightarrow> string \<Rightarrow> string \<Rightarrow> int \<Rightarrow> int option client" where
  "tokenBalance m token account at =
    (let balance = cRead (\<lambda>w. cl_uint w token ''balanceOf'' [Arg_address account] (Some at)) in
     if dp_version m = Some 3 then cTry balance else pBind balance (\<lambda>b. pReturn (Some b)))"

definition legacyIds :: "int \<Rightarrow> int \<Rightarrow> int list" where
  "legacyIds lower upper = rev [lower .. upper - 1]"

text \<open>The account's own offers and the cursor to older ones.\<close>

definition ownOffers :: "viem \<Rightarrow> deployment \<Rightarrow> string \<Rightarrow> int option \<Rightarrow> int \<Rightarrow> int \<Rightarrow> (loan list \<times> int option) client" where
  "ownOffers lib m account beforeId next at =
    (if marketVersion m \<ge> 2
     then
       pBind (cRead (\<lambda>w. cl_page w (dp_address m) ''getAccountOfferIds''
         [Arg_address account, Arg_uint (case beforeId of Some i \<Rightarrow> i | None \<Rightarrow> 0), Arg_uint 40] at)) (\<lambda>(ids, cursor).
       pDemand (length ids \<le> 40 \<and> (case beforeId of Some i \<Rightarrow> i = 0 \<or> cursor < i | None \<Rightarrow> True)) ''Invalid account loan page. Refresh your loans.''
      (pBind (readLoans lib m ids at) (\<lambda>offers.
       pDemand (list_all (ownsLoan account) offers) ''An unrelated loan was returned for your wallet.'' (pReturn (offers, cursorOf cursor)))))
     else
       (let upper = (case beforeId of Some i \<Rightarrow> i | None \<Rightarrow> next); lower = (if upper > 40 then upper - 40 else 1) in
        pBind (readLoans lib m (legacyIds lower upper) at) (\<lambda>rows.
        pReturn (filter (ownsLoan account) rows, if lower > 1 then Some lower else None))))"

definition incomingOffers :: "viem \<Rightarrow> deployment \<Rightarrow> string \<Rightarrow> verified_block \<Rightarrow> (loan list \<times> int option \<times> bool \<times> string option) option client" where
  "incomingOffers lib m account block =
    (if dp_version m = Some 3
     then
       pBind (cTry (incomingAt lib m account 0 block)) (\<lambda>page.
       pReturn (Some (case page of
         Some (offers, next) \<Rightarrow> (offers, next, next = None, None)
       | None \<Rightarrow> ([], None, False, Some ''Incoming offers could not be loaded. Your existing loans remain available.''))))
     else pReturn None)"

definition snapshot :: "viem \<Rightarrow> deployment \<Rightarrow> int option \<Rightarrow> snapshot_result client" where
  "snapshot lib m beforeId =
     pBind (pGet pc_account) (\<lambda>acc.
     case acc of
       None \<Rightarrow> pThrow ''Connect your wallet to view your loans.''
     | Some account \<Rightarrow>
         let this = dp_address m; modern = (marketVersion m \<ge> 2); v3 = (dp_version m = Some 3) in
         pBind (verify lib m) (\<lambda>block.
         let at = vb_number block in
         pBind (readP2PHealth lib m block None) (\<lambda>health.
         pBind (if modern then pReturn True else cRead (\<lambda>w. cl_bool w this ''permittedLenders'' [Arg_address account] at)) (\<lambda>approvedLender.
         pBind (cRead (\<lambda>w. cl_bool w this ''newLoansPaused'' [] at)) (\<lambda>paused.
         pBind (if modern then pReturn None else pBind (cRead (\<lambda>w. cl_uint w this ''maxPrincipalPerLoan'' [] (Some at))) (\<lambda>v. pReturn (Some v))) (\<lambda>maxPrincipal.
         pBind (if modern then pReturn None else pBind (cRead (\<lambda>w. cl_uint w this ''maxCommittedPrincipal'' [] (Some at))) (\<lambda>v. pReturn (Some v))) (\<lambda>maxCommitted.
         pBind (cRead (\<lambda>w. cl_uint w this ''committedPrincipal'' [] (Some at))) (\<lambda>committed.
         pBind (if modern then pReturn 0 else cRead (\<lambda>w. cl_uint w this ''nextOfferId'' [] (Some at))) (\<lambda>next.
         pBind (cRead (\<lambda>w. cl_uint w this ''credits'' [Arg_address (dp_loanToken m), Arg_address account] (Some at))) (\<lambda>usdCredit.
         pBind (cRead (\<lambda>w. cl_uint w this ''credits'' [Arg_address (dp_collateralToken m), Arg_address account] (Some at))) (\<lambda>collateralCredit.
         pBind (tokenBalance m (dp_loanToken m) account at) (\<lambda>usdBalance.
         pBind (tokenBalance m (dp_collateralToken m) account at) (\<lambda>collateralBalance.
         pBind (cRead (\<lambda>w. cl_balance w account at)) (\<lambda>nativeBalance.
         pBind (ownOffers lib m account beforeId next at) (\<lambda>(own, nextCursor).
         pBind (incomingOffers lib m account block) (\<lambda>incoming.
         pBind (readActiveLoans lib m account (Some at)) (\<lambda>active.
         let offers = loansById (own @ ar_loans active) in
         pBind (pGet pc_account) (\<lambda>now.
         pDemand (now = Some account) ''Wallet changed while loading. Refresh your loans.''
           (pReturn \<lparr>sn_account = account, sn_now = js_Number (vb_timestamp block), sn_blockNumber = at, sn_approvedLender = approvedLender, sn_paused = paused,
              sn_balanceUSDG = (case usdBalance of Some b \<Rightarrow> b | None \<Rightarrow> 0), sn_balanceCollateral = (case collateralBalance of Some b \<Rightarrow> b | None \<Rightarrow> 0),
              sn_balancesUnavailable = (if v3 then Some (usdBalance = None, collateralBalance = None) else None),
              sn_creditUSDG = (if v3 then creditSum cr_USDG account offers else usdCredit),
              sn_creditCollateral = (if v3 then creditSum cr_COLLATERAL account offers else collateralCredit),
              sn_nominalCredits = (if v3 then Some (usdCredit, collateralCredit) else None),
              sn_creditsComplete = (if v3 then Some (nextCursor = None \<and> beforeId \<in> {None, Some 0} \<and> list_all creditsReadable offers) else None),
              sn_nativeBalance = nativeBalance, sn_offers = offers, sn_maxPrincipal = maxPrincipal, sn_maxCommitted = maxCommitted, sn_committed = committed,
              sn_nextCursor = nextCursor, sn_health = health, sn_activeComplete = ar_complete active, sn_activeMessage = ar_message active,
              sn_incoming = incoming\<rparr>)))))))))))))))))))"

end
