(* ===== verification/P2P_Writes.thy ===== *)
theory P2P_Writes
  imports P2P_Snapshot
begin

text \<open>
  The transactions of the peer-to-peer client (p2p/client.ts): the wallet checks, the record of
  a pending transaction, the receipt with its replacements, reconciliation, and the
  one path (\<open>write\<close>) on which the wallet is asked to sign. The callback that the caller may
  pass to run before the request is an argument.
\<close>

section \<open>The wallet\<close>

definition assertWallet :: "deployment \<Rightarrow> string option \<Rightarrow> string client" where
  "assertWallet m expectedAccount =
     pBind (pGet pc_account) (\<lambda>acc.
     case (acc, expectedAccount) of
       (Some account, Some expected) \<Rightarrow>
         pDemand (sameAddress account expected) ''The wallet account changed. Reconnect before continuing.''
        (pBind (cRead cl_accounts) (\<lambda>accounts.
         pBind (cRead cl_walletChain) (\<lambda>chainId.
         pBind (pGet pc_account) (\<lambda>now.
         pDemand (same now expected \<and> (case accounts of [] \<Rightarrow> False | a # _ \<Rightarrow> sameAddress a expected))
           ''The wallet account changed. Reconnect before continuing.''
        (pDemand (chainId = dp_chainId m)
           (''Switch your wallet to '' @ dp_chainName m @ '' (chain '' @ dec_of_int (dp_chainId m) @ '') and reconnect.'')
           (pReturn expected))))))
     | _ \<Rightarrow> pThrow ''Connect your wallet first.'')"

definition connect :: "viem \<Rightarrow> deployment \<Rightarrow> string option client" where
  "connect lib m =
     pBind (cRead cl_requestAccounts) (\<lambda>accounts.
     case accounts of
       [] \<Rightarrow> pThrow ''No wallet account was selected.''
     | a # _ \<Rightarrow>
         pBind (pLift (vi_getAddress lib a)) (\<lambda>account.
         pBind (pModify (\<lambda>s. s\<lparr>pc_account := Some account\<rparr>)) (\<lambda>_.
         pBind (pGet pc_account) (\<lambda>acc.
         pBind (assertWallet m acc) (\<lambda>_.
         pBind (verify lib m) (\<lambda>_.
         pGet pc_account))))))"

definition disconnect :: "unit client" where
  "disconnect = pModify (\<lambda>s. s\<lparr>pc_account := None\<rparr>)"

section \<open>The pending record\<close>

record requested_call =
  rq_to :: string
  rq_input :: string
  rq_value :: int

definition pendingKey :: "deployment \<Rightarrow> string \<Rightarrow> string" where
  "pendingKey m account = ''turret:p2p:pending:'' @ dec_of_int (dp_chainId m) @ '':'' @ dp_address m @ '':'' @ account"

definition forgetHash :: "string \<Rightarrow> string \<Rightarrow> unit client" where
  "forgetHash key hash = pModify (\<lambda>s. if pc_hashes s key = Some hash then s\<lparr>pc_hashes := (pc_hashes s)(key := None)\<rparr> else s)"

definition loadRecord :: "viem \<Rightarrow> string \<Rightarrow> pending_record option client" where
  "loadRecord lib key = cStorage (\<lambda>now. loadPendingRecord (vi_looseAddress lib) now key)"

definition currentPending :: "viem \<Rightarrow> string \<Rightarrow> string \<Rightarrow> pending_record client" where
  "currentPending lib key hash =
     pBind (loadRecord lib key) (\<lambda>record.
     let changed = pBind (forgetHash key hash) (\<lambda>_.
       pThrow ''The pending transaction record changed while checking status. Refresh before continuing.'') in
     case record of
       None \<Rightarrow> changed
     | Some r \<Rightarrow> if pr_hash r = hash then pReturn r else changed)"

definition callJson :: "string \<Rightarrow> requested_call \<Rightarrow> json" where
  "callJson account q = J_obj [(''from'', J_str account), (''to'', J_str (rq_to q)), (''input'', J_str (rq_input q)),
     (''value'', J_str (dec_of_int (rq_value q)))]"

definition intentJson :: "string \<Rightarrow> int \<Rightarrow> requested_call \<Rightarrow> int \<Rightarrow> json" where
  "intentJson account nonce q submittedBlock = J_obj [(''from'', J_str account), (''nonce'', J_num (JS_int nonce)), (''to'', J_str (rq_to q)),
     (''input'', J_str (rq_input q)), (''value'', J_str (dec_of_int (rq_value q))), (''submittedBlock'', J_str (dec_of_int submittedBlock))]"

text \<open>The call of a saved request that passed \<open>validRequested\<close>.\<close>

definition requestedOf :: "json \<Rightarrow> requested_call" where
  "requestedOf v = \<lparr>rq_to = (case j_string (j_field v ''to'') of Some s \<Rightarrow> s | None \<Rightarrow> ''''),
     rq_input = (case j_string (j_field v ''input'') of Some s \<Rightarrow> s | None \<Rightarrow> ''''),
     rq_value = (case j_string (j_field v ''value'') of Some s \<Rightarrow> int (nat_of_dec s) | None \<Rightarrow> 0)\<rparr>"

definition callOf :: "chain_tx \<Rightarrow> string \<Rightarrow> requested_call" where
  "callOf x to = \<lparr>rq_to = to, rq_input = tx_input x, rq_value = tx_value x\<rparr>"

text \<open>One attempt to learn the nonce of the transaction; the result says whether it is not the call that was requested.\<close>

definition captureAttempt :: "viem \<Rightarrow> string \<Rightarrow> string \<Rightarrow> string \<Rightarrow> requested_call option \<Rightarrow> bool client" where
  "captureAttempt lib key hash account requested =
     pBind (loadRecord lib key) (\<lambda>current.
     if map_option pr_hash current \<noteq> Some hash then pReturn False
     else
       pBind (cRead (\<lambda>w. cl_transaction w hash)) (\<lambda>(x, blockNumber).
       case tx_to x of
         None \<Rightarrow> pReturn False
       | Some to \<Rightarrow>
           if \<not> sameAddress (tx_from x) account \<or> \<not> vi_isAddress lib to \<or> \<not> isSafeInteger (tx_nonce x) \<or> tx_nonce x < 0
              \<or> \<not> hex_bytes (tx_input x)
           then pReturn False
           else
             pBind (case blockNumber of
                 Some n \<Rightarrow> pReturn n
               | None \<Rightarrow> pBind (cRead cl_latest) (\<lambda>b. pReturn (case bh_number b of Some n \<Rightarrow> n | None \<Rightarrow> 0))) (\<lambda>observedBlock.
             let call = (case requested of Some q \<Rightarrow> q | None \<Rightarrow> callOf x to) in
             pBind (cStorage (\<lambda>now. updatePendingIntent (vi_looseAddress lib) now key hash (intentJson account (tx_nonce x) call observedBlock))) (\<lambda>updated.
             pReturn (updated \<and> (case requested of
               Some q \<Rightarrow> \<not> sameAddress to (rq_to q) \<or> \<not> sameAddress (tx_input x) (rq_input q) \<or> tx_value x \<noteq> rq_value q
             | None \<Rightarrow> False))))))"

fun captureAttempts :: "nat \<Rightarrow> viem \<Rightarrow> string \<Rightarrow> string \<Rightarrow> string \<Rightarrow> requested_call option \<Rightarrow> bool client" where
  "captureAttempts 0 lib key hash account requested = pReturn False"
| "captureAttempts (Suc attempts) lib key hash account requested =
     pCatch (captureAttempt lib key hash account requested)
       (\<lambda>_. if attempts > 0 then pBind (cRead (\<lambda>_. Inr ())) (\<lambda>_. captureAttempts attempts lib key hash account requested)
            else pReturn False)"

definition capturePendingIntent :: "viem \<Rightarrow> deployment \<Rightarrow> string \<Rightarrow> string \<Rightarrow> requested_call option \<Rightarrow> bool client" where
  "capturePendingIntent lib m hash account expected =
    (let key = pendingKey m account in
     pBind (loadRecord lib key) (\<lambda>saved.
     case saved of
       None \<Rightarrow> pReturn False
     | Some r \<Rightarrow>
         if pr_hash r \<noteq> hash \<or> pr_intent r \<noteq> None then pReturn False
         else
           pDemand (case pr_requested r of Some q \<Rightarrow> same (j_string (j_field q ''from'')) account | None \<Rightarrow> True)
             ''The saved transaction request belongs to a different wallet.''
             (captureAttempts 3 lib key hash account (case expected of Some q \<Rightarrow> Some q | None \<Rightarrow> map_option requestedOf (pr_requested r)))))"

section \<open>Receipts\<close>

definition unknownReplacement :: string where
  "unknownReplacement = ''Transaction replacement could not be verified. Refresh transaction status before retrying.''"

definition validTransaction :: "viem \<Rightarrow> chain_tx \<Rightarrow> bool" where
  "validTransaction lib x \<longleftrightarrow> hex_word 64 (tx_hash x) \<and> vi_isAddress lib (tx_from x)
     \<and> (case tx_to x of Some a \<Rightarrow> vi_isAddress lib a | None \<Rightarrow> False) \<and> tx_value x \<ge> 0
     \<and> isSafeInteger (tx_nonce x) \<and> tx_nonce x \<ge> 0 \<and> hex_bytes (tx_input x)"

definition equivalent :: "chain_tx \<Rightarrow> chain_tx \<Rightarrow> bool" where
  "equivalent x y \<longleftrightarrow> sameAddress (tx_from x) (tx_from y) \<and> tx_nonce x = tx_nonce y
     \<and> (case (tx_to x, tx_to y) of (Some a, Some b) \<Rightarrow> sameAddress a b | _ \<Rightarrow> False)
     \<and> tx_value x = tx_value y \<and> sameAddress (tx_input x) (tx_input y)"

datatype rejected = Rj_cancelled | Rj_replaced

record lineage_state =
  li_known :: "(string \<times> chain_tx) list"
  li_expected :: string
  li_rejected :: "rejected option"

definition replacementOk :: "viem \<Rightarrow> string \<Rightarrow> replacement \<Rightarrow> bool" where
  "replacementOk lib account p \<longleftrightarrow>
     validTransaction lib (rl_replaced p) \<and> validTransaction lib (rl_transaction p)
     \<and> sameAddress (tx_from (rl_replaced p)) account \<and> sameAddress (tx_from (rl_transaction p)) account
     \<and> tx_nonce (rl_replaced p) = tx_nonce (rl_transaction p)
     \<and> hex_word 64 (rc_hash (rl_receipt p)) \<and> sameAddress (rc_hash (rl_receipt p)) (tx_hash (rl_transaction p))
     \<and> hex_word 64 (rc_blockHash (rl_receipt p)) \<and> rc_blockNumber (rl_receipt p) \<ge> 0
     \<and> sameAddress (rc_from (rl_receipt p)) account \<and> rc_status (rl_receipt p) \<in> {''success'', ''reverted''}"

definition followReplacement :: "viem \<Rightarrow> string \<Rightarrow> string \<Rightarrow> replacement \<Rightarrow> lineage_state \<Rightarrow> lineage_state outcome" where
  "followReplacement lib account hash p l =
    (let previous = rl_replaced p; next = rl_transaction p in
     demand (replacementOk lib account p) unknownReplacement
    (demand (li_known l = [] \<longrightarrow> sameAddress (tx_hash previous) hash) unknownReplacement
    (let known = (if li_known l = [] then [(js_lower hash, previous)] else li_known l) in
     demand (case map_of known (js_lower (tx_hash previous)) of Some k \<Rightarrow> equivalent k previous | None \<Rightarrow> False) unknownReplacement
    (demand (case map_of known (js_lower (tx_hash next)) of Some k \<Rightarrow> equivalent k next | None \<Rightarrow> True) unknownReplacement
    (Inr \<lparr>li_known = AList.update (js_lower (tx_hash next)) next known, li_expected = tx_hash next,
       li_rejected = (if rl_reason p \<noteq> Repriced \<or> \<not> equivalent previous next
         then (case li_rejected l of Some r \<Rightarrow> Some r
               | None \<Rightarrow> Some (if rl_reason p = Cancelled_tx then Rj_cancelled else Rj_replaced))
         else li_rejected l)\<rparr>)))))"

definition followReplacements :: "viem \<Rightarrow> string \<Rightarrow> string \<Rightarrow> replacement list \<Rightarrow> lineage_state outcome" where
  "followReplacements lib account hash ps =
     fold_outcome (followReplacement lib account hash) ps \<lparr>li_known = [], li_expected = hash, li_rejected = None\<rparr>"

definition sameReceipt :: "chain_receipt \<Rightarrow> chain_receipt \<Rightarrow> bool" where
  "sameReceipt r r' \<longleftrightarrow> rc_blockHash r = rc_blockHash r' \<and> rc_blockNumber r = rc_blockNumber r' \<and> rc_status r = rc_status r'"

text \<open>The checks of a receipt and of the replacements that led to it.\<close>

definition checkReceipt :: "viem \<Rightarrow> string \<Rightarrow> string \<Rightarrow> chain_receipt \<Rightarrow> replacement list \<Rightarrow> lineage_state outcome" where
  "checkReceipt lib account hash r replacements =
     demand (length replacements \<le> 16 \<and> hex_word 64 (rc_hash r) \<and> hex_word 64 (rc_blockHash r) \<and> rc_blockNumber r \<ge> 0
         \<and> vi_isAddress lib (rc_from r) \<and> sameAddress (rc_from r) account \<and> rc_status r \<in> {''success'', ''reverted''}) unknownReplacement
    (and_then (followReplacements lib account hash replacements) (\<lambda>l.
     demand (sameAddress (rc_hash r) (li_expected l)) unknownReplacement
    (demand (replacements \<noteq> [] \<longrightarrow> sameReceipt (rl_receipt (last replacements)) r) unknownReplacement (Inr l))))"

definition ellipsis :: string where
  "ellipsis = [CHR 0x5C] @ ''u2026''"

definition receipt :: "viem \<Rightarrow> deployment \<Rightarrow> string \<Rightarrow> string \<Rightarrow> string \<Rightarrow> requested_call option \<Rightarrow> bool \<Rightarrow> string client" where
  "receipt lib m hash label account expected recovering =
    (let key = pendingKey m account; loose = vi_looseAddress lib in
     pBind (if recovering then pBind (currentPending lib key hash) (\<lambda>_. pReturn ())
            else pBind (pModify (\<lambda>s. s\<lparr>pc_hashes := (pc_hashes s)(key \<mapsto> hash)\<rparr>)) (\<lambda>_.
              cStorage (\<lambda>now b. and_then (savePending loose now key hash None (map_option (callJson account) expected) b) (\<lambda>b'. Inr ((), b'))))) (\<lambda>_.
     pBind (cStage St_pending (Some hash) (label @ '' submitted. Waiting for confirmation'' @ ellipsis)) (\<lambda>_.
     pBind (capturePendingIntent lib m hash account expected) (\<lambda>originalChanged.
     pBind (cRead (\<lambda>w. cl_wait w hash)) (\<lambda>(r, replacements).
     pBind (pLift (checkReceipt lib account hash r replacements)) (\<lambda>l.
     pBind (cRead (\<lambda>w. cl_block w (rc_blockNumber r))) (\<lambda>block.
     pDemand (bh_hash block = Some (rc_blockHash r))
       ''The confirmation changed after a chain reorganization. Refresh transaction status before retrying.''
    (pBind (if recovering then pBind (currentPending lib key hash) (\<lambda>_. pReturn ()) else pReturn ()) (\<lambda>_.
     pBind (forgetHash key hash) (\<lambda>_.
     pBind (cStorage (\<lambda>now b. and_then (clearPending loose now key hash b) (\<lambda>b'. Inr ((), b')))) (\<lambda>_.
     pDemand (\<not> originalChanged) (label @ '' was changed in your wallet. The requested action was not confirmed. Refresh your balances before trying again.'')
    (pDemand (li_rejected l \<noteq> Some Rj_cancelled) (label @ '' was cancelled in your wallet. The requested action was not completed.'')
    (pDemand (li_rejected l = None) (label @ '' was replaced by a different transaction. Refresh your balances before trying again.'')
    (pDemand (rc_status r \<noteq> ''reverted'') (label @ '' reverted. No contract changes from that transaction were applied.'')
    (pBind (cStage St_confirmed (Some (rc_hash r)) (label @ '' confirmed.'')) (\<lambda>_.
     pReturn (rc_hash r)))))))))))))))))"

section \<open>Reconciliation\<close>

definition previousLabel :: string where
  "previousLabel = ''Previous transaction''"

definition reconcileSavedPending :: "viem \<Rightarrow> deployment \<Rightarrow> string \<Rightarrow> string \<Rightarrow> string \<Rightarrow> string option \<Rightarrow> bool client" where
  "reconcileSavedPending lib m account key hash replacementHash =
    (let rest = pBind (receipt lib m hash previousLabel account None True) (\<lambda>_. pReturn True) in
     pBind (capturePendingIntent lib m hash account None) (\<lambda>_.
     pBind (currentPending lib key hash) (\<lambda>record.
     if pr_intent record \<noteq> None
     then
       pBind (verify lib m) (\<lambda>_.
       pBind (cChain (recoverPendingTransaction (vi_looseAddress lib) True replacementHash record account)) (\<lambda>found.
       case found of
         Some r \<Rightarrow>
           pBind (currentPending lib key hash) (\<lambda>_.
           pBind (forgetHash key hash) (\<lambda>_.
           pBind (cStorage (\<lambda>now b. and_then (clearPending (vi_looseAddress lib) now key hash b) (\<lambda>b'. Inr ((), b')))) (\<lambda>_.
           pDemand (\<not> (rp_cancelled r \<and> \<not> rp_equivalent r))
             ''Previous transaction was cancelled in your wallet. The requested action was not completed.''
          (pDemand (rp_equivalent r)
             ''Previous transaction was replaced by a different transaction. Refresh your balances before trying again.''
          (pDemand (rc_status (rp_receipt r) \<noteq> ''reverted'')
             ''Previous transaction reverted. No contract changes from that transaction were applied.''
          (pBind (cStage St_confirmed (Some (rp_hash r)) ''Previous transaction confirmed.'') (\<lambda>_.
           pReturn True)))))))
       | None \<Rightarrow> rest))
     else
       pDemand (replacementHash \<in> {None, Some ''''})
         ''The original transaction's nonce could not be recovered. The replacement cannot safely be matched yet; retry with an RPC that retains the original transaction.''
         rest)))"

definition orText :: "string option \<Rightarrow> string option \<Rightarrow> string option" where
  "orText a b = (case a of Some x \<Rightarrow> Some x | None \<Rightarrow> b)"

definition flightOf :: "string \<Rightarrow> bool outcome option client" where
  "flightOf key = (\<lambda>w t s. (Inr (cl_flight (w t) key), t, s))"

definition reconcilePending :: "viem \<Rightarrow> deployment \<Rightarrow> string option \<Rightarrow> bool client" where
  "reconcilePending lib m replacementHash =
     pBind (pGet pc_account) (\<lambda>acc.
     case acc of
       None \<Rightarrow> pReturn False
     | Some account \<Rightarrow>
         let key = pendingKey m account in
         pBind (cStorage (\<lambda>now. loadPending (vi_looseAddress lib) now key)) (\<lambda>saved.
         pBind (pGet (\<lambda>s. pc_hashes s key)) (\<lambda>kept.
         case orText saved kept of
           None \<Rightarrow>
             pDemand (replacementHash \<in> {None, Some ''''}) ''No pending transaction is saved for this wallet and market.'' (pReturn False)
         | Some hash \<Rightarrow>
             if hash = ''''
             then pDemand (replacementHash \<in> {None, Some ''''}) ''No pending transaction is saved for this wallet and market.'' (pReturn False)
             else
               pBind (flightOf (js_lower key @ '':'' @ hash @ '':'' @ (case replacementHash of Some h \<Rightarrow> h | None \<Rightarrow> ''automatic''))) (\<lambda>existing.
               case existing of
                 Some operation \<Rightarrow> cRead (\<lambda>_. operation)
               | None \<Rightarrow> reconcileSavedPending lib m account key hash replacementHash))))"

end
