(* ===== verification/P2P_Actions.thy ===== *)
theory P2P_Actions
  imports P2P_Writes
begin

text \<open>
  The one path on which the peer-to-peer client asks the wallet to sign, and the actions of
  a page on it (p2p/client.ts, from \<open>write\<close> to the end of the class).
\<close>

section \<open>Asking the wallet\<close>

definition cSend :: "wallet_call \<Rightarrow> string client" where
  "cSend call = pBind (pModify (\<lambda>s. s\<lparr>pc_requests := pc_requests s @ [call]\<rparr>)) (\<lambda>_. cRead (\<lambda>w. cl_send w call))"

text \<open>What is saved of the call before its outcome is known.\<close>

definition requestOf :: "viem \<Rightarrow> wallet_call \<Rightarrow> requested_call" where
  "requestOf lib call = \<lparr>rq_to = wc_to call, rq_input = vi_encode lib (wc_function call) (wc_args call), rq_value = 0\<rparr>"

definition approveToken :: "viem \<Rightarrow> deployment \<Rightarrow> string \<Rightarrow> string \<Rightarrow> int \<Rightarrow> unit client" where
  "approveToken lib m account token amount =
    (let call = \<lparr>wc_to = token, wc_function = ''approve'', wc_args = [Arg_address (dp_address m), Arg_uint amount]\<rparr> in
     pBind (assertWallet m (Some account)) (\<lambda>_.
     pBind (cRead (\<lambda>w. cl_simulate w account call)) (\<lambda>_.
     pBind (assertWallet m (Some account)) (\<lambda>_.
     pBind (cStage St_signature None (if amount = 0 then ''Confirm clearing the previous token allowance in your wallet.''
       else ''Confirm the exact token approval in your wallet.'')) (\<lambda>_.
     pBind (cSend call) (\<lambda>hash.
     pBind (receipt lib m hash ''Token approval'' account (Some (requestOf lib call)) False) (\<lambda>_.
     pReturn ())))))))"

definition approvalAmounts :: "int \<Rightarrow> int \<Rightarrow> int list" where
  "approvalAmounts allowance amount = (if allowance = amount then [] else if allowance = 0 then [amount] else [0, amount])"

definition approveAll :: "viem \<Rightarrow> deployment \<Rightarrow> string \<Rightarrow> (string \<times> int) option \<Rightarrow> unit client" where
  "approveAll lib m account approval =
    (case approval of
       None \<Rightarrow> pReturn ()
     | Some (token, amount) \<Rightarrow>
         pBind (cRead (\<lambda>w. cl_uint w token ''allowance'' [Arg_address account, Arg_address (dp_address m)] None)) (\<lambda>allowance.
         pBind (cMap (approveToken lib m account token) (approvalAmounts allowance amount)) (\<lambda>_. pReturn ())))"

text \<open>\<open>parts.join(separator)\<close>\<close>

fun joinText :: "string \<Rightarrow> string list \<Rightarrow> string" where
  "joinText separator [] = ''''"
| "joinText separator [x] = x"
| "joinText separator (x # xs) = x @ separator @ joinText separator xs"

definition newExposure :: "string \<Rightarrow> bool" where
  "newExposure functionName \<longleftrightarrow> functionName \<in> {''createOffer'', ''acceptOffer''}"

definition offerArgument :: "wallet_call \<Rightarrow> int option" where
  "offerArgument call = (if wc_function call = ''acceptOffer'' then (case wc_args call of Arg_uint i # _ \<Rightarrow> Some i | _ \<Rightarrow> None) else None)"

text \<open>\<open>check\<close>: the contract is the verified one and, for new loans, the market is healthy.\<close>

definition checkMarket :: "viem \<Rightarrow> deployment \<Rightarrow> wallet_call \<Rightarrow> unit client" where
  "checkMarket lib m call =
     pBind (verify lib m) (\<lambda>block.
     if newExposure (wc_function call)
     then pBind (readP2PHealth lib m block (offerArgument call)) (\<lambda>health.
       pDemand (hl_status health = H_ok) (joinText '' '' (hl_reasons health)) (pReturn ()))
     else pReturn ())"

definition writeSteps :: "viem \<Rightarrow> deployment \<Rightarrow> wallet_call \<Rightarrow> (string \<times> int) option \<Rightarrow> unit client option \<Rightarrow> string client" where
  "writeSteps lib m call approval beforeSend =
     pBind (pGet pc_account) (\<lambda>acc.
     pBind (assertWallet m acc) (\<lambda>account.
     pBind (cStorage (\<lambda>_ b. and_then (requirePendingStorage b) (\<lambda>b'. Inr ((), b')))) (\<lambda>_.
     pBind (reconcilePending lib m None) (\<lambda>settled.
     pDemand (\<not> settled) ''The previous transaction is now confirmed. Review your refreshed balances before submitting another action.''
    (pBind (checkMarket lib m call) (\<lambda>_.
     pBind (approveAll lib m account approval) (\<lambda>_.
     pBind (assertWallet m (Some account)) (\<lambda>_.
     pBind (checkMarket lib m call) (\<lambda>_.
     pBind (cRead (\<lambda>w. cl_simulate w account call)) (\<lambda>_.
     pBind (assertWallet m (Some account)) (\<lambda>_.
     pBind (case beforeSend of Some f \<Rightarrow> f | None \<Rightarrow> pReturn ()) (\<lambda>_.
     pBind (assertWallet m (Some account)) (\<lambda>_.
     pBind (cStage St_signature None ''Review and confirm the loan transaction in your wallet.'') (\<lambda>_.
     pBind (cSend call) (\<lambda>hash.
     receipt lib m hash ''Loan transaction'' account (Some (requestOf lib call)) False)))))))))))))))"

definition offerTaken :: string where
  "offerTaken = ''This offer is no longer available. It was accepted, cancelled or expired before your acceptance. No loan was opened. A token approval already confirmed may remain; you can revoke it in your wallet.''"

definition writeError :: "viem \<Rightarrow> wallet_call \<Rightarrow> string \<Rightarrow> string" where
  "writeError lib call e =
     (if wc_function call = ''acceptOffer'' \<and> vi_revertName lib e \<in> {Some ''WrongStatus'', Some ''OfferExpired''} then offerTaken else e)"

definition setBusy :: "bool \<Rightarrow> unit client" where
  "setBusy b = pModify (\<lambda>s. s\<lparr>pc_busy := b\<rparr>)"

definition write_call :: "viem \<Rightarrow> deployment \<Rightarrow> wallet_call \<Rightarrow> (string \<times> int) option \<Rightarrow> unit client option \<Rightarrow> string client" where
  "write_call lib m call approval beforeSend =
     pBind (pGet pc_busy) (\<lambda>busy.
     pDemand (\<not> busy) ''A wallet action is already in progress.''
    (pBind (setBusy True) (\<lambda>_.
     pCatch (pBind (writeSteps lib m call approval beforeSend) (\<lambda>hash. pBind (setBusy False) (\<lambda>_. pReturn hash)))
       (\<lambda>e. pBind (setBusy False) (\<lambda>_. pThrow (writeError lib call e))))))"

definition marketCall :: "deployment \<Rightarrow> string \<Rightarrow> call_arg list \<Rightarrow> wallet_call" where
  "marketCall m functionName args = \<lparr>wc_to = dp_address m, wc_function = functionName, wc_args = args\<rparr>"

definition act :: "viem \<Rightarrow> deployment \<Rightarrow> string \<Rightarrow> call_arg list \<Rightarrow> string client" where
  "act lib m functionName args = write_call lib m (marketCall m functionName args) None None"

section \<open>Offers\<close>

definition isLegacyMarket :: "deployment \<Rightarrow> bool" where
  "isLegacyMarket m \<longleftrightarrow> dp_legacy m = Some True"

text \<open>The terms of a new offer, with the connected account.\<close>

definition termsOk :: "viem \<Rightarrow> deployment \<Rightarrow> string option \<Rightarrow> terms \<Rightarrow> bool" where
  "termsOk lib m account k \<longleftrightarrow>
     vi_isAddress lib (tm_borrower k) \<and> \<not> (marketVersion m < 2 \<and> zeroAddressText (tm_borrower k))
     \<and> \<not> sameAddress (tm_borrower k) (dp_address m)
     \<and> (case account of Some a \<Rightarrow> \<not> sameAddress (tm_borrower k) a | None \<Rightarrow> True)
     \<and> tm_principal k > 0 \<and> tm_collateral k > 0 \<and> tm_collateral k \<le> MAX_UINT256
     \<and> tm_interest k \<ge> 0 \<and> tm_principal k \<le> MAX_UINT256 - tm_interest k
     \<and> isSafeInteger (tm_durationDays k) \<and> tm_durationDays k > 0
     \<and> \<not> (marketVersion m < 2 \<and> (tm_interest k > tdiv (tm_principal k) 10 \<or> tm_durationDays k \<notin> {7, 14, 30}))"

definition createOffer :: "viem \<Rightarrow> deployment \<Rightarrow> terms \<Rightarrow> unit client option \<Rightarrow> string client" where
  "createOffer lib m k beforeSend =
     pDemand (\<not> isLegacyMarket m) ''This market is retained for existing loans. Create offers in the current market.''
    (pBind (pGet pc_account) (\<lambda>account.
     pDemand (termsOk lib m account k) ''Check the borrower, amounts, fixed interest and loan duration.''
    (pBind (verify lib m) (\<lambda>block.
     pDemand (isSafeInteger (tm_expiresAt k) \<and> tm_expiresAt k > vb_timestamp block) ''Choose an offer expiry after the current chain time.''
    (pDemand (\<not> (marketVersion m < 2 \<and> tm_expiresAt k > vb_timestamp block + 3600))
       ''The legacy offer expiry must be within one hour of the current chain time.''
    (pDemand (tm_expiresAt k + tm_durationDays k * 86400 + 86400 \<le> MAX_TIME) ''The selected terms exceed the supported calendar range.''
    (write_call lib m (marketCall m ''createOffer'' [Arg_address (tm_borrower k), Arg_uint (tm_principal k), Arg_uint (tm_collateral k),
         Arg_uint (tm_interest k), Arg_uint (tm_durationDays k * 86400), Arg_uint (tm_expiresAt k)])
       (Some (dp_loanToken m, tm_principal k)) beforeSend)))))))"

definition loanRow :: "deployment \<Rightarrow> int \<Rightarrow> offer_row client" where
  "loanRow m i = cRead (\<lambda>w. cl_offer w (dp_address m) i None)"

definition accept_offer :: "viem \<Rightarrow> deployment \<Rightarrow> int \<Rightarrow> string client" where
  "accept_offer lib m i =
     pDemand (\<not> isLegacyMarket m) ''New borrowing is closed in this retained market. Choose a current offer.''
    (pBind (loanRow m i) (\<lambda>row.
     pDemand (or_status row = 1) ''This offer is no longer available. It may have been accepted, cancelled or expired.''
    (pBind (pGet pc_account) (\<lambda>acc.
     pDemand (case acc of Some a \<Rightarrow> \<not> sameAddress (or_lender row) a | None \<Rightarrow> False) ''Connect a borrower wallet different from the lender.''
    (pDemand (marketVersion m \<ge> 2 \<and> zeroAddressText (or_borrower row) \<or> same acc (or_borrower row))
       ''Only the named borrower can accept this private offer.''
    (pBind (verify lib m) (\<lambda>block.
     pDemand (or_expiresAt row > vb_timestamp block) ''This offer has expired. Choose another offer.''
       (write_call lib m (marketCall m ''acceptOffer'' [Arg_uint i]) (Some (dp_collateralToken m, or_collateral row)) None))))))))"

definition repay_loan :: "viem \<Rightarrow> deployment \<Rightarrow> int \<Rightarrow> string client" where
  "repay_loan lib m i =
     pBind (loanRow m i) (\<lambda>row.
     pDemand (or_status row = 2) ''Only an active loan can be repaid.''
       (write_call lib m (marketCall m ''repay'' [Arg_uint i]) (Some (dp_loanToken m, or_principal row + or_interest row)) None))"

definition cancel_offer :: "viem \<Rightarrow> deployment \<Rightarrow> int \<Rightarrow> string client" where
  "cancel_offer lib m i = act lib m ''cancelOffer'' [Arg_uint i]"

definition expire_offer :: "viem \<Rightarrow> deployment \<Rightarrow> int \<Rightarrow> string client" where
  "expire_offer lib m i = act lib m ''expireOffer'' [Arg_uint i]"

definition claim_default :: "viem \<Rightarrow> deployment \<Rightarrow> int \<Rightarrow> string client" where
  "claim_default lib m i = act lib m ''claimDefault'' [Arg_uint i]"

section \<open>Credits\<close>

datatype credit_token = Tk_USDG | Tk_COLLATERAL

definition tokenAddress :: "deployment \<Rightarrow> credit_token \<Rightarrow> string" where
  "tokenAddress m token = (case token of Tk_USDG \<Rightarrow> dp_loanToken m | Tk_COLLATERAL \<Rightarrow> dp_collateralToken m)"

definition recipientOk :: "viem \<Rightarrow> deployment \<Rightarrow> string \<Rightarrow> bool" where
  "recipientOk lib m recipient \<longleftrightarrow> vi_isAddress lib recipient \<and> \<not> zeroAddressText recipient \<and> \<not> sameAddress recipient (dp_address m)"

definition withdraw_funds :: "viem \<Rightarrow> deployment \<Rightarrow> string \<Rightarrow> int \<Rightarrow> string \<Rightarrow> string client" where
  "withdraw_funds lib m token amount recipient =
     pDemand (dp_version m \<noteq> Some 3) ''V3 credits must be withdrawn from their individual loan vault.''
    (pDemand (recipientOk lib m recipient \<and> amount > 0) ''Enter a valid withdrawal recipient and amount.''
       (act lib m ''withdraw'' [Arg_address (if token = ''USDG'' then dp_loanToken m else dp_collateralToken m), Arg_uint amount, Arg_address recipient]))"

definition creditOfLoan :: "loan \<Rightarrow> credit_token \<Rightarrow> loan_credit client" where
  "creditOfLoan l token = (case ln_loanCredits l of
     None \<Rightarrow> pThrow ''Cannot read properties of undefined''
   | Some c \<Rightarrow> pReturn (case token of Tk_USDG \<Rightarrow> cr_USDG c | Tk_COLLATERAL \<Rightarrow> cr_COLLATERAL c))"

text \<open>The loan's credit in the token, and the connected account, for a withdrawal from its vault.\<close>

definition creditFor :: "viem \<Rightarrow> deployment \<Rightarrow> int \<Rightarrow> credit_token \<Rightarrow> string \<Rightarrow> (loan \<times> loan_credit \<times> string option) client" where
  "creditFor lib m i token recipient =
     pDemand (dp_version m = Some 3) ''This action requires a V3 loan.''
    (pDemand (recipientOk lib m recipient) ''Enter a valid withdrawal recipient.''
    (pBind (getLoan lib m i) (\<lambda>l.
     pBind (creditOfLoan l token) (\<lambda>credit.
     pBind (pGet pc_account) (\<lambda>account. pReturn (l, credit, account))))))"

definition ownCredit :: "loan_credit \<Rightarrow> string option \<Rightarrow> bool" where
  "ownCredit credit account \<longleftrightarrow> same account (lc_beneficiary credit)"

definition ofVault :: "loan \<Rightarrow> string \<Rightarrow> bool" where
  "ofVault l recipient \<longleftrightarrow> (case ln_vault l of Some v \<Rightarrow> sameAddress recipient v | None \<Rightarrow> False)"

definition withdrawCredit :: "viem \<Rightarrow> deployment \<Rightarrow> int \<Rightarrow> credit_token \<Rightarrow> int \<Rightarrow> string \<Rightarrow> string client" where
  "withdrawCredit lib m i token amount recipient =
     pBind (creditFor lib m i token recipient) (\<lambda>(l, credit, account).
     pDemand (ownCredit credit account \<and> amount > 0 \<and> amount \<le> lc_available credit \<and> \<not> ofVault l recipient)
       ''Choose an available credit owned by your wallet and a valid recipient.''
       (act lib m ''withdrawCredit'' [Arg_uint i, Arg_address (tokenAddress m token), Arg_uint amount, Arg_address recipient]))"

definition withdrawAvailableCredit :: "viem \<Rightarrow> deployment \<Rightarrow> int \<Rightarrow> credit_token \<Rightarrow> int \<Rightarrow> string \<Rightarrow> string client" where
  "withdrawAvailableCredit lib m i token minReceived recipient =
     pBind (creditFor lib m i token recipient) (\<lambda>(l, credit, account).
     pDemand (ownCredit credit account \<and> lc_nominal credit > 0 \<and> minReceived \<ge> 0 \<and> minReceived \<le> lc_available credit \<and> \<not> ofVault l recipient)
       ''Choose a credit owned by your wallet, a valid recipient and a valid minimum recovery amount.''
       (act lib m ''withdrawAvailableCredit'' [Arg_uint i, Arg_address (tokenAddress m token), Arg_uint minReceived, Arg_address recipient]))"

definition sourcesOk :: "int \<Rightarrow> (int \<times> int) list \<Rightarrow> int \<Rightarrow> bool" where
  "sourcesOk i sources walletAmount \<longleftrightarrow> length sources \<le> 16 \<and> walletAmount \<ge> 0
     \<and> list_all (\<lambda>(source, amount). source > 0 \<and> source \<noteq> i \<and> amount > 0) sources \<and> sorted_wrt (<) (map fst sources)"

fun checkSources :: "viem \<Rightarrow> deployment \<Rightarrow> (int \<times> int) list \<Rightarrow> unit client" where
  "checkSources lib m [] = pReturn ()"
| "checkSources lib m ((source, amount) # sources) =
     pBind (getLoan lib m source) (\<lambda>l.
     pBind (creditOfLoan l Tk_USDG) (\<lambda>credit.
     pBind (pGet pc_account) (\<lambda>account.
     pDemand (ownCredit credit account \<and> amount \<le> lc_available credit) ''A selected loan credit is unavailable or belongs to another wallet.''
       (checkSources lib m sources))))"

definition repayWithCredits :: "viem \<Rightarrow> deployment \<Rightarrow> int \<Rightarrow> int list \<Rightarrow> int list \<Rightarrow> int \<Rightarrow> string client" where
  "repayWithCredits lib m i sourceIds sourceAmounts walletAmount =
     pDemand (dp_version m = Some 3) ''This action requires a V3 loan.''
    (pDemand (length sourceIds = length sourceAmounts \<and> sourcesOk i (zip sourceIds sourceAmounts) walletAmount)
       ''Choose up to 16 distinct credit sources in ascending loan order.''
    (pBind (getLoan lib m i) (\<lambda>l.
     pBind (pGet pc_account) (\<lambda>account.
     pDemand (ln_status l = Ls_active \<and> account \<noteq> None) ''Connect your wallet to repay this active loan with your own credits.''
    (pDemand (sum_list sourceAmounts + walletAmount = ln_principal l + ln_interest l)
       ''Credits and wallet payment must exactly cover the full repayment.''
    (pBind (checkSources lib m (zip sourceIds sourceAmounts)) (\<lambda>_.
     write_call lib m (marketCall m ''repayWithCredits'' [Arg_uint i, Arg_uints sourceIds, Arg_uints sourceAmounts, Arg_uint walletAmount])
       (if walletAmount > 0 then Some (dp_loanToken m, walletAmount) else None) None)))))))"

section \<open>Extensions\<close>

definition loanParty :: "loan \<Rightarrow> string option \<Rightarrow> bool" where
  "loanParty l account \<longleftrightarrow> same account (ln_lender l) \<or> same account (ln_borrower l)"

definition proposeExtension :: "viem \<Rightarrow> deployment \<Rightarrow> int \<Rightarrow> int \<Rightarrow> int \<Rightarrow> string client" where
  "proposeExtension lib m i newDeadline expiresAt =
     pDemand (dp_version m = Some 3) ''This action requires a V3 loan.''
    (pBind (verify lib m) (\<lambda>block.
     pBind (getLoan lib m i) (\<lambda>l.
     pBind (pGet pc_account) (\<lambda>account.
     pDemand (ln_status l = Ls_active \<and> loanParty l account \<and> isSafeInteger newDeadline \<and> isSafeInteger expiresAt \<and> newDeadline \<le> MAX_TIME
         \<and> (case ln_repaymentDeadline l of Some d \<Rightarrow> newDeadline > d | None \<Rightarrow> True) \<and> newDeadline > vb_timestamp block
         \<and> expiresAt > vb_timestamp block \<and> expiresAt \<le> newDeadline)
       ''Choose a later final deadline and a proposal expiry before that new deadline.''
       (act lib m ''proposeExtension'' [Arg_uint i, Arg_uint newDeadline, Arg_uint expiresAt])))))"

definition sameProposal :: "extension_proposal \<Rightarrow> extension_proposal \<Rightarrow> bool" where
  "sameProposal current proposal \<longleftrightarrow> ep_nonce current = ep_nonce proposal \<and> ep_oldDeadline current = ep_oldDeadline proposal
     \<and> ep_newDeadline current = ep_newDeadline proposal \<and> ep_expiresAt current = ep_expiresAt proposal
     \<and> sameAddress (ep_proposer current) (ep_proposer proposal)"

definition acceptExtension :: "viem \<Rightarrow> deployment \<Rightarrow> int \<Rightarrow> extension_proposal \<Rightarrow> string client" where
  "acceptExtension lib m i proposal =
     pDemand (dp_version m = Some 3) ''This action requires a V3 loan.''
    (pBind (getLoan lib m i) (\<lambda>l.
     pBind (pGet pc_account) (\<lambda>account.
     case (account, ln_extensionProposal l) of
       (Some a, Some current) \<Rightarrow>
         pDemand (ln_status l = Ls_active \<and> loanParty l account \<and> \<not> sameAddress (ep_proposer current) a
             \<and> \<not> zeroAddressText (ep_proposer current) \<and> sameProposal current proposal)
           ''The extension changed or cannot be accepted by this wallet. Review the current proposal.''
           (act lib m ''acceptExtension'' [Arg_uint i, Arg_uint (ep_nonce proposal), Arg_uint (ep_oldDeadline proposal),
              Arg_uint (ep_newDeadline proposal), Arg_uint (ep_expiresAt proposal)])
     | (None, _) \<Rightarrow> pThrow ''The extension changed or cannot be accepted by this wallet. Review the current proposal.''
     | _ \<Rightarrow> pThrow ''Cannot read properties of undefined'')))"

definition cancelExtension :: "viem \<Rightarrow> deployment \<Rightarrow> int \<Rightarrow> int \<Rightarrow> string client" where
  "cancelExtension lib m i nonce =
     pDemand (dp_version m = Some 3) ''This action requires a V3 loan.''
    (pDemand (i > 0 \<and> nonce > 0) ''Choose a current extension proposal.'' (act lib m ''cancelExtension'' [Arg_uint i, Arg_uint nonce]))"

end
