(* ===== verification/P2P_Quiet.thy ===== *)
theory P2P_Quiet
  imports P2P_Actions
begin

text \<open>
  Computations of the client that leave a condition on its state alone: \<open>quiet\<close>. The
  reads of the client touch the caches only, so a condition that does not look at them is kept by
  every read (\<open>readFrame\<close>); the handling of a transaction also touches the storage, the
  remembered hashes and the stages shown (\<open>frame\<close>).
\<close>

definition quiet :: "(nat \<Rightarrow> client_world) \<Rightarrow> (client_state \<Rightarrow> bool) \<Rightarrow> 'a client \<Rightarrow> bool" where
  "quiet w P m \<longleftrightarrow> triple w P m (\<lambda>_. P) P"

named_theorems quiet_rules \<open>how a composed computation is quiet when its parts are\<close>

lemma quiet_basic [quiet_rules]:
  "quiet w P (pReturn x)" "quiet w P (pThrow e)" "quiet w P (pLift r)" "quiet w P (pGet f)" "quiet w P cNow"
  by (simp_all add: quiet_def triple_return triple_throw triple_lift triple_get) (simp add: triple_def cNow_def)

lemma quiet_peek [quiet_rules]: "quiet w P signalAborted" "quiet w P (flightOf key)" "quiet w P (currentAccount a)"
  by (simp_all add: quiet_def triple_def signalAborted_def flightOf_def currentAccount_def pGet_def)

lemma quiet_bind [quiet_rules]: "quiet w P m \<Longrightarrow> (\<And>x. quiet w P (k x)) \<Longrightarrow> quiet w P (pBind m k)"
  unfolding quiet_def by (rule triple_bind)

lemma quiet_demand [quiet_rules]: "(ok \<Longrightarrow> quiet w P m) \<Longrightarrow> quiet w P (pDemand ok e m)"
  unfolding quiet_def by (rule triple_demand)

lemma quiet_if [quiet_rules]: "(b \<Longrightarrow> quiet w P m) \<Longrightarrow> (\<not> b \<Longrightarrow> quiet w P m') \<Longrightarrow> quiet w P (if b then m else m')"
  by simp

lemma quiet_option [quiet_rules]: "(x = None \<Longrightarrow> quiet w P m) \<Longrightarrow> (\<And>y. x = Some y \<Longrightarrow> quiet w P (k y)) \<Longrightarrow>
    quiet w P (case x of None \<Rightarrow> m | Some y \<Rightarrow> k y)"
  by (cases x) simp_all

lemma quiet_pair [quiet_rules]: "(\<And>a b. x = (a, b) \<Longrightarrow> quiet w P (k a b)) \<Longrightarrow> quiet w P (case x of (a, b) \<Rightarrow> k a b)"
  by (cases x) simp

lemma quiet_list [quiet_rules]: "(x = [] \<Longrightarrow> quiet w P m) \<Longrightarrow> (\<And>a as. x = a # as \<Longrightarrow> quiet w P (k a as)) \<Longrightarrow>
    quiet w P (case x of [] \<Rightarrow> m | a # as \<Rightarrow> k a as)"
  by (cases x) simp_all

lemma quiet_catch [quiet_rules]: "quiet w P m \<Longrightarrow> (\<And>e. quiet w P (h e)) \<Longrightarrow> quiet w P (pCatch m h)"
  unfolding quiet_def by (rule triple_catch)

lemma quiet_cTry [quiet_rules]: "quiet w P m \<Longrightarrow> quiet w P (cTry m)"
  unfolding quiet_def by (rule triple_cTry)

lemma quiet_cMap [quiet_rules]: "(\<And>x. quiet w P (f x)) \<Longrightarrow> quiet w P (cMap f xs)"
  unfolding quiet_def by (rule triple_cMap)

lemma quiet_cRead: "stable w P \<Longrightarrow> quiet w P (cRead f)"
  unfolding quiet_def by (rule triple_cRead)

lemma quiet_cChain: "stable w P \<Longrightarrow> quiet w P (cChain m)"
  unfolding quiet_def by (rule triple_cChain)

lemma quiet_modify: "(\<And>s. P s \<Longrightarrow> P (f s)) \<Longrightarrow> quiet w P (pModify f)"
  unfolding quiet_def by (rule triple_modify)

lemma quietD: "quiet w P m \<Longrightarrow> P s \<Longrightarrow> m w t s = (r, t', s') \<Longrightarrow> P s'"
  unfolding quiet_def by (rule tripleD_any)

text \<open>What a result says of the world and what the state keeps go together.\<close>

lemma triple_facts:
  assumes "quiet w P m" and "triple w (\<lambda>_. True) m (\<lambda>x _. F x) (\<lambda>_. True)"
  shows "triple w P m (\<lambda>x s. P s \<and> F x) P"
proof -
  have "case m w t s of (Inr x, _, s') \<Rightarrow> P s' \<and> F x | (Inl e, _, s') \<Rightarrow> P s'" if "P s" for t s
  proof (cases "m w t s")
    case (fields r t' s')
    show ?thesis
      using tripleD_Inr [OF assms(2), where s = s and t = t] quietD [OF assms(1) that fields] fields by (cases r) simp_all
  qed
  then show ?thesis unfolding triple_def by (intro allI impI)
qed

section \<open>Reads\<close>

definition readFrame :: "(nat \<Rightarrow> client_world) \<Rightarrow> (client_state \<Rightarrow> bool) \<Rightarrow> bool" where
  "readFrame w P \<longleftrightarrow> stable w P \<and> (\<forall>s x. P s \<longrightarrow> P (s\<lparr>pc_tokens := x\<rparr>)) \<and> (\<forall>s x. P s \<longrightarrow> P (s\<lparr>pc_baselines := x\<rparr>))"

lemma readFrame_reads:
  assumes "readFrame w P"
  shows "stable w P" and "quiet w P (cRead f)" and "quiet w P (cChain m)"
  using assms by (auto simp: readFrame_def intro: quiet_cRead quiet_cChain)

lemma readFrame_caches:
  assumes "readFrame w P"
  shows "quiet w P (pModify (\<lambda>s. s\<lparr>pc_tokens := f s\<rparr>))" and "quiet w P (pModify (\<lambda>s. if c s then s\<lparr>pc_tokens := f s\<rparr> else s))"
    and "quiet w P (pModify (\<lambda>s. s\<lparr>pc_baselines := g s\<rparr>))"
  using assms by (auto simp: readFrame_def intro!: quiet_modify)

lemmas readFrame_steps = readFrame_reads(2,3) readFrame_caches

lemma quiet_verify:
  assumes "readFrame w P"
  shows "quiet w P (verify lib m)"
  unfolding verify_def by (rule quiet_rules readFrame_steps [OF assms])+

lemma quiet_codeHash:
  assumes "readFrame w P"
  shows "quiet w P (codeHash lib a b)"
  unfolding codeHash_def by (rule quiet_rules readFrame_steps [OF assms])+

lemma quiet_pausedChecks:
  assumes "readFrame w P"
  shows "quiet w P (pausedChecks a b names)"
  by (induction names) (simp_all, (rule quiet_rules readFrame_steps [OF assms] | assumption)+)

lemma quiet_checkToken:
  assumes "readFrame w P"
  shows "quiet w P (checkToken lib k b)"
  unfolding checkToken_def beaconChanged_def implementationChanged_def
  by (rule quiet_rules readFrame_steps [OF assms] quiet_codeHash [OF assms] quiet_pausedChecks [OF assms])+

lemma quiet_inspectToken:
  assumes "readFrame w P"
  shows "quiet w P (inspectToken lib k b)"
  unfolding inspectToken_def by (rule quiet_rules readFrame_steps [OF assms] quiet_checkToken [OF assms])+

lemma quiet_restrictions:
  assumes "readFrame w P"
  shows "quiet w P (escrowRestrictions r target b k)"
proof -
  have "quiet w P (restrictions r a target b names)" for a names
    by (induction names) (simp_all, (rule quiet_rules readFrame_steps [OF assms] | assumption)+)
  then show ?thesis by (simp add: escrowRestrictions_def)
qed

lemma quiet_custody:
  assumes "readFrame w P"
  shows "quiet w P (vaultHealth lib m ks b i)" "quiet w P (escrowHealth m b)"
  unfolding vaultHealth_def escrowHealth_def offerVault_def Let_def
  by (rule quiet_rules readFrame_steps [OF assms] quiet_codeHash [OF assms] quiet_restrictions [OF assms])+

lemma quiet_healthReasons:
  assumes "readFrame w P"
  shows "quiet w P (healthReasons lib m k b now i started)"
  unfolding healthReasons_def tokenReasons_def Let_def
  by (rule quiet_rules readFrame_steps [OF assms] quiet_codeHash [OF assms] quiet_inspectToken [OF assms] quiet_restrictions [OF assms] quiet_custody [OF assms])+

lemma quiet_health:
  assumes "readFrame w P"
  shows "quiet w P (readP2PHealth lib m b i)"
  unfolding readP2PHealth_def inspectP2PHealth_def loadBaseline_def Let_def
  by (rule quiet_rules readFrame_steps [OF assms] quiet_healthReasons [OF assms])+

lemma quiet_readLoans:
  assumes "readFrame w P"
  shows "quiet w P (readLoans lib m ids at)"
  unfolding readLoans_def readLoan_def readV3LoanDetails_def by (rule quiet_rules readFrame_steps [OF assms])+

lemma quiet_getLoan:
  assumes "readFrame w P"
  shows "quiet w P (getLoan lib m i)"
  unfolding getLoan_def by (rule quiet_rules readFrame_steps [OF assms] quiet_verify [OF assms] quiet_readLoans [OF assms])+

lemma quiet_assertWallet:
  assumes "readFrame w P"
  shows "quiet w P (assertWallet m e)"
  unfolding assertWallet_def by (rule quiet_rules readFrame_steps [OF assms])+

lemma quiet_checkMarket:
  assumes "readFrame w P"
  shows "quiet w P (checkMarket lib m call)"
  unfolding checkMarket_def by (rule quiet_rules readFrame_steps [OF assms] quiet_verify [OF assms] quiet_health [OF assms])+

section \<open>The handling of transactions\<close>

definition frame :: "(nat \<Rightarrow> client_world) \<Rightarrow> (client_state \<Rightarrow> bool) \<Rightarrow> bool" where
  "frame w P \<longleftrightarrow> readFrame w P \<and> (\<forall>s x. P s \<longrightarrow> P (s\<lparr>pc_storage := x\<rparr>)) \<and> (\<forall>s x. P s \<longrightarrow> P (s\<lparr>pc_hashes := x\<rparr>))
     \<and> (\<forall>s x. P s \<longrightarrow> P (s\<lparr>pc_stages := x\<rparr>))"

lemma frame_read: "frame w P \<Longrightarrow> readFrame w P"
  by (simp add: frame_def)

lemma frame_steps:
  assumes "frame w P"
  shows "quiet w P (cStorage f)" and "quiet w P (cStage a b c)" and "quiet w P (forgetHash key hash)"
    and "quiet w P (pModify (\<lambda>s. s\<lparr>pc_hashes := g s\<rparr>))"
  using assms
  by (auto simp: frame_def quiet_def triple_def cStorage_def cStage_def forgetHash_def pModify_def split: sum.split)

lemma quiet_attempts:
  assumes "frame w P"
  shows "quiet w P (captureAttempts n lib key hash account requested)"
proof -
  have attempt: "quiet w P (captureAttempt lib key hash account requested)"
    unfolding captureAttempt_def loadRecord_def Let_def
    by (rule quiet_rules readFrame_steps [OF frame_read [OF assms]] frame_steps [OF assms])+
  show ?thesis
  proof (induction n)
    case (Suc n)
    show ?case
      unfolding captureAttempts.simps
      by (rule quiet_rules readFrame_steps [OF frame_read [OF assms]] attempt Suc)+
  qed (simp add: quiet_rules)
qed

lemma quiet_capture:
  assumes "frame w P"
  shows "quiet w P (capturePendingIntent lib m hash account expected)"
  unfolding capturePendingIntent_def loadRecord_def Let_def
  by (rule quiet_rules frame_steps [OF assms] quiet_attempts [OF assms])+

lemma quiet_currentPending:
  assumes "frame w P"
  shows "quiet w P (currentPending lib key hash)"
  unfolding currentPending_def loadRecord_def Let_def by (rule quiet_rules frame_steps [OF assms])+

lemma quiet_receipt:
  assumes "frame w P"
  shows "quiet w P (receipt lib m hash label account expected recovering)"
  unfolding receipt_def Let_def
  by (rule quiet_rules readFrame_steps [OF frame_read [OF assms]] frame_steps [OF assms] quiet_capture [OF assms] quiet_currentPending [OF assms])+

lemma quiet_reconcile:
  assumes "frame w P"
  shows "quiet w P (reconcilePending lib m replacementHash)"
  unfolding reconcilePending_def reconcileSavedPending_def Let_def
  by (rule quiet_rules readFrame_steps [OF frame_read [OF assms]] frame_steps [OF assms] quiet_capture [OF assms]
      quiet_currentPending [OF assms] quiet_verify [OF frame_read [OF assms]] quiet_receipt [OF assms])+

end
