(* ===== verification/P2P_Facts.thy ===== *)
theory P2P_Facts
  imports P2P_Quiet
begin

text \<open>
  What the result of a computation of the client says about the world it was read
  from (\<open>learns\<close>), and what a verified contract, a healthy market and a well-formed loan are.
\<close>

definition learns :: "(nat \<Rightarrow> client_world) \<Rightarrow> 'a client \<Rightarrow> ('a \<Rightarrow> bool) \<Rightarrow> bool" where
  "learns w m F \<longleftrightarrow> (\<forall>t s x t' s'. m w t s = (Inr x, t', s') \<longrightarrow> F x)"

named_theorems learns_rules \<open>what the results of a composed computation say\<close>

lemma learnsD: "learns w m F \<Longrightarrow> m w t s = (Inr x, t', s') \<Longrightarrow> F x"
  unfolding learns_def by blast

lemma learns_triple: "learns w m F \<Longrightarrow> triple w (\<lambda>_. True) m (\<lambda>x _. F x) (\<lambda>_. True)"
  unfolding triple_def by (auto split: prod.split sum.split dest: learnsD)

lemma bind_Inr: "pBind m k w t s = (Inr y, t', s') \<longleftrightarrow> (\<exists>x t1 s1. m w t s = (Inr x, t1, s1) \<and> k x w t1 s1 = (Inr y, t', s'))"
  by (auto simp: pBind_def split: prod.split sum.split)

lemma cRead_Inr: "cRead f w t s = (Inr x, t', s') \<longleftrightarrow> f (w t) = Inr x \<and> t' = Suc t \<and> s' = cl_others (w t) s"
  by (auto simp: cRead_def)

lemma pLift_Inr: "pLift r w t s = (Inr x, t', s') \<longleftrightarrow> r = Inr x \<and> t' = t \<and> s' = s"
  by (auto simp: pLift_def)

lemma learns_bind: "learns w m G \<Longrightarrow> (\<And>x. G x \<Longrightarrow> learns w (k x) F) \<Longrightarrow> learns w (pBind m k) F"
  unfolding learns_def bind_Inr by blast

lemma learns_after: "(\<And>x. learns w (k x) F) \<Longrightarrow> learns w (pBind m k) F"
  unfolding learns_def bind_Inr by blast

lemma learns_read: "(\<And>t x. f (w t) = Inr x \<Longrightarrow> learns w (k x) F) \<Longrightarrow> learns w (pBind (cRead f) k) F"
  unfolding learns_def bind_Inr cRead_Inr by blast

lemma learns_lift: "(\<And>x. r = Inr x \<Longrightarrow> learns w (k x) F) \<Longrightarrow> learns w (pBind (pLift r) k) F"
  unfolding learns_def bind_Inr pLift_Inr by blast

lemma learns_return [learns_rules]: "F x \<Longrightarrow> learns w (pReturn x) F"
  by (simp add: learns_def proc_run)

lemma learns_throw [learns_rules]: "learns w (pThrow e) F"
  by (simp add: learns_def proc_run)

lemma learns_demand [learns_rules]: "(ok \<Longrightarrow> learns w m F) \<Longrightarrow> learns w (pDemand ok e m) F"
  by (simp add: learns_def proc_run)

lemma learns_if [learns_rules]: "(b \<Longrightarrow> learns w m F) \<Longrightarrow> (\<not> b \<Longrightarrow> learns w m' F) \<Longrightarrow> learns w (if b then m else m') F"
  by simp

lemma learns_option [learns_rules]: "(x = None \<Longrightarrow> learns w m F) \<Longrightarrow> (\<And>y. x = Some y \<Longrightarrow> learns w (k y) F) \<Longrightarrow>
    learns w (case x of None \<Rightarrow> m | Some y \<Rightarrow> k y) F"
  by (cases x) simp_all

lemma learns_pair [learns_rules]: "(\<And>a b. x = (a, b) \<Longrightarrow> learns w (k a b) F) \<Longrightarrow> learns w (case x of (a, b) \<Rightarrow> k a b) F"
  by (cases x) simp

lemma learns_catch: "learns w m F \<Longrightarrow> (\<And>e. learns w (h e) F) \<Longrightarrow> learns w (pCatch m h) F"
  unfolding learns_def pCatch_def by (fastforce split: prod.splits sum.splits)

lemma learns_mono: "learns w m G \<Longrightarrow> (\<And>x. G x \<Longrightarrow> F x) \<Longrightarrow> learns w m F"
  unfolding learns_def by blast

lemma learns_cMap: "(\<And>x. x \<in> set xs \<Longrightarrow> learns w (f x) (G x)) \<Longrightarrow> learns w (cMap f xs) (\<lambda>ys. list_all2 G xs ys)"
proof (induction xs)
  case (Cons x xs)
  show ?case unfolding cMap.simps
    by (rule learns_bind [OF Cons.prems], simp, rule learns_bind [OF Cons.IH], rule Cons.prems, simp, rule learns_return, simp)
qed (simp add: learns_return)

section \<open>A verified contract\<close>

text \<open>At the block, the market's address holds the pinned code and names the pinned tokens, on the market's chain.\<close>

definition marketVerified :: "(nat \<Rightarrow> client_world) \<Rightarrow> viem \<Rightarrow> deployment \<Rightarrow> int \<Rightarrow> bool" where
  "marketVerified w lib m at \<longleftrightarrow>
     (\<exists>i. cl_chainId (w i) = Inr (dp_chainId m))
     \<and> (\<exists>i code. cl_code (w i) (dp_address m) at = Inr (Some code) \<and> vi_keccak lib code = dp_runtimeHash m)
     \<and> (\<exists>i a. cl_address (w i) (dp_address m) ''loanToken'' [] at = Inr a \<and> sameAddress a (dp_loanToken m))
     \<and> (\<exists>i a. cl_address (w i) (dp_address m) ''collateralToken'' [] at = Inr a \<and> sameAddress a (dp_collateralToken m))"

text \<open>The block was the head of the node's chain at some instant.\<close>

definition headBlock :: "(nat \<Rightarrow> client_world) \<Rightarrow> verified_block \<Rightarrow> bool" where
  "headBlock w b \<longleftrightarrow> (\<exists>i h. cl_latest (w i) = Inr h \<and> bh_number h = Some (vb_number b) \<and> bh_hash h = Some (vb_hash b)
     \<and> bh_timestamp h = vb_timestamp b)"

lemma learns_verify: "learns w (verify lib m) (\<lambda>b. marketVerified w lib m (vb_number b) \<and> headBlock w b)"
  unfolding verify_def
  by (rule learns_rules learns_read)+ (auto simp: marketVerified_def headBlock_def split: option.splits)

section \<open>A healthy market\<close>

definition truly :: "(nat \<Rightarrow> client_world) \<Rightarrow> (client_world \<Rightarrow> 'a outcome) \<Rightarrow> ('a \<Rightarrow> bool) \<Rightarrow> bool" where
  "truly w f P \<longleftrightarrow> (\<exists>i x. f (w i) = Inr x \<and> P x)"

lemma trulyI: "f (w i) = Inr x \<Longrightarrow> P x \<Longrightarrow> truly w f P"
  by (auto simp: truly_def)

text \<open>The escrow of an older market holds what it owes in both tokens.\<close>

definition escrowCovered :: "(nat \<Rightarrow> client_world) \<Rightarrow> deployment \<Rightarrow> int \<Rightarrow> bool" where
  "escrowCovered w m at \<longleftrightarrow>
    (\<exists>cash collateral reserved locked cashCredits collateralCredits.
      truly w (\<lambda>w. cl_uint w (dp_loanToken m) ''balanceOf'' [Arg_address (dp_address m)] (Some at)) (\<lambda>v. v = cash)
      \<and> truly w (\<lambda>w. cl_uint w (dp_collateralToken m) ''balanceOf'' [Arg_address (dp_address m)] (Some at)) (\<lambda>v. v = collateral)
      \<and> truly w (\<lambda>w. cl_uint w (dp_address m) ''reservedPrincipal'' [] (Some at)) (\<lambda>v. v = reserved)
      \<and> truly w (\<lambda>w. cl_uint w (dp_address m) ''lockedCollateral'' [] (Some at)) (\<lambda>v. v = locked)
      \<and> truly w (\<lambda>w. cl_uint w (dp_address m) ''totalCredits'' [Arg_address (dp_loanToken m)] (Some at)) (\<lambda>v. v = cashCredits)
      \<and> truly w (\<lambda>w. cl_uint w (dp_address m) ''totalCredits'' [Arg_address (dp_collateralToken m)] (Some at)) (\<lambda>v. v = collateralCredits)
      \<and> reserved + cashCredits \<le> cash \<and> locked + collateralCredits \<le> collateral)"

text \<open>The offer's own vault is a clone of the reviewed implementation and holds the principal; the offer is open.\<close>

definition vaultFunded :: "(nat \<Rightarrow> client_world) \<Rightarrow> deployment \<Rightarrow> verified_block \<Rightarrow> int \<Rightarrow> bool" where
  "vaultFunded w m b i \<longleftrightarrow>
    (\<exists>vault row balance implementation. dp_vaultImplementation m = Some implementation
      \<and> truly w (\<lambda>w. cl_address w (dp_address m) ''vaults'' [Arg_uint i] (vb_number b)) (\<lambda>v. v = vault)
      \<and> truly w (\<lambda>w. cl_code w vault (vb_number b)) (\<lambda>c. case c of Some code \<Rightarrow> sameAddress code (cloneCode implementation) | None \<Rightarrow> False)
      \<and> truly w (\<lambda>w. cl_offer w (dp_address m) i (Some (vb_number b))) (\<lambda>r. r = row)
      \<and> truly w (\<lambda>w. cl_uint w (dp_loanToken m) ''balanceOf'' [Arg_address vault] (Some (vb_number b))) (\<lambda>v. v = balance)
      \<and> or_status row = 1 \<and> vb_timestamp b < or_expiresAt row \<and> or_principal row \<le> balance)"

definition marketHealthy :: "(nat \<Rightarrow> client_world) \<Rightarrow> deployment \<Rightarrow> verified_block \<Rightarrow> int option \<Rightarrow> bool" where
  "marketHealthy w m b offerId \<longleftrightarrow>
     truly w (\<lambda>w. cl_bool w (dp_address m) ''newLoansPaused'' [] (vb_number b)) (\<lambda>paused. \<not> paused)
     \<and> truly w (\<lambda>w. cl_block w (vb_number b)) (\<lambda>h. same (bh_hash h) (vb_hash b))
     \<and> (if dp_version m = Some 3 then (\<forall>i. offerId = Some i \<longrightarrow> vaultFunded w m b i) else escrowCovered w m (vb_number b))"

lemma marketHealthyI:
  "truly w (\<lambda>w. cl_bool w (dp_address m) ''newLoansPaused'' [] (vb_number b)) (\<lambda>paused. \<not> paused) \<Longrightarrow>
   truly w (\<lambda>w. cl_block w (vb_number b)) (\<lambda>h. same (bh_hash h) (vb_hash b)) \<Longrightarrow>
   (if dp_version m = Some 3 then (\<forall>i. offerId = Some i \<longrightarrow> vaultFunded w m b i) else escrowCovered w m (vb_number b)) \<Longrightarrow>
   marketHealthy w m b offerId"
  by (simp add: marketHealthy_def)

lemma learns_offerVault:
  "dp_vaultImplementation m = Some a \<Longrightarrow> learns w (offerVault m a ks b i) (\<lambda>rs. rs = [] \<longrightarrow> vaultFunded w m b i)"
  unfolding offerVault_def Let_def
  by ((rule learns_rules learns_read)+, rule learns_after, rule learns_return)
    (unfold vaultFunded_def truly_def, intro impI, intro exI conjI, assumption+, auto split: if_splits)

lemma learns_vaultHealth: "learns w (vaultHealth lib m ks b offerId) (\<lambda>rs. rs = [] \<longrightarrow> (\<forall>i. offerId = Some i \<longrightarrow> vaultFunded w m b i))"
  unfolding vaultHealth_def Let_def
  by (rule learns_rules learns_read learns_after learns_mono [OF learns_offerVault] | simp)+

lemma learns_escrowHealth: "learns w (escrowHealth m b) (\<lambda>rs. rs = [] \<longrightarrow> escrowCovered w m (vb_number b))"
  unfolding escrowHealth_def Let_def
  by (rule learns_rules learns_read)+
    (unfold escrowCovered_def truly_def, intro impI, intro exI conjI, assumption, rule refl, assumption, rule refl, assumption, rule refl,
      assumption, rule refl, assumption, rule refl, assumption, rule refl, auto split: if_splits)

lemma learns_custody:
  "learns w (if dp_version m = Some 3 then vaultHealth lib m ks b offerId else escrowHealth m b)
     (\<lambda>rs. rs = [] \<longrightarrow> (if dp_version m = Some 3 then (\<forall>i. offerId = Some i \<longrightarrow> vaultFunded w m b i) else escrowCovered w m (vb_number b)))"
  using learns_vaultHealth [of w lib m ks b offerId] learns_escrowHealth [of w m b] by simp

lemma learns_healthReasons: "learns w (healthReasons lib m k b now offerId started) (\<lambda>rs. rs = [] \<longrightarrow> marketHealthy w m b offerId)"
  unfolding healthReasons_def Let_def
  by ((rule learns_rules learns_lift learns_read)+, rule learns_after, (rule learns_rules learns_read)+, rule learns_after,
      rule learns_bind [OF learns_custody], (rule learns_rules learns_read)+, rule learns_after, (rule learns_rules)+)
    (intro impI marketHealthyI, auto simp: same_def sameAddress_def intro!: trulyI split: option.splits if_splits)

lemma learns_inspect: "learns w (inspectP2PHealth lib m k b now offerId) (\<lambda>h. hl_status h = H_ok \<longrightarrow> marketHealthy w m b offerId)"
  unfolding inspectP2PHealth_def Let_def
  by (rule learns_after, rule learns_catch, rule learns_bind [OF learns_healthReasons]) (rule learns_rules, simp)+

lemma learns_health: "learns w (readP2PHealth lib m b offerId) (\<lambda>h. hl_status h = H_ok \<longrightarrow> marketHealthy w m b offerId)"
  unfolding readP2PHealth_def
  by (rule learns_catch, rule learns_after, rule learns_after, rule learns_inspect) (rule learns_after, rule learns_rules, simp)

text \<open>What \<open>write\<close> has checked before it goes on.\<close>

definition marketReady :: "(nat \<Rightarrow> client_world) \<Rightarrow> viem \<Rightarrow> deployment \<Rightarrow> wallet_call \<Rightarrow> bool" where
  "marketReady w lib m call \<longleftrightarrow>
     (\<exists>b. headBlock w b \<and> marketVerified w lib m (vb_number b)
        \<and> (newExposure (wc_function call) \<longrightarrow> marketHealthy w m b (offerArgument call)))"

lemma learns_checkMarket: "learns w (checkMarket lib m call) (\<lambda>_. marketReady w lib m call)"
  unfolding checkMarket_def
  by (rule learns_bind [OF learns_verify], (rule learns_rules)+, rule learns_bind [OF learns_health], (rule learns_rules)+)
    (auto simp: marketReady_def intro: learns_return)

end
