(* ===== verification/P2P_Requests.thy ===== *)
theory P2P_Requests
  imports P2P_Facts
begin

text \<open>
  What the wallet is asked: the requests of one \<open>write\<close> are the approvals that the
  allowance calls for and then the call, each after the checks of the market. Other code may run at
  every await, but the lock keeps the other writes of this client out (\<open>alone\<close>).
\<close>

definition alone :: "(nat \<Rightarrow> client_world) \<Rightarrow> bool" where
  "alone w \<longleftrightarrow> (\<forall>t s. pc_requests (cl_others (w t) s) = pc_requests s \<and> pc_busy (cl_others (w t) s) = pc_busy s)"

definition asked :: "wallet_call list \<Rightarrow> client_state \<Rightarrow> bool" where
  "asked R s \<longleftrightarrow> pc_requests s = R"

lemma frame_asked: "alone w \<Longrightarrow> frame w (asked R)"
  by (simp add: frame_def readFrame_def stable_def alone_def asked_def)

lemma frame_busy: "alone w \<Longrightarrow> frame w (\<lambda>s. pc_busy s = b)"
  by (simp add: frame_def readFrame_def stable_def alone_def)

definition approvalCall :: "deployment \<Rightarrow> string \<Rightarrow> int \<Rightarrow> wallet_call" where
  "approvalCall m token amount = \<lparr>wc_to = token, wc_function = ''approve'', wc_args = [Arg_address (dp_address m), Arg_uint amount]\<rparr>"

definition approvalCalls :: "deployment \<Rightarrow> (string \<times> int) option \<Rightarrow> int \<Rightarrow> wallet_call list" where
  "approvalCalls m approval allowance = (case approval of None \<Rightarrow> [] | Some (token, amount) \<Rightarrow>
     map (approvalCall m token) (approvalAmounts allowance amount))"

definition allowanceRead :: "(nat \<Rightarrow> client_world) \<Rightarrow> deployment \<Rightarrow> string \<Rightarrow> (string \<times> int) option \<Rightarrow> int \<Rightarrow> bool" where
  "allowanceRead w m account approval allowance \<longleftrightarrow>
     (\<forall>token amount. approval = Some (token, amount) \<longrightarrow>
        truly w (\<lambda>w. cl_uint w token ''allowance'' [Arg_address account, Arg_address (dp_address m)] None) (\<lambda>v. v = allowance))"

lemma quiet_triple: "quiet w P m \<Longrightarrow> (\<And>s. P s \<Longrightarrow> E s) \<Longrightarrow> triple w P m (\<lambda>_. P) E"
  unfolding quiet_def by (erule triple_post)

lemma quiet_then: "quiet w P m \<Longrightarrow> (\<And>x. triple w P (k x) Q E) \<Longrightarrow> (\<And>s. P s \<Longrightarrow> E s) \<Longrightarrow> triple w P (pBind m k) Q E"
  unfolding quiet_def by (rule triple_keepK)

text \<open>One request to the wallet.\<close>

lemma triple_cSend:
  assumes "alone w"
  shows "triple w (asked R) (cSend call) (\<lambda>_. asked (R @ [call])) (asked (R @ [call]))"
  unfolding cSend_def
  by (rule triple_bind [where R = "\<lambda>_. asked (R @ [call])"], rule triple_modify, simp add: asked_def,
      rule quiet_cRead [unfolded quiet_def], rule readFrame_reads(1) [OF frame_read [OF frame_asked [OF assms]]])

lemma triple_approveToken:
  assumes "alone w"
  shows "triple w (asked R) (approveToken lib m account token amount) (\<lambda>_. asked (R @ [approvalCall m token amount]))
     (\<lambda>s. \<exists>n \<le> 1. asked (R @ take n [approvalCall m token amount]) s)"
proof -
  note fr = frame_asked [OF assms]
  have none: "asked R s \<Longrightarrow> \<exists>n \<le> 1. asked (R @ take n [approvalCall m token amount]) s" for s by (rule exI [of _ 0]) simp
  have one: "asked (R @ [approvalCall m token amount]) s \<Longrightarrow> \<exists>n \<le> 1. asked (R @ take n [approvalCall m token amount]) s" for s
    by (rule exI [of _ 1]) simp
  show ?thesis
    unfolding approveToken_def Let_def approvalCall_def [symmetric]
    by (rule quiet_then [OF quiet_assertWallet [OF frame_read [OF fr]] _ none],
        rule quiet_then [OF readFrame_reads(2) [OF frame_read [OF fr]] _ none],
        rule quiet_then [OF quiet_assertWallet [OF frame_read [OF fr]] _ none],
        rule quiet_then [OF frame_steps(2) [OF fr] _ none],
        rule triple_bind [OF triple_post [OF triple_cSend [OF assms] _ one]], assumption, assumption,
        rule quiet_then [OF quiet_receipt [OF fr] triple_return one])
qed

lemma triple_approvals:
  assumes "alone w"
  shows "triple w (asked R) (cMap (approveToken lib m account token) amounts) (\<lambda>_. asked (R @ map (approvalCall m token) amounts))
     (\<lambda>s. \<exists>n. asked (R @ take n (map (approvalCall m token) amounts)) s)"
proof (induction amounts arbitrary: R)
  case (Cons a amounts)
  have first: "\<exists>n \<le> 1. asked (R @ take n [approvalCall m token a]) s \<Longrightarrow> \<exists>n. asked (R @ take n (map (approvalCall m token) (a # amounts))) s" for s
  proof -
    assume "\<exists>n \<le> 1. asked (R @ take n [approvalCall m token a]) s"
    then obtain n where "n \<le> 1" "asked (R @ take n [approvalCall m token a]) s" by blast
    then show ?thesis by (intro exI [of _ n]) (cases n, simp_all)
  qed
  have rest: "\<exists>n. asked ((R @ [approvalCall m token a]) @ take n (map (approvalCall m token) amounts)) s
      \<Longrightarrow> \<exists>n. asked (R @ take n (map (approvalCall m token) (a # amounts))) s" for s
    by (elim exE, rule_tac x = "Suc n" in exI) simp
  show ?case
    unfolding cMap.simps
    by (rule triple_bind [OF triple_post [OF triple_approveToken [OF assms] _ first]], assumption, assumption,
        rule triple_bind [OF triple_post [OF Cons.IH _ rest]], assumption, assumption, rule triple_return, simp)
qed (simp add: triple_return)

lemma triple_approveAll:
  assumes "alone w"
  shows "triple w (asked R) (approveAll lib m account approval)
     (\<lambda>_ s. \<exists>allowance. allowanceRead w m account approval allowance \<and> asked (R @ approvalCalls m approval allowance) s)
     (\<lambda>s. \<exists>allowance n. allowanceRead w m account approval allowance \<and> asked (R @ take n (approvalCalls m approval allowance)) s \<or> asked R s)"
proof (cases approval)
  case None
  then show ?thesis
    unfolding approveAll_def by (auto intro!: triple_return simp: allowanceRead_def approvalCalls_def)
next
  case (Some p)
  obtain token amount where p: "p = (token, amount)" by (cases p)
  have go: "triple w (asked R) (pBind (cMap (approveToken lib m account token) (approvalAmounts allowance amount)) (\<lambda>_. pReturn ()))
      (\<lambda>_ s. \<exists>allowance. allowanceRead w m account approval allowance \<and> asked (R @ approvalCalls m approval allowance) s)
      (\<lambda>s. \<exists>allowance n. allowanceRead w m account approval allowance \<and> asked (R @ take n (approvalCalls m approval allowance)) s \<or> asked R s)"
    if "cl_uint (w t) token ''allowance'' [Arg_address account, Arg_address (dp_address m)] None = Inr allowance" for t allowance
  proof -
    have read: "allowanceRead w m account approval allowance"
      using that by (auto simp: allowanceRead_def Some p intro: trulyI)
    show ?thesis
      by (rule triple_bind [OF triple_post [OF triple_approvals [OF assms]]], assumption)
        (use read in \<open>auto intro!: triple_return simp: approvalCalls_def Some p\<close>)
  qed
  show ?thesis
    unfolding approveAll_def Some p option.case prod.case
    by (rule triple_cReadK [OF readFrame_reads(1) [OF frame_read [OF frame_asked [OF assms]]] go [unfolded Some p]], assumption) blast
qed

section \<open>One \<open>write\<close>\<close>

definition plannedCalls :: "deployment \<Rightarrow> wallet_call \<Rightarrow> (string \<times> int) option \<Rightarrow> int \<Rightarrow> wallet_call list" where
  "plannedCalls m call approval allowance = approvalCalls m approval allowance @ [call]"

definition someAllowance :: "(nat \<Rightarrow> client_world) \<Rightarrow> deployment \<Rightarrow> (string \<times> int) option \<Rightarrow> int \<Rightarrow> bool" where
  "someAllowance w m approval allowance \<longleftrightarrow> (\<exists>account. allowanceRead w m account approval allowance)"

text \<open>The requests so far: a first part of the plan, none of it before the market was checked.\<close>

definition partlyAsked :: "(nat \<Rightarrow> client_world) \<Rightarrow> viem \<Rightarrow> deployment \<Rightarrow> wallet_call \<Rightarrow> (string \<times> int) option \<Rightarrow> wallet_call list \<Rightarrow> client_state \<Rightarrow> bool" where
  "partlyAsked w lib m call approval R s \<longleftrightarrow>
     pc_requests s = R \<or>
     marketReady w lib m call \<and> (\<exists>allowance n. someAllowance w m approval allowance \<and> pc_requests s = R @ take n (plannedCalls m call approval allowance))"

definition fullyAsked :: "(nat \<Rightarrow> client_world) \<Rightarrow> viem \<Rightarrow> deployment \<Rightarrow> wallet_call \<Rightarrow> (string \<times> int) option \<Rightarrow> wallet_call list \<Rightarrow> client_state \<Rightarrow> bool" where
  "fullyAsked w lib m call approval R s \<longleftrightarrow>
     marketReady w lib m call \<and> (\<exists>allowance. someAllowance w m approval allowance \<and> pc_requests s = R @ plannedCalls m call approval allowance)"

lemma triple_fact: "(F \<Longrightarrow> triple w P m Q E) \<Longrightarrow> triple w (\<lambda>s. P s \<and> F) m Q E"
  by (auto simp: triple_def)

lemma triple_ex: "(\<And>x. triple w (P x) m Q E) \<Longrightarrow> triple w (\<lambda>s. \<exists>x. P x s) m Q E"
  unfolding triple_def by (intro allI impI) (elim exE, drule meta_spec, elim allE, elim impE, assumption)

lemma triple_checkMarket:
  assumes "frame w P"
  shows "triple w P (checkMarket lib m call) (\<lambda>_ s. P s \<and> marketReady w lib m call) P"
  by (rule triple_facts [OF quiet_checkMarket [OF frame_read [OF assms]] learns_triple [OF learns_checkMarket]])

lemma triple_lastSteps:
  assumes "alone w" and ready: "marketReady w lib m call" and some: "someAllowance w m approval allowance"
    and X: "X = R @ approvalCalls m approval allowance" and before: "\<forall>f R. beforeSend = Some f \<longrightarrow> quiet w (asked R) f"
  shows "triple w (asked X)
     (pBind (assertWallet m (Some account)) (\<lambda>_.
      pBind (checkMarket lib m call) (\<lambda>_.
      pBind (cRead (\<lambda>w. cl_simulate w account call)) (\<lambda>_.
      pBind (assertWallet m (Some account)) (\<lambda>_.
      pBind (case beforeSend of Some f \<Rightarrow> f | None \<Rightarrow> pReturn ()) (\<lambda>_.
      pBind (assertWallet m (Some account)) (\<lambda>_.
      pBind (cStage St_signature None msg) (\<lambda>_.
      pBind (cSend call) (\<lambda>hash.
      receipt lib m hash label account expected False)))))))))
     (\<lambda>_. fullyAsked w lib m call approval R) (partlyAsked w lib m call approval R)"
proof -
  note fr = frame_asked [OF assms(1)]
  have part: "asked X s \<Longrightarrow> partlyAsked w lib m call approval R s" for s
    using ready some unfolding partlyAsked_def asked_def X
    by (intro disjI2 conjI exI [of _ allowance] exI [of _ "length (approvalCalls m approval allowance)"]) (simp_all add: plannedCalls_def)
  have full: "asked (X @ [call]) s \<Longrightarrow> fullyAsked w lib m call approval R s" for s
    using ready some by (auto simp: fullyAsked_def asked_def X plannedCalls_def)
  have near: "asked (X @ [call]) s \<Longrightarrow> partlyAsked w lib m call approval R s" for s
    using ready some unfolding partlyAsked_def asked_def X
    by (intro disjI2 conjI exI [of _ allowance] exI [of _ "Suc (length (approvalCalls m approval allowance))"]) (simp_all add: plannedCalls_def)
  have callback: "quiet w (asked X) (case beforeSend of Some f \<Rightarrow> f | None \<Rightarrow> pReturn ())"
    using before by (cases beforeSend) (simp_all add: quiet_rules)
  note wallet = quiet_then [OF quiet_assertWallet [OF frame_read [OF fr]] _ part]
  have send: "triple w (asked (X @ [call])) (receipt lib m hash label account expected False)
      (\<lambda>_. fullyAsked w lib m call approval R) (partlyAsked w lib m call approval R)" for hash
    by (rule triple_post [OF quiet_receipt [OF fr, unfolded quiet_def] full near])
  show ?thesis
    by (rule wallet, rule quiet_then [OF quiet_checkMarket [OF frame_read [OF fr]] _ part],
        rule quiet_then [OF readFrame_reads(2) [OF frame_read [OF fr]] _ part], rule wallet,
        rule quiet_then [OF callback _ part], rule wallet, rule quiet_then [OF frame_steps(2) [OF fr] _ part],
        rule triple_bind [OF triple_post [OF triple_cSend [OF assms(1)] _ near] send])
qed

lemma triple_writeSteps:
  assumes "alone w" and before: "\<forall>f R. beforeSend = Some f \<longrightarrow> quiet w (asked R) f"
  shows "triple w (asked R) (writeSteps lib m call approval beforeSend)
     (\<lambda>_. fullyAsked w lib m call approval R) (partlyAsked w lib m call approval R)"
proof -
  note fr = frame_asked [OF assms(1)]
  have none: "asked R s \<Longrightarrow> partlyAsked w lib m call approval R s" for s
    by (simp add: partlyAsked_def asked_def)
  have mid: "partlyAsked w lib m call approval R s"
    if "\<exists>allowance n. allowanceRead w m account approval allowance \<and> asked (R @ take n (approvalCalls m approval allowance)) s \<or> asked R s"
      and ready: "marketReady w lib m call" for s account
  proof -
    from that(1) consider "asked R s" | allowance n where "allowanceRead w m account approval allowance"
      "asked (R @ take n (approvalCalls m approval allowance)) s" by blast
    then show ?thesis
    proof cases
      case 2
      have "take (min n (length (approvalCalls m approval allowance))) (plannedCalls m call approval allowance) = take n (approvalCalls m approval allowance)"
        by (simp add: plannedCalls_def min_def)
      with 2 ready show ?thesis unfolding partlyAsked_def someAllowance_def asked_def by metis
    qed (rule none)
  qed
  have rest: "triple w (asked R) (pBind (approveAll lib m account approval) (\<lambda>_.
      pBind (assertWallet m (Some account)) (\<lambda>_.
      pBind (checkMarket lib m call) (\<lambda>_.
      pBind (cRead (\<lambda>w. cl_simulate w account call)) (\<lambda>_.
      pBind (assertWallet m (Some account)) (\<lambda>_.
      pBind (case beforeSend of Some f \<Rightarrow> f | None \<Rightarrow> pReturn ()) (\<lambda>_.
      pBind (assertWallet m (Some account)) (\<lambda>_.
      pBind (cStage St_signature None msg) (\<lambda>_.
      pBind (cSend call) (\<lambda>hash.
      receipt lib m hash label account expected False))))))))))
      (\<lambda>_. fullyAsked w lib m call approval R) (partlyAsked w lib m call approval R)"
    if ready: "marketReady w lib m call" for account msg label expected
    by (rule triple_bind [OF triple_post [OF triple_approveAll [OF assms(1)] _ mid [OF _ ready]]], assumption, assumption,
        rule triple_ex, rule triple_pre, rule triple_fact, rule triple_lastSteps [OF assms(1) ready _ refl before])
      (auto simp: someAllowance_def)
  show ?thesis
    unfolding writeSteps_def
    by (rule quiet_then [OF quiet_basic(4) _ none], rule quiet_then [OF quiet_assertWallet [OF frame_read [OF fr]] _ none],
        rule quiet_then [OF frame_steps(1) [OF fr] _ none], rule quiet_then [OF quiet_reconcile [OF fr] _ none],
        rule triple_demand, rule triple_bind [OF triple_post [OF triple_checkMarket [OF fr] _ none]], assumption, assumption,
        rule triple_fact, rule rest, assumption, rule none)
qed

text \<open>What a \<open>write\<close> has asked the wallet when it ends, and that it always gives the lock back.\<close>

lemma write_asks:
  assumes "alone w" and "\<forall>f R. beforeSend = Some f \<longrightarrow> quiet w (asked R) f"
    and run: "write_call lib m call approval beforeSend w t s = (r, t', s')"
  shows "partlyAsked w lib m call approval (pc_requests s) s' \<and> (\<forall>h. r = Inr h \<longrightarrow> fullyAsked w lib m call approval (pc_requests s) s')"
proof -
  let ?R = "pc_requests s"
  have busy: "fullyAsked w lib m call approval ?R s1 \<Longrightarrow> fullyAsked w lib m call approval ?R (s1\<lparr>pc_busy := b\<rparr>)"
    "partlyAsked w lib m call approval ?R s1 \<Longrightarrow> partlyAsked w lib m call approval ?R (s1\<lparr>pc_busy := b\<rparr>)" for b s1
    by (simp_all add: fullyAsked_def partlyAsked_def)
  have triple: "triple w (asked ?R) (write_call lib m call approval beforeSend)
      (\<lambda>_. fullyAsked w lib m call approval ?R) (partlyAsked w lib m call approval ?R)"
    unfolding write_call_def setBusy_def
    by (rule triple_getK, rule triple_pre, rule triple_demand, rule triple_bind [where R = "\<lambda>_. asked ?R"], rule triple_modify, simp add: asked_def,
        rule triple_catch [where F = "partlyAsked w lib m call approval ?R"], rule triple_bind [OF triple_writeSteps [OF assms(1,2)]],
        rule triple_bind [where R = "\<lambda>_. fullyAsked w lib m call approval ?R"], rule triple_modify, erule busy, rule triple_return, assumption,
        rule triple_bind [where R = "\<lambda>_. partlyAsked w lib m call approval ?R"], rule triple_modify, erule busy, rule triple_throw, assumption)
      (simp_all add: partlyAsked_def asked_def)
  have start: "asked ?R s" by (simp add: asked_def)
  have weak: "fullyAsked w lib m call approval ?R s' \<Longrightarrow> partlyAsked w lib m call approval ?R s'"
    unfolding fullyAsked_def partlyAsked_def by (elim conjE exE, intro disjI2 conjI exI, assumption, assumption) (rule take_all [THEN arg_cong [where f = "(@) _"], THEN sym, THEN [2] trans], assumption, rule le_refl)
  show ?thesis
    using tripleD_Inr [OF triple start, of t _ t' s'] tripleD_Inl [OF triple start, of t _ t' s'] run weak by (cases r) auto
qed

end
