(* ===== verification/P2P_Settlement.thy ===== *)
theory P2P_Settlement
  imports P2P_Requests
begin

text \<open>
  What a confirmation means and what becomes of a hash that the wallet returned: the
  transaction that the chain confirmed is the one that was sent, or a repriced copy of it; and until
  such a confirmation (or one of its failure) has been read, the hash is remembered.
\<close>

section \<open>Replacements\<close>

definition sameCall :: "chain_tx \<Rightarrow> chain_tx \<Rightarrow> bool" where
  "sameCall x y \<longleftrightarrow> sameAddress (tx_from x) (tx_from y) \<and> tx_nonce x = tx_nonce y \<and> tx_value x = tx_value y
     \<and> map_option js_lower (tx_to x) = map_option js_lower (tx_to y) \<and> sameAddress (tx_input x) (tx_input y)"

lemma equivalent_sameCall: "equivalent x y \<Longrightarrow> sameCall x y"
  by (auto simp: equivalent_def sameCall_def sameAddress_def split: option.splits)

lemma sameCall_trans: "sameCall x y \<Longrightarrow> sameCall y z \<Longrightarrow> sameCall x z"
  by (auto simp: sameCall_def sameAddress_def)

lemma sameCall_sym: "sameCall x y \<Longrightarrow> sameCall y x"
  by (auto simp: sameCall_def sameAddress_def)

text \<open>The lineage after some replacements that were all repricings: every transaction in it is the same call as the first, and the
  expected hash is that of the last one.\<close>

definition lineageOk :: "string \<Rightarrow> replacement list \<Rightarrow> lineage_state \<Rightarrow> bool" where
  "lineageOk hash ps l \<longleftrightarrow>
     (ps = [] \<longrightarrow> li_known l = [] \<and> li_expected l = hash)
     \<and> (ps \<noteq> [] \<longrightarrow> li_known l \<noteq> [] \<and> li_expected l = tx_hash (rl_transaction (last ps)) \<and> sameAddress (tx_hash (rl_replaced (hd ps))) hash)
     \<and> (li_rejected l = None \<longrightarrow>
          (\<forall>p \<in> set ps. rl_reason p = Repriced \<and> sameCall (rl_replaced (hd ps)) (rl_replaced p) \<and> sameCall (rl_replaced (hd ps)) (rl_transaction p))
          \<and> (\<forall>h x. map_of (li_known l) h = Some x \<longrightarrow> sameCall (rl_replaced (hd ps)) x))"

lemma follow_lineage:
  assumes "lineageOk hash ps l" and "followReplacement lib account hash p l = Inr l'"
  shows "lineageOk hash (ps @ [p]) l'"
proof -
  define known where "known = (if li_known l = [] then [(js_lower hash, rl_replaced p)] else li_known l)"
  have step: "replacementOk lib account p" "li_known l = [] \<longrightarrow> sameAddress (tx_hash (rl_replaced p)) hash"
    "case map_of known (js_lower (tx_hash (rl_replaced p))) of Some k \<Rightarrow> equivalent k (rl_replaced p) | None \<Rightarrow> False"
    and l: "l' = \<lparr>li_known = AList.update (js_lower (tx_hash (rl_transaction p))) (rl_transaction p) known, li_expected = tx_hash (rl_transaction p),
       li_rejected = (if rl_reason p \<noteq> Repriced \<or> \<not> equivalent (rl_replaced p) (rl_transaction p)
         then (case li_rejected l of Some r \<Rightarrow> Some r
               | None \<Rightarrow> Some (if rl_reason p = Cancelled_tx then Rj_cancelled else Rj_replaced))
         else li_rejected l)\<rparr>"
    using assms(2) unfolding followReplacement_def Let_def known_def [symmetric] demand_Inr by simp_all
  note ok = step(1,2)
  from step(3) obtain k where k: "map_of known (js_lower (tx_hash (rl_replaced p))) = Some k" "equivalent k (rl_replaced p)"
    by (cases "map_of known (js_lower (tx_hash (rl_replaced p)))") simp_all
  have l': "li_known l' = AList.update (js_lower (tx_hash (rl_transaction p))) (rl_transaction p) known"
    "li_expected l' = tx_hash (rl_transaction p)"
    "li_rejected l' = None \<Longrightarrow> rl_reason p = Repriced \<and> equivalent (rl_replaced p) (rl_transaction p) \<and> li_rejected l = None"
    by (simp_all add: l split: if_splits option.splits)
  have first: "rl_replaced (hd (ps @ [p])) = (if ps = [] then rl_replaced p else rl_replaced (hd ps))" by simp
  have calls: "sameCall (rl_replaced (hd (ps @ [p]))) (rl_replaced p) \<and> sameCall (rl_replaced (hd (ps @ [p]))) (rl_transaction p)"
    if rej: "li_rejected l' = None"
  proof -
    have "sameCall (rl_replaced (hd (ps @ [p]))) k"
      using assms(1) k(1) l'(3) [OF rej] by (cases "ps = []") (auto simp: lineageOk_def first sameCall_def known_def split: if_splits)
    then have "sameCall (rl_replaced (hd (ps @ [p]))) (rl_replaced p)" using equivalent_sameCall [OF k(2)] by (rule sameCall_trans)
    then show ?thesis using l'(3) [OF rej] equivalent_sameCall sameCall_trans by blast
  qed
  have known: "sameCall (rl_replaced (hd (ps @ [p]))) x" if rej: "li_rejected l' = None" and x: "map_of (li_known l') h = Some x" for h x
  proof (cases "h = js_lower (tx_hash (rl_transaction p))")
    case True
    then show ?thesis using x calls [OF rej] by (simp add: l'(1) update_conv')
  next
    case False
    then have "map_of known h = Some x" using x by (simp add: l'(1) update_conv')
    then show ?thesis using assms(1) calls [OF rej] l'(3) [OF rej]
      by (cases "ps = []") (auto simp: lineageOk_def first known_def split: if_splits)
  qed
  show ?thesis
    unfolding lineageOk_def
  proof (intro conjI impI ballI allI)
    fix q
    assume rej: "li_rejected l' = None" and q: "q \<in> set (ps @ [p])"
    show "rl_reason q = Repriced" "sameCall (rl_replaced (hd (ps @ [p]))) (rl_replaced q)" "sameCall (rl_replaced (hd (ps @ [p]))) (rl_transaction q)"
      using q calls [OF rej] l'(3) [OF rej] assms(1) by (cases "q = p", simp_all) (cases "ps = []", auto simp: lineageOk_def)+
  next
    fix h x
    assume "li_rejected l' = None" "map_of (li_known l') h = Some x"
    then show "sameCall (rl_replaced (hd (ps @ [p]))) x" by (rule known)
  next
    show "sameAddress (tx_hash (rl_replaced (hd (ps @ [p])))) hash"
      using ok(2) assms(1) by (cases "ps = []") (auto simp: lineageOk_def)
  qed (simp_all add: l'(1,2))
qed

lemma follow_all:
  "fold_outcome (followReplacement lib account hash) qs l = Inr l' \<Longrightarrow> lineageOk hash ps l \<Longrightarrow> lineageOk hash (ps @ qs) l'"
proof (induction qs arbitrary: ps l)
  case (Cons q qs)
  from Cons.prems(1) obtain l1 where "followReplacement lib account hash q l = Inr l1"
    and rest: "fold_outcome (followReplacement lib account hash) qs l1 = Inr l'"
    by (auto simp: and_then_Inr)
  with Cons.IH [OF rest follow_lineage [OF Cons.prems(2)]] show ?case by simp
qed simp

lemma followReplacements_lineage: "followReplacements lib account hash ps = Inr l \<Longrightarrow> lineageOk hash ps l"
  unfolding followReplacements_def by (drule follow_all [where ps = "[]"]) (simp_all add: lineageOk_def)

section \<open>A confirmed transaction\<close>

text \<open>The node's receipt for the hash: a canonical success of the account whose transaction is the one sent, or the last of a
  chain of repricings of it.\<close>

definition confirmedCall :: "(nat \<Rightarrow> client_world) \<Rightarrow> string \<Rightarrow> string \<Rightarrow> string \<Rightarrow> bool" where
  "confirmedCall w account hash h \<longleftrightarrow>
     (\<exists>i j r ps b. cl_wait (w i) hash = Inr (r, ps) \<and> h = rc_hash r \<and> rc_status r = ''success'' \<and> sameAddress (rc_from r) account
       \<and> cl_block (w j) (rc_blockNumber r) = Inr b \<and> bh_hash b = Some (rc_blockHash r)
       \<and> (ps = [] \<longrightarrow> sameAddress h hash)
       \<and> (ps \<noteq> [] \<longrightarrow> sameAddress h (tx_hash (rl_transaction (last ps))) \<and> sameAddress (tx_hash (rl_replaced (hd ps))) hash
            \<and> (\<forall>p \<in> set ps. rl_reason p = Repriced \<and> sameCall (rl_replaced (hd ps)) (rl_transaction p))))"

text \<open>Whatever its outcome, the node's receipt for the hash passed every check and is canonical.\<close>

definition decided :: "(nat \<Rightarrow> client_world) \<Rightarrow> viem \<Rightarrow> string \<Rightarrow> string \<Rightarrow> bool" where
  "decided w lib account hash \<longleftrightarrow>
     (\<exists>i j r ps l b. cl_wait (w i) hash = Inr (r, ps) \<and> checkReceipt lib account hash r ps = Inr l
       \<and> cl_block (w j) (rc_blockNumber r) = Inr b \<and> bh_hash b = Some (rc_blockHash r))"

lemma checked_confirmed:
  assumes wait: "cl_wait (w i) hash = Inr (r, ps)" and check: "checkReceipt lib account hash r ps = Inr l"
    and block: "cl_block (w j) (rc_blockNumber r) = Inr b" "bh_hash b = Some (rc_blockHash r)"
    and rejected: "li_rejected l = None" and status: "rc_status r \<noteq> ''reverted''"
  shows "confirmedCall w account hash (rc_hash r)"
proof -
  from check have ok: "sameAddress (rc_from r) account" "rc_status r \<in> {''success'', ''reverted''}"
    "followReplacements lib account hash ps = Inr l" "sameAddress (rc_hash r) (li_expected l)"
    by (auto simp: checkReceipt_def demand_Inr and_then_Inr)
  note line = followReplacements_lineage [OF ok(3)]
  have "rc_status r = ''success''" using ok(2) status by blast
  then show ?thesis
    unfolding confirmedCall_def
    using wait block ok(1,4) line rejected by (intro exI conjI) (assumption | auto simp: lineageOk_def)+
qed

lemma learns_receipt: "learns w (receipt lib m hash label account expected recovering) (confirmedCall w account hash)"
proof -
  have wait: "learns w (pBind (cRead (\<lambda>w. cl_wait w hash)) (\<lambda>(r, ps). k r ps)) F"
    if "\<And>i r ps. cl_wait (w i) hash = Inr (r, ps) \<Longrightarrow> learns w (k r ps) F" for k :: "_ \<Rightarrow> _ \<Rightarrow> string client" and F
    by (rule learns_read, rule learns_pair, rule that) simp
  show ?thesis
    unfolding receipt_def Let_def
    by (rule learns_after, rule learns_after, rule learns_after, rule wait, rule learns_lift, rule learns_read, rule learns_demand,
        rule learns_after, rule learns_after, rule learns_after, (rule learns_demand)+, rule learns_after, rule learns_return, rule checked_confirmed)
      (assumption | simp)+
qed

lemma learns_assertWallet: "learns w (assertWallet m e) (\<lambda>account. e = Some account)"
  unfolding assertWallet_def
  by (cases e) ((rule learns_after, (rule learns_rules learns_after)+, simp)+)

lemma writeSteps_confirmed:
  assumes "writeSteps lib m call approval beforeSend w t s = (Inr h, t', s')"
  shows "\<exists>account hash i. pc_account s = Some account \<and> cl_send (w i) call = Inr hash \<and> confirmedCall w account hash h"
proof -
  have send: "learns w (pBind (cSend call) k) F" if "\<And>i hash. cl_send (w i) call = Inr hash \<Longrightarrow> learns w (k hash) F"
    for k :: "_ \<Rightarrow> string client" and F
    unfolding learns_def cSend_def bind_Inr cRead_Inr using that unfolding learns_def by blast
  have body: "learns w (pBind (assertWallet m (pc_account s)) (\<lambda>account. pBind (cStorage f) (\<lambda>_. pBind (reconcilePending lib m None) (\<lambda>settled.
     pDemand (\<not> settled) e
    (pBind (checkMarket lib m call) (\<lambda>_. pBind (approveAll lib m account approval) (\<lambda>_. pBind (assertWallet m (Some account)) (\<lambda>_.
     pBind (checkMarket lib m call) (\<lambda>_. pBind (cRead (\<lambda>w. cl_simulate w account call)) (\<lambda>_. pBind (assertWallet m (Some account)) (\<lambda>_.
     pBind b (\<lambda>_. pBind (assertWallet m (Some account)) (\<lambda>_. pBind (cStage St_signature None msg) (\<lambda>_. pBind (cSend call) (\<lambda>hash.
     receipt lib m hash label account (expected account) False)))))))))))))))
     (\<lambda>h. \<exists>account hash i. pc_account s = Some account \<and> cl_send (w i) call = Inr hash \<and> confirmedCall w account hash h)"
    for f e b msg label expected
    by (rule learns_bind [OF learns_assertWallet], rule learns_after, rule learns_after, rule learns_demand,
        rule learns_after, rule learns_after, rule learns_after, rule learns_after, rule learns_after, rule learns_after, rule learns_after, rule learns_after, rule learns_after, 
        rule send, rule learns_mono [OF learns_receipt]) blast
  show ?thesis
    using assms unfolding writeSteps_def pBind_def [of "pGet pc_account"] proc_run(4) prod.case sum.case by (rule learnsD [OF body])
qed

end
