(* ===== verification/P2P_Memory.thy ===== *)
theory P2P_Memory
  imports P2P_Settlement
begin

text \<open>
  The record of a pending transaction while other code runs: a saved record stops every new
  request to the wallet, and a hash that the wallet returned is remembered until the chain
  has decided it.
\<close>

section \<open>A saved record\<close>

definition saved :: "viem \<Rightarrow> string \<Rightarrow> string \<Rightarrow> client_state \<Rightarrow> bool" where
  "saved lib key hash s \<longleftrightarrow> br_localWorks (pc_storage s)
     \<and> (\<exists>v r. br_local (pc_storage s) (js_lower key) = Some v \<and> readRecord (vi_looseAddress lib) v = Some r \<and> pr_hash r = hash)"

lemma saved_load:
  assumes "saved lib key hash s"
  obtains r where "loadPendingRecord (vi_looseAddress lib) now key (pc_storage s) = Inr (Some r, pc_storage s)" and "pr_hash r = hash"
    and "hex_word 64 hash"
proof -
  from assms obtain v r where v: "br_localWorks (pc_storage s)" "br_local (pc_storage s) (js_lower key) = Some v"
    "readRecord (vi_looseAddress lib) v = Some r" "pr_hash r = hash"
    unfolding saved_def by blast
  moreover have "hex_word 64 (pr_hash r)"
    using v(3) by (auto simp: readRecord_def split: option.splits json.splits if_splits)
  ultimately show thesis
    by (intro that [of r]) (simp_all add: loadPendingRecord_def getLocal_def)
qed

lemma saved_readFrame: "stable w (saved lib key hash) \<Longrightarrow> readFrame w (saved lib key hash)"
  by (simp add: readFrame_def saved_def)

lemma saved_update [simp]:
  "saved lib key hash (s\<lparr>pc_stages := x\<rparr>) = saved lib key hash s" "saved lib key hash (s\<lparr>pc_requests := R\<rparr>) = saved lib key hash s"
  "saved lib key hash (s\<lparr>pc_hashes := y\<rparr>) = saved lib key hash s" "saved lib key hash (s\<lparr>pc_busy := z\<rparr>) = saved lib key hash s"
  by (simp_all add: saved_def)

lemma loadPending_saved:
  assumes "saved lib key hash s"
  shows "loadPending (vi_looseAddress lib) now key (pc_storage s) = Inr (Some hash, pc_storage s)" and "hex_word 64 hash"
  by (rule saved_load [OF assms, of now], simp add: loadPending_def) (rule saved_load [OF assms], assumption)

lemma triple_loadPending:
  assumes "\<And>s. P s \<Longrightarrow> saved lib key hash s"
  shows "triple w P (cStorage (\<lambda>now. loadPending (vi_looseAddress lib) now key)) (\<lambda>h s. P s \<and> h = Some hash) E"
proof -
  have "cStorage (\<lambda>now. loadPending (vi_looseAddress lib) now key) w t s = (Inr (Some hash), t, s)" if "P s" for t s
    using loadPending_saved(1) [OF assms [OF that]] by (simp add: cStorage_def)
  then show ?thesis unfolding triple_def by simp
qed

text \<open>The key of a pending record does not depend on the letter case of the account.\<close>

lemma pendingKey_case: "js_lower a = js_lower b \<Longrightarrow> js_lower (pendingKey m a) = js_lower (pendingKey m b)"
  by (simp add: pendingKey_def js_lower_def)

lemma saved_case: "js_lower key = js_lower key' \<Longrightarrow> saved lib key hash s = saved lib key' hash s"
  by (simp add: saved_def)

lemma storage_check_differs: "js_lower (pendingKey m a) \<noteq> ''turret:p2p:storage-check''"
proof -
  have len: "11 < length (pendingKey m a)" by (simp add: pendingKey_def)
  have "pendingKey m a ! 11 = CHR ''p''" by (simp add: pendingKey_def)
  then have p: "js_lower (pendingKey m a) ! 11 = CHR ''p''"
    using len by (simp add: js_lower_def js_lower_char_def Let_def)
  have s: "''turret:p2p:storage-check'' ! 11 = CHR ''s''" by simp
  show ?thesis
  proof
    assume eq: "js_lower (pendingKey m a) = ''turret:p2p:storage-check''"
    have "CHR ''p'' = CHR ''s''" by (rule trans [OF p [symmetric] trans [OF arg_cong [OF eq, where f = "\<lambda>v. v ! 11"] s]])
    then show False by simp
  qed
qed

section \<open>No request while a transaction is pending\<close>

text \<open>A reconciliation of a saved record ends with its settlement or with an error.\<close>

definition flightsSettle :: "(nat \<Rightarrow> client_world) \<Rightarrow> bool" where
  "flightsSettle w \<longleftrightarrow> (\<forall>t k. cl_flight (w t) k \<noteq> Some (Inr False))"

lemma triple_impossible: "(\<And>s. \<not> P s) \<Longrightarrow> triple w P m Q E"
  by (simp add: triple_def)

lemma learns_reconcileSaved: "learns w (reconcileSavedPending lib m account key hash replacementHash) (\<lambda>settled. settled)"
  unfolding reconcileSavedPending_def Let_def
  by (rule learns_after, rule learns_after, (rule learns_rules learns_after | simp)+)

lemma triple_reconcile:
  assumes "alone w" and "flightsSettle w" and P: "\<And>s. P s \<Longrightarrow> saved lib (pendingKey m account) hash s \<and> same (pc_account s) account \<and> asked R s"
  shows "triple w P (reconcilePending lib m None) (\<lambda>settled s. settled \<and> asked R s) (asked R)"
proof -
  note fr = frame_asked [OF assms(1)]
  have weak: "triple w (asked R) m Q E \<Longrightarrow> triple w P m Q E" for m :: "bool client" and Q E
    by (erule triple_pre) (use P in blast)
  have flight: "triple w P (pBind (flightOf k) (\<lambda>existing. case existing of Some operation \<Rightarrow> cRead (\<lambda>_. operation)
      | None \<Rightarrow> reconcileSavedPending lib m a key hash None)) (\<lambda>settled s. settled \<and> asked R s) (asked R)" for k a key
  proof (rule weak, unfold triple_def, intro allI impI)
    fix t s assume s: "asked R s"
    show "case pBind (flightOf k) (\<lambda>existing. case existing of Some operation \<Rightarrow> cRead (\<lambda>_. operation)
      | None \<Rightarrow> reconcileSavedPending lib m a key hash None) w t s of (Inl e, _, s') \<Rightarrow> asked R s' | (Inr x, _, s') \<Rightarrow> x \<and> asked R s'"
    proof (cases "cl_flight (w t) k")
      case None
      have "triple w (asked R) (reconcileSavedPending lib m a key hash None) (\<lambda>settled s. asked R s \<and> settled) (asked R)"
        by (rule triple_facts [OF _ learns_triple [OF learns_reconcileSaved]])
          (unfold reconcileSavedPending_def Let_def, (rule quiet_rules readFrame_steps [OF frame_read [OF fr]] frame_steps [OF fr] quiet_capture [OF fr]
            quiet_currentPending [OF fr] quiet_verify [OF frame_read [OF fr]] quiet_receipt [OF fr])+)
      with s None show ?thesis
        by (auto simp: triple_def pBind_def flightOf_def split: prod.splits sum.splits) blast+
    next
      case (Some operation)
      moreover have "operation \<noteq> Inr False" using assms(2) Some by (auto simp: flightsSettle_def)
      moreover have "asked R (cl_others (w t) s)" using s assms(1) by (simp add: asked_def alone_def)
      ultimately show ?thesis by (cases operation) (auto simp: pBind_def flightOf_def cRead_def)
    qed
  qed
  have body: "triple w P (pBind (cStorage (\<lambda>now. loadPending (vi_looseAddress lib) now (pendingKey m a))) (\<lambda>sv.
         pBind (pGet (\<lambda>s. pc_hashes s (pendingKey m a))) (\<lambda>kept.
         case orText sv kept of
           None \<Rightarrow> pDemand (None \<in> {None, Some ''''}) e (pReturn False)
         | Some hash \<Rightarrow>
             if hash = '''' then pDemand (None \<in> {None, Some ''''}) e (pReturn False)
             else pBind (flightOf (f hash)) (\<lambda>existing. case existing of Some operation \<Rightarrow> cRead (\<lambda>_. operation)
                | None \<Rightarrow> reconcileSavedPending lib m a (pendingKey m a) hash None))))
      (\<lambda>settled s. settled \<and> asked R s) (asked R)"
    if a: "js_lower a = js_lower account" for a e f
  proof -
    have key: "P s \<Longrightarrow> saved lib (pendingKey m a) hash s" for s
      using P saved_case [OF pendingKey_case [OF a]] by blast
    show ?thesis
    proof (rule triple_bind [OF triple_loadPending [OF key]], assumption, rule triple_fact, rule triple_bind [where R = "\<lambda>_. P"])
      show "triple w P (pGet (\<lambda>s. pc_hashes s (pendingKey m a))) (\<lambda>_. P) (asked R)"
        by (rule triple_get)
      fix sv kept assume sv: "sv = Some hash"
      show "triple w P (case orText sv kept of
           None \<Rightarrow> pDemand (None \<in> {None, Some ''''}) e (pReturn False)
         | Some hash \<Rightarrow>
             if hash = '''' then pDemand (None \<in> {None, Some ''''}) e (pReturn False)
             else pBind (flightOf (f hash)) (\<lambda>existing. case existing of Some operation \<Rightarrow> cRead (\<lambda>_. operation)
                | None \<Rightarrow> reconcileSavedPending lib m a (pendingKey m a) hash None))
        (\<lambda>settled s. settled \<and> asked R s) (asked R)"
      proof (cases "hash = ''''")
        case True
        have "\<not> P s" for s using P [of s] loadPending_saved(2) [of lib "pendingKey m account" hash s] True by (auto simp: hex_word_def)
        then show ?thesis by (simp add: triple_def)
      next
        case False
        then show ?thesis unfolding sv orText_def option.case using flight by simp
      qed
    qed
  qed
  show ?thesis
    unfolding reconcilePending_def
  proof (rule triple_getK)
    fix acc
    show "triple w (\<lambda>s. P s \<and> acc = pc_account s) (case acc of None \<Rightarrow> pReturn False | Some account \<Rightarrow>
        let key = pendingKey m account in
         pBind (cStorage (\<lambda>now. loadPending (vi_looseAddress lib) now key)) (\<lambda>saved.
         pBind (pGet (\<lambda>s. pc_hashes s key)) (\<lambda>kept.
         case orText saved kept of
           None \<Rightarrow>
             pDemand (None \<in> {None, Some ''''}) ''No pending transaction is saved for this wallet and market.'' (pReturn False)
         | Some hash \<Rightarrow>
             if hash = ''''
             then pDemand (None \<in> {None, Some ''''}) ''No pending transaction is saved for this wallet and market.'' (pReturn False)
             else
               pBind (flightOf (js_lower key @ '':'' @ hash @ '':'' @ (case None of Some h \<Rightarrow> h | None \<Rightarrow> ''automatic''))) (\<lambda>existing.
               case existing of
                 Some operation \<Rightarrow> cRead (\<lambda>_. operation)
               | None \<Rightarrow> reconcileSavedPending lib m account key hash None))))
        (\<lambda>settled s. settled \<and> asked R s) (asked R)"
    proof (cases "\<exists>a. acc = Some a \<and> js_lower a = js_lower account")
      case True
      then obtain a where "acc = Some a" "js_lower a = js_lower account" by blast
      then show ?thesis unfolding Let_def option.case by (auto intro!: triple_pre [OF body])
    next
      case False
      have "\<not> (P s \<and> acc = pc_account s)" for s
        using P [of s] False by (auto simp: same_def split: option.splits)
      then show ?thesis by (rule triple_impossible)
    qed
  qed
qed

lemma triple_assertWallet:
  assumes "readFrame w P"
  shows "triple w P (assertWallet m (Some account)) (\<lambda>a s. P s \<and> a = account \<and> same (pc_account s) account) P"
proof -
  note read = triple_cReadK [OF readFrame_reads(1) [OF assms]]
  have rest: "triple w P (pBind (cRead cl_accounts) (\<lambda>accounts.
         pBind (cRead cl_walletChain) (\<lambda>chainId.
         pBind (pGet pc_account) (\<lambda>now.
         pDemand (same now account \<and> c accounts) e
        (pDemand (d chainId) e' (pReturn account))))))
      (\<lambda>a s. P s \<and> a = account \<and> same (pc_account s) account) P" for c d e e'
    by (rule read, rule read, rule triple_getK, rule triple_demand, rule triple_demand, rule triple_return) auto
  show ?thesis
    unfolding assertWallet_def
    by (rule triple_getK, rule triple_pre [where P = P])
      (auto split: option.split intro!: triple_throw triple_demand rest)
qed

lemma triple_known: "triple w P (k v) Q E \<Longrightarrow> triple w (\<lambda>s. P s \<and> f s = v) (pBind (pGet f) k) Q E"
  unfolding triple_def pBind_def pGet_def by auto

lemma triple_requireStorage:
  assumes "\<And>s b. P s \<Longrightarrow> requirePendingStorage (pc_storage s) = Inr b \<Longrightarrow> P (s\<lparr>pc_storage := b\<rparr>)"
  shows "triple w P (cStorage (\<lambda>_ b. and_then (requirePendingStorage b) (\<lambda>b'. Inr ((), b')))) (\<lambda>_. P) P"
  using assms unfolding triple_def cStorage_def by (auto simp: and_then_def split: sum.split)

lemma saved_requireStorage:
  "saved lib (pendingKey m a) hash s \<Longrightarrow> requirePendingStorage (pc_storage s) = Inr b \<Longrightarrow> saved lib (pendingKey m a) hash (s\<lparr>pc_storage := b\<rparr>)"
  using storage_check_differs [of m a]
  by (auto simp: saved_def requirePendingStorage_def removeLocal_def demand_Inr)

lemma pending_blocks:
  assumes "alone w" and "flightsSettle w" and st: "stable w (saved lib (pendingKey m account) hash)"
    and start: "saved lib (pendingKey m account) hash s" "pc_account s = Some account"
    and run: "write_call lib m call approval beforeSend w t s = (r, t', s')"
  shows "(\<exists>e. r = Inl e) \<and> pc_requests s' = pc_requests s"
proof -
  let ?R = "pc_requests s" and ?saved = "saved lib (pendingKey m account) hash"
  define P where "P = (\<lambda>s. ?saved s \<and> asked ?R s)"
  have fr: "readFrame w P"
    using saved_readFrame [OF st] frame_read [OF frame_asked [OF assms(1), of ?R]]
    by (auto simp: readFrame_def stable_def P_def)
  have weak: "P s \<Longrightarrow> asked ?R s" for s by (simp add: P_def)
  have last: "triple w (\<lambda>s. settled \<and> asked ?R s) (pDemand (\<not> settled) e k) (\<lambda>_ _. False) (asked ?R)" for settled e and k :: "string client"
    by (cases settled) (simp_all add: pDemand_def triple_throw triple_impossible)
  have body: "triple w P (pBind (assertWallet m (Some account)) (\<lambda>account. pBind (cStorage (\<lambda>_ b. and_then (requirePendingStorage b) (\<lambda>b'. Inr ((), b'))))
       (\<lambda>_. pBind (reconcilePending lib m None) (\<lambda>settled. pDemand (\<not> settled) e (k account))))) (\<lambda>_ _. False) (asked ?R)"
    for e and k :: "string \<Rightarrow> string client"
  proof (rule triple_bind [OF triple_post [OF triple_assertWallet [OF fr] _ weak]], assumption, assumption)
    fix a
    let ?P = "\<lambda>s. P s \<and> a = account \<and> same (pc_account s) account"
    show "triple w ?P (pBind (cStorage (\<lambda>_ b. and_then (requirePendingStorage b) (\<lambda>b'. Inr ((), b'))))
       (\<lambda>_. pBind (reconcilePending lib m None) (\<lambda>settled. pDemand (\<not> settled) e (k a)))) (\<lambda>_ _. False) (asked ?R)"
    proof (rule triple_bind)
      show "triple w ?P (cStorage (\<lambda>_ b. and_then (requirePendingStorage b) (\<lambda>b'. Inr ((), b')))) (\<lambda>_. ?P) (asked ?R)"
        by (rule triple_post [OF triple_requireStorage [where P = ?P]]) (auto simp: P_def asked_def intro: saved_requireStorage)
      have pre: "?P s \<Longrightarrow> ?saved s \<and> same (pc_account s) account \<and> asked ?R s" for s by (simp add: P_def)
      show "triple w ?P (pBind (reconcilePending lib m None) (\<lambda>settled. pDemand (\<not> settled) e (k a))) (\<lambda>_ _. False) (asked ?R)"
        by (rule triple_bind [OF triple_reconcile [OF assms(1,2) pre] last])
    qed
  qed
  have steps: "triple w (\<lambda>s. P s \<and> pc_account s = Some account) (writeSteps lib m call approval beforeSend) (\<lambda>_ _. False) (asked ?R)"
    unfolding writeSteps_def by (rule triple_known, rule body)
  have busy: "asked ?R s1 \<Longrightarrow> asked ?R (s1\<lparr>pc_busy := b\<rparr>)" for b s1 by (simp add: asked_def)
  have whole: "triple w (\<lambda>s. P s \<and> pc_account s = Some account) (write_call lib m call approval beforeSend) (\<lambda>_ _. False) (asked ?R)"
    unfolding write_call_def setBusy_def
    by (rule triple_getK, rule triple_pre [where P = "\<lambda>s. P s \<and> pc_account s = Some account"], rule triple_demand,
        rule triple_bind [where R = "\<lambda>_ s. P s \<and> pc_account s = Some account"], rule triple_modify, simp add: P_def asked_def,
        rule triple_catch [where F = "asked ?R"], rule triple_bind [OF steps], rule triple_impossible, simp,
        rule triple_bind [where R = "\<lambda>_. asked ?R"], rule triple_modify, erule busy, rule triple_throw, assumption)
      (simp_all add: P_def)
  have now: "P s \<and> pc_account s = Some account" using start by (simp add: P_def asked_def)
  show ?thesis
  proof (cases r)
    case (Inl e)
    then show ?thesis using tripleD_Inl [OF whole now run [unfolded Inl]] by (simp add: asked_def)
  next
    case (Inr h)
    then show ?thesis using tripleD_Inr [OF whole now run [unfolded Inr]] by simp
  qed
qed

section \<open>A hash that the wallet returned\<close>

text \<open>Nobody else forgets the hash or touches the record while it is the current one.\<close>

definition keepsRecord :: "(nat \<Rightarrow> client_world) \<Rightarrow> viem \<Rightarrow> string \<Rightarrow> string \<Rightarrow> bool" where
  "keepsRecord w lib key hash \<longleftrightarrow> stable w (\<lambda>s. pc_hashes s key = Some hash) \<and> stable w (saved lib key hash)"

text \<open>The hash is in the client's memory and, when the storage took it, in the saved record.\<close>

definition remembered :: "viem \<Rightarrow> string \<Rightarrow> string \<Rightarrow> bool \<Rightarrow> client_state \<Rightarrow> bool" where
  "remembered lib key hash inStorage s \<longleftrightarrow> pc_hashes s key = Some hash \<and> (inStorage \<longrightarrow> saved lib key hash s)"

lemma remembered_frame: "keepsRecord w lib key hash \<Longrightarrow> readFrame w (remembered lib key hash inStorage)"
  by (cases inStorage) (auto simp: readFrame_def keepsRecord_def stable_def remembered_def saved_def)

lemma remembered_stage: "remembered lib key hash b s \<Longrightarrow> remembered lib key hash b (s\<lparr>pc_stages := x\<rparr>)"
  by (simp add: remembered_def)

text \<open>A save with the hash leaves a record of it.\<close>

lemma saved_after_save:
  assumes "savePending (vi_looseAddress lib) now key hash intent requested (pc_storage s) = Inr b" and "contains '':pending:'' (js_lower key)"
  shows "saved lib key hash (s\<lparr>pc_storage := b\<rparr>)"
proof -
  from assms(1) obtain r where r: "goodRecord (vi_looseAddress lib) r" "pr_hash r = hash" "br_localWorks (pc_storage s)"
    and b: "br_local b = (br_local (pc_storage s))(js_lower key \<mapsto> Encoded (encodeRecord r), durableKey key \<mapsto> Plain ''1'')"
    "br_localWorks b = br_localWorks (pc_storage s)"
    by (rule savePendingE)
  show ?thesis
    unfolding saved_def using r b durable_differs [OF assms(2)] readRecord_encode [OF r(1)]
    by (auto simp: fun_upd_def)
qed

lemma update_keeps_saved:
  assumes "saved lib key hash s" and "updatePendingIntent (vi_looseAddress lib) now key hash intent (pc_storage s) = Inr (u, b)"
    and "contains '':pending:'' (js_lower key)"
  shows "saved lib key hash (s\<lparr>pc_storage := b\<rparr>)"
proof -
  from saved_load [OF assms(1), of now] obtain r where load: "loadPendingRecord (vi_looseAddress lib) now key (pc_storage s) = Inr (Some r, pc_storage s)"
    "pr_hash r = hash" by metis
  show ?thesis
  proof (cases "pr_intent r = None")
    case True
    then have "savePending (vi_looseAddress lib) now key hash (Some intent) None (pc_storage s) = Inr b"
      using assms(2) load by (auto simp: updatePendingIntent_def and_then_Inr)
    then show ?thesis by (rule saved_after_save) (rule assms(3))
  next
    case False
    then have "b = pc_storage s" using assms(2) load by (auto simp: updatePendingIntent_def)
    then show ?thesis using assms(1) by (simp add: saved_def)
  qed
qed

lemma pendingKey_pending: "contains '':pending:'' (js_lower (pendingKey m account))"
  by (simp add: pendingKey_def js_lower_def js_lower_char_def Let_def)

lemma quiet_loadRecord_saved:
  assumes "\<And>s. P s \<Longrightarrow> saved lib key hash s"
  shows "quiet w P (loadRecord lib key)"
proof -
  have "\<exists>x. loadRecord lib key w t s = (Inr x, t, s)" if "P s" for t s
    by (rule saved_load [OF assms [OF that], of "cl_clock (w t)"]) (simp add: loadRecord_def cStorage_def)
  then have "triple w P (loadRecord lib key) (\<lambda>_. P) P"
    unfolding triple_def by (intro allI impI) (metis (no_types, lifting) sum.case(2) prod.case)
  then show ?thesis by (simp add: quiet_def)
qed

lemma quiet_capture_saved:
  assumes "readFrame w P" and P: "\<And>s. P s \<Longrightarrow> saved lib (pendingKey m account) hash s"
    and storage: "\<And>s b. P s \<Longrightarrow> saved lib (pendingKey m account) hash (s\<lparr>pc_storage := b\<rparr>) \<Longrightarrow> P (s\<lparr>pc_storage := b\<rparr>)"
  shows "quiet w P (capturePendingIntent lib m hash account expected)"
proof -
  have update: "quiet w P (cStorage (\<lambda>now. updatePendingIntent (vi_looseAddress lib) now (pendingKey m account) hash intent))" for intent
    unfolding quiet_def triple_def cStorage_def
    by (auto split: sum.split intro!: storage update_keeps_saved [OF P _ pendingKey_pending])
  have attempt: "quiet w P (captureAttempt lib (pendingKey m account) hash account requested)" for requested
    unfolding captureAttempt_def Let_def
    by (rule quiet_rules readFrame_steps [OF assms(1)] update quiet_loadRecord_saved [OF P] | assumption)+
  have "quiet w P (captureAttempts n lib (pendingKey m account) hash account requested)" for n requested
  proof (induction n)
    case (Suc n)
    show ?case
      unfolding captureAttempts.simps
      by (rule quiet_rules readFrame_steps [OF assms(1)] attempt Suc)+
  qed (simp add: quiet_rules)
  then show ?thesis
    unfolding capturePendingIntent_def Let_def
    by (intro quiet_rules quiet_loadRecord_saved [OF P]) assumption
qed

text \<open>When the client's own storage takes the record: it works, and the hash and the requested call are well formed.\<close>

definition storageTakes :: "viem \<Rightarrow> string \<Rightarrow> requested_call option \<Rightarrow> string \<Rightarrow> client_state \<Rightarrow> bool" where
  "storageTakes lib account expected hash s \<longleftrightarrow> br_localWorks (pc_storage s) \<and> hex_word 64 hash
     \<and> (case expected of None \<Rightarrow> True | Some c \<Rightarrow> validRequested (vi_looseAddress lib) (callJson account c))"

lemma storageTakes_save:
  assumes "storageTakes lib account expected hash s"
  shows "\<exists>b. savePending (vi_looseAddress lib) now key hash None (map_option (callJson account) expected) (pc_storage s) = Inr b"
  using assms by (cases expected) (simp_all add: storageTakes_def savePending_def getLocal_def setLocal_def Let_def)

text \<open>Where a returned hash is when the handling of it ends: decided by the chain, or in the client's memory and, if the
  storage takes it, in the saved record.\<close>

definition accountedFor :: "(nat \<Rightarrow> client_world) \<Rightarrow> viem \<Rightarrow> deployment \<Rightarrow> string \<Rightarrow> string \<Rightarrow> bool \<Rightarrow> client_state \<Rightarrow> bool" where
  "accountedFor w lib m account hash taken s \<longleftrightarrow>
     decided w lib account hash \<or> pc_hashes s (pendingKey m account) = Some hash \<and> (taken \<longrightarrow> saved lib (pendingKey m account) hash s)"

lemma triple_trivial: "(\<And>x s. Q x s) \<Longrightarrow> (\<And>s. E s) \<Longrightarrow> triple w P m Q E"
  unfolding triple_def by (auto split: sum.split prod.split)

lemma decidedI: "cl_wait (w i) hash = Inr (r, ps) \<Longrightarrow> checkReceipt lib account hash r ps = Inr l \<Longrightarrow>
    cl_block (w j) (rc_blockNumber r) = Inr b \<Longrightarrow> bh_hash b = Some (rc_blockHash r) \<Longrightarrow> decided w lib account hash"
  unfolding decided_def by blast

lemma triple_receipt:
  assumes keeps: "keepsRecord w lib (pendingKey m account) hash"
  shows "triple w (\<lambda>s. taken = storageTakes lib account expected hash s) (receipt lib m hash label account expected False)
    (\<lambda>_. accountedFor w lib m account hash taken) (accountedFor w lib m account hash taken)"
proof -
  let ?key = "pendingKey m account" and ?A = "accountedFor w lib m account hash taken"
  let ?K = "remembered lib ?key hash True"
  note fr = remembered_frame [OF keeps, of True]
  let ?call = "map_option (callJson account) expected"
  have K: "?K s \<Longrightarrow> ?A s" for s by (simp add: accountedFor_def remembered_def)
  have save: "triple w (\<lambda>s. pc_hashes s ?key = Some hash \<and> taken = storageTakes lib account expected hash s)
      (cStorage (\<lambda>now b. and_then (savePending (vi_looseAddress lib) now ?key hash None ?call b) (\<lambda>b'. Inr ((), b')))) (\<lambda>_. ?K) ?A"
    unfolding triple_def
  proof (intro allI impI, elim conjE)
    fix t s assume s: "pc_hashes s ?key = Some hash" and taken: "taken = storageTakes lib account expected hash s"
    show "case cStorage (\<lambda>now b. and_then (savePending (vi_looseAddress lib) now ?key hash None ?call b) (\<lambda>b'. Inr ((), b'))) w t s of
        (Inl e, _, s') \<Rightarrow> ?A s' | (Inr x, _, s') \<Rightarrow> ?K s'"
    proof (cases "savePending (vi_looseAddress lib) (cl_clock (w t)) ?key hash None ?call (pc_storage s)")
      case (Inl e)
      then have "\<not> taken" using storageTakes_save [of lib account expected hash s "cl_clock (w t)" ?key] taken by auto
      then show ?thesis using Inl s by (simp add: cStorage_def accountedFor_def)
    next
      case (Inr b)
      then show ?thesis using s saved_after_save [OF Inr pendingKey_pending] by (simp add: cStorage_def remembered_def)
    qed
  qed
  have takes: "storageTakes lib account expected hash (s\<lparr>pc_hashes := f\<rparr>) = storageTakes lib account expected hash s" for s f
    by (simp add: storageTakes_def)
  have first: "triple w (\<lambda>s. taken = storageTakes lib account expected hash s)
      (if False then x else pBind (pModify (\<lambda>s. s\<lparr>pc_hashes := (pc_hashes s)(?key \<mapsto> hash)\<rparr>)) (\<lambda>_.
      cStorage (\<lambda>now b. and_then (savePending (vi_looseAddress lib) now ?key hash None ?call b) (\<lambda>b'. Inr ((), b'))))) (\<lambda>_. ?K) ?A" for x
    by (simp, rule triple_bind [OF _ save], rule triple_modify, simp add: takes)
  have stage: "quiet w ?K (cStage a b c)" for a b c
    unfolding quiet_def by (rule triple_cStage) (rule remembered_stage)
  have capture: "quiet w ?K (capturePendingIntent lib m hash account expected)"
    by (rule quiet_capture_saved [OF fr]) (simp_all add: remembered_def)
  have over: "triple w P (k :: string client) (\<lambda>_. ?A) ?A" if "decided w lib account hash" for P k
    by (rule triple_trivial) (simp_all add: accountedFor_def that)
  show ?thesis
    unfolding receipt_def Let_def
  proof (rule triple_bind [OF first], rule quiet_then [OF stage _ K], rule quiet_then [OF capture _ K])
    fix originalChanged
    show "triple w ?K (pBind (cRead (\<lambda>w. cl_wait w hash)) (\<lambda>(r, replacements).
     pBind (pLift (checkReceipt lib account hash r replacements)) (\<lambda>l.
     pBind (cRead (\<lambda>w. cl_block w (rc_blockNumber r))) (\<lambda>block.
     pDemand (bh_hash block = Some (rc_blockHash r)) e (k r l block))))) (\<lambda>_. ?A) ?A" for e and k :: "_ \<Rightarrow> _ \<Rightarrow> _ \<Rightarrow> string client"
    proof (rule triple_cReadK [OF readFrame_reads(1) [OF fr]], clarify)
      fix i r ps
      assume wait: "cl_wait (w i) hash = Inr (r, ps)"
      show "triple w ?K (pBind (pLift (checkReceipt lib account hash r ps)) (\<lambda>l. pBind (cRead (\<lambda>w. cl_block w (rc_blockNumber r))) (\<lambda>block.
        pDemand (bh_hash block = Some (rc_blockHash r)) e (k r l block)))) (\<lambda>_. ?A) ?A"
        by (rule triple_liftK, rule triple_cReadK [OF readFrame_reads(1) [OF fr]], rule triple_demand, rule over)
          (auto intro: K decidedI [where w = w, OF wait])
    qed (rule K)
  qed
qed

text \<open>The wallet is asked, and its answer is handled: the end of \<open>write\<close> and every approval.\<close>

definition answered :: "(nat \<Rightarrow> client_world) \<Rightarrow> nat \<Rightarrow> wallet_call \<Rightarrow> client_state \<Rightarrow> client_state" where
  "answered w t call s = cl_others (w t) (s\<lparr>pc_requests := pc_requests s @ [call]\<rparr>)"

lemma sent_accountedFor:
  assumes keeps: "\<And>hash. keepsRecord w lib (pendingKey m account) hash"
    and run: "pBind (cSend call) (\<lambda>hash. receipt lib m hash label account expected False) w t s = (r, t', s')"
  shows "(\<exists>e. cl_send (w t) call = Inl e) \<or> (\<exists>hash. cl_send (w t) call = Inr hash
    \<and> accountedFor w lib m account hash (storageTakes lib account expected hash (answered w t call s)) s')"
proof (cases "cl_send (w t) call")
  case (Inr hash)
  then have "receipt lib m hash label account expected False w (Suc t) (answered w t call s) = (r, t', s')"
    using run by (simp add: cSend_def pBind_def proc_run cRead_def answered_def)
  then have "accountedFor w lib m account hash (storageTakes lib account expected hash (answered w t call s)) s'"
    by (rule tripleD_any [OF triple_receipt [OF keeps], rotated]) simp
  then show ?thesis using Inr by blast
qed blast

end
