(* ===== verification/P2P_ClientSample.thy ===== *)
theory P2P_ClientSample
  imports P2P_Memory
begin

text \<open>A market, a wallet and a node at which the client's transactions can be run, for the instances of its properties.\<close>

definition sampleMarket :: deployment where
  "sampleMarket = \<lparr>dp_chainId = 4663, dp_chainName = ''Robinhood'', dp_rpcUrl = ''/api/rpc'', dp_address = ''0xe5'', dp_loanToken = ''0x10'',
     dp_collateralToken = ''0x20'', dp_loanSymbol = ''USDG'', dp_collateralSymbol = ''SLV'', dp_loanDecimals = 6, dp_collateralDecimals = 18,
     dp_version = Some 2, dp_vaultImplementation = None, dp_vaultImplementationHash = None, dp_collateralName = None, dp_legacy = None,
     dp_runtimeHash = ''0xfe'', dp_startBlock = ''0''\<rparr>"

definition sampleViem :: viem where
  "sampleViem = \<lparr>vi_isAddress = (\<lambda>_. True), vi_looseAddress = (\<lambda>_. True), vi_getAddress = Inr, vi_keccak = (\<lambda>_. ''0xfe''),
     vi_encode = (\<lambda>_ _. ''0x''), vi_revertName = (\<lambda>_. None)\<rparr>"

definition sampleSettled :: chain_receipt where
  "sampleSettled = \<lparr>rc_hash = sampleWord (CHR ''a''), rc_from = ''0xa'', rc_to = Some ''0xe5'', rc_blockHash = sampleWord (CHR ''b''),
     rc_blockNumber = 7, rc_status = ''success''\<rparr>"

definition sampleHead :: block_head where
  "sampleHead = \<lparr>bh_number = Some 7, bh_hash = Some (sampleWord (CHR ''b'')), bh_timestamp = 1000\<rparr>"

definition sampleRow :: offer_row where
  "sampleRow = \<lparr>or_lender = ''0xb'', or_borrower = ''0xa'', or_principal = 100, or_collateral = 5, or_interest = 10, or_duration = 604800,
     or_expiresAt = 900, or_dueAt = 700000, or_status = 2\<rparr>"

definition sampleNode :: client_world where
  "sampleNode = \<lparr>cl_chain = sampleChain, cl_chainId = Inr 4663, cl_latest = Inr sampleHead, cl_block = (\<lambda>_. Inr sampleHead),
     cl_code = (\<lambda>_ _. Inr (Some ''0x60'')), cl_slot = (\<lambda>_ _ _. Inr (sampleWord (CHR ''0''))),
     cl_address = (\<lambda>_ f _ _. Inr (if f = ''loanToken'' then ''0x10'' else ''0x20'')), cl_uint = (\<lambda>_ _ _ _. Inr 0), cl_bool = (\<lambda>_ _ _ _. Inr False),
     cl_offer = (\<lambda>_ _ _. Inr sampleRow), cl_credit = (\<lambda>_ _ _ _. Inl ''no vault''), cl_extension = (\<lambda>_ _ _. Inl ''no vault''),
     cl_page = (\<lambda>_ _ _ _. Inr ([], 0)), cl_activePage = (\<lambda>_ _ _ _ _. Inr ([], 0, 0)), cl_balance = (\<lambda>_ _. Inr 0), cl_baseline = Inl ''offline'',
     cl_logs = (\<lambda>_ _ _. Inr []), cl_activeIndex = (\<lambda>_. Inr None), cl_aborted = False, cl_requestAccounts = Inr [''0xa''], cl_accounts = Inr [''0xa''], cl_walletChain = Inr 4663,
     cl_simulate = (\<lambda>_ _. Inr ()), cl_send = (\<lambda>_. Inr (sampleWord (CHR ''a''))), cl_transaction = (\<lambda>_. Inl ''not yet''),
     cl_wait = (\<lambda>_. Inr (sampleSettled, [])), cl_flight = (\<lambda>_. None), cl_clock = 1000000, cl_others = (\<lambda>s. s)\<rparr>"

definition sampleState :: client_state where
  "sampleState = \<lparr>pc_account = Some ''0xa'', pc_busy = False, pc_hashes = Map.empty, pc_storage = emptyBrowser, pc_tokens = [],
     pc_baselines = Map.empty, pc_stages = [], pc_requests = []\<rparr>"

definition sampleRepay :: wallet_call where
  "sampleRepay = marketCall sampleMarket ''repay'' [Arg_uint 1]"

abbreviation sampleTime :: "nat \<Rightarrow> client_world" where
  "sampleTime \<equiv> \<lambda>_. sampleNode"

lemmas sample_reads = pBind_def cRead_def proc_run cStorage_def cStage_def forgetHash_def setBusy_def

lemma sample_alone: "alone sampleTime"
  by (simp add: alone_def sampleNode_def)

lemma sample_keeps: "keepsRecord sampleTime lib key hash" "stable sampleTime P"
  by (simp_all add: keepsRecord_def stable_def sampleNode_def)

lemma sample_verify:
  "verify sampleViem sampleMarket sampleTime t s = (Inr \<lparr>vb_number = 7, vb_hash = sampleWord (CHR ''b''), vb_timestamp = 1000\<rparr>, t + 5, s)"
  by (simp add: verify_def sample_reads sampleNode_def sampleMarket_def sampleViem_def sampleHead_def)

lemma sample_wallet: "pc_account s = Some ''0xa'' \<Longrightarrow> assertWallet sampleMarket (Some ''0xa'') sampleTime t s = (Inr ''0xa'', t + 2, s)"
  by (simp add: assertWallet_def sample_reads sampleNode_def sampleMarket_def same_def)

lemma sample_market: "checkMarket sampleViem sampleMarket sampleRepay sampleTime t s = (Inr (), t + 5, s)"
  by (simp add: checkMarket_def sample_verify pBind_def proc_run newExposure_def sampleRepay_def marketCall_def)

section \<open>A repayment that is confirmed\<close>

abbreviation sampleClientKey :: string where
  "sampleClientKey \<equiv> pendingKey sampleMarket ''0xa''"

definition sampleCallRecord :: pending_record where
  "sampleCallRecord = \<lparr>pr_version = 2, pr_hash = sampleWord (CHR ''a''), pr_savedAt = JS_int 1000000, pr_intent = None,
     pr_requested = Some (callJson ''0xa'' (requestOf sampleViem sampleRepay))\<rparr>"

definition sampleStored :: browser where
  "sampleStored = \<lparr>br_local = [js_lower sampleClientKey \<mapsto> Encoded (encodeRecord sampleCallRecord), durableKey sampleClientKey \<mapsto> Plain ''1''],
     br_session = [sampleClientKey \<mapsto> Plain (sampleWord (CHR ''a''))], br_localWorks = True, br_sessionWorks = True\<rparr>"

lemma sample_word: "hex_word 64 (sampleWord (CHR ''a''))" "hex_word 64 (sampleWord (CHR ''b''))"
  by (rule sampleWord_hash, simp add: is_hex_def is_lower_hex_def)+

lemma dec_of_zero: "dec_of_int 0 = ''0''"
  by (simp add: dec_of_int_def dec_of_nat.simps [of 0] digit_char_def)

lemma sample_request: "validRequested (\<lambda>_. True) (callJson ''0xa'' (requestOf sampleViem sampleRepay))"
  by (simp add: validRequested_def asIntent_def callJson_def requestOf_def sampleRepay_def marketCall_def sampleViem_def validPendingIntent_def
      j_field_def j_string_def j_int_def addressField_def safe_nat_def uintField_def inputField_def uint_text_def decimal_text_def hex_bytes_def
      isSafeInteger_def MAX_SAFE_INTEGER_def Let_def digit_text dec_of_zero)

lemma sample_saves: "savePending (\<lambda>_. True) 1000000 sampleClientKey (sampleWord (CHR ''a'')) None
    (Some (callJson ''0xa'' (requestOf sampleViem sampleRepay))) emptyBrowser = Inr sampleStored"
  by (simp add: savePending_def sample_word sample_request getLocal_def setLocal_def emptyBrowser_def retainedIntent_def retainedRequest_def Let_def
      sampleStored_def sampleCallRecord_def)

lemma sample_loads: "loadPendingRecord (\<lambda>_. True) now sampleClientKey sampleStored = Inr (Some sampleCallRecord, sampleStored)"
proof -
  have "goodRecord (\<lambda>_. True) sampleCallRecord"
    by (simp add: goodRecord_def sampleCallRecord_def sample_word sample_request)
  then show ?thesis
    using durable_differs [OF pendingKey_pending, of sampleMarket "''0xa''"]
    by (simp add: loadPendingRecord_def getLocal_def sampleStored_def readRecord_encode)
qed

lemma sample_clears: "\<exists>b. clearPending (\<lambda>_. True) now sampleClientKey (sampleWord (CHR ''a'')) sampleStored = Inr b"
  by (simp add: clearPending_def loadPending_def sample_loads sampleCallRecord_def removeLocal_def) (simp add: sampleStored_def)

lemma sample_capture:
  assumes "pc_storage s = sampleStored"
  shows "\<exists>t'. capturePendingIntent sampleViem sampleMarket (sampleWord (CHR ''a'')) ''0xa'' requested sampleTime t s = (Inr False, t', s)"
proof -
  have load: "loadRecord sampleViem sampleClientKey sampleTime t s = (Inr (Some sampleCallRecord), t, s)" for t
    using assms by (simp add: loadRecord_def cStorage_def sample_loads sampleViem_def)
  have attempt: "captureAttempt sampleViem sampleClientKey (sampleWord (CHR ''a'')) ''0xa'' q sampleTime t s = (Inl ''not yet'', Suc t, s)" for q t
    by (simp add: captureAttempt_def pBind_def load sampleCallRecord_def cRead_def) (simp add: sampleNode_def)
  have attempts: "\<exists>t'. captureAttempts n sampleViem sampleClientKey (sampleWord (CHR ''a'')) ''0xa'' q sampleTime t s = (Inr False, t', s)" for n q t
  proof (induction n arbitrary: t)
    case (Suc n)
    have idle: "cl_others sampleNode s = s" by (simp add: sampleNode_def)
    show ?case
      using Suc by (simp add: pCatch_def attempt proc_run pBind_def cRead_def idle)
  qed (simp add: proc_run)
  have from_: "same (j_string (j_field (callJson ''0xa'' c) ''from'')) ''0xa''" for c
    by (simp add: callJson_def j_field_def j_string_def same_def)
  show ?thesis
    using attempts by (simp add: capturePendingIntent_def Let_def pBind_def load sampleCallRecord_def proc_run from_)
qed

lemma sample_receipt:
  assumes "pc_storage s = emptyBrowser"
  shows "\<exists>t' s'. receipt sampleViem sampleMarket (sampleWord (CHR ''a'')) label ''0xa'' (Some (requestOf sampleViem sampleRepay)) False sampleTime t s
     = (Inr (sampleWord (CHR ''a'')), t', s')"
proof -
  have clock: "cl_clock sampleNode = 1000000" "vi_looseAddress sampleViem = (\<lambda>_. True)" "cl_others sampleNode = (\<lambda>s. s)"
    "cl_wait sampleNode h = Inr (sampleSettled, [])" "cl_block sampleNode n = Inr sampleHead" for h n
    by (simp_all add: sampleNode_def sampleViem_def)
  have check: "checkReceipt sampleViem ''0xa'' (sampleWord (CHR ''a'')) sampleSettled []
      = Inr \<lparr>li_known = [], li_expected = sampleWord (CHR ''a''), li_rejected = None\<rparr>"
    by (simp add: checkReceipt_def followReplacements_def sampleSettled_def sample_word) (simp add: sampleViem_def)
  obtain b where clears: "clearPending (\<lambda>_. True) 1000000 sampleClientKey (sampleWord (CHR ''a'')) sampleStored = Inr b"
    using sample_clears by blast
  have captured: "\<exists>t'. capturePendingIntent sampleViem sampleMarket (sampleWord (CHR ''a'')) ''0xa'' q sampleTime t s1 = (Inr False, t', s1)"
    if "pc_storage s1 = sampleStored" for q t s1
    by (rule sample_capture [OF that])
  define s1 where "s1 = s\<lparr>pc_hashes := (pc_hashes s)(sampleClientKey \<mapsto> sampleWord (CHR ''a'')), pc_storage := sampleStored,
     pc_stages := pc_stages s @ [\<lparr>sg_status = St_pending, sg_hash = Some (sampleWord (CHR ''a'')), sg_message = label @ '' submitted. Waiting for confirmation'' @ ellipsis\<rparr>]\<rparr>"
  have s1: "pc_storage s1 = sampleStored" by (simp add: s1_def)
  from captured [OF s1] obtain t1 where t1: "capturePendingIntent sampleViem sampleMarket (sampleWord (CHR ''a'')) ''0xa''
      (Some (requestOf sampleViem sampleRepay)) sampleTime t s1 = (Inr False, t1, s1)" by blast
  show ?thesis
    unfolding receipt_def Let_def
    by (simp add: sample_reads clock assms and_then_def sample_saves s1_def [symmetric] t1 check s1 clears del: append.simps)
      (simp add: sampleHead_def sampleSettled_def s1 clears and_then_def del: append.simps)
qed

lemma sample_reconcile:
  assumes "pc_storage s = emptyBrowser" and "pc_hashes s = Map.empty" and "pc_account s = Some ''0xa''"
  shows "reconcilePending sampleViem sampleMarket None sampleTime t s = (Inr False, t, s)"
proof -
  have "loadPending f now key emptyBrowser = Inr (None, emptyBrowser)" for f now key
    by (simp add: loadPending_def loadPendingRecord_def getLocal_def getSession_def emptyBrowser_def)
  then show ?thesis
    using assms by (simp add: reconcilePending_def Let_def sample_reads orText_def)
qed

lemma sample_write: "\<exists>t' s'. write_call sampleViem sampleMarket sampleRepay None None sampleTime 0 sampleState = (Inr (sampleWord (CHR ''a'')), t', s')"
proof -
  let ?busy = "sampleState\<lparr>pc_busy := True\<rparr>"
  have parts: "pc_account ?busy = Some ''0xa''" "pc_storage ?busy = emptyBrowser" "pc_hashes ?busy = Map.empty" "\<not> pc_busy sampleState"
    by (simp_all add: sampleState_def)
  have start: "pc_storage sampleState = emptyBrowser" "pc_hashes sampleState = Map.empty" "pc_account sampleState = Some ''0xa''" by (simp_all add: sampleState_def)
  have node: "cl_others sampleNode = (\<lambda>s. s)" "cl_simulate sampleNode a c = Inr ()" "cl_send sampleNode c = Inr (sampleWord (CHR ''a''))" for a c
    by (simp_all add: sampleNode_def)
  have storage: "requirePendingStorage emptyBrowser = Inr emptyBrowser"
    by (simp add: requirePendingStorage_def removeLocal_def emptyBrowser_def)
  have same_state: "?busy\<lparr>pc_storage := emptyBrowser\<rparr> = ?busy" by (simp add: sampleState_def)
  define s2 where "s2 = ?busy\<lparr>pc_stages := pc_stages sampleState @ [\<lparr>sg_status = St_signature, sg_hash = None,
    sg_message = ''Review and confirm the loan transaction in your wallet.''\<rparr>], pc_requests := pc_requests sampleState @ [sampleRepay]\<rparr>"
  have "pc_storage s2 = emptyBrowser" by (simp add: s2_def start)
  from sample_receipt [OF this] obtain t' s' where run: "receipt sampleViem sampleMarket (sampleWord (CHR ''a'')) ''Loan transaction'' ''0xa''
      (Some (requestOf sampleViem sampleRepay)) False sampleTime 20 s2 = (Inr (sampleWord (CHR ''a'')), t', s')" by blast
  have steps: "writeSteps sampleViem sampleMarket sampleRepay None None sampleTime 0 ?busy = (Inr (sampleWord (CHR ''a'')), t', s')"
    unfolding writeSteps_def approveAll_def option.case
    by (simp only: pBind_def [of "pGet pc_account"] proc_run(4) prod.case sum.case parts)
      (simp add: pBind_def sample_wallet parts cStorage_def storage and_then_def same_state sample_reconcile proc_run sample_market cRead_def node cStage_def cSend_def s2_def [symmetric] run)
  show ?thesis
    by (simp add: write_call_def pBind_def proc_run setBusy_def pCatch_def steps parts)
qed

end
