(* ===== verification/P2P_ClientProperties.thy ===== *)
theory P2P_ClientProperties
  imports P2P_ClientSample
begin

text \<open>
  The properties of the client's transactions. Everything else may run at every await; the
  hypotheses say which part of that the client relies on: the lock keeps the client's other
  writes out, and another tab leaves the record of the current transaction alone.
\<close>

lemma lock_given_back:
  assumes "write_call lib m call approval beforeSend w t s = (r, t', s')"
  shows "if pc_busy s then (\<exists>e. r = Inl e) \<and> s' = s else \<not> pc_busy s'"
proof (cases "pc_busy s")
  case False
  obtain r1 t1 s1 where steps: "writeSteps lib m call approval beforeSend w t (s\<lparr>pc_busy := True\<rparr>) = (r1, t1, s1)" by (cases rule: prod_cases3)
  show ?thesis
    using assms False by (cases r1) (auto simp: write_call_def pBind_def proc_run setBusy_def pCatch_def steps)
qed (use assms in \<open>auto simp: write_call_def pBind_def proc_run\<close>)

section \<open>Properties\<close>

text \<open>C5: what one write asks the wallet, whatever its outcome: nothing, or, after the market's code at a head block matched the
  pinned release (and, for a new loan, the market was found unpaused and funded), the first of the planned requests: the exact
  approvals that the allowance calls for, then the call. A write that is refused because another is in progress changes nothing, and any other gives the lock back.\<close>

theorem wallet_asked_as_planned:
  assumes "alone w" and "\<forall>f R. beforeSend = Some f \<longrightarrow> quiet w (asked R) f"
    and "write_call lib m call approval beforeSend w t s = (r, t', s')"
  shows "partlyAsked w lib m call approval (pc_requests s) s' \<and> (if pc_busy s then (\<exists>e. r = Inl e) \<and> s' = s else \<not> pc_busy s')"
  using write_asks [OF assms] lock_given_back [OF assms(3)] by blast

theorem wallet_asked_as_planned_witness:
  "\<exists>t' s'. write_call sampleViem sampleMarket sampleRepay None None sampleTime 0 sampleState = (Inr (sampleWord (CHR ''a'')), t', s')
     \<and> partlyAsked sampleTime sampleViem sampleMarket sampleRepay None [] s' \<and> \<not> pc_busy s'"
proof -
  obtain t' s' where run: "write_call sampleViem sampleMarket sampleRepay None None sampleTime 0 sampleState = (Inr (sampleWord (CHR ''a'')), t', s')"
    using sample_write by blast
  show ?thesis using wallet_asked_as_planned [OF sample_alone _ run] run by (auto simp: sampleState_def)
qed

text \<open>C2: a write that reports success: the wallet returned a hash for exactly this call after all the planned approvals, and the chain's canonical
  receipt for that hash is a success of the connected account, of this transaction or of a chain of repricings that never changed
  its sender, nonce, recipient, value or data.\<close>

theorem success_is_confirmed:
  assumes "alone w" and "\<forall>f R. beforeSend = Some f \<longrightarrow> quiet w (asked R) f"
    and "write_call lib m call approval beforeSend w t s = (Inr h, t', s')"
  shows "fullyAsked w lib m call approval (pc_requests s) s'
    \<and> (\<exists>account hash i. pc_account s = Some account \<and> cl_send (w i) call = Inr hash \<and> confirmedCall w account hash h)"
proof -
  obtain r1 t1 s1 where steps: "writeSteps lib m call approval beforeSend w t (s\<lparr>pc_busy := True\<rparr>) = (r1, t1, s1)" by (cases rule: prod_cases3)
  have "r1 = Inr h"
    using assms(3) by (cases r1; cases "pc_busy s") (auto simp: write_call_def pBind_def proc_run setBusy_def pCatch_def steps)
  then show ?thesis using writeSteps_confirmed [OF steps [unfolded \<open>r1 = Inr h\<close>]] write_asks [OF assms] by simp
qed

theorem success_is_confirmed_witness:
  "\<exists>s' account hash i. fullyAsked sampleTime sampleViem sampleMarket sampleRepay None [] s'
     \<and> cl_send (sampleTime i) sampleRepay = Inr hash \<and> confirmedCall sampleTime account hash (sampleWord (CHR ''a''))"
proof -
  obtain t' s' where run: "write_call sampleViem sampleMarket sampleRepay None None sampleTime 0 sampleState = (Inr (sampleWord (CHR ''a'')), t', s')"
    using sample_write by blast
  have requests: "pc_requests sampleState = []" by (simp add: sampleState_def)
  from success_is_confirmed [OF sample_alone _ run] show ?thesis unfolding requests by blast
qed

text \<open>C3: while a transaction of the account is recorded as pending, a write ends in an error and the wallet is not asked for anything, even when
  the pending transaction settles during that write.\<close>

theorem pending_stops_requests:
  assumes "alone w" and "flightsSettle w" and "stable w (saved lib (pendingKey m account) hash)"
    and "saved lib (pendingKey m account) hash s" and "pc_account s = Some account"
    and "write_call lib m call approval beforeSend w t s = (r, t', s')"
  shows "(\<exists>e. r = Inl e) \<and> pc_requests s' = pc_requests s"
  by (rule pending_blocks [OF assms])

definition samplePendingState :: client_state where
  "samplePendingState = sampleState\<lparr>pc_storage := sampleStored\<rparr>"

theorem pending_stops_requests_witness:
  "pc_requests (snd (snd (write_call sampleViem sampleMarket sampleRepay None None sampleTime 0 samplePendingState))) = []"
proof -
  obtain r t' s' where run: "write_call sampleViem sampleMarket sampleRepay None None sampleTime 0 samplePendingState = (r, t', s')"
    by (cases rule: prod_cases3)
  have "saved sampleViem sampleClientKey (sampleWord (CHR ''a'')) samplePendingState"
    using saved_after_save [where s = sampleState and lib = sampleViem and key = sampleClientKey, OF _ pendingKey_pending, of 1000000 "sampleWord (CHR ''a'')" None] sample_saves
    by (simp add: samplePendingState_def sampleViem_def sampleState_def)
  moreover have "flightsSettle sampleTime" by (simp add: flightsSettle_def sampleNode_def)
  moreover have "pc_account samplePendingState = Some ''0xa''" "pc_requests samplePendingState = []"
    by (simp_all add: samplePendingState_def sampleState_def)
  ultimately show ?thesis
    using pending_stops_requests [OF sample_alone _ sample_keeps(2) _ _ run] run by simp
qed

text \<open>C8: a hash that the wallet returned, for an approval or for the loan transaction, is not lost: when its handling ends, in
  any way, the chain has decided it, or it is in the client's memory and, if the client's own storage worked when the wallet answered and the hash and the
  requested call are well formed, in the durable record. Another tab is assumed to leave the record of the current transaction alone.\<close>

theorem returned_hash_kept:
  assumes "\<forall>hash. keepsRecord w lib (pendingKey m account) hash"
    and "pBind (cSend call) (\<lambda>hash. receipt lib m hash label account expected False) w t s = (r, t', s')"
  shows "(\<exists>e. cl_send (w t) call = Inl e) \<or> (\<exists>hash. cl_send (w t) call = Inr hash \<and> (decided w lib account hash
    \<or> pc_hashes s' (pendingKey m account) = Some hash
      \<and> (storageTakes lib account expected hash (answered w t call s) \<longrightarrow> saved lib (pendingKey m account) hash s')))"
  using sent_accountedFor [OF _ assms(2)] assms(1) unfolding accountedFor_def by blast

definition lostNode :: client_world where
  "lostNode = sampleNode\<lparr>cl_wait := (\<lambda>_. Inl ''timed out'')\<rparr>"

theorem returned_hash_kept_witness:
  "saved sampleViem (pendingKey sampleMarket ''0xa'') (sampleWord (CHR ''a''))
     (snd (snd (pBind (cSend sampleRepay) (\<lambda>hash. receipt sampleViem sampleMarket hash ''Loan transaction'' ''0xa''
        (Some (requestOf sampleViem sampleRepay)) False) (\<lambda>_. lostNode) 0 sampleState)))"
proof -
  obtain r t' s' where run: "pBind (cSend sampleRepay) (\<lambda>hash. receipt sampleViem sampleMarket hash ''Loan transaction'' ''0xa''
        (Some (requestOf sampleViem sampleRepay)) False) (\<lambda>_. lostNode) 0 sampleState = (r, t', s')" by (cases rule: prod_cases3)
  have keeps: "\<forall>hash. keepsRecord (\<lambda>_. lostNode) sampleViem (pendingKey sampleMarket ''0xa'') hash"
    by (simp add: keepsRecord_def stable_def lostNode_def sampleNode_def)
  have sent: "cl_send lostNode sampleRepay = Inr (sampleWord (CHR ''a''))" "\<And>h. \<not> decided (\<lambda>_. lostNode) sampleViem ''0xa'' h"
    by (simp_all add: lostNode_def sampleNode_def decided_def)
  have storage: "br_localWorks (pc_storage (answered (\<lambda>_. lostNode) 0 sampleRepay sampleState))"
    by (simp add: answered_def lostNode_def sampleNode_def sampleState_def emptyBrowser_def)
  have "vi_looseAddress sampleViem = (\<lambda>_. True)" by (simp add: sampleViem_def)
  then have takes: "storageTakes sampleViem ''0xa'' (Some (requestOf sampleViem sampleRepay)) (sampleWord (CHR ''a'')) (answered (\<lambda>_. lostNode) 0 sampleRepay sampleState)"
    using storage sample_word(1) sample_request by (simp add: storageTakes_def)
  from returned_hash_kept [OF keeps run] sent takes show ?thesis
    unfolding run by auto
qed

end
