(* ===== verification/JS_Date.thy ===== *)
theory JS_Date
  imports JS_Runtime
begin

text \<open>
  What the sources use of \<open>Date\<close>: the text that \<open>toISOString\<close> gives for an instant from 1970 to 9999, and the
  instant of a calendar date and time in UTC. Years begin in March here, so that the day a leap
  year adds is the last of its year; an era is 400 years.
\<close>

section \<open>Days and dates\<close>

definition yearOfEra :: "nat \<Rightarrow> nat" where
  "yearOfEra doe = (let c = min 3 (doe div 36524); r = doe - 36524 * c; q = r div 1461; s = r mod 1461 in
     100 * c + 4 * q + min 3 (s div 365))"

definition yearStart :: "nat \<Rightarrow> nat" where
  "yearStart yoe = 365 * yoe + yoe div 4 - yoe div 100"

text \<open>Days from 0000-03-01 to year, month and day, and back.\<close>

definition dateOf :: "nat \<Rightarrow> nat \<times> nat \<times> nat" where
  "dateOf z =
     (let era = z div 146097; doe = z mod 146097; yoe = yearOfEra doe; doy = doe - yearStart yoe;
          mp = (5 * doy + 2) div 153; d = doy - (153 * mp + 2) div 5 + 1; m = (if mp < 10 then mp + 3 else mp - 9);
          y = 400 * era + yoe in (if m \<le> 2 then y + 1 else y, m, d))"

definition daysOf :: "nat \<Rightarrow> nat \<Rightarrow> nat \<Rightarrow> nat" where
  "daysOf y m d =
     (let y' = (if m \<le> 2 then y - 1 else y); mp = (if m > 2 then m - 3 else m + 9); yoe = y' mod 400 in
      146097 * (y' div 400) + (yearStart yoe + (153 * mp + 2) div 5 + (d - 1)))"

text \<open>The days from 0000-03-01 to 1970-01-01.\<close>

definition EPOCH :: nat where
  "EPOCH = 719468"

lemma century_parts:
  assumes "doe < (146097::nat)" shows "min 3 (doe div 36524) \<le> 3" "36524 * min 3 (doe div 36524) \<le> doe" "doe - 36524 * min 3 (doe div 36524) \<le> 36524"
proof -
  show "min 3 (doe div 36524) \<le> 3" by simp
  have "36524 * (doe div 36524) \<le> doe" by (rule times_div_less_eq_dividend)
  then show "36524 * min 3 (doe div 36524) \<le> doe" by (rule order_trans [rotated]) simp
  show "doe - 36524 * min 3 (doe div 36524) \<le> 36524"
  proof (cases "doe div 36524 \<le> 3")
    case True
    then show ?thesis using mod_less_divisor [of 36524 doe] by (simp add: minus_mult_div_eq_mod min_def)
  next
    case False
    then show ?thesis using assms by (simp add: min_def)
  qed
qed
lemma year_digits:
  fixes c q a :: nat assumes "q \<le> 24" "a \<le> 3" shows "(100 * c + 4 * q + a) div 4 = 25 * c + q" "(100 * c + 4 * q + a) div 100 = c"
proof -
  have "100 * c + 4 * q + a = a + 4 * (25 * c + q)" by simp
  then show "(100 * c + 4 * q + a) div 4 = 25 * c + q" using assms(2) by simp
  have "100 * c + 4 * q + a = (4 * q + a) + 100 * c" by simp
  then show "(100 * c + 4 * q + a) div 100 = c" using assms by simp
qed
lemma quarter_parts:
  fixes s :: nat assumes "s \<le> 1460" shows "min 3 (s div 365) \<le> 3" "365 * min 3 (s div 365) \<le> s" "s - 365 * min 3 (s div 365) < 366"
proof -
  show "min 3 (s div 365) \<le> 3" by simp
  have "365 * (s div 365) \<le> s" by (rule times_div_less_eq_dividend)
  then show "365 * min 3 (s div 365) \<le> s" by (rule order_trans [rotated]) simp
  show "s - 365 * min 3 (s div 365) < 366"
  proof (cases "s div 365 \<le> 3")
    case True
    then show ?thesis using mod_less_divisor [of 365 s] by (simp add: minus_mult_div_eq_mod min_def)
  next
    case False
    then show ?thesis using assms by (simp add: min_def)
  qed
qed

lemma year_parts:
  assumes "doe < 146097"
  shows "yearOfEra doe < 400" and "yearStart (yearOfEra doe) \<le> doe" and "doe - yearStart (yearOfEra doe) < 366"
proof -
  define c r q s a where d: "c = min 3 (doe div 36524)" "r = doe - 36524 * c" "q = r div 1461" "s = r mod 1461" "a = min 3 (s div 365)"
  have c: "c \<le> 3" "36524 * c \<le> doe" "r \<le> 36524" using century_parts [OF assms] by (simp_all add: d(1,2))
  have q: "q \<le> 24" using div_le_mono [OF c(3), of 1461] by (simp add: d(3))
  have s: "s \<le> 1460" using mod_less_divisor [of 1461 r] by (simp add: d(4))
  have a: "a \<le> 3" "365 * a \<le> s" "s - 365 * a < 366" using quarter_parts [OF s] by (simp_all add: d(5))
  have y: "yearOfEra doe = 100 * c + 4 * q + a" by (simp add: yearOfEra_def d Let_def)
  have r: "r = 1461 * q + s" by (simp add: d(3,4))
  then have "yearStart (yearOfEra doe) = 36524 * c + 1461 * q + 365 * a" using year_digits [OF q a(1), of c] by (simp add: yearStart_def y)
  then show "yearOfEra doe < 400" "yearStart (yearOfEra doe) \<le> doe" "doe - yearStart (yearOfEra doe) < 366"
    using c q a r d(2) y by simp_all
qed

lemma month_parts:
  assumes "doy < (366::nat)"
  shows "(5 * doy + 2) div 153 \<le> 11" and "(153 * ((5 * doy + 2) div 153) + 2) div 5 \<le> doy"
proof -
  show "(5 * doy + 2) div 153 \<le> 11"
    using less_mult_imp_div_less [of "5 * doy + 2" 12 153] assms by simp
  have "153 * ((5 * doy + 2) div 153) + 2 \<le> 5 * doy + 4" using times_div_less_eq_dividend [of 153 "5 * doy + 2"] by simp
  then have "(153 * ((5 * doy + 2) div 153) + 2) div 5 \<le> (5 * doy + 4) div 5" by (rule div_le_mono)
  then show "(153 * ((5 * doy + 2) div 153) + 2) div 5 \<le> doy" by simp
qed

lemma month_back:
  fixes mp y0 :: nat
  defines "m \<equiv> (if mp < 10 then mp + 3 else mp - 9)"
  assumes "mp \<le> 11"
  shows "(if m \<le> 2 then (if m \<le> 2 then y0 + 1 else y0) - 1 else (if m \<le> 2 then y0 + 1 else y0)) = y0" and "(if 2 < m then m - 3 else m + 9) = mp"
    and "1 \<le> m" and "m \<le> 12"
  using assms by auto

lemma days_of_date:
  assumes "dateOf z = (y, m, d)"
  shows "daysOf y m d = z" and "1 \<le> m \<and> m \<le> 12 \<and> 1 \<le> d"
proof -
  define doe where "doe = z mod 146097"
  define yoe doy mp k where p: "yoe = yearOfEra doe" "doy = doe - yearStart yoe" "mp = (5 * doy + 2) div 153" "k = (153 * mp + 2) div 5"
  have doe: "doe < 146097" by (simp add: doe_def)
  note yp = year_parts [OF doe, folded p(1)]
  have mp: "mp \<le> 11" "k \<le> doy" using month_parts [of doy] yp(3) by (simp_all only: p)
  note mback = month_back(1) [OF mp(1), of "400 * (z div 146097) + yoe"] month_back(2-4) [OF mp(1)]
  have date: "m = (if mp < 10 then mp + 3 else mp - 9)" "d = doy - k + 1"
      "y = (if m \<le> 2 then 400 * (z div 146097) + yoe + 1 else 400 * (z div 146097) + yoe)"
    using assms unfolding dateOf_def Let_def doe_def [symmetric] p [symmetric] prod.inject by (elim conjE, simp only:)+
  show "1 \<le> m \<and> m \<le> 12 \<and> 1 \<le> d" using mback(3,4) date(1,2) by simp
  have era: "(400 * (z div 146097) + yoe) div 400 = z div 146097" "(400 * (z div 146097) + yoe) mod 400 = yoe" using yp(1) by simp_all
  have "daysOf y m d = 146097 * (z div 146097) + (yearStart yoe + k + (d - 1))"
    unfolding daysOf_def Let_def date(3) using mback(1,2) [folded date(1)] era by (simp only: p(4) [symmetric])
  also have "\<dots> = 146097 * (z div 146097) + doe"
    using mp(2) yp(2) unfolding date(2) p(2) by (simp only: add_diff_cancel_right' add.assoc le_add_diff_inverse)
  also have "\<dots> = z" unfolding doe_def by (rule mult_div_mod_eq)
  finally show "daysOf y m d = z" .
qed

section \<open>Text\<close>

text \<open>\<open>new Date(seconds * 1000).toISOString()\<close>, from the year 0000 to 9999; the model counts from one era earlier.\<close>

definition padded :: "nat \<Rightarrow> nat \<Rightarrow> string" where
  "padded k n = pad_start k (CHR ''0'') (dec_of_nat n)"

definition dateOfDay :: "int \<Rightarrow> nat \<times> nat \<times> nat" where
  "dateOfDay day = (case dateOf (nat (day + 865565)) of (y, m, d) \<Rightarrow> (y - 400, m, d))"

definition dayOfDate :: "nat \<Rightarrow> nat \<Rightarrow> nat \<Rightarrow> int" where
  "dayOfDate y m d = int (daysOf (y + 400) m d) - 865565"

definition minuteText :: "int \<Rightarrow> string" where
  "minuteText seconds = (case dateOfDay (seconds div 86400) of (y, m, d) \<Rightarrow>
     padded 4 y @ ''-'' @ padded 2 m @ ''-'' @ padded 2 d @ ''T'' @ padded 2 (nat (seconds mod 86400 div 3600)) @ '':'' @ padded 2 (nat (seconds mod 3600 div 60)))"

definition isoText :: "int \<Rightarrow> string" where
  "isoText seconds = minuteText seconds @ '':'' @ padded 2 (nat (seconds mod 60)) @ ''.000Z''"

lemma length_padded: "n < 10 ^ k \<Longrightarrow> 0 < k \<Longrightarrow> length (padded k n) = k"
  using length_dec_of_nat [of n k] by (simp add: padded_def pad_start_def)

lemma padded_digits: "list_all is_digit (padded k n)"
  using dec_of_nat_all_digits [of n] by (auto simp: padded_def pad_start_def list_all_iff)

lemma nat_of_padded [simp]: "nat_of_dec (padded k n) = n"
  by (simp add: padded_def)

text \<open>The bounds of the parts of a date.\<close>

lemma day_bound:
  assumes "dateOf z = (y, m, d)"
  shows "d \<le> 31"
proof -
  define doy mp k where p: "doy = z mod 146097 - yearStart (yearOfEra (z mod 146097))" "mp = (5 * doy + 2) div 153" "k = (153 * mp + 2) div 5"
  have d: "d = doy - k + 1" using assms unfolding dateOf_def Let_def p [symmetric] prod.inject by (elim conjE, simp only:)
  have "5 * doy + 2 < 153 * mp + 153" using dividend_less_times_div [of 153 "5 * doy + 2"] unfolding p(2) [symmetric] by simp
  moreover have "153 * mp + 2 < 5 * k + 5" using dividend_less_times_div [of 5 "153 * mp + 2"] unfolding p(3) [symmetric] by simp
  ultimately show ?thesis using d by arith
qed

lemma year_bounds:
  assumes "dateOf z = (y, m, d)" and "z \<le> 3798461" and "146097 \<le> z"
  shows "400 \<le> y \<and> y \<le> 10399"
proof -
  define era doe where e: "era = z div 146097" "doe = z mod 146097"
  define yoe doy mp where p: "yoe = yearOfEra doe" "doy = doe - yearStart yoe" "mp = (5 * doy + 2) div 153"
  have y: "m = (if mp < 10 then mp + 3 else mp - 9)" "y = (if m \<le> 2 then 400 * era + yoe + 1 else 400 * era + yoe)"
    using assms(1) unfolding dateOf_def Let_def e [symmetric] p [symmetric] prod.inject by (elim conjE, simp only:)+
  have yp: "yoe < 400" "yearStart yoe \<le> doe" "doy < 366" using year_parts [of doe] by (simp_all add: e(2) p(1,2))
  have era: "1 \<le> era" "era \<le> 25" using div_le_mono [OF assms(2), of 146097] div_le_mono [OF assms(3), of 146097] by (simp_all add: e(1))
  have mp: "mp \<le> 11" using month_parts(1) [OF yp(3)] by (simp add: p(3))
  show ?thesis
  proof (cases "era = 25 \<and> yoe = 399")
    case True
    have "z = 146097 * era + doe" by (simp add: e)
    then have "doe \<le> 146036" using True assms(2) by simp
    then have "doy \<le> 305" using True by (simp add: p(2) yearStart_def)
    then have "5 * doy + 2 < 10 * 153" by simp
    then have "mp < 10" unfolding p(3) by (rule less_mult_imp_div_less)
    then show ?thesis using y True by simp
  next
    case False
    then show ?thesis using y yp(1) era by (cases "era = 25") (auto split: if_splits)
  qed
qed

lemma date_bounds:
  assumes "dateOfDay day = (y, m, d)" and "0 \<le> day" and "day \<le> 2932896"
  shows "y \<le> 9999" and "1 \<le> m" and "m \<le> 12" and "1 \<le> d" and "d \<le> 31" and "dayOfDate y m d = day"
proof -
  obtain y' where z: "dateOf (nat (day + 865565)) = (y', m, d)" "y = y' - 400"
    using assms(1) by (auto simp: dateOfDay_def split: prod.splits)
  note b = year_bounds [OF z(1)]
  have y': "400 \<le> y'" "y' \<le> 10399" using b assms(2,3) by simp_all
  then show "y \<le> 9999" using z(2) by simp
  show "1 \<le> m" "m \<le> 12" "1 \<le> d" using days_of_date(2) [OF z(1)] by simp_all
  show "d \<le> 31" by (rule day_bound [OF z(1)])
  show "dayOfDate y m d = day" using days_of_date(1) [OF z(1)] z(2) y'(1) assms(2) by (simp add: dayOfDate_def)
qed

text \<open>The text of a minute, and its five numbers.\<close>

lemma div_int_less: "0 < b \<Longrightarrow> a < c * b \<Longrightarrow> a div b < (c::int)"
proof (rule ccontr)
  assume "0 < b" and a: "a < c * b" and "\<not> a div b < c"
  then have "c * b \<le> a div b * b" by (simp add: mult_right_mono)
  also have "\<dots> \<le> a" using \<open>0 < b\<close> div_mult_mod_eq [of a b] pos_mod_sign [of b a] by linarith
  finally show False using a by simp
qed

lemma minuteText_parts:
  assumes "0 \<le> s" and "s \<le> 253402300799"
  obtains y m d where "minuteText s = padded 4 y @ ''-'' @ padded 2 m @ ''-'' @ padded 2 d @ ''T'' @ padded 2 (nat (s mod 86400 div 3600)) @ '':'' @ padded 2 (nat (s mod 3600 div 60))"
    "y \<le> 9999" "1 \<le> m" "m \<le> 12" "1 \<le> d" "d \<le> 31" "dayOfDate y m d = s div 86400" "nat (s mod 86400 div 3600) < 24" "nat (s mod 3600 div 60) < 60"
proof -
  obtain y m d where date: "dateOfDay (s div 86400) = (y, m, d)" by (cases "dateOfDay (s div 86400)")
  have day: "0 \<le> s div 86400" "s div 86400 \<le> 2932896" using assms zdiv_mono1 [OF assms(2), of 86400] by simp_all
  have "s mod 86400 div 3600 < 24" by (rule div_int_less [where b = 3600]) simp_all
  moreover have "s mod 3600 div 60 < 60" by (rule div_int_less [where b = 60]) simp_all
  ultimately have time: "nat (s mod 86400 div 3600) < 24" "nat (s mod 3600 div 60) < 60" by simp_all
  have text_of: "minuteText s = padded 4 y @ ''-'' @ padded 2 m @ ''-'' @ padded 2 d @ ''T'' @ padded 2 (nat (s mod 86400 div 3600)) @ '':'' @ padded 2 (nat (s mod 3600 div 60))"
    unfolding minuteText_def date prod.case ..
  note bounds = date_bounds [OF date day]
  show thesis by (rule that [OF text_of]) (use bounds time in blast)+
qed

end
