(* ===== verification/P2P_Calendar.thy ===== *)
theory P2P_Calendar
  imports JS_Date JS_Json P2P_Model
begin

text \<open>
  p2p/loan-calendar.ts: the reminder file of a loan in the iCalendar format, and the strict reading of a UTC
  time of screens/P2PLoansScreen/v3Terms.ts. \<open>new URL\<close> is the platform's: a function from a text
  to the parts of a parsed link. Texts are lists of code points below 256, of which those from 128
  take two octets in UTF-8.
\<close>

section \<open>Reading a UTC time\<close>

text \<open>The pattern \<open>dddd-dd-ddTdd:dd\<close> of digits, and its five numbers.\<close>

definition utcPattern :: "string \<Rightarrow> bool" where
  "utcPattern v \<longleftrightarrow> length v = 16 \<and> v ! 4 = CHR ''-'' \<and> v ! 7 = CHR ''-'' \<and> v ! 10 = CHR ''T'' \<and> v ! 13 = CHR '':''
     \<and> list_all is_digit (take 4 v @ take 2 (drop 5 v) @ take 2 (drop 8 v) @ take 2 (drop 11 v) @ drop 14 v)"

text \<open>\<open>Date.parse\<close> of a full UTC time: a day may run over into the next month, and 24:00 is allowed.\<close>

definition dateParse :: "nat \<Rightarrow> nat \<Rightarrow> nat \<Rightarrow> nat \<Rightarrow> nat \<Rightarrow> int option" where
  "dateParse y m d hour minute =
     (if 1 \<le> m \<and> m \<le> 12 \<and> 1 \<le> d \<and> d \<le> 31 \<and> minute < 60 \<and> (hour < 24 \<or> hour = 24 \<and> minute = 0)
      then Some (dayOfDate y m d * 86400 + int hour * 3600 + int minute * 60) else None)"

definition parseUtcInput :: "string \<Rightarrow> int outcome" where
  "parseUtcInput v =
     demand (utcPattern v) ''Enter a valid UTC date and time.''
      (case dateParse (nat_of_dec (take 4 v)) (nat_of_dec (take 2 (drop 5 v))) (nat_of_dec (take 2 (drop 8 v)))
          (nat_of_dec (take 2 (drop 11 v))) (nat_of_dec (drop 14 v)) of
        None \<Rightarrow> Inl ''Enter a valid UTC date and time.''
      | Some seconds \<Rightarrow> demand (minuteText seconds = v) ''Enter a valid UTC date and time.'' (Inr seconds))"

lemma utcPattern_parts:
  assumes "length a = 4" "length b = 2" "length c = 2" "length d = 2" "length e = 2"
    and "list_all is_digit a" "list_all is_digit b" "list_all is_digit c" "list_all is_digit d" "list_all is_digit e"
    and v: "v = a @ ''-'' @ b @ ''-'' @ c @ ''T'' @ d @ '':'' @ e"
  shows "utcPattern v" and "take 4 v = a" and "take 2 (drop 5 v) = b" and "take 2 (drop 8 v) = c" and "take 2 (drop 11 v) = d" and "drop 14 v = e"
proof -
  obtain a0 a1 a2 a3 where a: "a = [a0, a1, a2, a3]" using assms(1) by (auto simp: eval_nat_numeral length_Suc_conv)
  obtain b0 b1 c0 c1 d0 d1 e0 e1 where r: "b = [b0, b1]" "c = [c0, c1]" "d = [d0, d1]" "e = [e0, e1]"
    using assms(2-5) by (auto simp: eval_nat_numeral length_Suc_conv)
  have whole: "v = [a0, a1, a2, a3, CHR ''-'', b0, b1, CHR ''-'', c0, c1, CHR ''T'', d0, d1, CHR '':'', e0, e1]" by (simp add: v a r)
  show "take 4 v = a" "take 2 (drop 5 v) = b" "take 2 (drop 8 v) = c" "take 2 (drop 11 v) = d" "drop 14 v = e"
    by (simp_all add: whole a r)
  then show "utcPattern v" using assms(5-10) by (simp add: utcPattern_def) (simp add: whole)
qed

lemma parse_minuteText:
  assumes "0 \<le> s" and "s \<le> 253402300799" and "s mod 60 = 0"
  shows "parseUtcInput (minuteText s) = Inr s"
proof -
  define hour minute where hm: "hour = nat (s mod 86400 div 3600)" "minute = nat (s mod 3600 div 60)"
  obtain y m d where t: "minuteText s = padded 4 y @ ''-'' @ padded 2 m @ ''-'' @ padded 2 d @ ''T'' @ padded 2 hour @ '':'' @ padded 2 minute"
      "y \<le> 9999" "1 \<le> m" "m \<le> 12" "1 \<le> d" "d \<le> 31" "dayOfDate y m d = s div 86400" "hour < 24" "minute < 60"
    unfolding hm by (rule minuteText_parts [OF assms(1,2)])
  have len: "length (padded 4 y) = 4" "length (padded 2 m) = 2" "length (padded 2 d) = 2" "length (padded 2 hour) = 2" "length (padded 2 minute) = 2"
    using t by (auto intro: length_padded)
  note parts = utcPattern_parts [OF len padded_digits padded_digits padded_digits padded_digits padded_digits t(1)]
  have "int hour = s mod 86400 div 3600" "int minute = s mod 3600 div 60" by (simp_all add: hm)
  moreover have "s = s div 86400 * 86400 + s mod 86400 div 3600 * 3600 + s mod 3600 div 60 * 60"
  proof -
    have "s mod 86400 mod 3600 = s mod 3600" by (rule mod_mod_cancel) simp
    moreover have "s mod 3600 mod 60 = s mod 60" by (rule mod_mod_cancel) simp
    ultimately show ?thesis
      using div_mult_mod_eq [of s 86400] div_mult_mod_eq [of "s mod 86400" 3600] div_mult_mod_eq [of "s mod 3600" 60] assms(3) by linarith
  qed
  ultimately have "dayOfDate y m d * 86400 + int hour * 3600 + int minute * 60 = s" using t(7) by linarith
  then have "dateParse y m d hour minute = Some s" unfolding dateParse_def using t(3-6,8,9) by (simp only: if_True simp_thms)
  then show ?thesis using parts by (simp add: parseUtcInput_def)
qed

lemma parsed_minuteText: "parseUtcInput v = Inr s \<Longrightarrow> minuteText s = v"
  by (auto simp: parseUtcInput_def demand_Inr split: option.splits)

section \<open>Content lines\<close>

definition graceSeconds :: int where
  "graceSeconds = 86400"

definition lastCalendarSecond :: int where
  "lastCalendarSecond = 253402300799"

definition maxUint256 :: int where
  "maxUint256 = 2 ^ 256 - 1"

definition validTime :: "js_number \<Rightarrow> bool" where
  "validTime v \<longleftrightarrow> (case v of JS_int n \<Rightarrow> isSafeInteger n \<and> 0 \<le> n \<and> n \<le> lastCalendarSecond | _ \<Rightarrow> False)"

text \<open>\<open>20240131T235900Z\<close>.\<close>

definition utcStamp :: "int \<Rightarrow> string" where
  "utcStamp seconds = filter (\<lambda>c. c \<noteq> CHR ''-'' \<and> c \<noteq> CHR '':'') (minuteText seconds @ '':'' @ padded 2 (nat (seconds mod 60)) @ ''Z'')"

text \<open>The replacements of \<open>text\<close>, in their order.\<close>

fun lineBreaks :: "string \<Rightarrow> string" where
  "lineBreaks [] = []"
| "lineBreaks (c # cs) =
     (if c = CHR 0x0D then (case cs of d # ds \<Rightarrow> if d = CHR 0x0A then CHR 0x5C # CHR ''n'' # lineBreaks ds else CHR 0x5C # CHR ''n'' # lineBreaks cs
        | [] \<Rightarrow> [CHR 0x5C, CHR ''n''])
      else if c = CHR 0x0A then CHR 0x5C # CHR ''n'' # lineBreaks cs
      else c # lineBreaks cs)"

definition isControl :: "char \<Rightarrow> bool" where
  "isControl c \<longleftrightarrow> (let n = of_char c :: nat in n \<le> 8 \<or> n = 11 \<or> n = 12 \<or> 14 \<le> n \<and> n \<le> 31 \<or> n = 127)"

definition escapeBy :: "char \<Rightarrow> string \<Rightarrow> string" where
  "escapeBy x s = concat (map (\<lambda>c. if c = x then [CHR 0x5C, x] else [c]) s)"

definition escapedText :: "string \<Rightarrow> string" where
  "escapedText v = escapeBy (CHR '','') (escapeBy (CHR '';'') (filter (\<lambda>c. \<not> isControl c) (lineBreaks (escapeBy (CHR 0x5C) v))))"

definition octets :: "char \<Rightarrow> nat" where
  "octets c = (if (of_char c :: nat) < 128 then 1 else 2)"

text \<open>The loop of \<open>fold\<close>: the finished lines, the current one and its octets.\<close>

fun foldLoop :: "string list \<Rightarrow> string \<Rightarrow> nat \<Rightarrow> string \<Rightarrow> string list" where
  "foldLoop lines current bytes [] = lines @ [current]"
| "foldLoop lines current bytes (c # cs) =
     (if bytes + octets c > 75 then foldLoop (lines @ [current]) ('' '' @ [c]) (1 + octets c) cs
      else foldLoop lines (current @ [c]) (bytes + octets c) cs)"

definition foldLines :: "string \<Rightarrow> string list" where
  "foldLines line = foldLoop [] '''' 0 line"

definition crlf :: string where
  "crlf = [CHR 0x0D, CHR 0x0A]"

fun joinLines :: "string list \<Rightarrow> string" where
  "joinLines [] = ''''"
| "joinLines [l] = l"
| "joinLines (l # ls) = l @ crlf @ joinLines ls"

definition foldLine :: "string \<Rightarrow> string" where
  "foldLine line = joinLines (foldLines line)"

text \<open>What a reader of the format does: continuation lines lose their space and join the line before.\<close>

definition unfoldLines :: "string list \<Rightarrow> string" where
  "unfoldLines ls = (case ls of [] \<Rightarrow> '''' | l # rest \<Rightarrow> l @ concat (map tl rest))"

definition lineOctets :: "string \<Rightarrow> nat" where
  "lineOctets l = sum_list (map octets l)"

lemma foldLoop_sound:
  assumes "bytes = lineOctets current" and "bytes \<le> 75" and "\<forall>l \<in> set lines. lineOctets l \<le> 75"
    and "lines \<noteq> [] \<longrightarrow> current \<noteq> ''''" and "\<forall>l \<in> set (tl lines) \<union> (if lines = [] then {} else {current}). hd l = CHR '' '' \<and> l \<noteq> ''''"
  shows "(\<forall>l \<in> set (foldLoop lines current bytes cs). lineOctets l \<le> 75)
    \<and> unfoldLines (foldLoop lines current bytes cs) = unfoldLines (lines @ [current]) @ cs
    \<and> (\<forall>l \<in> set (tl (foldLoop lines current bytes cs)). hd l = CHR '' '' \<and> l \<noteq> '''')"
  using assms
proof (induction cs arbitrary: lines current bytes)
  case Nil
  then show ?case by (cases lines) auto
next
  case (Cons c cs)
  have small: "octets c \<le> 2" by (simp add: octets_def)
  show ?case
  proof (cases "bytes + octets c > 75")
    case True
    let ?lines = "lines @ [current]"
    have "unfoldLines (?lines @ ['' '' @ [c]]) = unfoldLines ?lines @ [c]" by (cases lines) (simp_all add: unfoldLines_def)
    then have step: "unfoldLines (?lines @ ['' '' @ [c]]) @ cs = unfoldLines ?lines @ c # cs" by simp
    have p1: "1 + octets c = lineOctets ('' '' @ [c])" and p2: "1 + octets c \<le> 75"
      using small by (simp_all add: lineOctets_def octets_def)
    have p3: "\<forall>l \<in> set ?lines. lineOctets l \<le> 75" using Cons.prems(1-3) by simp
    have p4: "?lines \<noteq> [] \<longrightarrow> '' '' @ [c] \<noteq> ''''" by simp
    have p5: "\<forall>l \<in> set (tl ?lines) \<union> (if ?lines = [] then {} else {'' '' @ [c]}). hd l = CHR '' '' \<and> l \<noteq> ''''"
      using Cons.prems(5) by (cases lines) (auto split: if_splits)
    have eq: "foldLoop lines current bytes (c # cs) = foldLoop ?lines ('' '' @ [c]) (1 + octets c) cs" using True by simp
    show ?thesis unfolding eq by (rule Cons.IH [OF p1 p2 p3 p4 p5, unfolded step])
  next
    case False
    let ?current = "current @ [c]"
    have "unfoldLines (lines @ [?current]) = unfoldLines (lines @ [current]) @ [c]"
      using Cons.prems(4) by (cases lines) (auto simp: unfoldLines_def)
    then have step: "unfoldLines (lines @ [?current]) @ cs = unfoldLines (lines @ [current]) @ c # cs" by simp
    have p1: "bytes + octets c = lineOctets ?current" using Cons.prems(1) by (simp add: lineOctets_def)
    have p2: "bytes + octets c \<le> 75" using False by simp
    have p4: "lines \<noteq> [] \<longrightarrow> ?current \<noteq> ''''" by simp
    have p5: "\<forall>l \<in> set (tl lines) \<union> (if lines = [] then {} else {?current}). hd l = CHR '' '' \<and> l \<noteq> ''''"
      using Cons.prems(4,5) by (cases "lines = []") simp_all
    have eq: "foldLoop lines current bytes (c # cs) = foldLoop lines ?current (bytes + octets c) cs" using False by simp
    show ?thesis unfolding eq by (rule Cons.IH [OF p1 p2 Cons.prems(3) p4 p5, unfolded step])
  qed
qed

lemma foldLines_sound:
  "(\<forall>l \<in> set (foldLines line). lineOctets l \<le> 75) \<and> unfoldLines (foldLines line) = line
   \<and> (\<forall>l \<in> set (tl (foldLines line)). hd l = CHR '' '' \<and> l \<noteq> '''')"
  using foldLoop_sound [of 0 "''''" "[]" line] by (simp add: foldLines_def lineOctets_def unfoldLines_def)


section \<open>The calendar\<close>

record calendar_market =
  cm_chainId :: js_number
  cm_address :: string
  cm_loanSymbol :: string
  cm_collateralSymbol :: string
  cm_loanDecimals :: js_number
  cm_collateralDecimals :: js_number

record calendar_loan =
  cl_id :: int
  cl_status :: string
  cl_dueAt :: js_number
  cl_repaymentDeadline :: "js_number option"
  cl_principal :: int
  cl_interest :: int
  cl_collateral :: int

record parsed_url =
  pu_protocol :: string
  pu_hostname :: string
  pu_href :: string

definition whole :: "js_number \<Rightarrow> int" where
  "whole v = (case v of JS_int n \<Rightarrow> n | _ \<Rightarrow> 0)"

definition calendarAmount :: "int \<Rightarrow> nat \<Rightarrow> string" where
  "calendarAmount v decimals =
     (let digits = pad_start (decimals + 1) (CHR ''0'') (dec_of_int v) in
      if decimals = 0 then digits else
      let fraction = strip_zeros (slice_from_end decimals digits) in
      take (length digits - decimals) digits @ (if fraction \<noteq> '''' then ''.'' @ fraction else ''''))"

definition afterGrace :: "js_number \<Rightarrow> js_number" where
  "afterGrace v = (case v of JS_int n \<Rightarrow> JS_int (n + graceSeconds) | _ \<Rightarrow> v)"

definition finalDeadlineOf :: "calendar_loan \<Rightarrow> js_number" where
  "finalDeadlineOf l = (case cl_repaymentDeadline l of Some d \<Rightarrow> d | None \<Rightarrow> afterGrace (cl_dueAt l))"

definition timesValid :: "calendar_loan \<Rightarrow> js_number \<Rightarrow> bool" where
  "timesValid l now \<longleftrightarrow> cl_status l = ''active'' \<and> validTime (cl_dueAt l) \<and> whole (cl_dueAt l) \<noteq> 0
     \<and> validTime (finalDeadlineOf l) \<and> whole (cl_dueAt l) + graceSeconds \<le> whole (finalDeadlineOf l) \<and> validTime now"

definition smallDecimals :: "js_number \<Rightarrow> bool" where
  "smallDecimals v \<longleftrightarrow> (case v of JS_int n \<Rightarrow> 0 \<le> n \<and> n \<le> 36 | _ \<Rightarrow> False)"

definition uint256 :: "int \<Rightarrow> bool" where
  "uint256 n \<longleftrightarrow> 0 \<le> n \<and> n \<le> maxUint256"

definition detailsValid :: "calendar_market \<Rightarrow> calendar_loan \<Rightarrow> bool" where
  "detailsValid m l \<longleftrightarrow> safe_number (cm_chainId m) \<and> 0 < whole (cm_chainId m)
     \<and> hex_word 40 (cm_address m) \<and> \<not> list_all (\<lambda>c. c = CHR ''0'') (drop 2 (cm_address m))
     \<and> 0 < cl_id l \<and> cl_id l \<le> maxUint256 \<and> smallDecimals (cm_loanDecimals m) \<and> smallDecimals (cm_collateralDecimals m)
     \<and> list_all (\<lambda>s. js_trim s \<noteq> '''' \<and> length s \<le> 512) [cm_loanSymbol m, cm_collateralSymbol m]
     \<and> list_all uint256 [cl_principal l, cl_interest l, cl_collateral l]
     \<and> cl_principal l \<noteq> 0 \<and> cl_collateral l \<noteq> 0 \<and> cl_principal l + cl_interest l \<le> maxUint256"

text \<open>The link, when it has no raw control character or space, parses and is a web address with a host.\<close>

definition safeLink :: "(string \<Rightarrow> parsed_url option) \<Rightarrow> string \<Rightarrow> parsed_url option" where
  "safeLink parseUrl url =
     (if list_ex (\<lambda>c. (of_char c :: nat) \<le> 32 \<or> (of_char c :: nat) = 127) url then None else
      case parseUrl url of None \<Rightarrow> None | Some u \<Rightarrow>
        if pu_protocol u \<in> {''https:'', ''http:''} \<and> pu_hostname u \<noteq> '''' then Some u else None)"

definition calendarEvent :: "string \<Rightarrow> string \<Rightarrow> int \<Rightarrow> int \<Rightarrow> string \<Rightarrow> string \<Rightarrow> string \<Rightarrow> string list" where
  "calendarEvent identity kind start now summary description href =
     [''BEGIN:VEVENT'', ''UID:turret-p2p-'' @ identity @ ''-'' @ kind @ ''@turret.capital'', ''DTSTAMP:'' @ utcStamp now,
      ''DTSTART:'' @ utcStamp start, ''SUMMARY:'' @ escapedText summary, ''DESCRIPTION:'' @ escapedText description, ''URL:'' @ href,
      ''TRANSP:TRANSPARENT'']"

definition alarm :: "string \<Rightarrow> string \<Rightarrow> string list" where
  "alarm message trigger = [''BEGIN:VALARM'', ''ACTION:DISPLAY'', ''TRIGGER;RELATED=START:'' @ trigger,
     ''DESCRIPTION:'' @ escapedText message, ''END:VALARM'']"

definition newline :: string where
  "newline = [CHR 0x0A]"

fun joinBy :: "string \<Rightarrow> string list \<Rightarrow> string" where
  "joinBy sep [] = ''''"
| "joinBy sep [l] = l"
| "joinBy sep (l # ls) = l @ sep @ joinBy sep ls"

definition calendarDescription :: "calendar_market \<Rightarrow> calendar_loan \<Rightarrow> string \<Rightarrow> string \<Rightarrow> string \<Rightarrow> string" where
  "calendarDescription m l escrow repayment href =
     (let loanDecimals = nat (whole (cm_loanDecimals m)); due = whole (cl_dueAt l); final = whole (finalDeadlineOf l) in
      joinBy newline
       [''Fixed repayment: '' @ repayment @ '' (principal '' @ calendarAmount (cl_principal l) loanDecimals @ '' + fixed interest ''
          @ calendarAmount (cl_interest l) loanDecimals @ '' '' @ cm_loanSymbol m @ '').'',
        ''Collateral at risk: '' @ calendarAmount (cl_collateral l) (nat (whole (cm_collateralDecimals m))) @ '' '' @ cm_collateralSymbol m @ ''.'',
        ''Due: '' @ isoText due @ ''.'',
        ''Final repayment deadline: '' @ isoText final
          @ (if due + graceSeconds < final then '' (extended by mutual agreement)'' else '' (24 hours after due)'') @ ''.'',
        ''Repay by the final deadline to recover collateral. After that deadline, all collateral may be assigned to the lender.'',
        ''Network, wallet or website outages do not extend the on-chain deadline.'',
        ''This downloaded reminder does not update automatically after repayment or settlement. It also does not track deadline extensions. Download a new reminder after agreeing an extension.'',
        ''Chain: '' @ dec_of_int (whole (cm_chainId m)) @ ''. Escrow: '' @ escrow @ ''. Loan: '' @ dec_of_int (cl_id l) @ ''.'',
        ''Loan URL: '' @ href])"

definition calendarIdentity :: "calendar_market \<Rightarrow> calendar_loan \<Rightarrow> string" where
  "calendarIdentity m l = dec_of_int (whole (cm_chainId m)) @ ''-'' @ js_lower (cm_address m) @ ''-'' @ dec_of_int (cl_id l)"

definition calendarLines :: "calendar_market \<Rightarrow> calendar_loan \<Rightarrow> string \<Rightarrow> int \<Rightarrow> string list" where
  "calendarLines m l href now =
     (let identity = calendarIdentity m l; escrow = js_lower (cm_address m);
          title = ''Turret '' @ cm_collateralSymbol m @ '' loan #'' @ dec_of_int (cl_id l);
          repayment = calendarAmount (cl_principal l + cl_interest l) (nat (whole (cm_loanDecimals m))) @ '' '' @ cm_loanSymbol m;
          description = calendarDescription m l escrow repayment href;
          message = title @ '': repay '' @ repayment @ '' by the final deadline to recover collateral. Outages do not extend the deadline. '' @ href in
      [''BEGIN:VCALENDAR'', ''VERSION:2.0'', ''PRODID:-//Turret//P2P Loan Reminders//EN'', ''CALSCALE:GREGORIAN'']
      @ calendarEvent identity ''due'' (whole (cl_dueAt l)) now (title @ '': due'') description href @ [''END:VEVENT'']
      @ calendarEvent identity ''deadline'' (whole (finalDeadlineOf l)) now (title @ '': final repayment deadline'') description href
      @ concat (map (alarm message) [''-P1D'', ''-PT1H'']) @ [''END:VEVENT'', ''END:VCALENDAR''])"

definition loanCalendar :: "(string \<Rightarrow> parsed_url option) \<Rightarrow> calendar_market \<Rightarrow> calendar_loan \<Rightarrow> string \<Rightarrow> js_number \<Rightarrow> (string \<times> string) option" where
  "loanCalendar parseUrl m l url now =
     (if \<not> timesValid l now \<or> \<not> detailsValid m l then None else
      case safeLink parseUrl url of None \<Rightarrow> None | Some u \<Rightarrow>
        Some (''turret-loan-'' @ calendarIdentity m l @ ''.ics'', joinLines (map foldLine (calendarLines m l (pu_href u) (whole now))) @ crlf))"


section \<open>Reading the file back\<close>

text \<open>A reader splits the file at its line ends and joins a line that begins with a space to the one before.\<close>

fun splitCrlf :: "string \<Rightarrow> string \<Rightarrow> string list" where
  "splitCrlf acc [] = []"
| "splitCrlf acc (c # cs) = (case cs of [] \<Rightarrow> [acc @ [c]]
     | d # ds \<Rightarrow> if c = CHR 0x0D \<and> d = CHR 0x0A then acc # splitCrlf [] ds else splitCrlf (acc @ [c]) cs)"

definition continues :: "string \<Rightarrow> bool" where
  "continues l \<longleftrightarrow> l \<noteq> '''' \<and> hd l = CHR '' ''"

function readLines :: "string list \<Rightarrow> string list" where
  "readLines [] = []"
| "readLines (l # ls) = unfoldLines (l # takeWhile continues ls) # readLines (dropWhile continues ls)"
  by pat_completeness auto
termination
  by (relation "measure length") (auto simp: le_imp_less_Suc length_dropWhile_le)

definition unbroken :: "string \<Rightarrow> bool" where
  "unbroken l \<longleftrightarrow> CHR 0x0D \<notin> set l \<and> CHR 0x0A \<notin> set l"

lemma unbroken_simps [simp]:
  "unbroken (a @ b) \<longleftrightarrow> unbroken a \<and> unbroken b" "unbroken (c # l) \<longleftrightarrow> c \<noteq> CHR 0x0D \<and> c \<noteq> CHR 0x0A \<and> unbroken l" "unbroken ''''"
  by (auto simp: unbroken_def)

lemma splitCrlf_line: "unbroken l \<Longrightarrow> splitCrlf acc (l @ crlf @ rest) = (acc @ l) # splitCrlf [] rest"
proof (induction l arbitrary: acc)
  case Nil
  then show ?case by (simp add: crlf_def)
next
  case (Cons c l)
  then have "splitCrlf acc ((c # l) @ crlf @ rest) = splitCrlf (acc @ [c]) (l @ crlf @ rest)"
    by (cases "l @ crlf @ rest") (auto simp: crlf_def)
  then show ?case using Cons by simp
qed

lemma splitCrlf_lines: "\<forall>l \<in> set ls. unbroken l \<Longrightarrow> splitCrlf [] (concat (map (\<lambda>l. l @ crlf) ls)) = ls"
  by (induction ls) (simp_all add: splitCrlf_line)

lemma joinLines_concat: "ls \<noteq> [] \<Longrightarrow> joinLines ls @ crlf = concat (map (\<lambda>l. l @ crlf) ls)"
  by (induction ls rule: joinLines.induct) simp_all

lemma foldLoop_nonempty: "foldLoop lines current bytes cs \<noteq> []"
  by (induction cs arbitrary: lines current bytes) simp_all

lemma foldLines_nonempty: "foldLines l \<noteq> []"
  by (simp add: foldLines_def foldLoop_nonempty)

lemma concat_map_concat: "concat (map g (concat (map f xs))) = concat (map (\<lambda>x. concat (map g (f x))) xs)"
  by (induction xs) simp_all

lemma joinLines_folded: "ls \<noteq> [] \<Longrightarrow> joinLines (map foldLine ls) @ crlf = concat (map (\<lambda>l. l @ crlf) (concat (map foldLines ls)))"
  using joinLines_concat [of "map foldLine ls"] by (simp add: foldLine_def concat_map_concat comp_def joinLines_concat foldLines_nonempty)

lemma foldLoop_chars: "c \<in> set (concat (foldLoop lines current bytes cs)) \<Longrightarrow> c \<in> set (concat lines) \<union> set current \<union> set cs \<union> {CHR '' ''}"
proof (induction cs arbitrary: lines current bytes)
  case (Cons d cs)
  then show ?case
    using Cons.IH [of "lines @ [current]" "'' '' @ [d]" "1 + octets d"] Cons.IH [of lines "current @ [d]" "bytes + octets d"]
    by (cases "bytes + octets d > 75") auto
qed auto

lemma foldLines_unbroken:
  assumes "unbroken l"
  shows "\<forall>x \<in> set (foldLines l). unbroken x"
proof
  fix x assume x: "x \<in> set (foldLines l)"
  have "c \<in> set l \<union> {CHR '' ''}" if "c \<in> set x" for c
    using foldLoop_chars [of c "[]" "''''" 0 l] x that by (auto simp: foldLines_def)
  then show "unbroken x" using assms by (auto simp: unbroken_def)
qed

lemma foldLines_shape:
  assumes "\<not> continues l"
  obtains first more where "foldLines l = first # more" "\<not> continues first" "\<forall>x \<in> set more. continues x"
proof -
  obtain first more where f: "foldLines l = first # more" using foldLines_nonempty [of l] by (cases "foldLines l") auto
  have sound: "unfoldLines (first # more) = l" "\<forall>x \<in> set more. hd x = CHR '' '' \<and> x \<noteq> ''''"
    using foldLines_sound [of l] by (simp_all add: f)
  then have more: "\<forall>x \<in> set more. continues x" by (simp add: continues_def)
  have "\<not> continues first"
    using assms sound(1) by (auto simp: continues_def unfoldLines_def)
  then show thesis using that f more by blast
qed

lemma readLines_folded: "\<forall>l \<in> set ls. \<not> continues l \<Longrightarrow> readLines (concat (map foldLines ls)) = ls"
proof (induction ls)
  case (Cons l ls)
  obtain first more where f: "foldLines l = first # more" "\<not> continues first" "\<forall>x \<in> set more. continues x"
    by (rule foldLines_shape [of l]) (use Cons.prems in simp_all)
  let ?rest = "concat (map foldLines ls)"
  have rest: "?rest = [] \<or> \<not> continues (hd ?rest)"
  proof (cases ls)
    case (Cons k ks)
    obtain first' more' where "foldLines k = first' # more'" "\<not> continues first'"
      by (rule foldLines_shape [of k]) (use Cons.prems Cons in simp_all)
    then show ?thesis by (simp add: Cons)
  qed simp
  then have "takeWhile continues ?rest = []" "dropWhile continues ?rest = ?rest"
    by (simp_all add: takeWhile_eq_Nil_iff dropWhile_eq_self_iff)
  then have more: "takeWhile continues (more @ ?rest) = more" "dropWhile continues (more @ ?rest) = ?rest"
    using f(3) by (simp_all add: takeWhile_append2 dropWhile_append2)
  have whole: "concat (map foldLines (l # ls)) = first # (more @ ?rest)" by (simp add: f)
  have "unfoldLines (first # more) = l" using foldLines_sound [of l] by (simp add: f)
  then show ?case unfolding whole readLines.simps(2) more using Cons by simp
qed simp

section \<open>No line of the calendar is broken\<close>

lemma lineBreaks_unbroken: "unbroken (lineBreaks s)"
  by (induction s rule: lineBreaks.induct) (auto split: list.splits)

lemma unbroken_filter: "unbroken s \<Longrightarrow> unbroken (filter P s)"
  by (auto simp: unbroken_def)

lemma unbroken_escapeBy: "unbroken s \<Longrightarrow> x \<noteq> CHR 0x0D \<Longrightarrow> x \<noteq> CHR 0x0A \<Longrightarrow> unbroken (escapeBy x s)"
  by (induction s) (auto simp: escapeBy_def)

lemma escapedText_unbroken: "unbroken (escapedText v)"
  unfolding escapedText_def by (intro unbroken_escapeBy unbroken_filter lineBreaks_unbroken) simp_all

lemma digits_unbroken: "list_all is_digit s \<Longrightarrow> unbroken s"
  by (induction s) (auto simp: is_digit_def)

lemma dec_of_int_unbroken: "unbroken (dec_of_int i)"
  by (simp add: dec_of_int_def digits_unbroken dec_of_nat_all_digits)

lemma minuteText_unbroken: "unbroken (minuteText s)"
  by (auto simp: minuteText_def digits_unbroken padded_digits split: prod.split)

lemma utcStamp_unbroken: "unbroken (utcStamp s)"
  unfolding utcStamp_def by (rule unbroken_filter) (simp add: minuteText_unbroken digits_unbroken padded_digits)

lemma hex_lower_unbroken: "hex_word 40 a \<Longrightarrow> unbroken (js_lower a)"
proof -
  assume a: "hex_word 40 a"
  have high: "48 \<le> (of_char (js_lower_char c) :: nat)" if "is_hex c \<or> c \<in> {CHR ''0'', CHR ''x'', CHR ''X''}" for c
    using that by (auto simp: is_hex_def is_lower_hex_def is_upper_hex_def is_digit_def js_lower_char_def Let_def)
  have low: "d \<noteq> CHR 0x0D \<and> d \<noteq> CHR 0x0A" if "48 \<le> (of_char d :: nat)" for d using that by auto
  have safe: "js_lower_char c \<noteq> CHR 0x0D \<and> js_lower_char c \<noteq> CHR 0x0A" if "is_hex c \<or> c \<in> {CHR ''0'', CHR ''x'', CHR ''X''}" for c
    by (rule low [OF high [OF that]])
  have chars: "is_hex c \<or> c \<in> {CHR ''0'', CHR ''x'', CHR ''X''}" if "c \<in> set a" for c
  proof -
    have "c \<in> set (take 2 a) \<or> c \<in> set (drop 2 a)" using that by (metis Un_iff append_take_drop_id set_append)
    moreover have "take 2 a = ''0x'' \<or> take 2 a = ''0X''" "list_all is_hex (drop 2 a)" using a unfolding hex_word_def by blast+
    then have "set (take 2 a) \<subseteq> {CHR ''0'', CHR ''x'', CHR ''X''}" "\<forall>c \<in> set (drop 2 a). is_hex c"
      by (elim disjE, simp_all add: list_all_iff)
    ultimately show ?thesis by blast
  qed
  have "js_lower_char c \<noteq> CHR 0x0D \<and> js_lower_char c \<noteq> CHR 0x0A" if "c \<in> set a" for c
    by (rule safe [OF chars [OF that]])
  then show ?thesis unfolding unbroken_def js_lower_def set_map by (metis imageE)
qed

lemma calendarLines_unbroken:
  assumes "hex_word 40 (cm_address m)" and "unbroken href" and "l \<in> set (calendarLines m x href now)"
  shows "unbroken l \<and> \<not> continues l"
proof -
  have identity: "unbroken (calendarIdentity m x)"
    using hex_lower_unbroken [OF assms(1)] by (simp add: calendarIdentity_def dec_of_int_unbroken)
  have event: "unbroken k \<and> \<not> continues k" if "k \<in> set (calendarEvent (calendarIdentity m x) kind start now summary description href)" "unbroken kind"
    for k kind start summary description
    using that identity assms(2) by (auto simp: calendarEvent_def utcStamp_unbroken escapedText_unbroken continues_def)
  have message: "unbroken k \<and> \<not> continues k" if "k \<in> set (alarm msg trigger)" "unbroken trigger" for k msg trigger
    using that by (auto simp: alarm_def escapedText_unbroken continues_def)
  have "\<exists>t1 t2 d msg. calendarLines m x href now =
      [''BEGIN:VCALENDAR'', ''VERSION:2.0'', ''PRODID:-//Turret//P2P Loan Reminders//EN'', ''CALSCALE:GREGORIAN'']
      @ calendarEvent (calendarIdentity m x) ''due'' (whole (cl_dueAt x)) now t1 d href @ [''END:VEVENT'']
      @ calendarEvent (calendarIdentity m x) ''deadline'' (whole (finalDeadlineOf x)) now t2 d href
      @ concat (map (alarm msg) [''-P1D'', ''-PT1H'']) @ [''END:VEVENT'', ''END:VCALENDAR'']"
    unfolding calendarLines_def Let_def by (intro exI) (rule refl)
  then obtain t1 t2 d msg where lines: "calendarLines m x href now =
      [''BEGIN:VCALENDAR'', ''VERSION:2.0'', ''PRODID:-//Turret//P2P Loan Reminders//EN'', ''CALSCALE:GREGORIAN'']
      @ calendarEvent (calendarIdentity m x) ''due'' (whole (cl_dueAt x)) now t1 d href @ [''END:VEVENT'']
      @ calendarEvent (calendarIdentity m x) ''deadline'' (whole (finalDeadlineOf x)) now t2 d href
      @ concat (map (alarm msg) [''-P1D'', ''-PT1H'']) @ [''END:VEVENT'', ''END:VCALENDAR'']"
    by (elim exE) (rule that)
  have alarms: "set (concat (map (alarm msg) [''-P1D'', ''-PT1H''])) = set (alarm msg ''-P1D'') \<union> set (alarm msg ''-PT1H'')" by simp
  show ?thesis
    using assms(3) unfolding lines set_append alarms
  proof (elim UnE)
    show ?thesis if "l \<in> set (calendarEvent (calendarIdentity m x) ''due'' (whole (cl_dueAt x)) now t1 d href)" by (rule event [OF that]) simp
    show ?thesis if "l \<in> set (calendarEvent (calendarIdentity m x) ''deadline'' (whole (finalDeadlineOf x)) now t2 d href)" by (rule event [OF that]) simp
    show ?thesis if "l \<in> set (alarm msg ''-P1D'')" by (rule message [OF that]) simp
    show ?thesis if "l \<in> set (alarm msg ''-PT1H'')" by (rule message [OF that]) simp
  qed (auto simp: continues_def)
qed


section \<open>Properties\<close>

text \<open>C40: from 1970 to 9999 the times that the strict UTC input accepts are exactly the texts of whole minutes: reading the
  text of an instant gives the instant, and what was read is written back the same.\<close>

theorem utc_input_round_trip:
  assumes "0 \<le> s" and "s \<le> 253402300799"
  shows "parseUtcInput v = Inr s \<longleftrightarrow> s mod 60 = 0 \<and> v = minuteText s"
proof
  assume v: "parseUtcInput v = Inr s"
  then obtain y m d hour minute where "dateParse y m d hour minute = Some s"
    by (auto simp: parseUtcInput_def demand_Inr split: option.splits)
  then have "s = 60 * (dayOfDate y m d * 1440 + int hour * 60 + int minute)" by (auto simp: dateParse_def split: if_splits)
  then have "s mod 60 = 0" by (simp only: mod_mult_self1_is_0)
  then show "s mod 60 = 0 \<and> v = minuteText s" using parsed_minuteText [OF v] by simp
qed (use parse_minuteText [OF assms] in simp)

theorem utc_input_round_trip_witness: "parseUtcInput (minuteText 1735689600) = Inr 1735689600"
  using utc_input_round_trip [of 1735689600 "minuteText 1735689600"] by simp

text \<open>C22: a reader that splits a reminder file at its line ends and joins continuation lines finds exactly the lines the
  calendar was built of, whatever the symbols and the link hold, and no line of the file is longer
  than 75 octets. No content line can be injected.\<close>

theorem calendar_reads_back:
  assumes "loanCalendar parseUrl m l url now = Some (fname, content)" and "\<forall>x u. parseUrl x = Some u \<longrightarrow> unbroken (pu_href u)"
  shows "\<exists>u. safeLink parseUrl url = Some u \<and> readLines (splitCrlf '''' content) = calendarLines m l (pu_href u) (whole now)
    \<and> (\<forall>line \<in> set (splitCrlf '''' content). lineOctets line \<le> 75)"
proof -
  obtain u where u: "safeLink parseUrl url = Some u" and hex: "hex_word 40 (cm_address m)"
      and content: "content = joinLines (map foldLine (calendarLines m l (pu_href u) (whole now))) @ crlf"
    using assms(1) by (auto simp: loanCalendar_def detailsValid_def split: if_splits option.splits)
  let ?lines = "calendarLines m l (pu_href u) (whole now)"
  have "unbroken (pu_href u)" using u assms(2) by (auto simp: safeLink_def split: if_splits option.splits)
  then have lines: "\<forall>x \<in> set ?lines. unbroken x \<and> \<not> continues x" using calendarLines_unbroken [OF hex] by blast
  have "?lines \<noteq> []" by (simp add: calendarLines_def Let_def)
  then have "content = concat (map (\<lambda>l. l @ crlf) (concat (map foldLines ?lines)))" unfolding content by (rule joinLines_folded)
  moreover have "\<forall>x \<in> set (concat (map foldLines ?lines)). unbroken x" using lines foldLines_unbroken by auto
  ultimately have split: "splitCrlf '''' content = concat (map foldLines ?lines)" by (simp only: splitCrlf_lines)
  have "readLines (concat (map foldLines ?lines)) = ?lines" using lines by (intro readLines_folded) blast
  moreover have "\<forall>x \<in> set (concat (map foldLines ?lines)). lineOctets x \<le> 75" using foldLines_sound by auto
  ultimately show ?thesis using u split by auto
qed

definition sampleCalendarMarket :: calendar_market where
  "sampleCalendarMarket = \<lparr>cm_chainId = JS_int 4663, cm_address = ''0x'' @ replicate 40 (CHR ''a''), cm_loanSymbol = ''USDG'',
     cm_collateralSymbol = ''A'' @ crlf @ ''END:VCALENDAR'', cm_loanDecimals = JS_int 6, cm_collateralDecimals = JS_int 18\<rparr>"

definition sampleCalendarLoan :: calendar_loan where
  "sampleCalendarLoan = \<lparr>cl_id = 7, cl_status = ''active'', cl_dueAt = JS_int 1735689600, cl_repaymentDeadline = None,
     cl_principal = 1000000, cl_interest = 5, cl_collateral = 3\<rparr>"

definition sampleUrl :: "string \<Rightarrow> parsed_url option" where
  "sampleUrl url = (if url = ''https://t/x'' then Some \<lparr>pu_protocol = ''https:'', pu_hostname = ''t'', pu_href = ''https://t/x''\<rparr> else None)"

lemma sample_calendar: "\<exists>fname content. loanCalendar sampleUrl sampleCalendarMarket sampleCalendarLoan ''https://t/x'' (JS_int 1735600000) = Some (fname, content)"
proof -
  have "timesValid sampleCalendarLoan (JS_int 1735600000)"
    by (simp add: timesValid_def sampleCalendarLoan_def validTime_def finalDeadlineOf_def afterGrace_def whole_def graceSeconds_def
      lastCalendarSecond_def isSafeInteger_def MAX_SAFE_INTEGER_def)
  moreover have "detailsValid sampleCalendarMarket sampleCalendarLoan"
    by (simp add: detailsValid_def sampleCalendarMarket_def sampleCalendarLoan_def whole_def hex_word_def is_hex_def is_lower_hex_def
      list_all_iff isSafeInteger_def MAX_SAFE_INTEGER_def maxUint256_def smallDecimals_def uint256_def js_trim_def is_space_def crlf_def)
  moreover have "\<exists>u. safeLink sampleUrl ''https://t/x'' = Some u" by (simp add: safeLink_def sampleUrl_def)
  ultimately show ?thesis by (auto simp: loanCalendar_def)
qed

theorem calendar_reads_back_witness:
  "\<exists>fname content. loanCalendar sampleUrl sampleCalendarMarket sampleCalendarLoan ''https://t/x'' (JS_int 1735600000) = Some (fname, content)
    \<and> readLines (splitCrlf '''' content) = calendarLines sampleCalendarMarket sampleCalendarLoan ''https://t/x'' 1735600000"
proof -
  obtain fname content where c: "loanCalendar sampleUrl sampleCalendarMarket sampleCalendarLoan ''https://t/x'' (JS_int 1735600000) = Some (fname, content)"
    using sample_calendar by blast
  have "\<forall>x u. sampleUrl x = Some u \<longrightarrow> unbroken (pu_href u)" by (auto simp: sampleUrl_def split: if_splits)
  from calendar_reads_back [OF c this] obtain u where "safeLink sampleUrl ''https://t/x'' = Some u"
      "readLines (splitCrlf [] content) = calendarLines sampleCalendarMarket sampleCalendarLoan (pu_href u) (whole (JS_int 1735600000))" by auto
  moreover have "pu_href u = ''https://t/x''" using calculation(1) by (auto simp: safeLink_def sampleUrl_def)
  ultimately show ?thesis using c by (auto simp: whole_def)
qed

end
