(* ===== verification/P2P_Activity.thy ===== *)
theory P2P_Activity
  imports P2P_Facts P2P_Calendar
begin

text \<open>
  p2p/activity.ts: the bounded, restartable scan of an account's history in one market, at one block of the chain, and
  its export. The order of two texts in the reader's language (\<open>localeCompare\<close>) is an argument. A cursor is
  the account, market and chain it belongs to, the anchor block and the block to go on from.
\<close>

section \<open>Cursors, entries and pages\<close>

record activity_cursor =
  ac_account :: string
  ac_market :: string
  ac_chainId :: int
  ac_anchor :: int
  ac_anchorHash :: string
  ac_before :: int

record activity_entry =
  ae_key :: string
  ae_market :: string
  ae_marketSymbol :: string
  ae_chainId :: int
  ae_version :: int
  ae_transactionHash :: string
  ae_logIndex :: int
  ae_blockNumber :: int
  ae_timestamp :: int
  ae_action :: string
  ae_loanId :: "int option"
  ae_token :: "string option"
  ae_symbol :: "string option"
  ae_decimals :: "nat option"
  ae_amount :: "int option"
  ae_writtenOff :: "int option"
  ae_actor :: "string option"
  ae_recipient :: "string option"
  ae_detail :: "string option"

record activity_page =
  ap_entries :: "activity_entry list"
  ap_next :: "activity_cursor option"
  ap_anchor :: int
  ap_anchorHash :: string
  ap_scannedFrom :: int
  ap_scannedTo :: int

record loan_parties =
  lp_lender :: string
  lp_borrower :: string
  lp_principal :: int
  lp_collateral :: int
  lp_recipient :: string

definition activity_uint :: "int \<Rightarrow> bool" where
  "activity_uint v \<longleftrightarrow> 0 \<le> v \<and> v < 2 ^ 256"

section \<open>Events\<close>

text \<open>\<open>args.id ?? args.targetId\<close>\<close>

fun eventLoan :: "activity_event \<Rightarrow> int option" where
  "eventLoan (OfferCreated i _ _ _ _ _ _ _) = Some i"
| "eventLoan (OfferAccepted i _ _) = Some i"
| "eventLoan (OfferClosed i _) = Some i"
| "eventLoan (LoanRepaid i _ _) = Some i"
| "eventLoan (LoanDefaulted i) = Some i"
| "eventLoan (CreditAdded _ _ _) = None"
| "eventLoan (Withdrawn _ _ _ _) = None"
| "eventLoan (LoanCreditAdded i _ _ _) = Some i"
| "eventLoan (LoanCreditSpent _ target _ _) = Some target"
| "eventLoan (LoanCreditWithdrawn i _ _ _ _ _) = Some i"
| "eventLoan (ExtensionProposed i _ _ _ _ _) = Some i"
| "eventLoan (ExtensionCancelled i _) = Some i"
| "eventLoan (ExtensionAccepted i _ _ _ _) = Some i"

text \<open>The events of a market: a V3 market has its own credits and extensions.\<close>

definition readsEvent :: "deployment \<Rightarrow> activity_event \<Rightarrow> bool" where
  "readsEvent m e \<longleftrightarrow> (case e of
     CreditAdded _ _ _ \<Rightarrow> dp_version m \<noteq> Some 3 | Withdrawn _ _ _ _ \<Rightarrow> dp_version m \<noteq> Some 3
   | LoanCreditAdded _ _ _ _ \<Rightarrow> dp_version m = Some 3 | LoanCreditSpent _ _ _ _ \<Rightarrow> dp_version m = Some 3
   | LoanCreditWithdrawn _ _ _ _ _ _ \<Rightarrow> dp_version m = Some 3 | ExtensionProposed _ _ _ _ _ _ \<Rightarrow> dp_version m = Some 3
   | ExtensionCancelled _ _ \<Rightarrow> dp_version m = Some 3 | ExtensionAccepted _ _ _ _ _ \<Rightarrow> dp_version m = Some 3
   | _ \<Rightarrow> True)"

text \<open>Whether the account takes part: by the event's own arguments, or as a party of the loan.\<close>

definition relevantEvent :: "string \<Rightarrow> loan_parties option \<Rightarrow> activity_event \<Rightarrow> bool" where
  "relevantEvent account loan e = (
     let party = (case loan of Some l \<Rightarrow> sameAddress (lp_lender l) account \<or> sameAddress (lp_borrower l) account | None \<Rightarrow> False) in
     case e of
       CreditAdded _ owner _ \<Rightarrow> sameAddress owner account
     | LoanCreditAdded _ _ owner _ \<Rightarrow> sameAddress owner account
     | LoanCreditSpent _ _ payer _ \<Rightarrow> sameAddress payer account
     | Withdrawn _ owner recipient _ \<Rightarrow> sameAddress owner account \<or> sameAddress recipient account
     | LoanCreditWithdrawn _ _ owner recipient _ _ \<Rightarrow> sameAddress owner account \<or> sameAddress recipient account
     | OfferCreated _ lender borrower _ _ _ _ _ \<Rightarrow> sameAddress lender account \<or> sameAddress borrower account
     | LoanRepaid _ payer _ \<Rightarrow> party \<or> sameAddress payer account
     | _ \<Rightarrow> party)"

section \<open>The scan\<close>

definition activityCheck :: "bool \<Rightarrow> string \<Rightarrow> unit client" where
  "activityCheck getter account =
     pBind signalAborted (\<lambda>aborted.
     pBind (currentAccount account) (\<lambda>current.
     pDemand (\<not> aborted \<and> (getter \<longrightarrow> current)) ''Activity loading was cancelled or the wallet changed.'' (pReturn ())))"

definition canonicalAnchor :: "bool \<Rightarrow> string \<Rightarrow> int \<Rightarrow> string \<Rightarrow> unit client" where
  "canonicalAnchor getter account anchor anchorHash =
     pBind (activityCheck getter account) (\<lambda>_.
     pBind (cRead (\<lambda>w. cl_block w anchor)) (\<lambda>block.
     pDemand (bh_number block = Some anchor \<and> same (bh_hash block) anchorHash)
       ''Activity snapshot changed on-chain. Refresh activity before loading more.'' (pReturn ())))"

definition windowStart :: "int \<Rightarrow> int \<Rightarrow> int \<Rightarrow> int" where
  "windowStart start before width = (if before - width + 1 > start then before - width + 1 else start)"

text \<open>A range that the node refuses or that is too dense is read again with a quarter of the width, six times at most.\<close>

fun readRange :: "deployment \<Rightarrow> bool \<Rightarrow> string \<Rightarrow> int \<Rightarrow> int \<Rightarrow> nat \<Rightarrow> int \<Rightarrow> (int \<times> activity_log list) client" where
  "readRange m getter account start before 0 width = pThrow ''Activity history is unavailable.''"
| "readRange m getter account start before (Suc attempts) width =
     pCatch
       (pBind (cRead (\<lambda>w. cl_logs w (dp_address m) (windowStart start before width) before)) (\<lambda>found.
        pDemand (length found \<le> 400) ''Activity range is too dense.'' (pReturn (windowStart start before width, found))))
       (\<lambda>_. pBind (activityCheck getter account) (\<lambda>_.
        pDemand (\<not> (width = 1 \<or> attempts = 0))
          ''Activity history could not be read completely. Retry this range; no older history was skipped.''
          (readRange m getter account start before attempts (if width div 4 = 0 then 1 else width div 4))))"

definition goodLog :: "deployment \<Rightarrow> int \<Rightarrow> int \<Rightarrow> activity_log \<Rightarrow> bool" where
  "goodLog m from before l \<longleftrightarrow> sameAddress (al_address l) (dp_address m) \<and> \<not> al_removed l \<and> hex_word 64 (al_blockHash l)
     \<and> hex_word 64 (al_transactionHash l) \<and> activity_uint (al_blockNumber l) \<and> from \<le> al_blockNumber l \<and> al_blockNumber l \<le> before
     \<and> isSafeInteger (al_logIndex l) \<and> 0 \<le> al_logIndex l \<and> readsEvent m (al_event l)"

text \<open>The windows of one page, newest first: what is left to scan, where the scan has got to and the logs found.\<close>

fun scanWindows :: "deployment \<Rightarrow> bool \<Rightarrow> string \<Rightarrow> int \<Rightarrow> int \<Rightarrow> nat \<Rightarrow> int \<Rightarrow> int \<Rightarrow> activity_log list \<Rightarrow> (int \<times> int \<times> activity_log list) client" where
  "scanWindows m getter account start span 0 before scannedFrom logs = pReturn (before, scannedFrom, logs)"
| "scanWindows m getter account start span (Suc windows) before scannedFrom logs =
     (if before < start then pReturn (before, scannedFrom, logs)
      else
        pBind (activityCheck getter account) (\<lambda>_.
        pBind (readRange m getter account start before 6 span) (\<lambda>(from, range).
        pDemand (list_all (goodLog m from before) range) ''Activity RPC returned an invalid or noncanonical event. Refresh activity.''
          (if length (logs @ range) \<ge> 200 then pReturn (from - 1, from, logs @ range)
           else scanWindows m getter account start span windows (from - 1) from (logs @ range)))))"

definition logKey :: "activity_log \<Rightarrow> string" where
  "logKey l = al_transactionHash l @ '':'' @ dec_of_int (al_logIndex l)"

definition loanIds :: "activity_log list \<Rightarrow> int list outcome" where
  "loanIds logs = and_then (map_outcome (\<lambda>i. demand (activity_uint i \<and> i \<noteq> 0) ''Activity contains an invalid loan identifier.'' (Inr i))
       (List.map_filter (eventLoan \<circ> al_event) logs)) (\<lambda>ids. Inr (distinctFirst ids))"

definition readParties :: "viem \<Rightarrow> deployment \<Rightarrow> int \<Rightarrow> int \<Rightarrow> (int \<times> loan_parties) client" where
  "readParties lib m anchor i =
     pBind (cRead (\<lambda>w. cl_offer w (dp_address m) i (Some anchor))) (\<lambda>row.
     pBind (if dp_version m = Some 3 then cRead (\<lambda>w. cl_address w (dp_address m) ''vaults'' [Arg_uint i] anchor) else pReturn (dp_address m)) (\<lambda>vault.
     pDemand (vi_looseAddress lib (or_lender row) \<and> \<not> sameAddress (or_lender row) ZERO_ADDRESS \<and> vi_looseAddress lib (or_borrower row)
         \<and> activity_uint (or_principal row) \<and> or_principal row \<noteq> 0 \<and> activity_uint (or_collateral row) \<and> 1 \<le> or_status row \<and> or_status row \<le> 6
         \<and> vi_looseAddress lib vault \<and> \<not> sameAddress vault ZERO_ADDRESS) ''Activity loan could not be verified.''
       (pReturn (i, \<lparr>lp_lender = or_lender row, lp_borrower = or_borrower row, lp_principal = or_principal row,
          lp_collateral = or_collateral row, lp_recipient = vault\<rparr>))))"

definition readStamp :: "int \<Rightarrow> (int \<times> string \<times> int) client" where
  "readStamp number =
     pBind (cRead (\<lambda>w. cl_block w number)) (\<lambda>block.
     case bh_hash block of
       Some hash \<Rightarrow> pDemand (bh_number block = Some number \<and> hex_word 64 hash \<and> 0 \<le> bh_timestamp block \<and> bh_timestamp block \<le> MAX_TIME)
         ''Activity timestamp could not be verified.'' (pReturn (number, hash, bh_timestamp block))
     | None \<Rightarrow> pThrow ''Activity timestamp could not be verified.'')"

text \<open>Eight at a time, each time after the check.\<close>

definition inBatches :: "bool \<Rightarrow> string \<Rightarrow> ('a \<Rightarrow> 'b client) \<Rightarrow> 'a list \<Rightarrow> 'b list client" where
  "inBatches getter account f xs =
     pBind (cMap (\<lambda>part. pBind (activityCheck getter account) (\<lambda>_. cMap f part)) (slices 7 xs)) (\<lambda>parts. pReturn (concat parts))"

definition logParties :: "(int \<times> loan_parties) list \<Rightarrow> activity_log \<Rightarrow> loan_parties option" where
  "logParties loans l = Option.bind (eventLoan (al_event l)) (map_of loans)"

definition relevantLog :: "string \<Rightarrow> (int \<times> loan_parties) list \<Rightarrow> activity_log \<Rightarrow> bool" where
  "relevantLog account loans l = relevantEvent account (logParties loans l) (al_event l)"

section \<open>Entries\<close>

text \<open>\<open>new Date(Number(seconds) * 1000).toISOString()\<close>: six digits and a sign from the year 10000 on, an error past the last date.\<close>

definition timeText :: "int \<Rightarrow> string outcome" where
  "timeText seconds =
     (if seconds \<le> 253402300799 then Inr (isoText seconds)
      else if seconds \<le> MAX_TIME
      then (case dateOfDay (seconds div 86400) of (y, _, _) \<Rightarrow> Inr (''+'' @ padded 6 y @ drop (length (padded 4 y)) (isoText seconds)))
      else Inl ''Invalid time value'')"

definition tokenFields :: "deployment \<Rightarrow> string \<Rightarrow> int \<Rightarrow> activity_entry \<Rightarrow> activity_entry outcome" where
  "tokenFields m address amount e =
     demand (activity_uint amount) ''Activity contains an invalid amount.''
    (if sameAddress address (dp_loanToken m)
     then Inr (e\<lparr>ae_token := Some address, ae_amount := Some amount, ae_symbol := Some (dp_loanSymbol m), ae_decimals := Some (dp_loanDecimals m)\<rparr>)
     else if sameAddress address (dp_collateralToken m)
     then Inr (e\<lparr>ae_token := Some address, ae_amount := Some amount, ae_symbol := Some (dp_collateralSymbol m), ae_decimals := Some (dp_collateralDecimals m)\<rparr>)
     else Inl ''Activity contains an unexpected token.'')"

definition baseEntry :: "deployment \<Rightarrow> activity_log \<Rightarrow> int \<Rightarrow> nat \<Rightarrow> string \<Rightarrow> activity_entry" where
  "baseEntry m l timestamp n action =
     \<lparr>ae_key = dec_of_int (dp_chainId m) @ '':'' @ js_lower (dp_address m) @ '':'' @ al_transactionHash l @ '':'' @ dec_of_int (al_logIndex l) @ '':'' @ dec_of_nat n,
      ae_market = dp_address m, ae_marketSymbol = dp_collateralSymbol m, ae_chainId = dp_chainId m, ae_version = marketVersion m,
      ae_transactionHash = al_transactionHash l, ae_logIndex = al_logIndex l, ae_blockNumber = al_blockNumber l, ae_timestamp = timestamp,
      ae_action = action, ae_loanId = eventLoan (al_event l), ae_token = None, ae_symbol = None, ae_decimals = None, ae_amount = None,
      ae_writtenOff = None, ae_actor = None, ae_recipient = None, ae_detail = None\<rparr>"

definition withParty :: "loan_parties option \<Rightarrow> (loan_parties \<Rightarrow> 'a outcome) \<Rightarrow> 'a outcome" where
  "withParty loan f = (case loan of Some p \<Rightarrow> f p | None \<Rightarrow> Inl ''Cannot read properties of undefined'')"

text \<open>The entries of one log; \<open>n\<close> entries come before them, and \<open>e k action\<close> is the plain entry after \<open>k\<close> more.\<close>

definition logEntries :: "deployment \<Rightarrow> string \<Rightarrow> loan_parties option \<Rightarrow> activity_log \<Rightarrow> int \<Rightarrow> nat \<Rightarrow> activity_entry list outcome" where
  "logEntries m account loan l timestamp n =
    (let e = (\<lambda>k action. baseEntry m l timestamp (n + k) action);
         one = (\<lambda>r. and_then r (\<lambda>x. Inr [x])) in
     case al_event l of
       OfferCreated _ lender _ amount _ _ _ _ \<Rightarrow>
         withParty loan (\<lambda>p. one (tokenFields m (dp_loanToken m) amount
           ((e 0 (if sameAddress lender account then ''Offer funded'' else ''Private offer received''))\<lparr>ae_actor := Some lender, ae_recipient := Some (lp_recipient p)\<rparr>)))
     | OfferAccepted _ _ _ \<Rightarrow>
         withParty loan (\<lambda>p. and_then (tokenFields m (dp_loanToken m) (lp_principal p) ((e 0 ''Loan principal delivered'')\<lparr>ae_actor := Some (lp_borrower p),
              ae_recipient := Some (lp_borrower p), ae_detail := Some (''Acceptance delivered principal funded by '' @ lp_lender p @ ''.'')\<rparr>)) (\<lambda>x.
           and_then (tokenFields m (dp_collateralToken m) (lp_collateral p) ((e 1 ''Collateral deposited'')\<lparr>ae_actor := Some (lp_borrower p),
              ae_recipient := Some (lp_recipient p)\<rparr>)) (\<lambda>y. Inr [x, y])))
     | OfferClosed _ status \<Rightarrow>
         (if status = 5 then withParty loan (\<lambda>p. Inr [(e 0 ''Offer cancelled'')\<lparr>ae_actor := Some (lp_lender p), ae_detail := Some ''Released funds are recorded as a separate withdrawal credit.''\<rparr>])
          else Inr [(e 0 ''Offer expired'')\<lparr>ae_detail := Some ''Released funds are recorded as a separate withdrawal credit.''\<rparr>])
     | LoanRepaid _ payer amount \<Rightarrow>
         withParty loan (\<lambda>p. one (tokenFields m (dp_loanToken m) amount ((e 0 ''Repayment settled'')\<lparr>ae_actor := Some payer, ae_recipient := Some (lp_recipient p),
           ae_detail := Some ''Full debt settled; may include credits. This is not necessarily a wallet debit.''\<rparr>)))
     | LoanDefaulted _ \<Rightarrow>
         withParty loan (\<lambda>p. Inr [(e 0 ''Default settled'')\<lparr>ae_recipient := Some (lp_lender p),
           ae_detail := Some ''Collateral entitlement assigned to lender; withdrawal is a separate event.''\<rparr>])
     | CreditAdded token owner amount \<Rightarrow>
         one (tokenFields m token amount ((e 0 ''Withdrawal credit added'')\<lparr>ae_recipient := Some owner,
           ae_detail := Some ''Recorded entitlement, not a wallet transfer or a guarantee of current backing.''\<rparr>))
     | LoanCreditAdded _ token owner amount \<Rightarrow>
         one (tokenFields m token amount ((e 0 ''Withdrawal credit added'')\<lparr>ae_recipient := Some owner,
           ae_detail := Some ''Recorded entitlement, not a wallet transfer or a guarantee of current backing.''\<rparr>))
     | Withdrawn token owner recipient amount \<Rightarrow>
         one (tokenFields m token amount ((e 0 ''Funds withdrawn'')\<lparr>ae_actor := Some owner, ae_recipient := Some recipient, ae_writtenOff := Some 0\<rparr>))
     | LoanCreditWithdrawn _ token owner recipient amount writtenOff \<Rightarrow>
         one (tokenFields m token amount ((e 0 ''Funds withdrawn'')\<lparr>ae_actor := Some owner, ae_recipient := Some recipient, ae_writtenOff := Some writtenOff\<rparr>))
     | LoanCreditSpent source target payer amount \<Rightarrow>
         withParty loan (\<lambda>p. one (tokenFields m (dp_loanToken m) amount ((e 0 ''Credit used for repayment'')\<lparr>ae_actor := Some payer,
           ae_recipient := Some (lp_recipient p), ae_loanId := Some source,
           ae_detail := Some (''Credit from loan #'' @ dec_of_int source @ '' applied to loan #'' @ dec_of_int target @ ''. Included in that loan's repayment settlement.'')\<rparr>)))
     | ExtensionProposed _ proposer _ _ newDeadline _ \<Rightarrow>
         and_then (timeText newDeadline) (\<lambda>d. Inr [(e 0 ''Deadline extension proposed'')\<lparr>ae_actor := Some proposer,
           ae_detail := Some (''Proposed final deadline: '' @ d)\<rparr>])
     | ExtensionCancelled _ _ \<Rightarrow> Inr [e 0 ''Deadline proposal cancelled'']
     | ExtensionAccepted _ accepter _ _ newDeadline \<Rightarrow>
         and_then (timeText newDeadline) (\<lambda>d. Inr [(e 0 ''Deadline extension accepted'')\<lparr>ae_actor := Some accepter,
           ae_detail := Some (''New final deadline: '' @ d)\<rparr>]))"

text \<open>All entries, in the order of the logs. A log whose block the chain has replaced stops the page.\<close>

fun activityEntries :: "deployment \<Rightarrow> string \<Rightarrow> (int \<times> loan_parties) list \<Rightarrow> (int \<times> string \<times> int) list \<Rightarrow> activity_log list \<Rightarrow> activity_entry list \<Rightarrow> activity_entry list outcome" where
  "activityEntries m account loans stamps [] entries = Inr entries"
| "activityEntries m account loans stamps (l # ls) entries =
     (case map_of stamps (al_blockNumber l) of
        None \<Rightarrow> Inl ''Cannot read properties of undefined''
      | Some (hash, timestamp) \<Rightarrow>
          demand (sameAddress hash (al_blockHash l)) ''Activity event was reorganized out of the chain. Refresh activity.''
         (and_then (logEntries m account (logParties loans l) l timestamp (length entries)) (\<lambda>added.
          activityEntries m account loans stamps ls (entries @ added))))"

definition compareEntries :: "(string \<Rightarrow> string \<Rightarrow> int) \<Rightarrow> activity_entry \<Rightarrow> activity_entry \<Rightarrow> int" where
  "compareEntries localeCompare a b =
     (if ae_blockNumber a > ae_blockNumber b then - 1 else if ae_blockNumber a < ae_blockNumber b then 1
      else if ae_logIndex b - ae_logIndex a \<noteq> 0 then ae_logIndex b - ae_logIndex a else localeCompare (ae_key a) (ae_key b))"

section \<open>A page\<close>

definition startText :: "string \<Rightarrow> bool" where
  "startText v \<longleftrightarrow> v = ''0'' \<or> v \<noteq> '''' \<and> hd v \<noteq> CHR ''0'' \<and> list_all is_digit v"

definition cursorOk :: "deployment \<Rightarrow> string \<Rightarrow> verified_block \<Rightarrow> activity_cursor \<Rightarrow> bool" where
  "cursorOk m account verified c \<longleftrightarrow> sameAddress (ac_account c) account \<and> sameAddress (ac_market c) (dp_address m) \<and> ac_chainId c = dp_chainId m
     \<and> activity_uint (ac_anchor c) \<and> activity_uint (ac_before c) \<and> ac_before c \<le> ac_anchor c \<and> hex_word 64 (ac_anchorHash c)
     \<and> ac_anchor c \<le> vb_number verified"

definition pageEntries :: "(string \<Rightarrow> string \<Rightarrow> int) \<Rightarrow> viem \<Rightarrow> deployment \<Rightarrow> string \<Rightarrow> bool \<Rightarrow> int \<Rightarrow> string \<Rightarrow> activity_log list \<Rightarrow> activity_entry list client" where
  "pageEntries localeCompare lib m account getter anchor anchorHash logs =
     pDemand (distinct (map logKey logs)) ''Activity RPC returned duplicate events. Retry loading.''
    (pBind (pLift (loanIds logs)) (\<lambda>ids.
     pBind (inBatches getter account (readParties lib m anchor) ids) (\<lambda>loans.
     let relevant = filter (relevantLog account loans) logs in
     pBind (inBatches getter account readStamp (distinctFirst (map al_blockNumber relevant))) (\<lambda>stamps.
     pBind (pLift (activityEntries m account loans stamps relevant [])) (\<lambda>entries.
     pBind (canonicalAnchor getter account anchor anchorHash) (\<lambda>_.
     pBind (activityCheck getter account) (\<lambda>_.
     pReturn (js_sort (compareEntries localeCompare) entries))))))))"

definition scanPage :: "(string \<Rightarrow> string \<Rightarrow> int) \<Rightarrow> viem \<Rightarrow> deployment \<Rightarrow> string \<Rightarrow> bool \<Rightarrow> int \<Rightarrow> nat \<Rightarrow> int \<Rightarrow> string \<Rightarrow> int \<Rightarrow> activity_page client" where
  "scanPage localeCompare lib m account getter span maxWindows anchor anchorHash scannedTo =
     pBind (canonicalAnchor getter account anchor anchorHash) (\<lambda>_.
     pDemand (startOf m \<le> anchor) ''This market has no activity at the verified block yet. Refresh shortly.''
    (pDemand (scannedTo \<ge> startOf m) ''Activity cursor is before this market's deployment.''
    (pDemand (1 \<le> span \<and> span \<le> 200000 \<and> 1 \<le> maxWindows \<and> maxWindows \<le> 8) ''Invalid activity scan bounds.''
    (pBind (scanWindows m getter account (startOf m) span maxWindows scannedTo scannedTo []) (\<lambda>(before, scannedFrom, logs).
     pBind (pageEntries localeCompare lib m account getter anchor anchorHash logs) (\<lambda>entries.
     pReturn \<lparr>ap_entries = entries,
       ap_next = (if before \<ge> startOf m then Some \<lparr>ac_account = account, ac_market = dp_address m, ac_chainId = dp_chainId m, ac_anchor = anchor,
         ac_anchorHash = anchorHash, ac_before = before\<rparr> else None),
       ap_anchor = anchor, ap_anchorHash = anchorHash, ap_scannedFrom = scannedFrom, ap_scannedTo = scannedTo\<rparr>))))))"

definition readP2PActivity ::
    "(string \<Rightarrow> string \<Rightarrow> int) \<Rightarrow> viem \<Rightarrow> deployment \<Rightarrow> string \<Rightarrow> activity_cursor option \<Rightarrow> bool \<Rightarrow> int \<Rightarrow> nat \<Rightarrow> activity_page client" where
  "readP2PActivity localeCompare lib m account cursor getter span maxWindows =
     pBind (activityCheck getter account) (\<lambda>_.
     pDemand (vi_looseAddress lib account \<and> \<not> sameAddress account ZERO_ADDRESS \<and> startText (dp_startBlock m))
       ''Invalid activity wallet or deployment block.''
    (pBind (verify lib m) (\<lambda>verified.
     case cursor of
       None \<Rightarrow> scanPage localeCompare lib m account getter span maxWindows (vb_number verified) (vb_hash verified) (vb_number verified)
     | Some c \<Rightarrow>
         pDemand (cursorOk m account verified c) ''Activity cursor belongs to another wallet, market or chain. Refresh activity.''
           (scanPage localeCompare lib m account getter span maxWindows (ac_anchor c) (ac_anchorHash c) (ac_before c)))))"

section \<open>Export\<close>

definition activityAmount :: "int option \<Rightarrow> nat option \<Rightarrow> string option \<Rightarrow> string" where
  "activityAmount amount decimals symbol = (case (amount, decimals) of
     (Some v, Some d) \<Rightarrow>
       (let fraction = strip_zeros (pad_start d (CHR ''0'') (dec_of_int (tmod v (10 ^ d)))) in
        dec_of_int (tdiv v (10 ^ d)) @ (if fraction = '''' then '''' else ''.'' @ fraction)
        @ (case symbol of Some u \<Rightarrow> if u = '''' then '''' else '' '' @ u | None \<Rightarrow> ''''))
   | _ \<Rightarrow> '''')"

definition startsFormula :: "string \<Rightarrow> bool" where
  "startsFormula v \<longleftrightarrow> v \<noteq> '''' \<and> hd v \<in> {CHR ''='', CHR ''+'', CHR ''@'', CHR ''-'', CHR 0x09, CHR 0x0D}"

definition csvCell :: "string \<Rightarrow> string" where
  "csvCell v = [CHR 0x22] @ concat (map (\<lambda>c. if c = CHR 0x22 then [c, c] else [c]) (if startsFormula v then CHR 0x27 # v else v)) @ [CHR 0x22]"

definition csvHeader :: "string list" where
  "csvHeader = [''wallet'', ''chain_id'', ''market'', ''market_symbol'', ''version'', ''timestamp_utc'', ''block'', ''transaction'', ''log_index'', ''loan_id'',
     ''action'', ''token'', ''amount_raw'', ''decimals'', ''amount'', ''actor'', ''recipient'', ''written_off_raw'', ''detail'']"

definition intText :: "int option \<Rightarrow> string" where
  "intText v = (case v of Some i \<Rightarrow> dec_of_int i | None \<Rightarrow> '''')"

definition optText :: "string option \<Rightarrow> string" where
  "optText v = (case v of Some u \<Rightarrow> u | None \<Rightarrow> '''')"

definition csvRow :: "string \<Rightarrow> activity_entry \<Rightarrow> string list outcome" where
  "csvRow account e = and_then (timeText (ae_timestamp e)) (\<lambda>time. Inr
     [account, dec_of_int (ae_chainId e), ae_market e, ae_marketSymbol e, dec_of_int (ae_version e), time, dec_of_int (ae_blockNumber e), ae_transactionHash e,
      dec_of_int (ae_logIndex e), intText (ae_loanId e), ae_action e, optText (ae_token e), intText (ae_amount e), intText (map_option int (ae_decimals e)),
      activityAmount (ae_amount e) (ae_decimals e) (ae_symbol e), optText (ae_actor e), optText (ae_recipient e), intText (ae_writtenOff e), optText (ae_detail e)])"

definition activityCsv :: "activity_entry list \<Rightarrow> string \<Rightarrow> string outcome" where
  "activityCsv entries account = and_then (map_outcome (csvRow account) entries) (\<lambda>rows.
     Inr (joinBy [CHR 0x0D, CHR 0x0A] (map (\<lambda>row. joinBy '','' (map csvCell row)) (csvHeader # rows)) @ [CHR 0x0D, CHR 0x0A]))"

definition activityExplorer :: "int \<Rightarrow> string \<Rightarrow> string option" where
  "activityExplorer chainId transactionHash =
     (if chainId = 4663 then Some (''https://explorer.mainnet.chain.robinhood.com/tx/'' @ transactionHash) else None)"

end
