(* ===== verification/P2P_History.thy ===== *)
theory P2P_History
  imports P2P_Activity P2P_ClientSample
begin

text \<open>
  What the pages of an account's history (P2P_Activity) say: which blocks a page has scanned, which events have an
  entry on it, and that reading on from each page's cursor ends with the whole history. Every fact is about the
  answers the node gives at the instants of the reads.
\<close>

section \<open>A node that serves one history\<close>

text \<open>Every answer for a range of blocks holds exactly the events of the range, and every answer for an offer at the anchor is the same.\<close>

definition servesLogs :: "(nat \<Rightarrow> client_world) \<Rightarrow> deployment \<Rightarrow> activity_log set \<Rightarrow> bool" where
  "servesLogs w m H \<longleftrightarrow> (\<forall>i low high ls. cl_logs (w i) (dp_address m) low high = Inr ls \<longrightarrow>
     set ls = {l \<in> H. low \<le> al_blockNumber l \<and> al_blockNumber l \<le> high})"

definition servesOffers :: "(nat \<Rightarrow> client_world) \<Rightarrow> deployment \<Rightarrow> int \<Rightarrow> (int \<Rightarrow> offer_row) \<Rightarrow> bool" where
  "servesOffers w m at offerOf \<longleftrightarrow> (\<forall>i n row. cl_offer (w i) (dp_address m) n (Some at) = Inr row \<longrightarrow> row = offerOf n)"

text \<open>Whether an event is of the account's history, by the offers as they are at the anchor.\<close>

definition partiesOf :: "offer_row \<Rightarrow> loan_parties" where
  "partiesOf row = \<lparr>lp_lender = or_lender row, lp_borrower = or_borrower row, lp_principal = or_principal row, lp_collateral = or_collateral row,
     lp_recipient = ''''\<rparr>"

definition concerns :: "(int \<Rightarrow> offer_row) \<Rightarrow> string \<Rightarrow> activity_event \<Rightarrow> bool" where
  "concerns offerOf account e = relevantEvent account (map_option (\<lambda>i. partiesOf (offerOf i)) (eventLoan e)) e"

definition logIds :: "activity_log set \<Rightarrow> (string \<times> int) set" where
  "logIds H = (\<lambda>l. (al_transactionHash l, al_logIndex l)) ` H"

definition entryIds :: "activity_entry list \<Rightarrow> (string \<times> int) set" where
  "entryIds es = (\<lambda>e. (ae_transactionHash e, ae_logIndex e)) ` set es"

lemma entryIds_append [simp]: "entryIds (xs @ ys) = entryIds xs \<union> entryIds ys"
  by (simp add: entryIds_def image_Un)

lemma relevantEvent_parties:
  assumes "lp_lender p = lp_lender q" and "lp_borrower p = lp_borrower q"
  shows "relevantEvent account (Some p) e = relevantEvent account (Some q) e"
  by (simp add: relevantEvent_def assms)

section \<open>The scan\<close>

lemma learns_readRange:
  "start \<le> before \<Longrightarrow> 1 \<le> width \<Longrightarrow> learns w (readRange m getter account start before n width)
     (\<lambda>(low, ls). start \<le> low \<and> low \<le> before \<and> (\<exists>i. cl_logs (w i) (dp_address m) low before = Inr ls))"
proof (induction n arbitrary: width)
  case (Suc n)
  show ?case unfolding readRange.simps
  proof (rule learns_catch)
    show "learns w (pBind (cRead (\<lambda>w. cl_logs w (dp_address m) (windowStart start before width) before)) (\<lambda>found.
        pDemand (length found \<le> 400) ''Activity range is too dense.'' (pReturn (windowStart start before width, found))))
      (\<lambda>(low, ls). start \<le> low \<and> low \<le> before \<and> (\<exists>i. cl_logs (w i) (dp_address m) low before = Inr ls))"
      by (rule learns_read, rule learns_demand, rule learns_return) (use Suc.prems in \<open>auto simp: windowStart_def\<close>)
  next
    fix e show "learns w (pBind (activityCheck getter account) (\<lambda>_. pDemand (\<not> (width = 1 \<or> n = 0))
          ''Activity history could not be read completely. Retry this range; no older history was skipped.''
          (readRange m getter account start before n (if width div 4 = 0 then 1 else width div 4))))
      (\<lambda>(low, ls). start \<le> low \<and> low \<le> before \<and> (\<exists>i. cl_logs (w i) (dp_address m) low before = Inr ls))"
      by (rule learns_after, rule learns_demand, rule Suc.IH [OF Suc.prems(1)]) (use Suc.prems(2) pos_imp_zdiv_nonneg_iff [of 4 width] in auto)
  qed
qed (simp add: learns_throw)

text \<open>What is scanned: the blocks from \<open>low\<close> to \<open>high\<close>, whose events the logs hold.\<close>

definition scanned :: "(nat \<Rightarrow> client_world) \<Rightarrow> deployment \<Rightarrow> int \<Rightarrow> int \<Rightarrow> activity_log list \<Rightarrow> bool" where
  "scanned w m low high logs \<longleftrightarrow> (\<forall>H. servesLogs w m H \<longrightarrow> set logs = {l \<in> H. low \<le> al_blockNumber l \<and> al_blockNumber l \<le> high})"

lemma scanned_range: "cl_logs (w i) (dp_address m) low high = Inr ls \<Longrightarrow> scanned w m low high ls"
  unfolding scanned_def servesLogs_def by blast

lemma scanned_append:
  assumes "scanned w m (high + 1) upper logs" and "scanned w m low high added" and "low \<le> high + 1" and "high \<le> upper"
  shows "scanned w m low upper (logs @ added)"
  using assms unfolding scanned_def by (auto; smt (verit))

lemma scanned_nothing: "scanned w m (high + 1) high []"
  by (auto simp: scanned_def)

lemma learns_window:
  assumes "start \<le> before" and "1 \<le> span"
    and "\<And>low range. start \<le> low \<Longrightarrow> low \<le> before \<Longrightarrow> scanned w m low before range \<Longrightarrow>
      learns w (if length (logs @ range) \<ge> 200 then pReturn (low - 1, low, logs @ range)
        else scanWindows m getter account start span windows (low - 1) low (logs @ range)) F"
  shows "learns w (scanWindows m getter account start span (Suc windows) before scannedFrom logs) F"
proof -
  have "\<not> before < start" using assms(1) by simp
  then show ?thesis unfolding scanWindows.simps
    by (simp only: if_False) (rule learns_after, rule learns_bind [OF learns_readRange [OF assms(1,2)]], rule learns_pair, rule learns_demand, rule assms(3),
      auto intro: scanned_range)
qed

lemma learns_scanWindows:
  "1 \<le> span \<Longrightarrow> start \<le> low \<Longrightarrow> low \<le> high + 1 \<Longrightarrow> scanned w m low high logs \<Longrightarrow>
   learns w (scanWindows m getter account start span n (low - 1) low logs)
     (\<lambda>(before, low', logs'). before = low' - 1 \<and> start \<le> low' \<and> low' \<le> low \<and> scanned w m low' high logs')"
proof (induction n arbitrary: low logs)
  case 0
  then show ?case by (simp add: learns_return)
next
  case (Suc n)
  show ?case
  proof (cases "low - 1 < start")
    case True
    then show ?thesis using Suc.prems by (simp add: learns_return)
  next
    case False
    show ?thesis
    proof (rule learns_window)
      show "start \<le> low - 1" "1 \<le> span" using False Suc.prems by simp_all
    next
      fix low' range assume low': "start \<le> low'" "low' \<le> low - 1" "scanned w m low' (low - 1) range"
      have all: "scanned w m low' high (logs @ range)"
        by (rule scanned_append [where high = "low - 1"]) (use Suc.prems low' in simp_all)
      show "learns w (if length (logs @ range) \<ge> 200 then pReturn (low' - 1, low', logs @ range)
          else scanWindows m getter account start span n (low' - 1) low' (logs @ range))
        (\<lambda>(before, low', logs'). before = low' - 1 \<and> start \<le> low' \<and> low' \<le> low \<and> scanned w m low' high logs')"
        by (rule learns_if, rule learns_return, use low' all in simp, rule learns_mono [OF Suc.IH]) (use Suc.prems low' all in auto)
    qed
  qed
qed

text \<open>A page's scan, which has at least one window, takes it at least one block further.\<close>

lemma learns_scan:
  assumes "1 \<le> span" and "0 < windows" and "start \<le> high"
  shows "learns w (scanWindows m getter account start span windows high high [])
     (\<lambda>(before, low, logs). before = low - 1 \<and> start \<le> low \<and> low \<le> high \<and> scanned w m low high logs)"
proof -
  obtain n where n: "windows = Suc n" using assms(2) gr0_conv_Suc by blast
  show ?thesis unfolding n
  proof (rule learns_window [OF assms(3,1)])
    fix low range assume low: "start \<le> low" "low \<le> high" "scanned w m low high range"
    show "learns w (if length ([] @ range) \<ge> 200 then pReturn (low - 1, low, [] @ range)
          else scanWindows m getter account start span n (low - 1) low ([] @ range))
        (\<lambda>(before, low, logs). before = low - 1 \<and> start \<le> low \<and> low \<le> high \<and> scanned w m low high logs)"
      by (rule learns_if, rule learns_return, use low in simp, rule learns_mono [OF learns_scanWindows [where high = high]]) (use assms low in auto)
  qed
qed

section \<open>The entries of the logs\<close>

definition ofLog :: "activity_log \<Rightarrow> activity_entry \<Rightarrow> bool" where
  "ofLog l e \<longleftrightarrow> ae_transactionHash e = al_transactionHash l \<and> ae_logIndex e = al_logIndex l \<and> ae_blockNumber e = al_blockNumber l"

lemma ofLog_base [simp]: "ofLog l (baseEntry m l timestamp n action)"
  by (simp add: ofLog_def baseEntry_def)

lemma ofLog_update [simp]:
  "ofLog l (ae_actor_update f e) = ofLog l e" "ofLog l (ae_recipient_update f e) = ofLog l e" "ofLog l (ae_detail_update g e) = ofLog l e"
  "ofLog l (ae_writtenOff_update h e) = ofLog l e" "ofLog l (ae_loanId_update h e) = ofLog l e" "ofLog l (ae_token_update f e) = ofLog l e"
  "ofLog l (ae_amount_update h e) = ofLog l e" "ofLog l (ae_symbol_update f e) = ofLog l e" "ofLog l (ae_decimals_update k e) = ofLog l e"
  by (simp_all add: ofLog_def)

lemma ofLog_token: "tokenFields m address amount e = Inr x \<Longrightarrow> ofLog l e \<Longrightarrow> ofLog l x"
  by (auto simp: tokenFields_def demand_Inr split: if_splits)

lemma withParty_Inr: "withParty loan f = Inr x \<longleftrightarrow> (\<exists>p. loan = Some p \<and> f p = Inr x)"
  by (simp add: withParty_def split: option.split)

lemma logEntries_ofLog:
  assumes "logEntries m account loan l timestamp n = Inr es"
  shows "es \<noteq> [] \<and> list_all (ofLog l) es"
  using assms unfolding logEntries_def Let_def
  by (cases "al_event l") (auto simp: withParty_Inr and_then_Inr dest!: ofLog_token [where l = l] split: if_splits simp del: append.simps)

lemma logEntries_ids: "logEntries m account loan l timestamp n = Inr es \<Longrightarrow> entryIds es = logIds {l}"
  using logEntries_ofLog [of m account loan l timestamp n es]
  by (cases es) (auto simp: entryIds_def logIds_def ofLog_def list_all_iff)

lemma activityEntries_ids:
  "activityEntries m account loans stamps ls entries = Inr es \<Longrightarrow> entryIds es = entryIds entries \<union> logIds (set ls)"
proof (induction ls arbitrary: entries)
  case (Cons l ls)
  from Cons.prems obtain stamp_hash timestamp added where
    added: "logEntries m account (logParties loans l) l timestamp (length entries) = Inr added"
    and rest: "activityEntries m account loans stamps ls (entries @ added) = Inr es"
    by (auto simp: demand_Inr and_then_Inr split: option.splits prod.splits)
  show ?case using Cons.IH [OF rest] logEntries_ids [OF added] by (auto simp: logIds_def)
qed (simp add: logIds_def)

section \<open>The loans of the logs\<close>

lemma concat_slices [simp]: "concat (slices n xs) = xs"
  by (induction n xs rule: slices.induct) simp_all

lemma list_all2_concat: "list_all2 (list_all2 G) xss yss \<Longrightarrow> list_all2 G (concat xss) (concat yss)"
  by (induction rule: list_all2_induct) (simp_all add: list_all2_appendI)

lemma learns_batches:
  assumes "\<And>x. learns w (f x) (G x)"
  shows "learns w (inBatches getter account f xs) (\<lambda>ys. list_all2 G xs ys)"
proof -
  have "learns w (cMap (\<lambda>part. pBind (activityCheck getter account) (\<lambda>_. cMap f part)) (slices 7 xs)) (list_all2 (list_all2 G) (slices 7 xs))"
    by (rule learns_cMap, rule learns_after, rule learns_cMap, rule assms)
  then show ?thesis unfolding inBatches_def
    by (rule learns_bind) (rule learns_return, drule list_all2_concat, simp)
qed

definition partiesAre :: "(nat \<Rightarrow> client_world) \<Rightarrow> deployment \<Rightarrow> int \<Rightarrow> int \<Rightarrow> int \<times> loan_parties \<Rightarrow> bool" where
  "partiesAre w m at n entry \<longleftrightarrow> fst entry = n \<and> (\<forall>offerOf. servesOffers w m at offerOf \<longrightarrow>
     lp_lender (snd entry) = or_lender (offerOf n) \<and> lp_borrower (snd entry) = or_borrower (offerOf n))"

lemma learns_readParties: "learns w (readParties lib m at n) (partiesAre w m at n)"
  unfolding readParties_def
  by (rule learns_read, rule learns_after, rule learns_demand, rule learns_return) (auto simp: partiesAre_def servesOffers_def; metis)

lemma loanIds_set: "loanIds logs = Inr ids \<Longrightarrow> set ids = {n. \<exists>l \<in> set logs. eventLoan (al_event l) = Some n}"
proof -
  assume "loanIds logs = Inr ids"
  then obtain ns where ns: "list_all2 (\<lambda>i j. i = j) (List.map_filter (eventLoan \<circ> al_event) logs) ns" and ids: "ids = distinctFirst ns"
    by (auto simp: loanIds_def and_then_Inr map_outcome_Inr demand_Inr dest: list_all2_mono [where Q = "\<lambda>i j. i = j"])
  have "ns = List.map_filter (eventLoan \<circ> al_event) logs" using ns by (simp add: list.rel_eq)
  then show ?thesis by (auto simp: ids List.map_filter_def; force)
qed

lemma relevant_concerns:
  assumes "list_all2 (partiesAre w m at) ids loans" and "servesOffers w m at offerOf"
    and "\<And>n. eventLoan (al_event l) = Some n \<Longrightarrow> n \<in> set ids"
  shows "relevantLog account loans l \<longleftrightarrow> concerns offerOf account (al_event l)"
proof (cases "eventLoan (al_event l)")
  case None
  then show ?thesis by (simp add: relevantLog_def logParties_def concerns_def)
next
  case (Some n)
  have "map fst loans = ids"
    using assms(1) by (induction rule: list_all2_induct) (simp_all add: partiesAre_def)
  then obtain p where p: "map_of loans n = Some p"
    using assms(3) [OF Some] by (metis list.set_map map_of_eq_None_iff not_None_eq)
  have "\<exists>i. partiesAre w m at i (n, p)"
    using map_of_SomeD [OF p] assms(1) by (metis in_set_conv_nth list_all2_conv_all_nth)
  then have "lp_lender p = or_lender (offerOf n)" "lp_borrower p = or_borrower (offerOf n)"
    using assms(2) by (auto simp: partiesAre_def)
  then show ?thesis
    using relevantEvent_parties [of p "partiesOf (offerOf n)"] by (simp add: relevantLog_def logParties_def concerns_def Some p partiesOf_def)
qed

section \<open>A page\<close>

lemma learns_pageEntries:
  "learns w (pageEntries localeCompare lib m account getter at hash logs) (\<lambda>es. \<forall>offerOf. servesOffers w m at offerOf \<longrightarrow>
     entryIds es = logIds {l \<in> set logs. concerns offerOf account (al_event l)})"
  unfolding pageEntries_def Let_def
proof (rule learns_demand, rule learns_lift, rule learns_bind [OF learns_batches [OF learns_readParties]], rule learns_after, rule learns_lift,
    rule learns_after, rule learns_after, rule learns_return, intro allI impI)
  fix ids loans stamps entries offerOf
  assume ids: "loanIds logs = Inr ids" and loans: "list_all2 (partiesAre w m at) ids loans"
    and entries: "activityEntries m account loans stamps (filter (relevantLog account loans) logs) [] = Inr entries"
    and offers: "servesOffers w m at offerOf"
  have same_logs: "set (filter (relevantLog account loans) logs) = {l \<in> set logs. concerns offerOf account (al_event l)}"
    using relevant_concerns [OF loans offers] by (auto simp: loanIds_set [OF ids])
  have "entryIds entries = logIds (set (filter (relevantLog account loans) logs))"
    using activityEntries_ids [OF entries] by (simp add: entryIds_def)
  then show "entryIds (js_sort (compareEntries localeCompare) entries) = logIds {l \<in> set logs. concerns offerOf account (al_event l)}"
    unfolding same_logs by (simp add: entryIds_def)
qed

text \<open>What a page of the account's history says, read at the block \<open>at\<close> and scanned from \<open>high\<close> down.\<close>

definition pageFacts :: "(nat \<Rightarrow> client_world) \<Rightarrow> deployment \<Rightarrow> string \<Rightarrow> int \<Rightarrow> string \<Rightarrow> int \<Rightarrow> activity_page \<Rightarrow> bool" where
  "pageFacts w m account at hash high p \<longleftrightarrow>
     ap_anchor p = at \<and> ap_anchorHash p = hash \<and> ap_scannedTo p = high \<and> startOf m \<le> ap_scannedFrom p \<and> ap_scannedFrom p \<le> high
     \<and> ap_next p = (if startOf m < ap_scannedFrom p
          then Some \<lparr>ac_account = account, ac_market = dp_address m, ac_chainId = dp_chainId m, ac_anchor = at, ac_anchorHash = hash,
             ac_before = ap_scannedFrom p - 1\<rparr> else None)
     \<and> (\<forall>H offerOf. servesLogs w m H \<longrightarrow> servesOffers w m at offerOf \<longrightarrow> entryIds (ap_entries p) =
          logIds {l \<in> H. ap_scannedFrom p \<le> al_blockNumber l \<and> al_blockNumber l \<le> high \<and> concerns offerOf account (al_event l)})"

lemma learns_scanPage:
  "learns w (scanPage localeCompare lib m account getter span windows at hash high) (pageFacts w m account at hash high)"
  unfolding scanPage_def
proof (rule learns_after, (rule learns_demand)+, rule learns_bind [OF learns_scan])
  fix x
  assume x: "case x of (before, low, logs) \<Rightarrow> before = low - 1 \<and> startOf m \<le> low \<and> low \<le> high \<and> scanned w m low high logs"
  show "learns w (case x of (before, scannedFrom, logs) \<Rightarrow>
      pBind (pageEntries localeCompare lib m account getter at hash logs) (\<lambda>entries.
      pReturn \<lparr>ap_entries = entries,
        ap_next = (if before \<ge> startOf m then Some \<lparr>ac_account = account, ac_market = dp_address m, ac_chainId = dp_chainId m, ac_anchor = at,
          ac_anchorHash = hash, ac_before = before\<rparr> else None),
        ap_anchor = at, ap_anchorHash = hash, ap_scannedFrom = scannedFrom, ap_scannedTo = high\<rparr>)) (pageFacts w m account at hash high)"
  proof (rule learns_pair, rule learns_pair, rule learns_bind [OF learns_pageEntries], rule learns_return)
    fix before rest low logs entries
    assume parts: "x = (before, rest)" "rest = (low, logs)" and entries: "\<forall>offerOf. servesOffers w m at offerOf \<longrightarrow>
      entryIds entries = logIds {l \<in> set logs. concerns offerOf account (al_event l)}"
    have "entryIds entries = logIds {l \<in> H. low \<le> al_blockNumber l \<and> al_blockNumber l \<le> high \<and> concerns offerOf account (al_event l)}"
      if "servesLogs w m H" "servesOffers w m at offerOf" for H offerOf
    proof -
      have "set logs = {l \<in> H. low \<le> al_blockNumber l \<and> al_blockNumber l \<le> high}"
        using x that(1) by (simp add: parts scanned_def)
      then show ?thesis using entries that(2) by (simp add: conj_assoc)
    qed
    then show "pageFacts w m account at hash high \<lparr>ap_entries = entries,
        ap_next = (if before \<ge> startOf m then Some \<lparr>ac_account = account, ac_market = dp_address m, ac_chainId = dp_chainId m, ac_anchor = at,
          ac_anchorHash = hash, ac_before = before\<rparr> else None),
        ap_anchor = at, ap_anchorHash = hash, ap_scannedFrom = low, ap_scannedTo = high\<rparr>"
      using x by (simp add: pageFacts_def parts)
  qed
qed simp_all

text \<open>A first page is anchored at a head block that the market was verified at; a later one at its cursor's.\<close>

lemma learns_activity:
  "learns w (readP2PActivity localeCompare lib m account None getter span windows)
     (\<lambda>p. marketVerified w lib m (ap_anchor p) \<and> pageFacts w m account (ap_anchor p) (ap_anchorHash p) (ap_anchor p) p)"
  "learns w (readP2PActivity localeCompare lib m account (Some c) getter span windows)
     (pageFacts w m account (ac_anchor c) (ac_anchorHash c) (ac_before c))"
  unfolding readP2PActivity_def option.case
  by (rule learns_after, rule learns_demand, rule learns_bind [OF learns_verify], rule learns_mono [OF learns_scanPage], simp add: pageFacts_def)
    (rule learns_after, rule learns_demand, rule learns_after, rule learns_demand, rule learns_scanPage)

section \<open>Reading on\<close>

text \<open>Pages read one after the other, each from the cursor of the one before.\<close>

inductive pagesFrom :: "(string \<Rightarrow> string \<Rightarrow> int) \<Rightarrow> viem \<Rightarrow> deployment \<Rightarrow> string \<Rightarrow> bool \<Rightarrow> int \<Rightarrow> nat \<Rightarrow> (nat \<Rightarrow> client_world) \<Rightarrow>
    activity_cursor option \<Rightarrow> activity_page list \<Rightarrow> bool"
  for localeCompare lib m account getter span windows w where
  page: "readP2PActivity localeCompare lib m account c getter span windows w t s = (Inr p, t', s') \<Longrightarrow>
    pagesFrom localeCompare lib m account getter span windows w c [p]"
| page_then: "readP2PActivity localeCompare lib m account c getter span windows w t s = (Inr p, t', s') \<Longrightarrow> ap_next p = Some n \<Longrightarrow>
    pagesFrom localeCompare lib m account getter span windows w (Some n) ps \<Longrightarrow>
    pagesFrom localeCompare lib m account getter span windows w c (p # ps)"

text \<open>The pages of one anchor: together they have scanned the blocks from the last page's first one up to \<open>high\<close>.\<close>

definition pagesFacts :: "(nat \<Rightarrow> client_world) \<Rightarrow> deployment \<Rightarrow> string \<Rightarrow> int \<Rightarrow> string \<Rightarrow> int \<Rightarrow> activity_page list \<Rightarrow> bool" where
  "pagesFacts w m account at hash high ps \<longleftrightarrow>
     ps \<noteq> [] \<and> list_all (\<lambda>p. ap_anchor p = at \<and> ap_anchorHash p = hash) ps \<and> ap_scannedTo (hd ps) = high
     \<and> successively (\<lambda>p q. ap_scannedTo q = ap_scannedFrom p - 1) ps \<and> startOf m \<le> ap_scannedFrom (last ps)
     \<and> int (length ps) \<le> high - ap_scannedFrom (last ps) + 1 \<and> (ap_next (last ps) = None \<longleftrightarrow> ap_scannedFrom (last ps) = startOf m)
     \<and> (\<forall>H offerOf. servesLogs w m H \<longrightarrow> servesOffers w m at offerOf \<longrightarrow> (\<Union>p \<in> set ps. entryIds (ap_entries p)) =
          logIds {l \<in> H. ap_scannedFrom (last ps) \<le> al_blockNumber l \<and> al_blockNumber l \<le> high \<and> concerns offerOf account (al_event l)})"

lemma pagesFacts_one: "pageFacts w m account at hash high p \<Longrightarrow> pagesFacts w m account at hash high [p]"
  by (auto simp: pageFacts_def pagesFacts_def)

lemma pagesFacts_more:
  assumes p: "pageFacts w m account at hash high p" and c: "ap_next p = Some c"
    and ps: "pagesFacts w m account (ac_anchor c) (ac_anchorHash c) (ac_before c) ps"
  shows "pagesFacts w m account at hash high (p # ps)"
proof -
  have cursor: "ac_anchor c = at" "ac_anchorHash c = hash" "ac_before c = ap_scannedFrom p - 1"
    using p c by (auto simp: pageFacts_def split: if_splits)
  note ps = ps [unfolded cursor pagesFacts_def] and p = p [unfolded pageFacts_def]
  have reached: "ap_scannedFrom (last ps) \<le> ap_scannedFrom p" "ap_scannedFrom p \<le> high" using ps p by (auto simp: Suc_le_eq)
  have entries: "(\<Union>q \<in> set (p # ps). entryIds (ap_entries q)) =
      logIds {l \<in> H. ap_scannedFrom (last ps) \<le> al_blockNumber l \<and> al_blockNumber l \<le> high \<and> concerns offerOf account (al_event l)}"
    if node: "servesLogs w m H" "servesOffers w m at offerOf" for H offerOf
  proof -
    have "{l \<in> H. ap_scannedFrom (last ps) \<le> al_blockNumber l \<and> al_blockNumber l \<le> high \<and> concerns offerOf account (al_event l)}
      = {l \<in> H. ap_scannedFrom p \<le> al_blockNumber l \<and> al_blockNumber l \<le> high \<and> concerns offerOf account (al_event l)}
        \<union> {l \<in> H. ap_scannedFrom (last ps) \<le> al_blockNumber l \<and> al_blockNumber l \<le> ap_scannedFrom p - 1 \<and> concerns offerOf account (al_event l)}"
      using reached by auto
    then show ?thesis using p ps node by (simp add: logIds_def image_Un)
  qed
  show ?thesis using p ps reached entries
    by (auto simp: pagesFacts_def successively_Cons)
qed

lemma pagesFrom_cursor:
  "pagesFrom localeCompare lib m account getter span windows w c ps \<Longrightarrow> c = Some n \<Longrightarrow>
   pagesFacts w m account (ac_anchor n) (ac_anchorHash n) (ac_before n) ps"
proof (induction arbitrary: n rule: pagesFrom.induct)
  case (page c t s p t' s')
  show ?case by (rule pagesFacts_one, rule learnsD [OF learns_activity(2) page.hyps [unfolded page.prems]])
next
  case (page_then c t s p t' s' d ps)
  show ?case
    by (rule pagesFacts_more [OF _ page_then.hyps(2) page_then.IH [OF refl]], rule learnsD [OF learns_activity(2) page_then.hyps(1) [unfolded page_then.prems]])
qed

lemma pagesFrom_first:
  assumes "pagesFrom localeCompare lib m account getter span windows w None ps"
  shows "marketVerified w lib m (ap_anchor (hd ps)) \<and> pagesFacts w m account (ap_anchor (hd ps)) (ap_anchorHash (hd ps)) (ap_anchor (hd ps)) ps"
  using assms
proof (cases rule: pagesFrom.cases)
  case (page t s p t' s')
  then show ?thesis using learnsD [OF learns_activity(1)] pagesFacts_one by fastforce
next
  case (page_then t s p t' s' n ps')
  then show ?thesis using learnsD [OF learns_activity(1) page_then(2)] pagesFrom_cursor [OF page_then(4) refl] pagesFacts_more by fastforce
qed

section \<open>A history read to its end\<close>

definition defaultLog :: activity_log where
  "defaultLog = \<lparr>al_address = ''0xe5'', al_blockNumber = 5, al_blockHash = sampleWord (CHR ''b''), al_transactionHash = sampleWord (CHR ''a''),
     al_logIndex = 3, al_removed = False, al_event = LoanDefaulted 1\<rparr>"

definition historyNode :: client_world where
  "historyNode = sampleNode\<lparr>cl_block := (\<lambda>n. Inr (sampleHead\<lparr>bh_number := Some n\<rparr>)),
     cl_logs := (\<lambda>_ low high. Inr (if low \<le> 5 \<and> 5 \<le> high then [defaultLog] else []))\<rparr>"

lemma history_node:
  "cl_others historyNode = (\<lambda>s. s)" "cl_aborted historyNode = False" "cl_block historyNode n = Inr (sampleHead\<lparr>bh_number := Some n\<rparr>)"
  "cl_logs historyNode a low high = Inr (if low \<le> 5 \<and> 5 \<le> high then [defaultLog] else [])" "cl_offer historyNode a n at = Inr sampleRow"
  by (simp_all add: historyNode_def sampleNode_def)

lemma history_verify:
  "verify sampleViem sampleMarket (\<lambda>_. historyNode) t s = (Inr \<lparr>vb_number = 7, vb_hash = sampleWord (CHR ''b''), vb_timestamp = 1000\<rparr>, t + 5, s)"
  by (simp add: verify_def sample_reads historyNode_def sampleNode_def sampleMarket_def sampleViem_def sampleHead_def)

lemma history_check: "activityCheck False account (\<lambda>_. historyNode) t s = (Inr (), t, s)"
  by (simp add: activityCheck_def signalAborted_def currentAccount_def pBind_def proc_run history_node)

lemma history_anchor: "canonicalAnchor False account 7 (sampleWord (CHR ''b'')) (\<lambda>_. historyNode) t s = (Inr (), Suc t, s)"
  by (simp add: canonicalAnchor_def pBind_def history_check cRead_def history_node proc_run sampleHead_def same_def)

lemma history_scan: "scanWindows sampleMarket False account 0 50000 4 7 7 [] (\<lambda>_. historyNode) t s = (Inr (- 1, 0, [defaultLog]), Suc t, s)"
proof -
  have range: "readRange sampleMarket False account 0 7 (Suc n) 50000 (\<lambda>_. historyNode) t s = (Inr (0, [defaultLog]), Suc t, s)" for n t s
    by (simp add: pCatch_def pBind_def cRead_def history_node proc_run windowStart_def)
  have good: "goodLog sampleMarket 0 7 defaultLog"
    by (simp add: goodLog_def defaultLog_def sampleMarket_def sameAddress_def sample_word activity_uint_def isSafeInteger_def MAX_SAFE_INTEGER_def readsEvent_def)
  have range: "readRange sampleMarket False account 0 7 6 50000 (\<lambda>_. historyNode) t s = (Inr (0, [defaultLog]), Suc t, s)" for t s
    using range [of 5] by simp
  have "scanWindows sampleMarket False account 0 50000 (Suc (Suc n)) 7 7 [] (\<lambda>_. historyNode) t s = (Inr (- 1, 0, [defaultLog]), Suc t, s)" for n
    by (simp add: pBind_def history_check range proc_run good del: readRange.simps)
  from this [of 2] show ?thesis by simp
qed

lemma history_entries:
  "\<exists>entries t'. pageEntries localeCompare sampleViem sampleMarket ''0xa'' False 7 (sampleWord (CHR ''b'')) [defaultLog] (\<lambda>_. historyNode) t s = (Inr entries, t', s)"
proof -
  have ids: "loanIds [defaultLog] = Inr [1]"
    by (simp add: loanIds_def defaultLog_def List.map_filter_def activity_uint_def distinctFirst_def)
  let ?p = "\<lparr>lp_lender = ''0xb'', lp_borrower = ''0xa'', lp_principal = 100, lp_collateral = 5, lp_recipient = ''0xe5''\<rparr>"
  have zero: "js_lower ''0xb'' \<noteq> js_lower ZERO_ADDRESS" "js_lower ''0xe5'' \<noteq> js_lower ZERO_ADDRESS"
    by (rule notI, drule arg_cong [where f = length], simp add: js_lower_def ZERO_ADDRESS_def)+
  have parties: "readParties sampleViem sampleMarket 7 1 (\<lambda>_. historyNode) t s = (Inr (1, ?p), Suc t, s)" for t s
    by (simp add: readParties_def pBind_def cRead_def history_node proc_run)
      (simp add: sampleMarket_def sampleRow_def sampleViem_def sameAddress_def zero activity_uint_def)
  have stamp: "readStamp 5 (\<lambda>_. historyNode) t s = (Inr (5, sampleWord (CHR ''b''), 1000), Suc t, s)" for t s
    by (simp add: readStamp_def pBind_def cRead_def history_node proc_run sampleHead_def sample_word MAX_TIME_def)
  have relevant: "relevantLog ''0xa'' [(1, ?p)] defaultLog"
    by (simp add: relevantLog_def logParties_def defaultLog_def relevantEvent_def sameAddress_def)
  have entries: "\<exists>entries. activityEntries sampleMarket ''0xa'' [(1, ?p)] [(5, sampleWord (CHR ''b''), 1000)] [defaultLog] [] = Inr entries"
    by (simp add: defaultLog_def sameAddress_def logEntries_def logParties_def withParty_def del: append.simps)
  then obtain entries where entries: "activityEntries sampleMarket ''0xa'' [(1, ?p)] [(5, sampleWord (CHR ''b''), 1000)] [defaultLog] [] = Inr entries" by blast
  have blocks: "distinctFirst (map al_blockNumber [defaultLog]) = [5]" by (simp add: distinctFirst_def defaultLog_def)
  have loans: "inBatches False ''0xa'' (readParties sampleViem sampleMarket 7) [1] (\<lambda>_. historyNode) t s = (Inr [(1, ?p)], Suc t, s)" for t s
    by (simp add: inBatches_def pBind_def history_check parties proc_run)
  have stamps: "inBatches False ''0xa'' readStamp [5] (\<lambda>_. historyNode) t s = (Inr [(5, sampleWord (CHR ''b''), 1000)], Suc t, s)" for t s
    by (simp add: inBatches_def pBind_def history_check stamp proc_run)
  show ?thesis
    unfolding pageEntries_def Let_def
    by (simp add: pBind_def ids proc_run loans relevant blocks [simplified] stamps entries history_anchor history_check del: activityEntries.simps)
qed

lemma history_page:
  "\<exists>entries t'. readP2PActivity localeCompare sampleViem sampleMarket ''0xa'' None False 50000 4 (\<lambda>_. historyNode) 0 sampleState
     = (Inr \<lparr>ap_entries = entries, ap_next = None, ap_anchor = 7, ap_anchorHash = sampleWord (CHR ''b''), ap_scannedFrom = 0, ap_scannedTo = 7\<rparr>, t', sampleState)"
proof -
  have start: "startOf sampleMarket = 0" "startText (dp_startBlock sampleMarket)"
    by (simp_all add: startOf_def startText_def sampleMarket_def nat_of_dec_def digit_value_def)
  have account: "vi_looseAddress sampleViem ''0xa''" "\<not> sameAddress ''0xa'' ZERO_ADDRESS"
    by (simp add: sampleViem_def, rule notI, unfold sameAddress_def, drule arg_cong [where f = length], simp add: js_lower_def ZERO_ADDRESS_def)
  obtain entries t' where entries: "pageEntries localeCompare sampleViem sampleMarket ''0xa'' False 7 (sampleWord (CHR ''b'')) [defaultLog]
      (\<lambda>_. historyNode) (Suc (Suc 5)) sampleState = (Inr entries, t', sampleState)"
    using history_entries by blast
  then show ?thesis
    by (simp add: readP2PActivity_def scanPage_def pBind_def history_check proc_run account start history_verify history_anchor history_scan del: append.simps)
qed

section \<open>Properties\<close>

text \<open>C15: an account's history, read page after page from each page's cursor, ends: every page takes the scan at least one block nearer to the market's first
  block without leaving one out, all pages stay at one anchor block, where the market was verified, and a page has no next one exactly when the first block is
  reached. So there are never more pages than blocks, whatever the node answers.\<close>

theorem history_ends:
  assumes "pagesFrom localeCompare lib m account getter span windows w None ps"
  shows "int (length ps) \<le> ap_anchor (hd ps) - startOf m + 1
    \<and> marketVerified w lib m (ap_anchor (hd ps)) \<and> list_all (\<lambda>p. ap_anchor p = ap_anchor (hd ps) \<and> ap_anchorHash p = ap_anchorHash (hd ps)) ps
    \<and> ap_scannedTo (hd ps) = ap_anchor (hd ps) \<and> successively (\<lambda>p q. ap_scannedTo q = ap_scannedFrom p - 1) ps
    \<and> (ap_next (last ps) = None \<longleftrightarrow> ap_scannedFrom (last ps) = startOf m)"
  using pagesFrom_first [OF assms] by (simp add: pagesFacts_def)

theorem history_ends_witness:
  "\<exists>ps. pagesFrom (\<lambda>_ _. 0) sampleViem sampleMarket ''0xa'' False 50000 4 (\<lambda>_. historyNode) None ps \<and> ap_next (last ps) = None
     \<and> ap_scannedFrom (last ps) = startOf sampleMarket \<and> int (length ps) \<le> 8"
proof -
  obtain entries t' where run: "readP2PActivity (\<lambda>_ _. 0) sampleViem sampleMarket ''0xa'' None False 50000 4 (\<lambda>_. historyNode) 0 sampleState
     = (Inr \<lparr>ap_entries = entries, ap_next = None, ap_anchor = 7, ap_anchorHash = sampleWord (CHR ''b''), ap_scannedFrom = 0, ap_scannedTo = 7\<rparr>, t', sampleState)"
    using history_page by blast
  have "startOf sampleMarket = 0" by (simp add: startOf_def sampleMarket_def nat_of_dec_def digit_value_def)
  then show ?thesis using history_ends [OF page [OF run]] page [OF run] by (intro exI [of _ "[_]"]) auto
qed

text \<open>C11: if every range the node answers for holds exactly the events of that range, and an offer's state at the anchor does not change between answers, a
  history read to its end is complete and nothing else: the events that have entries are exactly the market's events from its first block to the anchor that
  concern the account.\<close>

theorem history_complete:
  assumes "servesLogs w m H" and "pagesFrom localeCompare lib m account getter span windows w None ps" and "ap_next (last ps) = None"
    and "servesOffers w m (ap_anchor (hd ps)) offerOf"
  shows "(\<Union>p \<in> set ps. entryIds (ap_entries p)) =
    logIds {l \<in> H. startOf m \<le> al_blockNumber l \<and> al_blockNumber l \<le> ap_anchor (hd ps) \<and> concerns offerOf account (al_event l)}"
  using pagesFrom_first [OF assms(2)] assms(1,3,4) by (simp add: pagesFacts_def)

theorem history_complete_witness:
  "\<exists>p. pagesFrom (\<lambda>_ _. 0) sampleViem sampleMarket ''0xa'' False 50000 4 (\<lambda>_. historyNode) None [p]
     \<and> entryIds (ap_entries p) = {(sampleWord (CHR ''a''), 3)}"
proof -
  obtain entries t' where run: "readP2PActivity (\<lambda>_ _. 0) sampleViem sampleMarket ''0xa'' None False 50000 4 (\<lambda>_. historyNode) 0 sampleState
     = (Inr \<lparr>ap_entries = entries, ap_next = None, ap_anchor = 7, ap_anchorHash = sampleWord (CHR ''b''), ap_scannedFrom = 0, ap_scannedTo = 7\<rparr>, t', sampleState)"
    using history_page by blast
  have logs: "servesLogs (\<lambda>_. historyNode) sampleMarket {defaultLog}"
    by (auto simp: servesLogs_def history_node defaultLog_def)
  have offers: "servesOffers (\<lambda>_. historyNode) sampleMarket 7 (\<lambda>_. sampleRow)"
    by (simp add: servesOffers_def history_node)
  have start: "startOf sampleMarket = 0" by (simp add: startOf_def sampleMarket_def nat_of_dec_def digit_value_def)
  have concerned: "concerns (\<lambda>_. sampleRow) ''0xa'' (al_event defaultLog)"
    by (simp add: concerns_def defaultLog_def relevantEvent_def partiesOf_def sampleRow_def sameAddress_def)
  have "entryIds entries = logIds {l \<in> {defaultLog}. 0 \<le> al_blockNumber l \<and> al_blockNumber l \<le> 7 \<and> concerns (\<lambda>_. sampleRow) ''0xa'' (al_event l)}"
    using history_complete [OF logs page [OF run]] offers by (simp add: start)
  also have "\<dots> = {(sampleWord (CHR ''a''), 3)}"
  proof -
    have fields: "al_blockNumber defaultLog = 5" "(al_transactionHash defaultLog, al_logIndex defaultLog) = (sampleWord (CHR ''a''), 3)"
      by (simp_all add: defaultLog_def)
    have "{l \<in> {defaultLog}. 0 \<le> al_blockNumber l \<and> al_blockNumber l \<le> 7 \<and> concerns (\<lambda>_. sampleRow) ''0xa'' (al_event l)} = {defaultLog}"
      using concerned fields(1) by (intro set_eqI) auto
    then show ?thesis unfolding logIds_def by (simp only: image_insert image_empty fields)
  qed
  finally have ids: "entryIds entries = {(sampleWord (CHR ''a''), 3)}" .
  show ?thesis by (rule exI, rule conjI, rule page [OF run]) (simp only: activity_page.simps ids)
qed

end
