(* ===== verification/Negotiation_Checks.thy ===== *)
theory Negotiation_Checks
  imports Complex_Main JS_Async P2P_Pending
begin

text \<open>
  frontend/app/scripts/p2p-negotiations.mjs, first part: the data of the service, the checks of a
  signed envelope, and what it reads from the chain. The rows of its SQLite tables are
  records; a value the sources keep as JSON is \<open>json\<close>. A request is asynchronous: it reads
  the world, and the database is part of the world, since other requests change it
  between two reads. Texts of errors are kept, their HTTP status is not. Hashing, call
  encoding, event decoding and the address check are viem's and node's, fields of
  \<open>neg_lib\<close>. Two JSON texts made by \<open>canonicalNegotiation\<close> are equal just when the sorted
  values are, so the sorted value stands for its text. A text field that holds another kind of
  value is refused at the check of its pattern; the code coerces it there and
  throws at its first use as a string.
\<close>

section \<open>Data\<close>

record neg_terms =
  nt_principal :: string
  nt_collateral :: string
  nt_interest :: string
  nt_durationDays :: int
  nt_expiresAt :: int

record neg_market =
  nm_address :: string
  nm_chainId :: int
  nm_version :: "int option"
  nm_legacy :: bool
  nm_loanToken :: string
  nm_collateralToken :: string
  nm_runtimeHash :: string

record neg_source =
  ns_market :: string
  ns_chainId :: int
  ns_id :: string
  ns_lender :: string
  ns_borrower :: string
  ns_terms :: neg_terms
  ns_digest :: string
  ns_status :: int
  ns_now :: int
  ns_blockNumber :: int
  ns_blockHash :: string
  ns_backed :: "bool option"
  ns_credit :: "(string \<times> int \<times> int) option"

datatype neg_state = N_open | N_agreed | N_closed | N_replacing | N_recovering | N_funding | N_funded

record neg_proposal =
  np_id :: string
  np_author :: string
  np_terms :: json
  np_responseBy :: "json option"
  np_createdAt :: int

record neg_replacement =
  nr_id :: string
  nr_txHash :: string
  nr_status :: int
  nr_blockNumber :: int
  nr_blockHash :: string

record neg_thread =
  th_id :: string
  th_market :: string
  th_chainId :: int
  th_offerId :: string
  th_sourceKey :: string
  th_sourceDigest :: string
  th_original :: neg_terms
  th_lender :: string
  th_borrower :: string
  th_revision :: int
  th_state :: neg_state
  th_createdAt :: int
  th_updatedAt :: int
  th_latest :: neg_proposal
  th_agreedBy :: "string option"
  th_agreedAt :: "int option"
  th_cancelAfterBlock :: "int option"
  th_cancelHash :: "string option"
  th_attempt :: "string option"
  th_fundAfterBlock :: "int option"
  th_replacement :: "neg_replacement option"

record neg_event =
  ne_thread :: string
  ne_at :: int
  ne_envelope :: json
  ne_signature :: string

datatype neg_result = Unlocked string string int string | Packed string int neg_thread

record neg_nonce =
  nn_hash :: string
  nn_result :: neg_result
  nn_at :: int

text \<open>The tables; the rows of \<open>threads\<close> and \<open>events\<close> in the order of their \<open>seq\<close>, from 1.\<close>

record neg_db =
  nd_threads :: "neg_thread list"
  nd_events :: "neg_event list"
  nd_selections :: "string \<rightharpoonup> string"
  nd_nonces :: "(string \<times> neg_nonce) list"
  nd_sessions :: "(string \<times> string \<times> int) list"

definition emptyNegotiations :: neg_db where
  "emptyNegotiations = \<lparr>nd_threads = [], nd_events = [], nd_selections = Map.empty, nd_nonces = [], nd_sessions = []\<rparr>"

section \<open>The world\<close>

record neg_block =
  nb_number :: "int option"
  nb_timestamp :: int
  nb_hash :: "string option"

record neg_offer =
  no_lender :: string
  no_borrower :: string
  no_principal :: int
  no_collateral :: int
  no_interest :: int
  no_duration :: int
  no_expiresAt :: int
  no_status :: int

record neg_tx =
  nx_from :: string
  nx_to :: "string option"
  nx_value :: int
  nx_input :: string

record neg_log =
  ng_address :: string
  ng_data :: string
  ng_topics :: "string list"

record neg_receipt =
  nc_status :: string
  nc_hash :: string
  nc_from :: string
  nc_blockNumber :: int
  nc_blockHash :: string
  nc_logs :: "neg_log list"

record neg_world =
  nw_now :: int
  nw_db :: neg_db
  nw_token :: string
  nw_uuid :: string
  nw_uuid2 :: string
  nw_chainId :: "int outcome"
  nw_head :: "neg_block outcome"
  nw_block :: "int \<Rightarrow> neg_block outcome"
  nw_code :: "string \<Rightarrow> int \<Rightarrow> string option outcome"
  nw_loanToken :: "string \<Rightarrow> int \<Rightarrow> string outcome"
  nw_collateralToken :: "string \<Rightarrow> int \<Rightarrow> string outcome"
  nw_offer :: "string \<Rightarrow> int \<Rightarrow> int \<Rightarrow> neg_offer outcome"
  nw_vault :: "string \<Rightarrow> int \<Rightarrow> int \<Rightarrow> string outcome"
  nw_balance :: "string \<Rightarrow> string \<Rightarrow> int \<Rightarrow> int outcome"
  nw_credit :: "string \<Rightarrow> int \<Rightarrow> string \<Rightarrow> int \<Rightarrow> (string \<times> int \<times> int) outcome"
  nw_tx :: "string \<Rightarrow> neg_tx outcome"
  nw_receipt :: "string \<Rightarrow> neg_receipt outcome"
  nw_verify :: "string \<Rightarrow> json \<Rightarrow> string \<Rightarrow> bool outcome"

record neg_lib =
  nl_isAddress :: "string \<Rightarrow> bool"
  nl_keccak :: "string \<Rightarrow> string"
  nl_sha :: "json \<Rightarrow> string"
  nl_cancelOffer :: "int \<Rightarrow> string"
  nl_createOffer :: "string \<Rightarrow> int \<Rightarrow> int \<Rightarrow> int \<Rightarrow> int \<Rightarrow> int \<Rightarrow> string"
  nl_offerCreated :: "string \<Rightarrow> string list \<Rightarrow> int option"
  nl_toNumber :: "json \<Rightarrow> rat option"

record neg_setup =
  su_origin :: string
  su_registry :: "string \<rightharpoonup> neg_market"

section \<open>Small checks\<close>

definition zeroAddress :: "string \<Rightarrow> bool" where
  "zeroAddress a \<longleftrightarrow> hex_word 40 a \<and> list_all (\<lambda>c. c = CHR ''0'') (drop 2 a)"

definition realAddress :: "neg_lib \<Rightarrow> string \<Rightarrow> bool" where
  "realAddress lib a \<longleftrightarrow> nl_isAddress lib a \<and> \<not> zeroAddress a"

text \<open>\<open>/^[0-9a-f-]{36}$/i\<close> and \<open>/^[0-9a-f]{64}$/\<close>.\<close>

definition uuidText :: "string \<Rightarrow> bool" where
  "uuidText s \<longleftrightarrow> length s = 36 \<and> list_all (\<lambda>c. is_hex c \<or> c = CHR ''-'') s"

definition tokenText :: "string \<Rightarrow> bool" where
  "tokenText s \<longleftrightarrow> length s = 64 \<and> list_all is_lower_hex s"

definition holds :: "(string \<Rightarrow> bool) \<Rightarrow> json option \<Rightarrow> bool" where
  "holds p v \<longleftrightarrow> (case j_string v of Some s \<Rightarrow> p s | None \<Rightarrow> False)"

definition safeInt :: "json option \<Rightarrow> bool" where
  "safeInt v \<longleftrightarrow> (case j_int v of Some n \<Rightarrow> isSafeInteger n | None \<Rightarrow> False)"

text \<open>The text and the number of a field that was checked to be one.\<close>

definition textOf :: "json \<Rightarrow> string \<Rightarrow> string" where
  "textOf v k = (case j_string (j_field v k) of Some s \<Rightarrow> s | None \<Rightarrow> '''')"

definition intOf :: "json \<Rightarrow> string \<Rightarrow> int" where
  "intOf v k = (case j_int (j_field v k) of Some n \<Rightarrow> n | None \<Rightarrow> 0)"

text \<open>\<open>Object.keys(value).sort().join() !== expected.sort().join()\<close>.\<close>

fun joinKeys :: "string list \<Rightarrow> string" where
  "joinKeys [] = ''''"
| "joinKeys [k] = k"
| "joinKeys (k # ks) = k @ '','' @ joinKeys ks"

definition hasKeys :: "json \<Rightarrow> string list \<Rightarrow> bool" where
  "hasKeys v expected \<longleftrightarrow> (case v of J_obj kvs \<Rightarrow> joinKeys (sort (remdups (map fst kvs))) = joinKeys (sort expected) | _ \<Rightarrow> False)"

text \<open>
  \<open>v <= n\<close> and \<open>v >= n\<close> of a value that need not be a number: the language converts it, and a
  comparison with NaN is false. The conversion of what is not an integer is \<open>nl_toNumber\<close>.
\<close>

definition toNumber :: "neg_lib \<Rightarrow> json option \<Rightarrow> rat option" where
  "toNumber lib v = (case v of None \<Rightarrow> None | Some (J_num (JS_int i)) \<Rightarrow> Some (of_int i) | Some x \<Rightarrow> nl_toNumber lib x)"

definition jsAtMost :: "neg_lib \<Rightarrow> json option \<Rightarrow> int \<Rightarrow> bool" where
  "jsAtMost lib v n \<longleftrightarrow> (case toNumber lib v of None \<Rightarrow> False | Some q \<Rightarrow> q \<le> of_int n)"

definition jsAtLeast :: "neg_lib \<Rightarrow> json option \<Rightarrow> int \<Rightarrow> bool" where
  "jsAtLeast lib v n \<longleftrightarrow> (case toNumber lib v of None \<Rightarrow> False | Some q \<Rightarrow> of_int n \<le> q)"

lemma jsAtMost_mono: "jsAtMost lib v n \<Longrightarrow> n \<le> n' \<Longrightarrow> jsAtMost lib v n'"
  unfolding jsAtMost_def by (auto split: option.splits intro: order_trans)

lemma jsAtMost_int [simp]: "jsAtMost lib (Some (J_num (JS_int i))) n \<longleftrightarrow> i \<le> n" "jsAtLeast lib (Some (J_num (JS_int i))) n \<longleftrightarrow> n \<le> i"
  by (simp_all add: jsAtMost_def jsAtLeast_def toNumber_def)

section \<open>Canonical values\<close>

function canonicalNegotiation :: "json \<Rightarrow> json" where
  "canonicalNegotiation (J_obj kvs) =
     (let cs = map (\<lambda>kv. (fst kv, canonicalNegotiation (snd kv))) kvs
      in J_obj (map (\<lambda>k. (k, the (map_of (rev cs) k))) (sort (remdups (map fst cs)))))"
| "canonicalNegotiation (J_arr xs) = J_arr (map canonicalNegotiation xs)"
| "canonicalNegotiation J_null = J_null"
| "canonicalNegotiation (J_bool b) = J_bool b"
| "canonicalNegotiation (J_num n) = J_num n"
| "canonicalNegotiation (J_str s) = J_str s"
  by pat_completeness auto

lemma size_pair_list: "kv \<in> set kvs \<Longrightarrow> size (snd kv) < Suc (size_list (size_prod (\<lambda>_. 0) size) kvs)"
proof (induction kvs)
  case (Cons a kvs)
  then show ?case by (cases a) auto
qed simp

termination canonicalNegotiation
  by (relation "measure size") (auto simp: size_pair_list less_Suc_eq_le size_list_estimation')


definition digest :: "neg_lib \<Rightarrow> json \<Rightarrow> string" where
  "digest lib v = nl_sha lib (canonicalNegotiation v)"

definition termsJson :: "neg_terms \<Rightarrow> json" where
  "termsJson t = J_obj [(''principal'', J_str (nt_principal t)), (''collateral'', J_str (nt_collateral t)),
     (''interest'', J_str (nt_interest t)), (''durationDays'', J_num (JS_int (nt_durationDays t))),
     (''expiresAt'', J_num (JS_int (nt_expiresAt t)))]"

text \<open>The fields of \<open>terms\<close> of an envelope, \<open>null\<close> when there is none.\<close>

definition envelopeTerms :: "json \<Rightarrow> json" where
  "envelopeTerms e = (case j_field e ''terms'' of Some t \<Rightarrow> t | None \<Rightarrow> J_null)"

definition unexpectedFields :: string where
  "unexpectedFields = ''Unexpected or missing signed fields.''"

definition negotiationTerms :: "json \<Rightarrow> int \<Rightarrow> unit outcome" where
  "negotiationTerms t n =
     demand (hasKeys t [''principal'', ''collateral'', ''interest'', ''durationDays'', ''expiresAt'']) unexpectedFields
    (demand (uintField (j_field t ''principal'') \<and> uintField (j_field t ''collateral'') \<and> uintField (j_field t ''interest'')
       \<and> nat_of_dec (textOf t ''principal'') \<noteq> 0 \<and> nat_of_dec (textOf t ''collateral'') \<noteq> 0
       \<and> int (nat_of_dec (textOf t ''principal'')) + int (nat_of_dec (textOf t ''interest'')) < 2 ^ 256
       \<and> safeInt (j_field t ''durationDays'') \<and> 1 \<le> intOf t ''durationDays''
       \<and> safeInt (j_field t ''expiresAt'') \<and> n < intOf t ''expiresAt''
       \<and> intOf t ''expiresAt'' + intOf t ''durationDays'' * 86400 + 86400 \<le> 8640000000000)
     ''Check exact amounts, whole-day duration and future offer expiry.'' (Inr ()))"

section \<open>The registry and the signed envelope\<close>

definition negotiationRegistry :: "neg_lib \<Rightarrow> neg_market list \<Rightarrow> (string \<rightharpoonup> neg_market) outcome" where
  "negotiationRegistry lib markets =
     (let chosen = filter (\<lambda>m. nm_version m = Some 3 \<and> \<not> nm_legacy m) markets;
          registry = map_of (rev (map (\<lambda>m. (js_lower (nm_address m), m)) chosen)) in
      demand (\<forall>k \<in> set (map (\<lambda>m. js_lower (nm_address m)) chosen). case registry k of None \<Rightarrow> True | Some m \<Rightarrow>
          realAddress lib (nm_address m) \<and> realAddress lib (nm_loanToken m) \<and> realAddress lib (nm_collateralToken m)
          \<and> hex_word 64 (nm_runtimeHash m))
        ''Invalid negotiation registry.'' (Inr registry))"

definition marketFor :: "neg_setup \<Rightarrow> string option \<Rightarrow> int option \<Rightarrow> neg_market outcome" where
  "marketFor su market chainId = (case market of None \<Rightarrow> Inl ''Choose a current V3 market.''
     | Some a \<Rightarrow> (case su_registry su (js_lower a) of None \<Rightarrow> Inl ''Choose a current V3 market.''
       | Some m \<Rightarrow> demand (chainId = Some (nm_chainId m)) ''Choose a current V3 market.'' (Inr m)))"

definition actionExtras :: "string \<rightharpoonup> string list" where
  "actionExtras = map_of
     [(''login'', []),
      (''open'', [''offerId'', ''sourceDigest'', ''terms'', ''responseBy'']),
      (''counter'', [''threadId'', ''revision'', ''proposalId'', ''terms'', ''responseBy'']),
      (''agree'', [''threadId'', ''revision'', ''proposalId'']),
      (''close'', [''threadId'', ''revision'', ''proposalId'']),
      (''start'', [''threadId'', ''revision'', ''proposalId'']),
      (''cancelled'', [''threadId'', ''revision'', ''proposalId'', ''hash'']),
      (''prepare'', [''threadId'', ''revision'', ''proposalId'']),
      (''bind'', [''threadId'', ''revision'', ''proposalId'', ''hash''])]"

definition envelopeKeys :: "string list \<Rightarrow> string list" where
  "envelopeKeys extras = [''version'', ''origin'', ''account'', ''market'', ''chainId'', ''action'', ''nonce'', ''issuedAt'', ''validUntil'']
     @ extras @ (if ''threadId'' \<in> set extras then [''context''] else [])"

definition signedTimes :: "json \<Rightarrow> int \<Rightarrow> bool" where
  "signedTimes e n \<longleftrightarrow> safeInt (j_field e ''issuedAt'') \<and> safeInt (j_field e ''validUntil'')
     \<and> intOf e ''issuedAt'' \<le> n + 30 \<and> n - 300 \<le> intOf e ''issuedAt'' \<and> n < intOf e ''validUntil''
     \<and> intOf e ''validUntil'' \<le> intOf e ''issuedAt'' + 300 \<and> intOf e ''issuedAt'' < intOf e ''validUntil''"

definition checkTerms :: "json \<Rightarrow> int \<Rightarrow> unit outcome" where
  "checkTerms e n =
     (if \<not> j_truthy (j_field e ''terms'') then Inr () else
      and_then (negotiationTerms (envelopeTerms e) n) (\<lambda>_.
      demand (safeInt (j_field e ''responseBy'') \<and> n < intOf e ''responseBy'' \<and> intOf e ''responseBy'' < intOf (envelopeTerms e) ''expiresAt'')
        ''Respond-by time must be before the offer expiry.'' (Inr ())))"

definition checkEnvelope :: "neg_lib \<Rightarrow> neg_setup \<Rightarrow> int \<Rightarrow> json \<Rightarrow> neg_market outcome" where
  "checkEnvelope lib su n e =
     (case actionExtras (textOf e ''action'') of None \<Rightarrow> Inl ''Unknown negotiation action.'' | Some extras \<Rightarrow>
      demand (hasKeys e (envelopeKeys extras)) unexpectedFields
     (demand (j_field e ''version'' = Some (J_num (JS_int 1)) \<and> j_field e ''origin'' = Some (J_str (su_origin su))
        \<and> holds (realAddress lib) (j_field e ''account'') \<and> holds (hex_word 64) (j_field e ''nonce'') \<and> signedTimes e n)
        ''Signature expired or invalid. Refresh and sign again.''
     (and_then (marketFor su (j_string (j_field e ''market'')) (j_int (j_field e ''chainId''))) (\<lambda>m.
      demand (\<not> sameAddress (textOf e ''account'') (nm_address m)) ''Invalid participant.''
     (demand (j_truthy (j_field e ''threadId'') \<longrightarrow> holds uuidText (j_field e ''threadId'') \<and> holds uuidText (j_field e ''proposalId'')
          \<and> safeInt (j_field e ''revision'') \<and> 1 \<le> intOf e ''revision'') ''Invalid conversation revision.''
     (demand (textOf e ''action'' = ''open'' \<longrightarrow> uintField (j_field e ''offerId'') \<and> textOf e ''offerId'' \<noteq> ''0''
          \<and> holds tokenText (j_field e ''sourceDigest'')) ''Invalid source offer.''
     (demand (j_truthy (j_field e ''hash'') \<longrightarrow> holds (hex_word 64) (j_field e ''hash'')) ''Invalid transaction hash.''
     (and_then (checkTerms e n) (\<lambda>_. Inr m)))))))))"

section \<open>Reading the chain\<close>

definition clock :: "(neg_world, int) io" where
  "clock = ioRead (\<lambda>w. Inr (nw_now w))"

definition snapshotJson :: "neg_market \<Rightarrow> string \<Rightarrow> neg_offer \<Rightarrow> neg_terms \<Rightarrow> json" where
  "snapshotJson m offer_id x t = J_obj [(''market'', J_str (nm_address m)), (''chainId'', J_num (JS_int (nm_chainId m))), (''id'', J_str offer_id),
     (''lender'', J_str (no_lender x)), (''borrower'', J_str (no_borrower x)), (''terms'', termsJson t)]"

definition offerTerms :: "neg_offer \<Rightarrow> neg_terms" where
  "offerTerms x = \<lparr>nt_principal = dec_of_int (no_principal x), nt_collateral = dec_of_int (no_collateral x),
     nt_interest = dec_of_int (no_interest x), nt_durationDays = js_Number (tdiv (no_duration x) 86400),
     nt_expiresAt = js_Number (no_expiresAt x)\<rparr>"

definition sourceOf :: "neg_lib \<Rightarrow> neg_market \<Rightarrow> string \<Rightarrow> neg_block \<Rightarrow> int \<Rightarrow> neg_offer \<Rightarrow> neg_source" where
  "sourceOf lib m offer_id b number x =
     \<lparr>ns_market = nm_address m, ns_chainId = nm_chainId m, ns_id = offer_id, ns_lender = no_lender x, ns_borrower = no_borrower x,
      ns_terms = offerTerms x, ns_digest = digest lib (snapshotJson m offer_id x (offerTerms x)), ns_status = no_status x,
      ns_now = js_Number (nb_timestamp b), ns_blockNumber = number, ns_blockHash = the (nb_hash b), ns_backed = None, ns_credit = None\<rparr>"

text \<open>What the offer's status adds: whether an open one is funded, the credit of a cancelled or expired one.\<close>

definition sourceStatus :: "neg_lib \<Rightarrow> neg_market \<Rightarrow> int \<Rightarrow> int \<Rightarrow> neg_offer \<Rightarrow> neg_source \<Rightarrow> (neg_world, neg_source) io" where
  "sourceStatus lib m number i x s =
     (if ns_status s = 1 then
        ioBind (ioRead (\<lambda>w. nw_vault w (nm_address m) i number)) (\<lambda>vault.
        ioDemand (realAddress lib vault) ''Offer custody unavailable.''
       (ioBind (ioRead (\<lambda>w. nw_balance w (nm_loanToken m) vault number)) (\<lambda>balance.
        ioReturn (s\<lparr>ns_backed := Some (balance \<ge> no_principal x)\<rparr>))))
      else if ns_status s \<in> {5, 6} then
        ioBind (ioRead (\<lambda>w. nw_credit w (nm_address m) i (nm_loanToken m) number)) (\<lambda>credit.
        ioReturn (s\<lparr>ns_credit := Some credit\<rparr>))
      else ioReturn s)"

definition identityMatches :: "neg_lib \<Rightarrow> neg_market \<Rightarrow> string option \<Rightarrow> string \<Rightarrow> string \<Rightarrow> bool" where
  "identityMatches lib m code loanToken collateralToken \<longleftrightarrow>
     code \<notin> {None, Some ''''} \<and> sameAddress (nl_keccak lib (the code)) (nm_runtimeHash m)
     \<and> sameAddress loanToken (nm_loanToken m) \<and> sameAddress collateralToken (nm_collateralToken m)"

text \<open>\<open>BigInt(id)\<close> is evaluated before the four reads of the contract; \<open>undefined\<close> throws.\<close>

definition readSource :: "neg_lib \<Rightarrow> neg_market \<Rightarrow> string option \<Rightarrow> (neg_world, neg_source) io" where
  "readSource lib m offer_id =
     ioBind (ioRead nw_chainId) (\<lambda>chain.
     ioDemand (chain = nm_chainId m) ''Verification RPC is on the wrong chain.''
    (ioBind (ioRead nw_head) (\<lambda>b.
     ioDemand (nb_number b \<noteq> None \<and> nb_hash b \<noteq> None \<and> hex_word 64 (the (nb_hash b))) ''Chain state unavailable.''
    (ioBind (ioLift (case offer_id of None \<Rightarrow> Inl ''TypeError'' | Some t \<Rightarrow> js_BigInt t)) (\<lambda>i.
     let number = the (nb_number b) in
     ioBind (ioRead (\<lambda>w. nw_code w (nm_address m) number)) (\<lambda>code.
     ioBind (ioRead (\<lambda>w. nw_loanToken w (nm_address m) number)) (\<lambda>loanToken.
     ioBind (ioRead (\<lambda>w. nw_collateralToken w (nm_address m) number)) (\<lambda>collateralToken.
     ioBind (ioRead (\<lambda>w. nw_offer w (nm_address m) i number)) (\<lambda>x.
     ioDemand (identityMatches lib m code loanToken collateralToken) ''Registered contract identity mismatch.''
    (ioDemand (realAddress lib (no_lender x) \<and> 1 \<le> no_status x) ''Offer unavailable.''
    (ioBind (sourceStatus lib m number i x (sourceOf lib m (the offer_id) b number x)) (\<lambda>s.
     ioBind (ioRead (\<lambda>w. nw_block w number)) (\<lambda>again.
     ioDemand (nb_hash again \<noteq> None \<and> sameAddress (the (nb_hash again)) (the (nb_hash b))) ''Chain changed during verification. Retry.''
    (ioReturn s))))))))))))))"

definition sourceOpen :: "int \<Rightarrow> neg_source \<Rightarrow> unit outcome" where
  "sourceOpen n s = demand (ns_status s = 1 \<and> max n (ns_now s) < nt_expiresAt (ns_terms s) \<and> ns_backed s = Some True)
     ''Original offer is no longer open, funded and available.'' (Inr ())"

definition replacementReceipt :: "neg_market \<Rightarrow> string \<Rightarrow> string \<Rightarrow> string \<Rightarrow> (neg_world, neg_receipt) io" where
  "replacementReceipt m hash account input =
     ioBind (ioRead (\<lambda>w. nw_tx w hash)) (\<lambda>tx. ioBind (ioRead (\<lambda>w. nw_receipt w hash)) (\<lambda>r.
     ioDemand (sameAddress (nx_from tx) account \<and> nx_to tx \<noteq> None \<and> sameAddress (the (nx_to tx)) (nm_address m) \<and> nx_value tx = 0
         \<and> sameAddress (nx_input tx) input \<and> nc_status r = ''success'' \<and> sameAddress (nc_hash r) hash \<and> sameAddress (nc_from r) account)
       ''Transaction does not match this replacement step.''
    (ioBind (ioRead (\<lambda>w. nw_block w (nc_blockNumber r))) (\<lambda>b.
     ioDemand (nb_hash b \<noteq> None \<and> sameAddress (the (nb_hash b)) (nc_blockHash r)) ''Transaction confirmation changed. Retry.'' (ioReturn r)))))"

end
