(* ===== verification/Negotiation_Service.thy ===== *)
theory Negotiation_Service
  imports Negotiation_Checks
begin

text \<open>
  frontend/app/scripts/p2p-negotiations.mjs, second part: the operations of the service. A signed
  action is first checked against the chain and the database (\<open>submitChecks\<close>, which waits
  between its reads) and then applied in one transaction (\<open>commit\<close>), which repeats the
  checks that other requests may have made stale. A transaction that throws is rolled back: it is
  \<open>Inl\<close> and leaves no new database. The body of a transaction is synchronous, and so are
  \<open>list\<close> and the checks of an envelope; each takes the clock once.
\<close>

section \<open>The tables\<close>

definition getThread :: "neg_db \<Rightarrow> string \<Rightarrow> neg_thread option" where
  "getThread db i = find (\<lambda>r. th_id r = i) (nd_threads db)"

definition isParticipant :: "neg_thread \<Rightarrow> string \<Rightarrow> bool" where
  "isParticipant r account \<longleftrightarrow> sameAddress (th_borrower r) account \<or> sameAddress (th_lender r) account"

definition visible :: "neg_db \<Rightarrow> string \<Rightarrow> string \<Rightarrow> neg_thread outcome" where
  "visible db i account = (case getThread db i of None \<Rightarrow> Inl ''Conversation unavailable.''
     | Some r \<Rightarrow> demand (isParticipant r account) ''Conversation unavailable.'' (Inr r))"

definition nonceOf :: "neg_db \<Rightarrow> string \<Rightarrow> neg_nonce option" where
  "nonceOf db k = map_of (nd_nonces db) k"

definition negotiationSession :: "neg_lib \<Rightarrow> int \<Rightarrow> neg_db \<Rightarrow> string option \<Rightarrow> string outcome" where
  "negotiationSession lib n db tok =
     demand (tok \<noteq> None \<and> tokenText (the tok)) ''Unlock conversations with your wallet.''
    (case map_of (nd_sessions db) (digest lib (J_str (the tok))) of None \<Rightarrow> Inl ''Conversation session expired. Unlock again.''
     | Some (account, expires) \<Rightarrow> demand (n < expires) ''Conversation session expired. Unlock again.'' (Inr account))"

text \<open>The columns \<open>borrower\<close> and \<open>lender\<close> hold the lower-case addresses of the row.\<close>

definition storeThread :: "neg_thread \<Rightarrow> neg_db \<Rightarrow> neg_db outcome" where
  "storeThread r db =
     (case getThread db (th_id r) of
        Some _ \<Rightarrow> Inr (db\<lparr>nd_threads := map (\<lambda>x. if th_id x = th_id r then r else x) (nd_threads db)\<rparr>)
      | None \<Rightarrow> demand (\<not> (th_state r \<noteq> N_closed \<and> (\<exists>x \<in> set (nd_threads db). th_state x \<noteq> N_closed
            \<and> th_sourceKey x = th_sourceKey r \<and> js_lower (th_borrower x) = js_lower (th_borrower r)))) ''UNIQUE constraint failed''
          (Inr (db\<lparr>nd_threads := nd_threads db @ [r]\<rparr>)))"

definition deleteSelections :: "string \<Rightarrow> neg_db \<Rightarrow> neg_db" where
  "deleteSelections i db = db\<lparr>nd_selections := (\<lambda>k. if nd_selections db k = Some i then None else nd_selections db k)\<rparr>"

section \<open>Pages\<close>

record neg_page =
  pg_threads :: "neg_thread list"
  pg_events :: "neg_event list"
  pg_nextCursor :: "nat option"

definition cursorText :: "string \<Rightarrow> bool" where
  "cursorText c \<longleftrightarrow> 1 \<le> length c \<and> length c \<le> 15 \<and> list_all is_digit c \<and> hd c \<noteq> CHR ''0''"

text \<open>At most 31 rows below the cursor, newest first, with their \<open>seq\<close>.\<close>

definition newestBelow :: "(nat \<times> 'a) list \<Rightarrow> string \<Rightarrow> (nat \<times> 'a) list" where
  "newestBelow rows cursor =
     take 31 (rev (filter (\<lambda>r. cursor \<noteq> '''' \<longrightarrow> fst r < nat_of_dec cursor) rows))"

definition nextCursor :: "(nat \<times> 'a) list \<Rightarrow> nat option" where
  "nextCursor rows = (if 30 < length rows then Some (fst (rows ! 29)) else None)"

definition withSeq :: "'a list \<Rightarrow> (nat \<times> 'a) list" where
  "withSeq rows = zip [1..<Suc (length rows)] rows"

definition listThreads :: "neg_lib \<Rightarrow> int \<Rightarrow> neg_db \<Rightarrow> string option \<Rightarrow> string \<Rightarrow> string \<Rightarrow> neg_page outcome" where
  "listThreads lib n db tok i cursor =
     and_then (negotiationSession lib n db tok) (\<lambda>owner.
     demand (cursor = '''' \<or> cursorText cursor) ''Invalid page.''
    (if i \<noteq> '''' then
       and_then (visible db i (js_lower owner)) (\<lambda>r.
       let rows = newestBelow (filter (\<lambda>x. ne_thread (snd x) = i) (withSeq (nd_events db))) cursor in
       Inr \<lparr>pg_threads = [r], pg_events = map snd (take 30 rows), pg_nextCursor = nextCursor rows\<rparr>)
     else
       let rows = newestBelow (filter (\<lambda>x. js_lower (th_borrower (snd x)) = js_lower owner
                    \<or> js_lower (th_lender (snd x)) = js_lower owner) (withSeq (nd_threads db))) cursor in
       Inr \<lparr>pg_threads = map snd (take 30 rows), pg_events = [], pg_nextCursor = nextCursor rows\<rparr>))"

definition inspect :: "neg_lib \<Rightarrow> neg_setup \<Rightarrow> string option \<Rightarrow> int option \<Rightarrow> string option \<Rightarrow> string option \<Rightarrow> (neg_world, neg_source) io" where
  "inspect lib su market chainId offer_id tok =
     ioBind (ioRead (\<lambda>w. negotiationSession lib (nw_now w) (nw_db w) tok)) (\<lambda>account.
     ioBind (ioLift (marketFor su market chainId)) (\<lambda>m.
     ioBind (readSource lib m offer_id) (\<lambda>s.
     ioDemand (zeroAddress (ns_borrower s) \<or> sameAddress (ns_borrower s) account \<or> sameAddress (ns_lender s) account) ''Offer unavailable.''
    (ioReturn s))))"

section \<open>The evidence of the replacement steps\<close>

definition fundsRecovered :: "neg_source \<Rightarrow> bool" where
  "fundsRecovered s \<longleftrightarrow> ns_status s = 5 \<and> (case ns_credit s of Some (_, nominal, _) \<Rightarrow> nominal = 0 | None \<Rightarrow> False)"

definition cancelReceipt :: "neg_lib \<Rightarrow> neg_market \<Rightarrow> string \<Rightarrow> neg_thread \<Rightarrow> (neg_world, neg_receipt) io" where
  "cancelReceipt lib m hash r =
     ioBind (ioLift (js_BigInt (th_offerId r))) (\<lambda>i. replacementReceipt m hash (th_lender r) (nl_cancelOffer lib i))"

definition expired :: "neg_lib \<Rightarrow> neg_thread \<Rightarrow> int \<Rightarrow> bool" where
  "expired lib r n \<longleftrightarrow> jsAtMost lib (j_field (np_terms (th_latest r)) ''expiresAt'') n"

text \<open>\<open>preflight\<close>: the lender's last check before funding.\<close>

definition preflight :: "neg_lib \<Rightarrow> neg_setup \<Rightarrow> string option \<Rightarrow> string \<Rightarrow> string \<Rightarrow> (neg_world, neg_thread) io" where
  "preflight lib su tok i attempt =
     ioBind (ioRead (\<lambda>w. and_then (negotiationSession lib (nw_now w) (nw_db w) tok) (\<lambda>account.
       and_then (visible (nw_db w) i account) (\<lambda>r.
       demand (sameAddress (th_lender r) account \<and> th_state r = N_funding \<and> th_attempt r = Some attempt)
         ''Replacement attempt changed. Refresh.'' (Inr r))))) (\<lambda>r.
     ioBind (ioLift (marketFor su (Some (th_market r)) (Some (th_chainId r)))) (\<lambda>m.
     ioBind (readSource lib m (Some (th_offerId r))) (\<lambda>s.
     ioBind clock (\<lambda>n.
     ioDemand (fundsRecovered s \<and> ns_digest s = th_sourceDigest r \<and> th_cancelHash r \<noteq> None
         \<and> (np_terms (th_latest r) \<noteq> J_null \<longrightarrow> \<not> expired lib r (max n (ns_now s))))
       ''Original funds are not fully recovered or replacement expired.''
    (ioDemand (np_terms (th_latest r) \<noteq> J_null) ''TypeError''
    (ioBind (cancelReceipt lib m (the (th_cancelHash r)) r) (\<lambda>_.
     ioRead (\<lambda>w. and_then (negotiationSession lib (nw_now w) (nw_db w) tok) (\<lambda>account.
       and_then (visible (nw_db w) i account) (\<lambda>fresh.
       demand (th_revision fresh = th_revision r \<and> th_attempt fresh = Some attempt) ''Replacement changed. Refresh.'' (Inr fresh)))))))))))"

definition checkCancelled :: "neg_lib \<Rightarrow> neg_market \<Rightarrow> json \<Rightarrow> neg_thread option \<Rightarrow> neg_source option \<Rightarrow> (neg_world, unit) io" where
  "checkCancelled lib m e row s =
     (if textOf e ''action'' \<noteq> ''cancelled'' then ioReturn () else
      case (row, s) of (Some r, Some x) \<Rightarrow>
        ioDemand (th_cancelAfterBlock r \<noteq> None \<and> ns_status x = 5) ''Original offer is not cancelled.''
       (ioBind (cancelReceipt lib m (textOf e ''hash'') r) (\<lambda>rc.
        ioDemand (the (th_cancelAfterBlock r) < nc_blockNumber rc) ''Cancellation predates the agreed replacement.'' (ioReturn ())))
      | _ \<Rightarrow> ioThrow ''TypeError'')"

definition bigIntField :: "json \<Rightarrow> string \<Rightarrow> int outcome" where
  "bigIntField t k = (case j_field t k of Some (J_str s) \<Rightarrow> js_BigInt s | Some (J_num (JS_int i)) \<Rightarrow> Inr i | _ \<Rightarrow> Inl ''TypeError'')"

definition createInput :: "neg_lib \<Rightarrow> neg_thread \<Rightarrow> string outcome" where
  "createInput lib r = (let t = np_terms (th_latest r) in
     and_then (bigIntField t ''principal'') (\<lambda>p. and_then (bigIntField t ''collateral'') (\<lambda>c. and_then (bigIntField t ''interest'') (\<lambda>i.
     and_then (bigIntField t ''durationDays'') (\<lambda>d. and_then (bigIntField t ''expiresAt'') (\<lambda>x.
     Inr (nl_createOffer lib (th_borrower r) p c i (d * 86400) x)))))))"

definition createdOffers :: "neg_lib \<Rightarrow> neg_market \<Rightarrow> neg_receipt \<Rightarrow> int list" where
  "createdOffers lib m rc = List.map_filter (\<lambda>g. nl_offerCreated lib (ng_data g) (ng_topics g))
     (filter (\<lambda>g. sameAddress (ng_address g) (nm_address m)) (nc_logs rc))"

text \<open>What \<open>bind\<close> must show: the cancellation, one \<open>createOffer\<close> of the lender after \<open>prepare\<close>, and its offer on the chain.\<close>

definition checkBind :: "neg_lib \<Rightarrow> neg_market \<Rightarrow> json \<Rightarrow> neg_thread option \<Rightarrow> neg_source option \<Rightarrow> (neg_world, neg_source option) io" where
  "checkBind lib m e row s =
     (if textOf e ''action'' \<noteq> ''bind'' then ioReturn None else
      case (row, s) of (Some r, Some x) \<Rightarrow>
        ioDemand (fundsRecovered x \<and> th_cancelHash r \<noteq> None) ''Original cancellation or recovery is no longer confirmed.''
       (ioBind (cancelReceipt lib m (the (th_cancelHash r)) r) (\<lambda>_.
        ioBind (ioLift (createInput lib r)) (\<lambda>input.
        ioBind (replacementReceipt m (textOf e ''hash'') (th_lender r) input) (\<lambda>rc.
        ioDemand (th_fundAfterBlock r \<noteq> None \<and> the (th_fundAfterBlock r) < nc_blockNumber rc) ''Funding predates this replacement attempt.''
       (ioDemand (length (createdOffers lib m rc) = 1) ''One verified replacement offer is required.''
       (ioBind (readSource lib m (Some (dec_of_int (hd (createdOffers lib m rc))))) (\<lambda>linked.
        ioDemand (sameAddress (ns_lender linked) (th_lender r) \<and> sameAddress (ns_borrower linked) (th_borrower r)
            \<and> canonicalNegotiation (termsJson (ns_terms linked)) = canonicalNegotiation (np_terms (th_latest r))
            \<and> \<not> (ns_status linked = 1 \<and> ns_backed linked \<noteq> Some True)) ''Replacement parties, terms or backing do not match.''
       (ioReturn (Some linked)))))))))
      | _ \<Rightarrow> ioThrow ''TypeError'')"

section \<open>Checking a signed action\<close>

record neg_prepared =
  pr_envelope :: json
  pr_signature :: string
  pr_market :: neg_market
  pr_hash :: string
  pr_source :: "neg_source option"
  pr_linked :: "neg_source option"

datatype neg_checked = Repeated neg_result | Ready neg_prepared

definition nonceKey :: "json \<Rightarrow> string" where
  "nonceKey e = js_lower (textOf e ''account'') @ '':'' @ js_lower (textOf e ''nonce'')"

definition requestHash :: "neg_lib \<Rightarrow> json \<Rightarrow> string \<Rightarrow> string" where
  "requestHash lib e sig = digest lib (J_obj [(''envelope'', e), (''signature'', J_str sig)])"

text \<open>\<open>/^0x[0-9a-f]+$/i\<close>, at most 4098 characters.\<close>

definition signatureText :: "string \<Rightarrow> bool" where
  "signatureText s \<longleftrightarrow> 3 \<le> length s \<and> length s \<le> 4098 \<and> take 2 s \<in> {''0x'', ''0X''} \<and> list_all is_hex (drop 2 s)"

definition contextJson :: "neg_thread \<Rightarrow> json" where
  "contextJson r = J_obj [(''sourceDigest'', J_str (th_sourceDigest r)), (''lender'', J_str (th_lender r)),
     (''borrower'', J_str (th_borrower r)), (''proposalTerms'', np_terms (th_latest r))]"

definition contextOf :: "json \<Rightarrow> json" where
  "contextOf e = (case j_field e ''context'' of Some c \<Rightarrow> c | None \<Rightarrow> J_null)"

definition namesThread :: "json \<Rightarrow> bool" where
  "namesThread e \<longleftrightarrow> j_truthy (j_field e ''threadId'')"

text \<open>The conversation an action is about, as the database shows it when the signature has been verified.\<close>

definition currentThread :: "neg_market \<Rightarrow> json \<Rightarrow> neg_db \<Rightarrow> neg_thread option outcome" where
  "currentThread m e db =
     (if \<not> namesThread e then Inr None else
      and_then (visible db (textOf e ''threadId'') (textOf e ''account'')) (\<lambda>r.
      demand (js_lower (th_market r) = js_lower (nm_address m) \<and> th_revision r = intOf e ''revision''
          \<and> np_id (th_latest r) = textOf e ''proposalId'' \<and> canonicalNegotiation (contextOf e) = canonicalNegotiation (contextJson r))
        ''Conversation changed. Refresh before signing.'' (Inr (Some r))))"

definition sourceFor :: "neg_lib \<Rightarrow> neg_market \<Rightarrow> json \<Rightarrow> neg_thread option \<Rightarrow> (neg_world, neg_source option) io" where
  "sourceFor lib m e row =
     (if textOf e ''action'' \<in> {''login'', ''close''} then ioReturn None else
      ioBind (readSource lib m (case row of Some r \<Rightarrow> Some (th_offerId r) | None \<Rightarrow> j_string (j_field e ''offerId''))) (\<lambda>s.
      ioDemand (ns_digest s = (case row of Some r \<Rightarrow> th_sourceDigest r | None \<Rightarrow> textOf e ''sourceDigest'')) ''Source offer terms changed.''
     (ioReturn (Some s))))"

definition evidence :: "neg_lib \<Rightarrow> neg_market \<Rightarrow> json \<Rightarrow> string \<Rightarrow> neg_thread option \<Rightarrow> (neg_world, neg_checked) io" where
  "evidence lib m e sig row =
     ioBind (sourceFor lib m e row) (\<lambda>s.
     ioBind (checkCancelled lib m e row s) (\<lambda>_.
     ioBind (checkBind lib m e row s) (\<lambda>linked.
     ioReturn (Ready \<lparr>pr_envelope = e, pr_signature = sig, pr_market = m, pr_hash = requestHash lib e sig,
       pr_source = s, pr_linked = linked\<rparr>))))"

definition submitChecks :: "neg_lib \<Rightarrow> neg_setup \<Rightarrow> json \<Rightarrow> json \<Rightarrow> (neg_world, neg_checked) io" where
  "submitChecks lib su e signature =
     ioBind clock (\<lambda>n.
     ioBind (ioLift (checkEnvelope lib su n e)) (\<lambda>m.
     ioBind (ioLift (case signature of J_str s \<Rightarrow> demand (signatureText s) ''Invalid signature.'' (Inr s) | _ \<Rightarrow> Inl ''Invalid signature.'')) (\<lambda>sig.
     ioBind (ioRead nw_chainId) (\<lambda>chain.
     ioDemand (chain = nm_chainId m) ''Signature RPC is on the wrong chain.''
    (ioBind (ioRead (\<lambda>w. nw_verify w (textOf e ''account'') (canonicalNegotiation e) sig)) (\<lambda>ok.
     ioDemand ok ''Wallet signature does not match''
    (ioBind (ioRead (\<lambda>w. Inr (nw_db w))) (\<lambda>db.
     case nonceOf db (nonceKey e) of
       Some prior \<Rightarrow> ioDemand (nn_hash prior = requestHash lib e sig) ''Nonce already used for different terms.'' (ioReturn (Repeated (nn_result prior)))
     | None \<Rightarrow> ioBind (ioLift (currentThread m e db)) (evidence lib m e sig)))))))))"

section \<open>Applying it in a transaction\<close>

definition newProposal :: "neg_world \<Rightarrow> json \<Rightarrow> neg_proposal" where
  "newProposal w e = \<lparr>np_id = nw_uuid2 w, np_author = textOf e ''account'', np_terms = envelopeTerms e,
     np_responseBy = j_field e ''responseBy'', np_createdAt = nw_now w\<rparr>"

definition respondsInTime :: "neg_lib \<Rightarrow> json \<Rightarrow> neg_source \<Rightarrow> 'a outcome \<Rightarrow> 'a outcome" where
  "respondsInTime lib e s = demand (\<not> jsAtLeast lib (j_field e ''responseBy'') (nt_expiresAt (ns_terms s))) ''Respond-by time must precede the original offer expiry.''"

definition sourceKeyOf :: "neg_market \<Rightarrow> json \<Rightarrow> string" where
  "sourceKeyOf m e = dec_of_int (nm_chainId m) @ '':'' @ js_lower (nm_address m) @ '':'' @ textOf e ''offerId''"

definition openThread :: "neg_lib \<Rightarrow> neg_market \<Rightarrow> json \<Rightarrow> neg_source \<Rightarrow> neg_world \<Rightarrow> neg_thread outcome" where
  "openThread lib m e s w =
     (let account = textOf e ''account''; key = sourceKeyOf m e in
      and_then (sourceOpen (nw_now w) s) (\<lambda>_.
      demand (\<not> sameAddress (ns_lender s) account \<and> (zeroAddress (ns_borrower s) \<or> sameAddress (ns_borrower s) account))
        ''Only an eligible borrower can counter this offer.''
     (respondsInTime lib e s
     (demand (\<not> (\<exists>x \<in> set (nd_threads (nw_db w)). th_sourceKey x = key \<and> js_lower (th_borrower x) = js_lower account \<and> th_state x \<noteq> N_closed))
        ''A conversation already exists. Open Negotiations to continue it.''
     (Inr \<lparr>th_id = nw_uuid w, th_market = nm_address m, th_chainId = nm_chainId m, th_offerId = textOf e ''offerId'',
           th_sourceKey = key, th_sourceDigest = ns_digest s, th_original = ns_terms s, th_lender = ns_lender s, th_borrower = account,
           th_revision = 1, th_state = N_open, th_createdAt = nw_now w, th_updatedAt = nw_now w, th_latest = newProposal w e,
           th_agreedBy = None, th_agreedAt = None, th_cancelAfterBlock = None, th_cancelHash = None, th_attempt = None,
           th_fundAfterBlock = None, th_replacement = None\<rparr>)))))"

text \<open>The offer's selection goes to the first agreed conversation; one whose agreement has expired gives way.\<close>

definition gaveWay :: "neg_lib \<Rightarrow> neg_db \<Rightarrow> int \<Rightarrow> string \<Rightarrow> bool" where
  "gaveWay lib db n i = (case getThread db i of None \<Rightarrow> False
     | Some prior \<Rightarrow> th_state prior = N_agreed \<and> jsAtMost lib (np_responseBy (th_latest prior)) n)"

definition claimSelection :: "neg_lib \<Rightarrow> neg_thread \<Rightarrow> int \<Rightarrow> neg_db \<Rightarrow> neg_db outcome" where
  "claimSelection lib r n db =
     (case nd_selections db (th_sourceKey r) of
        None \<Rightarrow> Inr (db\<lparr>nd_selections := (nd_selections db)(th_sourceKey r \<mapsto> th_id r)\<rparr>)
      | Some i \<Rightarrow> if i = th_id r then Inr db
          else demand (gaveWay lib db n i) ''Another replacement has already been selected for this offer.''
            (Inr (db\<lparr>nd_selections := (nd_selections db)(th_sourceKey r \<mapsto> th_id r)\<rparr>)))"

definition closeThread :: "neg_thread \<Rightarrow> neg_db \<Rightarrow> (neg_thread \<times> neg_db) outcome" where
  "closeThread r db =
     demand (th_state r \<notin> {N_replacing, N_recovering, N_funding, N_funded})
       ''Replacement has started. Keep its recovery history and manage the onchain offer.''
       (Inr (r\<lparr>th_state := N_closed\<rparr>, deleteSelections (th_id r) db))"

definition answerable :: "neg_lib \<Rightarrow> json \<Rightarrow> neg_thread \<Rightarrow> neg_source \<Rightarrow> neg_world \<Rightarrow> unit outcome" where
  "answerable lib e r s w =
     and_then (sourceOpen (nw_now w) s) (\<lambda>_.
     demand (th_state r = N_open \<and> \<not> jsAtMost lib (np_responseBy (th_latest r)) (max (nw_now w) (ns_now s)))
       ''Proposal expired or already agreed. Close it before starting a new conversation.'' (Inr ()))"

definition counterThread :: "neg_lib \<Rightarrow> json \<Rightarrow> neg_thread \<Rightarrow> neg_source \<Rightarrow> neg_world \<Rightarrow> (neg_thread \<times> neg_db) outcome" where
  "counterThread lib e r s w =
     and_then (answerable lib e r s w) (\<lambda>_. respondsInTime lib e s (Inr (r\<lparr>th_latest := newProposal w e\<rparr>, nw_db w)))"

definition agreeThread :: "neg_lib \<Rightarrow> json \<Rightarrow> neg_thread \<Rightarrow> neg_source \<Rightarrow> neg_world \<Rightarrow> (neg_thread \<times> neg_db) outcome" where
  "agreeThread lib e r s w =
     and_then (answerable lib e r s w) (\<lambda>_.
     demand (\<not> sameAddress (np_author (th_latest r)) (textOf e ''account'')) ''The other participant must agree.''
    (and_then (claimSelection lib r (max (nw_now w) (ns_now s)) (nw_db w)) (\<lambda>db.
     Inr (r\<lparr>th_state := N_agreed, th_agreedBy := Some (textOf e ''account''), th_agreedAt := Some (nw_now w)\<rparr>, db))))"

definition startThread :: "neg_lib \<Rightarrow> neg_thread \<Rightarrow> neg_source \<Rightarrow> neg_world \<Rightarrow> neg_thread outcome" where
  "startThread lib r s w =
     and_then (sourceOpen (nw_now w) s) (\<lambda>_.
     demand (th_state r = N_agreed \<and> \<not> jsAtMost lib (np_responseBy (th_latest r)) (max (nw_now w) (ns_now s))) ''Agreement expired or changed.''
       (Inr (r\<lparr>th_state := N_replacing, th_cancelAfterBlock := Some (ns_blockNumber s)\<rparr>)))"

definition cancelThread :: "json \<Rightarrow> neg_thread \<Rightarrow> neg_thread outcome" where
  "cancelThread e r = demand (th_state r = N_replacing) ''Replacement step changed.''
     (Inr (r\<lparr>th_cancelHash := Some (textOf e ''hash''), th_state := N_recovering\<rparr>))"

definition prepareThread :: "neg_lib \<Rightarrow> neg_thread \<Rightarrow> neg_source \<Rightarrow> neg_world \<Rightarrow> neg_thread outcome" where
  "prepareThread lib r s w =
     demand (th_state r = N_recovering \<and> fundsRecovered s \<and> (np_terms (th_latest r) \<noteq> J_null \<longrightarrow> \<not> expired lib r (max (nw_now w) (ns_now s))))
       ''Withdraw the original USDG credit in full before funding.''
     (demand (np_terms (th_latest r) \<noteq> J_null) ''TypeError''
       (Inr (r\<lparr>th_state := N_funding, th_attempt := Some (nw_uuid w), th_fundAfterBlock := Some (ns_blockNumber s)\<rparr>)))"

definition bindThread :: "json \<Rightarrow> neg_thread \<Rightarrow> neg_source option \<Rightarrow> neg_thread outcome" where
  "bindThread e r linked =
     demand (th_state r = N_funding) ''This replacement is not awaiting funding evidence.''
    (case linked of None \<Rightarrow> Inl ''TypeError'' | Some x \<Rightarrow>
       Inr (r\<lparr>th_state := N_funded, th_replacement := Some \<lparr>nr_id = ns_id x, nr_txHash = textOf e ''hash'', nr_status = ns_status x,
         nr_blockNumber = ns_blockNumber x, nr_blockHash = ns_blockHash x\<rparr>\<rparr>))"

text \<open>The steps of a replacement: all but \<open>bind\<close> are the lender's.\<close>

definition replaceThread :: "neg_lib \<Rightarrow> json \<Rightarrow> neg_thread \<Rightarrow> neg_source \<Rightarrow> neg_source option \<Rightarrow> neg_world \<Rightarrow> neg_thread outcome" where
  "replaceThread lib e r s linked w =
     (let action = textOf e ''action'' in
      demand (sameAddress (th_lender r) (textOf e ''account'') \<or> action = ''bind'') ''Only the lender can replace this offer.''
     (if action = ''start'' then startThread lib r s w
      else if action = ''cancelled'' then cancelThread e r
      else if action = ''prepare'' then prepareThread lib r s w
      else if action = ''bind'' then bindThread e r linked
      else Inr r))"

text \<open>A missing conversation or source is a \<open>TypeError\<close>: the code reads a field of \<open>null\<close>.\<close>

definition advance :: "neg_lib \<Rightarrow> neg_prepared \<Rightarrow> neg_thread option \<Rightarrow> neg_world \<Rightarrow> (neg_thread \<times> neg_db) outcome" where
  "advance lib p row w =
     (let e = pr_envelope p; action = textOf e ''action''; bump = (\<lambda>(r, db). (r\<lparr>th_revision := th_revision r + 1\<rparr>, db)) in
      if action = ''open'' then
        (case pr_source p of None \<Rightarrow> Inl ''TypeError'' | Some s \<Rightarrow> and_then (openThread lib (pr_market p) e s w) (\<lambda>r. Inr (r, nw_db w)))
      else case row of None \<Rightarrow> Inl ''TypeError'' | Some r \<Rightarrow>
        if action = ''close'' then and_then (closeThread r (nw_db w)) (\<lambda>x. Inr (bump x))
        else case pr_source p of None \<Rightarrow> Inl ''TypeError'' | Some s \<Rightarrow>
          and_then (if action = ''counter'' then counterThread lib e r s w
            else if action = ''agree'' then agreeThread lib e r s w
            else and_then (replaceThread lib e r s (pr_linked p) w) (\<lambda>r'. Inr (r', nw_db w))) (\<lambda>x. Inr (bump x)))"

definition rereadThread :: "json \<Rightarrow> neg_db \<Rightarrow> neg_thread option outcome" where
  "rereadThread e db =
     (if \<not> namesThread e then Inr None else
      and_then (visible db (textOf e ''threadId'') (textOf e ''account'')) (\<lambda>r.
      demand (th_revision r = intOf e ''revision'' \<and> np_id (th_latest r) = textOf e ''proposalId'') ''Conversation changed. Refresh.''
        (Inr (Some r))))"

definition recentActions :: "json \<Rightarrow> int \<Rightarrow> neg_db \<Rightarrow> nat" where
  "recentActions e n db = (let prefix = js_lower (textOf e ''account'') @ '':'' in
     length (filter (\<lambda>(k, v). take (length prefix) k = prefix \<and> n - 60 < nn_at v) (nd_nonces db)))"

definition unlock :: "neg_lib \<Rightarrow> neg_setup \<Rightarrow> json \<Rightarrow> neg_world \<Rightarrow> (neg_result \<times> neg_db) outcome" where
  "unlock lib su e w =
     (let n = nw_now w; tok = digest lib (J_str (nw_token w)); kept = filter (\<lambda>(k, account, expires). n < expires) (nd_sessions (nw_db w)) in
      demand (tok \<notin> fst ` set kept) ''UNIQUE constraint failed''
        (Inr (Unlocked (su_origin su) (nw_token w) (n + 3600) (textOf e ''account''),
          (nw_db w)\<lparr>nd_sessions := kept @ [(tok, js_lower (textOf e ''account''), n + 3600)]\<rparr>)))"

definition applyAction :: "neg_lib \<Rightarrow> neg_setup \<Rightarrow> neg_prepared \<Rightarrow> neg_world \<Rightarrow> (neg_result \<times> neg_db) outcome" where
  "applyAction lib su p w =
     (let e = pr_envelope p; n = nw_now w in
      if textOf e ''action'' = ''login'' then unlock lib su e w else
      and_then (rereadThread e (nw_db w)) (\<lambda>row.
      and_then (advance lib p row w) (\<lambda>(r, db).
      let r' = r\<lparr>th_updatedAt := n\<rparr> in
      and_then (storeThread r' db) (\<lambda>db'.
      Inr (Packed (su_origin su) n r',
        db'\<lparr>nd_events := nd_events db' @ [\<lparr>ne_thread = th_id r', ne_at = n, ne_envelope = e, ne_signature = pr_signature p\<rparr>]\<rparr>)))))"

definition commit :: "neg_lib \<Rightarrow> neg_setup \<Rightarrow> neg_prepared \<Rightarrow> neg_world \<Rightarrow> (neg_result \<times> neg_db) outcome" where
  "commit lib su p w =
     (let e = pr_envelope p; n = nw_now w; db = nw_db w in
      and_then (checkEnvelope lib su n e) (\<lambda>_.
      case nonceOf db (nonceKey e) of
        Some duplicate \<Rightarrow> demand (nn_hash duplicate = pr_hash p) ''Nonce conflict.'' (Inr (nn_result duplicate, db))
      | None \<Rightarrow> demand (recentActions e n db < 12) ''Too many signed actions. Retry in a minute.''
         (and_then (applyAction lib su p w) (\<lambda>(result, db').
          Inr (result, db'\<lparr>nd_nonces := nd_nonces db' @ [(nonceKey e, \<lparr>nn_hash = pr_hash p, nn_result = result, nn_at = n\<rparr>)]\<rparr>)))))"

end
