(* ===== verification/Negotiation_Run.thy ===== *)
theory Negotiation_Run
  imports Negotiation_Service
begin

text \<open>
  The service at work: a history of the world in which the database changes only by committing
  actions whose checks have succeeded at earlier instants, however many requests are in
  progress. First what one transaction does to the tables, then what holds at every instant:
  every conversation is backed by signed envelopes, revisions order its changes, and an offer has at
  most one replacement under way.
\<close>

section \<open>One transaction\<close>

abbreviation action :: "json \<Rightarrow> string" where
  "action e \<equiv> textOf e ''action''"

abbreviation signer :: "json \<Rightarrow> string" where
  "signer e \<equiv> textOf e ''account''"

lemma commitE:
  assumes "commit lib su p w = Inr (result, db)"
  obtains (repeated) nn m where "db = nw_db w" "nonceOf (nw_db w) (nonceKey (pr_envelope p)) = Some nn" "nn_hash nn = pr_hash p" "result = nn_result nn"
      "checkEnvelope lib su (nw_now w) (pr_envelope p) = Inr m"
    | (applied) d m where "applyAction lib su p w = Inr (result, d)" "nonceOf (nw_db w) (nonceKey (pr_envelope p)) = None"
      "db = d\<lparr>nd_nonces := nd_nonces d @ [(nonceKey (pr_envelope p), \<lparr>nn_hash = pr_hash p, nn_result = result, nn_at = nw_now w\<rparr>)]\<rparr>"
      "checkEnvelope lib su (nw_now w) (pr_envelope p) = Inr m" "recentActions (pr_envelope p) (nw_now w) (nw_db w) < 12"
proof -
  obtain m where m: "checkEnvelope lib su (nw_now w) (pr_envelope p) = Inr m"
    using assms by (auto simp: commit_def Let_def and_then_Inr)
  show thesis
  proof (cases "nonceOf (nw_db w) (nonceKey (pr_envelope p))")
    case None
    then show ?thesis using assms m by (auto simp: commit_def Let_def and_then_Inr demand_Inr intro: applied)
  next
    case (Some nn)
    then show ?thesis using assms m by (auto simp: commit_def Let_def and_then_Inr demand_Inr intro: repeated)
  qed
qed

text \<open>\<open>advance\<close> on an existing conversation, without the new revision.\<close>

definition stepThread :: "neg_lib \<Rightarrow> neg_prepared \<Rightarrow> neg_thread \<Rightarrow> neg_world \<Rightarrow> (neg_thread \<times> neg_db) outcome" where
  "stepThread lib p r w =
     (let e = pr_envelope p in
      if action e = ''close'' then closeThread r (nw_db w)
      else case pr_source p of None \<Rightarrow> Inl ''TypeError'' | Some s \<Rightarrow>
        (if action e = ''counter'' then counterThread lib e r s w
         else if action e = ''agree'' then agreeThread lib e r s w
         else and_then (replaceThread lib e r s (pr_linked p) w) (\<lambda>r'. Inr (r', nw_db w))))"

lemma advance_step:
  assumes "advance lib p row w = Inr (r, db)" and "action (pr_envelope p) \<noteq> ''open''"
  obtains r0 r1 where "row = Some r0" "stepThread lib p r0 w = Inr (r1, db)" "r = r1\<lparr>th_revision := th_revision r1 + 1\<rparr>"
proof -
  obtain r0 where row: "row = Some r0" using assms by (cases row) (auto simp: advance_def Let_def)
  have "and_then (stepThread lib p r0 w) (\<lambda>x. Inr (case x of (r, db) \<Rightarrow> (r\<lparr>th_revision := th_revision r + 1\<rparr>, db))) = advance lib p row w"
    using assms(2) by (simp add: advance_def stepThread_def Let_def row split: option.split)
  with assms(1) obtain x where "stepThread lib p r0 w = Inr x" "(case x of (r, db) \<Rightarrow> (r\<lparr>th_revision := th_revision r + 1\<rparr>, db)) = (r, db)"
    by (auto simp: and_then_Inr)
  then show thesis using that [OF row] by (cases x) auto
qed

lemma advance_open:
  assumes "advance lib p row w = Inr (r, db)" and "action (pr_envelope p) = ''open''"
  obtains s where "pr_source p = Some s" "openThread lib (pr_market p) (pr_envelope p) s w = Inr r" "db = nw_db w"
  using assms by (cases "pr_source p") (auto simp: advance_def Let_def and_then_Inr)


lemma actionExtras_dom: "actionExtras a = Some x \<Longrightarrow>
    a \<in> {''login'', ''open'', ''counter'', ''agree'', ''close'', ''start'', ''cancelled'', ''prepare'', ''bind''}"
  unfolding actionExtras_def by (drule map_of_SomeD) auto

lemma checked_action: "checkEnvelope lib su n e = Inr m \<Longrightarrow>
    action e \<in> {''login'', ''open'', ''counter'', ''agree'', ''close'', ''start'', ''cancelled'', ''prepare'', ''bind''}"
  unfolding checkEnvelope_def by (cases "actionExtras (action e)") (simp, rule actionExtras_dom)

lemma replaceE:
  assumes "replaceThread lib e r s linked w = Inr r'" and "action e \<in> {''start'', ''cancelled'', ''prepare'', ''bind''}"
  obtains (start) "action e = ''start''" "sameAddress (th_lender r) (signer e)" "th_state r = N_agreed"
      "\<not> jsAtMost lib (np_responseBy (th_latest r)) (max (nw_now w) (ns_now s))" "r' = r\<lparr>th_state := N_replacing, th_cancelAfterBlock := Some (ns_blockNumber s)\<rparr>"
    | (cancelled) "action e = ''cancelled''" "sameAddress (th_lender r) (signer e)" "th_state r = N_replacing"
      "r' = r\<lparr>th_cancelHash := Some (textOf e ''hash''), th_state := N_recovering\<rparr>"
    | (prepare) "action e = ''prepare''" "sameAddress (th_lender r) (signer e)" "th_state r = N_recovering" "fundsRecovered s"
      "r' = r\<lparr>th_state := N_funding, th_attempt := Some (nw_uuid w), th_fundAfterBlock := Some (ns_blockNumber s)\<rparr>"
    | (bind) x where "action e = ''bind''" "th_state r = N_funding" "linked = Some x"
      "r' = r\<lparr>th_state := N_funded, th_replacement := Some \<lparr>nr_id = ns_id x, nr_txHash = textOf e ''hash'', nr_status = ns_status x,
         nr_blockNumber = ns_blockNumber x, nr_blockHash = ns_blockHash x\<rparr>\<rparr>"
proof -
  note defs = replaceThread_def startThread_def cancelThread_def prepareThread_def bindThread_def Let_def
  show thesis
  proof (cases "linked")
    case None
    then show ?thesis using assms by (elim insertE emptyE) (auto simp: defs outcome_Inr intro: start cancelled prepare)
  next
    case (Some x)
    then show ?thesis using assms by (elim insertE emptyE) (auto simp: defs outcome_Inr intro: start cancelled prepare bind)
  qed
qed

lemma answerableD:
  "answerable lib e r s w = Inr u \<Longrightarrow> th_state r = N_open \<and> \<not> jsAtMost lib (np_responseBy (th_latest r)) (max (nw_now w) (ns_now s))
     \<and> ns_status s = 1 \<and> ns_backed s = Some True"
  by (auto simp: answerable_def sourceOpen_def outcome_Inr)

definition started :: "neg_state set" where
  "started = {N_replacing, N_recovering, N_funding, N_funded}"

text \<open>What an accepted action did to its conversation.\<close>

lemma stepThreadE:
  assumes "stepThread lib p r w = Inr (r', db)" and "action (pr_envelope p) \<in> {''counter'', ''agree'', ''close'', ''start'', ''cancelled'', ''prepare'', ''bind''}"
  obtains (close) "action (pr_envelope p) = ''close''" "th_state r \<notin> started" "r' = r\<lparr>th_state := N_closed\<rparr>" "db = deleteSelections (th_id r) (nw_db w)"
    | (counter) s where "action (pr_envelope p) = ''counter''" "pr_source p = Some s" "th_state r = N_open"
      "r' = r\<lparr>th_latest := newProposal w (pr_envelope p)\<rparr>" "db = nw_db w"
    | (agree) s where "action (pr_envelope p) = ''agree''" "pr_source p = Some s" "th_state r = N_open"
      "\<not> jsAtMost lib (np_responseBy (th_latest r)) (max (nw_now w) (ns_now s))"
      "\<not> sameAddress (np_author (th_latest r)) (signer (pr_envelope p))" "claimSelection lib r (max (nw_now w) (ns_now s)) (nw_db w) = Inr db"
      "r' = r\<lparr>th_state := N_agreed, th_agreedBy := Some (signer (pr_envelope p)), th_agreedAt := Some (nw_now w)\<rparr>"
    | (replace) s where "action (pr_envelope p) \<in> {''start'', ''cancelled'', ''prepare'', ''bind''}" "pr_source p = Some s"
      "replaceThread lib (pr_envelope p) r s (pr_linked p) w = Inr r'" "db = nw_db w"
proof (cases "action (pr_envelope p) = ''close''")
  case True
  then show ?thesis using assms(1) by (auto simp: stepThread_def Let_def closeThread_def demand_Inr started_def intro: close)
next
  case not_close: False
  then obtain s where s: "pr_source p = Some s" using assms(1) by (cases "pr_source p") (auto simp: stepThread_def Let_def)
  let ?e = "pr_envelope p"
  consider "action ?e = ''counter''" | "action ?e = ''agree''" | "action ?e \<in> {''start'', ''cancelled'', ''prepare'', ''bind''}"
    using assms(2) not_close by blast
  then show ?thesis
  proof cases
    case 1
    with assms(1) s have "counterThread lib ?e r s w = Inr (r', db)" by (simp add: stepThread_def)
    then show ?thesis using 1 s answerableD by (fastforce simp: counterThread_def respondsInTime_def outcome_Inr intro: counter)
  next
    case 2
    with assms(1) s have "agreeThread lib ?e r s w = Inr (r', db)" by (simp add: stepThread_def)
    then obtain u where "answerable lib ?e r s w = Inr u" "\<not> sameAddress (np_author (th_latest r)) (signer ?e)"
        "claimSelection lib r (max (nw_now w) (ns_now s)) (nw_db w) = Inr db"
        "r' = r\<lparr>th_state := N_agreed, th_agreedBy := Some (signer ?e), th_agreedAt := Some (nw_now w)\<rparr>"
      by (auto simp: agreeThread_def outcome_Inr)
    then show ?thesis using answerableD [of lib ?e r s w u] by (intro agree [OF 2 s]) simp_all
  next
    case 3
    with assms(1) s have "and_then (replaceThread lib ?e r s (pr_linked p) w) (\<lambda>r'. Inr (r', nw_db w)) = Inr (r', db)"
      by (auto simp: stepThread_def)
    then show ?thesis using replace [OF 3 s] by (auto simp: and_then_Inr)
  qed
qed

text \<open>What no step changes.\<close>

definition sameParties :: "neg_thread \<Rightarrow> neg_thread \<Rightarrow> bool" where
  "sameParties r r' \<longleftrightarrow> th_id r' = th_id r \<and> th_sourceKey r' = th_sourceKey r \<and> th_lender r' = th_lender r \<and> th_borrower r' = th_borrower r
     \<and> th_sourceDigest r' = th_sourceDigest r"

definition sameDeal :: "neg_thread \<Rightarrow> neg_thread \<Rightarrow> bool" where
  "sameDeal r r' \<longleftrightarrow> sameParties r r' \<and> th_revision r' = th_revision r"

lemma claimSelection_tables: "claimSelection lib r n db = Inr db' \<Longrightarrow> nd_threads db' = nd_threads db \<and> nd_events db' = nd_events db \<and> nd_nonces db' = nd_nonces db
    \<and> nd_selections db' = (nd_selections db)(th_sourceKey r \<mapsto> th_id r)"
  by (auto simp: claimSelection_def demand_Inr fun_eq_iff split: option.splits if_splits)

lemma replaceThread_same:
  assumes "replaceThread lib e r s linked w = Inr r'" and "action e \<in> {''start'', ''cancelled'', ''prepare'', ''bind''}"
  shows "sameDeal r r' \<and> th_latest r' = th_latest r \<and> th_agreedBy r' = th_agreedBy r"
  by (rule replaceE [OF assms]) (simp_all add: sameDeal_def sameParties_def)

lemma stepThread_same:
  assumes "stepThread lib p r w = Inr (r', db)" and "action (pr_envelope p) \<in> {''counter'', ''agree'', ''close'', ''start'', ''cancelled'', ''prepare'', ''bind''}"
  shows "sameDeal r r' \<and> nd_threads db = nd_threads (nw_db w) \<and> nd_events db = nd_events (nw_db w) \<and> nd_nonces db = nd_nonces (nw_db w)"
  using assms
proof (cases rule: stepThreadE)
  case (agree s)
  then show ?thesis using claimSelection_tables by (auto simp: sameDeal_def sameParties_def)
next
  case (replace s)
  then show ?thesis using replaceThread_same by simp
qed (simp_all add: sameDeal_def sameParties_def deleteSelections_def)

definition eventOf :: "neg_prepared \<Rightarrow> neg_world \<Rightarrow> string \<Rightarrow> neg_event" where
  "eventOf p w i = \<lparr>ne_thread = i, ne_at = nw_now w, ne_envelope = pr_envelope p, ne_signature = pr_signature p\<rparr>"

definition replaceRow :: "neg_thread \<Rightarrow> neg_thread list \<Rightarrow> neg_thread list" where
  "replaceRow r rows = map (\<lambda>x. if th_id x = th_id r then r else x) rows"

lemma getThreadD: "getThread db i = Some r \<Longrightarrow> r \<in> set (nd_threads db) \<and> th_id r = i"
  by (auto simp: getThread_def find_Some_iff)

lemma applyE:
  assumes "applyAction lib su p w = Inr (result, d)" and "getThread (nw_db w) (nw_uuid w) = None"
    and "checkEnvelope lib su n (pr_envelope p) = Inr m"
  obtains (login) "nd_threads d = nd_threads (nw_db w)" "nd_events d = nd_events (nw_db w)" "nd_selections d = nd_selections (nw_db w)"
      "nd_nonces d = nd_nonces (nw_db w)"
    | (opened) s r where "action (pr_envelope p) = ''open''" "pr_source p = Some s" "openThread lib (pr_market p) (pr_envelope p) s w = Inr r"
      "d = (nw_db w)\<lparr>nd_threads := nd_threads (nw_db w) @ [r], nd_events := nd_events (nw_db w) @ [eventOf p w (th_id r)]\<rparr>"
    | (stepped) r0 r1 r db where "getThread (nw_db w) (textOf (pr_envelope p) ''threadId'') = Some r0" "isParticipant r0 (signer (pr_envelope p))"
      "th_revision r0 = intOf (pr_envelope p) ''revision''" "np_id (th_latest r0) = textOf (pr_envelope p) ''proposalId''" "namesThread (pr_envelope p)"
      "action (pr_envelope p) \<in> {''counter'', ''agree'', ''close'', ''start'', ''cancelled'', ''prepare'', ''bind''}"
      "stepThread lib p r0 w = Inr (r1, db)" "r = r1\<lparr>th_revision := th_revision r1 + 1, th_updatedAt := nw_now w\<rparr>"
      "d = db\<lparr>nd_threads := replaceRow r (nd_threads (nw_db w)), nd_events := nd_events (nw_db w) @ [eventOf p w (th_id r)]\<rparr>"
proof -
  let ?e = "pr_envelope p"
  consider "action ?e = ''login''" | "action ?e = ''open''"
    | "action ?e \<in> {''counter'', ''agree'', ''close'', ''start'', ''cancelled'', ''prepare'', ''bind''}"
    using checked_action [OF assms(3)] by blast
  then show thesis
  proof cases
    case 1
    then show ?thesis using assms(1) by (auto simp: applyAction_def Let_def unlock_def demand_Inr intro: login)
  next
    case 2
    then obtain row r db d' where x: "advance lib p row w = Inr (r, db)" "storeThread (r\<lparr>th_updatedAt := nw_now w\<rparr>) db = Inr d'"
        "d = d'\<lparr>nd_events := nd_events d' @ [eventOf p w (th_id r)]\<rparr>"
      using assms(1) by (auto simp: applyAction_def Let_def and_then_Inr eventOf_def)
    obtain s where s: "pr_source p = Some s" "openThread lib (pr_market p) ?e s w = Inr r" "db = nw_db w"
      by (rule advance_open [OF x(1) 2])
    have r: "r\<lparr>th_updatedAt := nw_now w\<rparr> = r" "th_id r = nw_uuid w"
      using s(2) by (auto simp: openThread_def Let_def respondsInTime_def outcome_Inr)
    with x(2) s(3) assms(2) have "d' = (nw_db w)\<lparr>nd_threads := nd_threads (nw_db w) @ [r]\<rparr>"
      by (auto simp: storeThread_def demand_Inr)
    with x(3) show ?thesis by (intro opened [OF 2 s(1,2)]) simp
  next
    case 3
    then obtain row r db d' where x: "rereadThread ?e (nw_db w) = Inr row" "advance lib p row w = Inr (r, db)" "storeThread (r\<lparr>th_updatedAt := nw_now w\<rparr>) db = Inr d'"
        "d = d'\<lparr>nd_events := nd_events d' @ [eventOf p w (th_id r)]\<rparr>"
      using assms(1) by (auto simp: applyAction_def Let_def and_then_Inr eventOf_def)
    have "action ?e \<noteq> ''open''" using 3 by auto
    then obtain r0 r1 where r: "row = Some r0" "stepThread lib p r0 w = Inr (r1, db)" "r = r1\<lparr>th_revision := th_revision r1 + 1\<rparr>"
      by (rule advance_step [OF x(2)])
    have r0: "getThread (nw_db w) (textOf ?e ''threadId'') = Some r0" "isParticipant r0 (signer ?e)" "th_revision r0 = intOf ?e ''revision''"
        "np_id (th_latest r0) = textOf ?e ''proposalId''" "namesThread ?e"
      using x(1) r(1) by (auto simp: rereadThread_def visible_def outcome_Inr split: if_splits option.splits)
    note same = stepThread_same [OF r(2) 3]
    have "getThread db (th_id r1) = Some r0" using same r0(1) getThreadD [OF r0(1)] by (simp add: getThread_def sameDeal_def sameParties_def)
    then have "d' = db\<lparr>nd_threads := replaceRow (r\<lparr>th_updatedAt := nw_now w\<rparr>) (nd_threads (nw_db w))\<rparr>"
      using x(3) r(3) same by (simp add: storeThread_def replaceRow_def)
    with x(4) r(3) same show ?thesis by (intro stepped [OF r0 3 r(2) refl]) simp_all
  qed
qed


section \<open>The checks that precede a transaction\<close>

lemma forward_sourceStatus: "forward (sourceStatus lib m number i x s)"
  unfolding sourceStatus_def by (intro forward_rules)

lemma forward_readSource: "forward (readSource lib m i)"
  unfolding readSource_def Let_def by (intro forward_rules forward_sourceStatus)

lemma forward_replacementReceipt: "forward (replacementReceipt m hash account input)"
  unfolding replacementReceipt_def by (intro forward_rules)

lemma forward_cancelReceipt: "forward (cancelReceipt lib m hash r)"
  unfolding cancelReceipt_def by (intro forward_rules forward_replacementReceipt)

lemma forward_checkCancelled: "forward (checkCancelled lib m e row s)"
  unfolding checkCancelled_def by (intro forward_rules forward_cancelReceipt)

lemma forward_checkBind: "forward (checkBind lib m e row s)"
  unfolding checkBind_def by (intro forward_rules forward_cancelReceipt forward_readSource forward_replacementReceipt)

lemma forward_sourceFor: "forward (sourceFor lib m e row)"
  unfolding sourceFor_def by (intro forward_rules forward_readSource)

lemmas forward_checks = forward_sourceFor forward_checkCancelled forward_checkBind forward_readSource forward_cancelReceipt
  forward_replacementReceipt forward_sourceStatus

lemma sourceStatus_keeps:
  "sourceStatus lib m number i x s w t = (Inr s', t') \<Longrightarrow>
   ns_now s' = ns_now s \<and> ns_id s' = ns_id s \<and> ns_terms s' = ns_terms s \<and> ns_lender s' = ns_lender s \<and> ns_borrower s' = ns_borrower s"
  by (auto simp: sourceStatus_def io_Inr split: if_splits)

text \<open>A source's clock is the timestamp of a block the chain served, and its terms are those of the offer.\<close>

lemma readSource_seen:
  assumes "readSource lib m (Some i) w t = (Inr s, t')"
  shows "(\<exists>t0 b. t \<le> t0 \<and> t0 < t' \<and> nw_head (w t0) = Inr b \<and> ns_now s = js_Number (nb_timestamp b)) \<and> ns_id s = i"
proof -
  from assms obtain b t0 number x i' t1 t2 where
    b: "nw_head (w t0) = Inr b" "t \<le> t0" and s: "sourceStatus lib m number i' x (sourceOf lib m i b number x) w t1 = (Inr s, t2)"
    and t: "t0 < t1" "t2 \<le> t'"
    unfolding readSource_def Let_def io_Inr option.case option.sel by clarify (rule that, assumption, simp, assumption, simp, simp)
  show ?thesis using sourceStatus_keeps [OF s] b t forwardD [OF forward_sourceStatus s]
    by (intro conjI exI [of _ t0] exI [of _ b]) (simp_all add: sourceOf_def)
qed


definition clockOf :: "(nat \<Rightarrow> neg_world) \<Rightarrow> nat \<Rightarrow> neg_source \<Rightarrow> bool" where
  "clockOf w t s \<longleftrightarrow> (\<exists>t0 b. t0 < t \<and> nw_head (w t0) = Inr b \<and> ns_now s = js_Number (nb_timestamp b))"

lemma clockOf_mono: "clockOf w t s \<Longrightarrow> t \<le> t' \<Longrightarrow> clockOf w t' s"
  unfolding clockOf_def by (meson order_less_le_trans)

lemma readSource_id: "readSource lib m i w t = (Inr s, t') \<Longrightarrow> \<exists>j. i = Some j"
  by (cases i) (auto simp: readSource_def Let_def io_Inr)

lemma sourceFor_clock:
  assumes "sourceFor lib m e row w t = (Inr (Some s), t')"
  shows "clockOf w t' s"
proof -
  obtain i t1 where r: "readSource lib m i w t = (Inr s, t1)" "t1 \<le> t'"
    using assms by (auto simp: sourceFor_def io_Inr split: if_splits)
  then show ?thesis using readSource_id [OF r(1)] readSource_seen unfolding clockOf_def by (meson order_less_le_trans)
qed

text \<open>The replacement offer as read from the chain agrees with the conversation.\<close>

definition linkedTo :: "neg_lib \<Rightarrow> (nat \<Rightarrow> neg_world) \<Rightarrow> nat \<Rightarrow> neg_source \<Rightarrow> neg_thread \<Rightarrow> bool" where
  "linkedTo lib w t x r \<longleftrightarrow> (\<exists>m t0 t1. t1 \<le> t \<and> readSource lib m (Some (ns_id x)) w t0 = (Inr x, t1))
     \<and> sameAddress (ns_lender x) (th_lender r) \<and> sameAddress (ns_borrower x) (th_borrower r)
     \<and> canonicalNegotiation (termsJson (ns_terms x)) = canonicalNegotiation (np_terms (th_latest r))"

lemma checkBind_linked:
  assumes "checkBind lib m e row s w t = (Inr (Some x), t')"
  shows "\<exists>r. row = Some r \<and> linkedTo lib w t' x r"
proof -
  have bind: "action e = ''bind''" using assms by (auto simp: checkBind_def io_Inr split: if_splits)
  then obtain r y where row: "row = Some r" "s = Some y"
    using assms by (cases row; cases s) (auto simp: checkBind_def)
  have "\<exists>i t0. readSource lib m (Some i) w t0 = (Inr x, t') \<and> sameAddress (ns_lender x) (th_lender r) \<and> sameAddress (ns_borrower x) (th_borrower r)
      \<and> canonicalNegotiation (termsJson (ns_terms x)) = canonicalNegotiation (np_terms (th_latest r))"
    using assms unfolding checkBind_def row prod.case option.case bind if_not_P [OF not_not [THEN iffD2, OF refl]] io_Inr option.inject
    by clarify (intro exI conjI; assumption)
  then show ?thesis using row(1) readSource_seen unfolding linkedTo_def by blast
qed

lemma evidenceE:
  assumes "evidence lib m e sig row w t = (Inr (Ready p), t')"
  obtains s linked where "p = \<lparr>pr_envelope = e, pr_signature = sig, pr_market = m, pr_hash = requestHash lib e sig, pr_source = s, pr_linked = linked\<rparr>"
    "\<And>x. s = Some x \<Longrightarrow> clockOf w t' x" "\<And>x. linked = Some x \<Longrightarrow> \<exists>r. row = Some r \<and> linkedTo lib w t' x r"
proof -
  obtain s linked t1 t2 u where s: "sourceFor lib m e row w t = (Inr s, t1)" and c: "checkCancelled lib m e row s w t1 = (Inr u, t2)"
      and l: "checkBind lib m e row s w t2 = (Inr linked, t')"
      and p: "p = \<lparr>pr_envelope = e, pr_signature = sig, pr_market = m, pr_hash = requestHash lib e sig, pr_source = s, pr_linked = linked\<rparr>"
    using assms unfolding evidence_def io_Inr by clarify (rule that; (assumption | simp))
  have "t1 \<le> t'" using forwardD [OF forward_checkCancelled c] forwardD [OF forward_checkBind l] by simp
  then show thesis
    using s l by (intro that [OF p]) (auto dest: sourceFor_clock checkBind_linked intro: clockOf_mono)
qed

definition verifiedBefore :: "(nat \<Rightarrow> neg_world) \<Rightarrow> nat \<Rightarrow> json \<Rightarrow> string \<Rightarrow> bool" where
  "verifiedBefore w t e sig \<longleftrightarrow> (\<exists>t0 < t. nw_verify (w t0) (signer e) (canonicalNegotiation e) sig = Inr True)"

lemma checkedE:
  assumes "submitChecks lib su e signature w t = (Inr (Ready p), t')"
  obtains row t0 where "pr_envelope p = e" "verifiedBefore w t' e (pr_signature p)" "t0 < t'" "currentThread (pr_market p) e (nw_db (w t0)) = Inr row"
    "pr_hash p = requestHash lib e (pr_signature p)" "\<And>x. pr_source p = Some x \<Longrightarrow> clockOf w t' x"
    "\<And>x. pr_linked p = Some x \<Longrightarrow> \<exists>r. row = Some r \<and> linkedTo lib w t' x r"
proof -
  obtain m sig t1 t2 where v: "nw_verify (w t1) (signer e) (canonicalNegotiation e) sig = Inr True"
      and t2: "t2 = Suc t1"
      and k: "(case nonceOf (nw_db (w t2)) (nonceKey e) of
         Some prior \<Rightarrow> ioDemand (nn_hash prior = requestHash lib e sig) ''Nonce already used for different terms.'' (ioReturn (Repeated (nn_result prior)))
       | None \<Rightarrow> ioBind (ioLift (currentThread m e (nw_db (w t2)))) (evidence lib m e sig)) w (Suc t2) = (Inr (Ready p), t')"
    using assms unfolding submitChecks_def ioBind_Inr ioDemand_Inr ioRead_Inr clock_def ioLift_Inr
    by clarify (rule that [OF _ refl], simp_all only: Suc_eq_plus1)
  obtain row where row: "currentThread m e (nw_db (w t2)) = Inr row" and ev: "evidence lib m e sig row w (Suc t2) = (Inr (Ready p), t')"
    using k by (auto simp: io_Inr split: option.splits)
  from ev have le: "Suc t2 \<le> t'" unfolding evidence_def by (rule forwardD [rotated]) (intro forward_rules forward_checks)
  show thesis
  proof (rule evidenceE [OF ev], rule that [of t2 row])
    show "verifiedBefore w t' e (pr_signature p)" if "p = \<lparr>pr_envelope = e, pr_signature = sig, pr_market = m,
        pr_hash = requestHash lib e sig, pr_source = s, pr_linked = linked\<rparr>" for s linked
      using v t2 le that unfolding verifiedBefore_def by (intro exI [of _ t1]) simp
  qed (use t2 row le in auto)
qed

end
