(* ===== verification/Negotiation_History.thy ===== *)
theory Negotiation_History
  imports Negotiation_Run
begin

text \<open>
  The negotiation service over a whole history (\<open>serves\<close>): conversations only change with a new
  revision, they follow an abstract protocol, an agreed one carries both parties' verified
  signatures on the same terms, an offer has at most one replacement under way, and a
  repeated request changes nothing.
\<close>

section \<open>Histories\<close>

text \<open>
  At each instant at most one transaction commits, of an action whose checks ended earlier. The clock does
  not go back, and \<open>randomUUID\<close> does not repeat the id of a stored conversation.
\<close>

definition committed :: "neg_lib \<Rightarrow> neg_setup \<Rightarrow> (nat \<Rightarrow> neg_world) \<Rightarrow> nat \<Rightarrow> neg_prepared \<Rightarrow> neg_result \<Rightarrow> bool" where
  "committed lib su w t p result \<longleftrightarrow>
     (\<exists>e signature t0 t1. submitChecks lib su e signature w t0 = (Inr (Ready p), t1) \<and> t1 \<le> t)
     \<and> commit lib su p (w t) = Inr (result, nw_db (w (Suc t)))"

definition serves :: "neg_lib \<Rightarrow> neg_setup \<Rightarrow> (nat \<Rightarrow> neg_world) \<Rightarrow> bool" where
  "serves lib su w \<longleftrightarrow> nw_db (w 0) = emptyNegotiations \<and> (\<forall>t. nw_now (w t) \<le> nw_now (w (Suc t)))
     \<and> (\<forall>t. getThread (nw_db (w t)) (nw_uuid (w t)) = None)
     \<and> (\<forall>t. nw_db (w (Suc t)) = nw_db (w t) \<or> (\<exists>p result. committed lib su w t p result))"

abbreviation rowAt :: "(nat \<Rightarrow> neg_world) \<Rightarrow> nat \<Rightarrow> string \<Rightarrow> neg_thread option" where
  "rowAt w t i \<equiv> getThread (nw_db (w t)) i"

lemma getThread_cong: "nd_threads db = nd_threads db' \<Longrightarrow> getThread db i = getThread db' i"
  by (simp add: getThread_def)

lemma find_snoc: "find p (xs @ [x]) = (case find p xs of Some y \<Rightarrow> Some y | None \<Rightarrow> if p x then Some x else None)"
  by (induction xs) simp_all

lemma getThread_append:
  "getThread db (th_id r) = None \<Longrightarrow> nd_threads db' = nd_threads db @ [r] \<Longrightarrow> getThread db' i = (if i = th_id r then Some r else getThread db i)"
  by (auto simp: getThread_def find_snoc split: option.split)

lemma find_replaceRow: "find (\<lambda>x. th_id x = i) (replaceRow r rows) =
    (if i = th_id r \<and> find (\<lambda>x. th_id x = i) rows \<noteq> None then Some r else find (\<lambda>x. th_id x = i) rows)"
  by (induction rows) (auto simp: replaceRow_def)

lemma getThread_replace:
  "getThread db (th_id r) = Some r0 \<Longrightarrow> nd_threads db' = replaceRow r (nd_threads db) \<Longrightarrow> getThread db' i = (if i = th_id r then Some r else getThread db i)"
  by (simp add: getThread_def find_replaceRow)

text \<open>One instant: nothing, a new conversation, or a step of one.\<close>

lemma servesE:
  assumes "serves lib su w"
  obtains (same) "nd_threads (nw_db (w (Suc t))) = nd_threads (nw_db (w t))" "nd_events (nw_db (w (Suc t))) = nd_events (nw_db (w t))"
      "nd_selections (nw_db (w (Suc t))) = nd_selections (nw_db (w t))"
    | (opened) p s r where "action (pr_envelope p) = ''open''" "pr_source p = Some s" "openThread lib (pr_market p) (pr_envelope p) s (w t) = Inr r"
      "nd_threads (nw_db (w (Suc t))) = nd_threads (nw_db (w t)) @ [r]" "nd_events (nw_db (w (Suc t))) = nd_events (nw_db (w t)) @ [eventOf p (w t) (th_id r)]"
      "nd_selections (nw_db (w (Suc t))) = nd_selections (nw_db (w t))" "rowAt w t (th_id r) = None" "verifiedBefore w t (pr_envelope p) (pr_signature p)"
      "nonceOf (nw_db (w t)) (nonceKey (pr_envelope p)) = None" "nonceOf (nw_db (w (Suc t))) (nonceKey (pr_envelope p)) \<noteq> None"
    | (stepped) p r0 r1 r db row u where "rowAt w t (th_id r) = Some r0" "isParticipant r0 (signer (pr_envelope p))"
      "th_revision r0 = intOf (pr_envelope p) ''revision''" "th_id r = textOf (pr_envelope p) ''threadId''"
      "action (pr_envelope p) \<in> {''counter'', ''agree'', ''close'', ''start'', ''cancelled'', ''prepare'', ''bind''}"
      "stepThread lib p r0 (w t) = Inr (r1, db)" "r = r1\<lparr>th_revision := th_revision r1 + 1, th_updatedAt := nw_now (w t)\<rparr>" "th_id r1 = th_id r0"
      "nd_threads (nw_db (w (Suc t))) = replaceRow r (nd_threads (nw_db (w t)))" "nd_events (nw_db (w (Suc t))) = nd_events (nw_db (w t)) @ [eventOf p (w t) (th_id r)]"
      "nd_selections (nw_db (w (Suc t))) = nd_selections db" "verifiedBefore w t (pr_envelope p) (pr_signature p)"
      "u \<le> t" "currentThread (pr_market p) (pr_envelope p) (nw_db (w u)) = Inr (Some row)"
      "\<And>x. pr_source p = Some x \<Longrightarrow> clockOf w t x" "\<And>x. pr_linked p = Some x \<Longrightarrow> linkedTo lib w t x row"
      "nonceOf (nw_db (w t)) (nonceKey (pr_envelope p)) = None" "nonceOf (nw_db (w (Suc t))) (nonceKey (pr_envelope p)) \<noteq> None"
proof -
  have fresh: "rowAt w t (nw_uuid (w t)) = None" using assms by (simp add: serves_def)
  consider "nw_db (w (Suc t)) = nw_db (w t)" | p result where "committed lib su w t p result"
    using assms unfolding serves_def by blast
  then show thesis
  proof cases
    case (2 p result)
    then obtain e sg t1 t2 where sc: "submitChecks lib su e sg w t1 = (Inr (Ready p), t2)" "t2 \<le> t"
        and cm: "commit lib su p (w t) = Inr (result, nw_db (w (Suc t)))" by (auto simp: committed_def)
    obtain row t0 where chk: "pr_envelope p = e" "verifiedBefore w t2 e (pr_signature p)" "t0 < t2"
        "currentThread (pr_market p) e (nw_db (w t0)) = Inr row" "\<And>x. pr_source p = Some x \<Longrightarrow> clockOf w t2 x"
        "\<And>x. pr_linked p = Some x \<Longrightarrow> \<exists>r. row = Some r \<and> linkedTo lib w t2 x r"
      using checkedE [OF sc(1)] by metis
    have ver: "verifiedBefore w t (pr_envelope p) (pr_signature p)"
      using chk(1,2) sc(2) unfolding verifiedBefore_def by (meson order_less_le_trans)
    show ?thesis
    proof (cases rule: commitE [OF cm])
      case 1
      then show ?thesis by (intro same) simp_all
    next
      case (2 d m)
      note ap = 2(1) and new = 2(2) and db = 2(3) and ck = 2(4)
      have kept: "nonceOf (nw_db (w (Suc t))) (nonceKey (pr_envelope p)) \<noteq> None" by (simp add: nonceOf_def db map_add_def split: option.split)
      show ?thesis
      proof (cases rule: applyE [OF ap fresh ck])
        case 1
        then show ?thesis using db by (intro same) simp_all
      next
        case (2 s r)
        have "th_id r = nw_uuid (w t)" using 2(3) by (auto simp: openThread_def Let_def respondsInTime_def outcome_Inr)
        then show ?thesis using 2(4) db fresh by (intro opened [OF 2(1-3) _ _ _ _ ver new kept]) simp_all
      next
        case (3 r0 r1 r db')
        note same1 = stepThread_same [OF 3(7) 3(6)]
        have ids: "th_id r1 = th_id r0" "th_id r0 = textOf (pr_envelope p) ''threadId''"
          using same1 getThreadD [OF 3(1)] by (auto simp: sameDeal_def sameParties_def)
        obtain row' where row': "row = Some row'" using chk(1,4) 3(5) by (auto simp: currentThread_def and_then_Inr demand_Inr)
        show ?thesis
        proof (rule stepped [OF _ 3(2,3) _ 3(6,7,8) ids(1) _ _ _ ver _ _ _ _ new kept, where u = t0 and row = row'])
          show "linkedTo lib w t x row'" if "pr_linked p = Some x" for x
            using chk(6) [OF that] row' sc(2) unfolding linkedTo_def by (auto intro: le_trans)
        qed (use 3 ids same1 db chk sc(2) row' clockOf_mono in \<open>auto simp: less_imp_le order_less_le_trans\<close>)
      qed
    qed
  qed (auto intro: same)
qed

section \<open>Revisions\<close>

lemma revision_step:
  assumes "serves lib su w" and "rowAt w t i = Some r"
  obtains r' where "rowAt w (Suc t) i = Some r'" "r' = r \<or> th_revision r' = th_revision r + 1"
proof (cases rule: servesE [OF assms(1), of t])
  case 1
  then show ?thesis using assms(2) that getThread_cong by metis
next
  case (2 p s r2)
  have "i \<noteq> th_id r2" using 2(7) assms(2) by auto
  then show ?thesis using that assms(2) getThread_append [OF 2(7,4)] by simp
next
  case (3 p r0 r1 r2 db row u)
  note get = getThread_replace [OF 3(1,9)]
  show ?thesis
  proof (cases "i = th_id r2")
    case True
    have "th_revision r2 = th_revision r0 + 1" using stepThread_same [OF 3(6,5)] 3(7) by (simp add: sameDeal_def sameParties_def)
    then show ?thesis using that get True assms(2) 3(1) by auto
  next
    case False
    then show ?thesis using that get assms(2) by simp
  qed
qed

lemma revision_history:
  assumes "serves lib su w" and "rowAt w t i = Some r"
  shows "t \<le> t' \<Longrightarrow> \<exists>r'. rowAt w t' i = Some r' \<and> th_revision r \<le> th_revision r' \<and> (th_revision r' = th_revision r \<longrightarrow> r' = r)"
proof (induction t' rule: dec_induct)
  case base
  then show ?case using assms(2) by simp
next
  case (step n)
  then obtain r' where r': "rowAt w n i = Some r'" "th_revision r \<le> th_revision r'" "th_revision r' = th_revision r \<longrightarrow> r' = r" by auto
  then show ?case by (rule_tac revision_step [OF assms(1) r'(1)]) auto
qed

text \<open>So the conversation that was checked is the one that is changed.\<close>

lemma checked_is_current:
  assumes "serves lib su w" and "currentThread m e (nw_db (w u)) = Inr (Some row)" and "u \<le> t"
    and "rowAt w t (textOf e ''threadId'') = Some r0" and "th_revision r0 = intOf e ''revision''"
  shows "row = r0 \<and> canonicalNegotiation (contextOf e) = canonicalNegotiation (contextJson r0)"
proof -
  have row: "rowAt w u (textOf e ''threadId'') = Some row" "th_revision row = intOf e ''revision''"
      "canonicalNegotiation (contextOf e) = canonicalNegotiation (contextJson row)"
    using assms(2) by (auto simp: currentThread_def visible_def outcome_Inr split: if_splits option.splits)
  show ?thesis using revision_history [OF assms(1) row(1) assms(3)] row assms(4,5) by auto
qed

section \<open>Signed agreements\<close>

definition proposedBy :: "neg_db \<Rightarrow> neg_thread \<Rightarrow> neg_event \<Rightarrow> bool" where
  "proposedBy db r ev \<longleftrightarrow> ev \<in> set (nd_events db) \<and> ne_thread ev = th_id r \<and> action (ne_envelope ev) \<in> {''open'', ''counter''}
     \<and> signer (ne_envelope ev) = np_author (th_latest r) \<and> envelopeTerms (ne_envelope ev) = np_terms (th_latest r)
     \<and> j_field (ne_envelope ev) ''responseBy'' = np_responseBy (th_latest r)"

definition agreedIn :: "neg_db \<Rightarrow> neg_thread \<Rightarrow> neg_event \<Rightarrow> bool" where
  "agreedIn db r ev \<longleftrightarrow> ev \<in> set (nd_events db) \<and> ne_thread ev = th_id r \<and> action (ne_envelope ev) = ''agree''
     \<and> th_agreedBy r = Some (signer (ne_envelope ev)) \<and> isParticipant r (signer (ne_envelope ev))
     \<and> \<not> sameAddress (np_author (th_latest r)) (signer (ne_envelope ev))
     \<and> canonicalNegotiation (contextOf (ne_envelope ev)) = canonicalNegotiation (contextJson r)"

definition backed :: "neg_lib \<Rightarrow> (nat \<Rightarrow> neg_world) \<Rightarrow> nat \<Rightarrow> neg_thread \<Rightarrow> bool" where
  "backed lib w t r \<longleftrightarrow> \<not> sameAddress (th_lender r) (th_borrower r) \<and> isParticipant r (np_author (th_latest r))
     \<and> (\<exists>ev. proposedBy (nw_db (w t)) r ev)
     \<and> (th_state r \<in> insert N_agreed started \<longrightarrow> (\<exists>ev. agreedIn (nw_db (w t)) r ev))
     \<and> (th_state r = N_funded \<longrightarrow> (\<exists>x. map_option nr_id (th_replacement r) = Some (ns_id x) \<and> linkedTo lib w t x r))"

lemma proposedBy_mono: "proposedBy db r ev \<Longrightarrow> set (nd_events db) \<subseteq> set (nd_events db') \<Longrightarrow>
    th_id r' = th_id r \<Longrightarrow> th_latest r' = th_latest r \<Longrightarrow> proposedBy db' r' ev"
  by (auto simp: proposedBy_def)

lemma agreedIn_mono: "agreedIn db r ev \<Longrightarrow> set (nd_events db) \<subseteq> set (nd_events db') \<Longrightarrow>
    sameParties r r' \<Longrightarrow> th_latest r' = th_latest r \<Longrightarrow> th_agreedBy r' = th_agreedBy r \<Longrightarrow> agreedIn db' r' ev"
  by (auto simp: agreedIn_def sameParties_def isParticipant_def contextJson_def)

lemma linkedTo_mono: "linkedTo lib w t x r \<Longrightarrow> t \<le> t' \<Longrightarrow> sameParties r r' \<Longrightarrow> th_latest r' = th_latest r \<Longrightarrow> linkedTo lib w t' x r'"
  unfolding linkedTo_def sameParties_def by (metis le_trans)

lemma sameParties_refl [simp]: "sameParties r r"
  by (simp add: sameParties_def)

lemma backed_later:
  assumes "backed lib w t r" and "set (nd_events (nw_db (w t))) \<subseteq> set (nd_events (nw_db (w (Suc t))))"
  shows "backed lib w (Suc t) r"
  using assms unfolding backed_def by (auto 4 4 intro: proposedBy_mono agreedIn_mono linkedTo_mono)

lemma opened_backed:
  assumes "openThread lib m (pr_envelope p) s (w t) = Inr r" and "action (pr_envelope p) = ''open''"
    and "nd_events (nw_db (w (Suc t))) = nd_events (nw_db (w t)) @ [eventOf p (w t) (th_id r)]"
  shows "backed lib w (Suc t) r"
proof -
  have r: "th_lender r = ns_lender s" "th_borrower r = signer (pr_envelope p)" "th_state r = N_open"
      "th_latest r = newProposal (w t) (pr_envelope p)" "\<not> sameAddress (ns_lender s) (signer (pr_envelope p))"
    using assms(1) by (auto simp: openThread_def Let_def respondsInTime_def outcome_Inr)
  have "proposedBy (nw_db (w (Suc t))) r (eventOf p (w t) (th_id r))"
    using assms(2,3) r by (simp add: proposedBy_def eventOf_def newProposal_def)
  then show ?thesis using r by (auto simp: backed_def isParticipant_def newProposal_def started_def)
qed


lemma stepped_backed:
  assumes old: "backed lib w t r0" and get: "th_id r1 = th_id r0" and step: "stepThread lib p r0 (w t) = Inr (r1, db)"
    and act: "action (pr_envelope p) \<in> {''counter'', ''agree'', ''close'', ''start'', ''cancelled'', ''prepare'', ''bind''}"
    and r: "r = r1\<lparr>th_revision := th_revision r1 + 1, th_updatedAt := nw_now (w t)\<rparr>"
    and ev: "nd_events (nw_db (w (Suc t))) = nd_events (nw_db (w t)) @ [eventOf p (w t) (th_id r)]"
    and part: "isParticipant r0 (signer (pr_envelope p))" and linked: "\<And>x. pr_linked p = Some x \<Longrightarrow> linkedTo lib w t x r0"
    and ctx: "canonicalNegotiation (contextOf (pr_envelope p)) = canonicalNegotiation (contextJson r0)"
  shows "backed lib w (Suc t) r"
proof -
  have sub: "set (nd_events (nw_db (w t))) \<subseteq> set (nd_events (nw_db (w (Suc t))))" using ev by auto
  have same: "sameParties r0 r" using stepThread_same [OF step act] r by (simp add: sameDeal_def sameParties_def)
  then have parties: "th_lender r = th_lender r0" "th_borrower r = th_borrower r0" "th_id r = th_id r0"
    by (simp_all add: sameParties_def)
  have distinct: "\<not> sameAddress (th_lender r) (th_borrower r)" using old parties by (simp add: backed_def)
  note keep = proposedBy_mono [OF _ sub parties(3)] agreedIn_mono [OF _ sub same] linkedTo_mono [OF _ _ same]
  from step act show ?thesis
  proof (cases rule: stepThreadE)
    case close
    then show ?thesis using old distinct parties r keep unfolding backed_def by (auto simp: isParticipant_def started_def)
  next
    case (counter s)
    then have "proposedBy (nw_db (w (Suc t))) r (eventOf p (w t) (th_id r))"
      using ev r by (simp add: proposedBy_def eventOf_def newProposal_def)
    then show ?thesis using counter part distinct parties r by (auto simp: backed_def isParticipant_def newProposal_def started_def)
  next
    case (agree s)
    then have "agreedIn (nw_db (w (Suc t))) r (eventOf p (w t) (th_id r))"
      using ev r part ctx by (simp add: agreedIn_def eventOf_def isParticipant_def contextJson_def)
    then show ?thesis using agree old distinct parties r keep(1) unfolding backed_def by (auto simp: isParticipant_def)
  next
    case (replace s)
    note kept = replaceThread_same [OF replace(3,1)]
    then have latest: "th_latest r = th_latest r0" "th_agreedBy r = th_agreedBy r0" using r by simp_all
    have state: "th_state r0 \<in> insert N_agreed started"
      using replace(3,1) by (cases rule: replaceE) (auto simp: started_def)
    have funded: "\<exists>x. map_option nr_id (th_replacement r) = Some (ns_id x) \<and> linkedTo lib w (Suc t) x r" if "th_state r = N_funded"
      using replace(3,1)
    proof (cases rule: replaceE)
      case (bind x)
      then show ?thesis using linked [of x] r keep(3) [OF _ _ latest(1)] by (intro exI [of _ x]) simp
    qed (use that r in simp_all)
    show ?thesis
      using old state distinct funded latest parties keep(1) [OF _ latest(1)] keep(2) [OF _ latest]
      unfolding backed_def by (auto simp: isParticipant_def)
  qed
qed

lemma always_backed: "serves lib su w \<Longrightarrow> rowAt w t i = Some r \<Longrightarrow> backed lib w t r"
proof (induction t arbitrary: i r)
  case 0
  then show ?case by (simp add: serves_def emptyNegotiations_def getThread_def)
next
  case (Suc t)
  show ?case
  proof (cases rule: servesE [OF Suc.prems(1), of t])
    case 1
    then show ?thesis using Suc getThread_cong [OF 1(1)] by (metis backed_later order_refl)
  next
    case (2 p s r2)
    note get = getThread_append [OF 2(7,4)]
    show ?thesis
    proof (cases "i = th_id r2")
      case True
      then show ?thesis using opened_backed [OF 2(3,1,5)] get Suc.prems(2) by simp
    next
      case False
      then have "backed lib w t r" using Suc get by simp
      then show ?thesis using backed_later 2(5) by (metis set_append sup_ge1)
    qed
  next
    case (3 p r0 r1 r2 db row u)
    note get = getThread_replace [OF 3(1,9)]
    show ?thesis
    proof (cases "i = th_id r2")
      case True
      have row: "row = r0 \<and> canonicalNegotiation (contextOf (pr_envelope p)) = canonicalNegotiation (contextJson r0)"
        using checked_is_current [OF Suc.prems(1) 3(14,13) _ 3(3)] 3(1,4) by simp
      have "backed lib w (Suc t) r2"
        by (rule stepped_backed [OF Suc.IH [OF Suc.prems(1) 3(1)] 3(8,6,5,7,10,2)]) (use row 3(16) in auto)
      then show ?thesis using True get Suc.prems(2) by simp
    next
      case False
      then have "backed lib w t r" using Suc get by simp
      then show ?thesis using backed_later 3(10) by (metis set_append sup_ge1)
    qed
  qed
qed


text \<open>Every stored envelope was signed, as verified before it was stored.\<close>

lemma verifiedBefore_mono: "verifiedBefore w t e sig \<Longrightarrow> t \<le> t' \<Longrightarrow> verifiedBefore w t' e sig"
  unfolding verifiedBefore_def by (meson order_less_le_trans)

lemma events_verified: "serves lib su w \<Longrightarrow> ev \<in> set (nd_events (nw_db (w t))) \<Longrightarrow> verifiedBefore w t (ne_envelope ev) (ne_signature ev)"
proof (induction t)
  case 0
  then show ?case by (simp add: serves_def emptyNegotiations_def)
next
  case (Suc t)
  then have old: "ev' \<in> set (nd_events (nw_db (w t))) \<Longrightarrow> verifiedBefore w (Suc t) (ne_envelope ev) (ne_signature ev)" if "ev' = ev" for ev'
    using that by (blast intro: verifiedBefore_mono le_SucI)
  show ?case
  proof (cases rule: servesE [OF Suc.prems(1), of t])
    case 1
    then show ?thesis using old Suc.prems(2) by simp
  next
    case (2 p s r2)
    then show ?thesis using old Suc.prems(2) verifiedBefore_mono [OF 2(8)] by (auto simp: eventOf_def)
  next
    case (3 p r0 r1 r2 db row u)
    then show ?thesis using old Suc.prems(2) verifiedBefore_mono [OF 3(12)] by (auto simp: eventOf_def)
  qed
qed

section \<open>One replacement per offer\<close>

text \<open>What the selection of an offer says of its conversations.\<close>

definition selectionsOk :: "neg_lib \<Rightarrow> (nat \<Rightarrow> neg_world) \<Rightarrow> nat \<Rightarrow> bool" where
  "selectionsOk lib w t \<longleftrightarrow> (\<forall>i r. rowAt w t i = Some r \<and> (th_state r \<in> started \<or> th_state r = N_agreed \<and> \<not> jsAtMost lib (np_responseBy (th_latest r)) (nw_now (w t)))
     \<longrightarrow> nd_selections (nw_db (w t)) (th_sourceKey r) = Some i)"

text \<open>No block is from the server's future.\<close>

definition chainBehind :: "(nat \<Rightarrow> neg_world) \<Rightarrow> bool" where
  "chainBehind w \<longleftrightarrow> (\<forall>t b. nw_head (w t) = Inr b \<longrightarrow> js_Number (nb_timestamp b) \<le> nw_now (w t))"

lemma clock_mono: "serves lib su w \<Longrightarrow> t \<le> t' \<Longrightarrow> nw_now (w t) \<le> nw_now (w t')"
  by (rule lift_Suc_mono_le [of "\<lambda>t. nw_now (w t)"]) (simp_all add: serves_def)

lemma clockOf_le: "serves lib su w \<Longrightarrow> chainBehind w \<Longrightarrow> clockOf w t s \<Longrightarrow> ns_now s \<le> nw_now (w t)"
  unfolding clockOf_def chainBehind_def by (metis clock_mono less_imp_le order_trans)

lemma selectionsOkD:
  "selectionsOk lib w t \<Longrightarrow> rowAt w t i = Some r \<Longrightarrow> th_state r \<in> started \<or> th_state r = N_agreed \<and> \<not> jsAtMost lib (np_responseBy (th_latest r)) (nw_now (w t)) \<Longrightarrow>
   nd_selections (nw_db (w t)) (th_sourceKey r) = Some i"
  by (simp add: selectionsOk_def)

text \<open>Another conversation keeps its selection when one takes a step.\<close>

lemma other_selected:
  assumes "selectionsOk lib w t" and "stepThread lib p r0 (w t) = Inr (r1, db)"
    and "action (pr_envelope p) \<in> {''counter'', ''agree'', ''close'', ''start'', ''cancelled'', ''prepare'', ''bind''}"
    and "rowAt w t i = Some r" and "i \<noteq> th_id r0" and "\<And>s. pr_source p = Some s \<Longrightarrow> ns_now s \<le> nw_now (w t)"
    and "th_state r \<in> started \<or> th_state r = N_agreed \<and> \<not> jsAtMost lib (np_responseBy (th_latest r)) (nw_now (w t))"
  shows "nd_selections db (th_sourceKey r) = Some i"
proof -
  note sel = selectionsOkD [OF assms(1,4,7)]
  from assms(2,3) show ?thesis
  proof (cases rule: stepThreadE)
    case close
    then show ?thesis using sel assms(5) by (simp add: deleteSelections_def)
  next
    case (counter s)
    then show ?thesis using sel by simp
  next
    case (agree s)
    have late: "\<not> gaveWay lib (nw_db (w t)) (max (nw_now (w t)) (ns_now s)) i"
      using assms(4,7) assms(6) [OF agree(2)] by (auto simp: gaveWay_def started_def)
    have "th_sourceKey r \<noteq> th_sourceKey r0"
      using agree(6) sel assms(5) late by (auto simp: claimSelection_def demand_Inr split: if_splits)
    then show ?thesis using claimSelection_tables [OF agree(6)] sel by simp
  next
    case (replace s)
    then show ?thesis using sel by simp
  qed
qed

lemma own_selected:
  assumes "selectionsOk lib w t" and "stepThread lib p r0 (w t) = Inr (r1, db)" and "rowAt w t (th_id r0) = Some r0"
    and "action (pr_envelope p) \<in> {''counter'', ''agree'', ''close'', ''start'', ''cancelled'', ''prepare'', ''bind''}"
    and "th_state r1 \<in> insert N_agreed started"
  shows "nd_selections db (th_sourceKey r0) = Some (th_id r0)"
  using assms(2,4)
proof (cases rule: stepThreadE)
  case (agree s)
  then show ?thesis using claimSelection_tables by simp
next
  case (replace s)
  have "th_state r0 \<in> started \<or> th_state r0 = N_agreed \<and> \<not> jsAtMost lib (np_responseBy (th_latest r0)) (nw_now (w t))"
    using replace(3,1) by (cases rule: replaceE) (auto simp: started_def dest: jsAtMost_mono [OF _ max.cobounded1])
  then show ?thesis using selectionsOkD [OF assms(1,3)] replace(4) by simp
qed (use assms(5) in \<open>auto simp: started_def\<close>)

lemma always_selected: "serves lib su w \<Longrightarrow> chainBehind w \<Longrightarrow> selectionsOk lib w t"
proof (induction t)
  case 0
  then show ?case by (simp add: serves_def emptyNegotiations_def getThread_def selectionsOk_def)
next
  case (Suc t)
  then have ok: "selectionsOk lib w t" by simp
  have le: "nw_now (w t) \<le> nw_now (w (Suc t))" using Suc.prems(1) by (simp add: serves_def)
  show ?case
    unfolding selectionsOk_def
  proof (intro allI impI, elim conjE)
    fix i r
    assume r: "rowAt w (Suc t) i = Some r"
      and live: "th_state r \<in> started \<or> th_state r = N_agreed \<and> \<not> jsAtMost lib (np_responseBy (th_latest r)) (nw_now (w (Suc t)))"
    then have live': "th_state r \<in> started \<or> th_state r = N_agreed \<and> \<not> jsAtMost lib (np_responseBy (th_latest r)) (nw_now (w t))" using le by (auto dest: jsAtMost_mono)
    show "nd_selections (nw_db (w (Suc t))) (th_sourceKey r) = Some i"
    proof (cases rule: servesE [OF Suc.prems(1), of t])
      case 1
      then show ?thesis using selectionsOkD [OF ok _ live'] r getThread_cong [OF 1(1)] by simp
    next
      case (2 p s r2)
      note get = getThread_append [OF 2(7,4)]
      have "th_state r2 = N_open" using 2(3) by (auto simp: openThread_def Let_def respondsInTime_def outcome_Inr)
      then have "i \<noteq> th_id r2" using live get r by (auto simp: started_def)
      then show ?thesis using selectionsOkD [OF ok _ live'] r get 2(6) by simp
    next
      case (3 p r0 r1 r2 db row u)
      note get = getThread_replace [OF 3(1,9)]
      have id0: "th_id r0 = th_id r2" using 3(7,8) by simp
      show ?thesis
      proof (cases "i = th_id r2")
        case True
        have "r = r2" using True get r by simp
        then have "nd_selections db (th_sourceKey r0) = Some (th_id r0)"
          using own_selected [OF ok 3(6) _ 3(5)] 3(1,7) live id0 by auto
        then show ?thesis using 3(11,7) stepThread_same [OF 3(6,5)] \<open>r = r2\<close> True id0 by (simp add: sameDeal_def sameParties_def)
      next
        case False
        have "nd_selections db (th_sourceKey r) = Some i"
          by (rule other_selected [OF ok 3(6,5) _ _ _ live']) (use False get r id0 3(15) clockOf_le [OF Suc.prems] in auto)
        then show ?thesis using 3(11) by simp
      qed
    qed
  qed
qed


section \<open>Repeated requests\<close>

lemma committedE:
  assumes "serves lib su w" and "committed lib su w t p result"
  obtains (repeated) nn where "nw_db (w (Suc t)) = nw_db (w t)" "nonceOf (nw_db (w t)) (nonceKey (pr_envelope p)) = Some nn"
      "nn_hash nn = pr_hash p" "result = nn_result nn"
    | (applied) "nonceOf (nw_db (w t)) (nonceKey (pr_envelope p)) = None"
      "nd_nonces (nw_db (w (Suc t))) = nd_nonces (nw_db (w t)) @ [(nonceKey (pr_envelope p), \<lparr>nn_hash = pr_hash p, nn_result = result, nn_at = nw_now (w t)\<rparr>)]"
proof -
  have cm: "commit lib su p (w t) = Inr (result, nw_db (w (Suc t)))" using assms(2) by (simp add: committed_def)
  have fresh: "rowAt w t (nw_uuid (w t)) = None" using assms(1) by (simp add: serves_def)
  show thesis
  proof (cases rule: commitE [OF cm])
    case (1 nn m)
    then show ?thesis by (intro repeated) simp_all
  next
    case (2 d m)
    have "nd_nonces d = nd_nonces (nw_db (w t))"
    proof (cases rule: applyE [OF 2(1) fresh 2(4)])
      case (3 r0 r1 r db')
      then show ?thesis using stepThread_same [OF 3(7,6)] by simp
    qed simp_all
    then show ?thesis using 2(2,3) by (intro applied) simp_all
  qed
qed

lemma nonce_stays: "t \<le> t' \<Longrightarrow> serves lib su w \<Longrightarrow> nonceOf (nw_db (w t)) k = Some nn \<Longrightarrow> nonceOf (nw_db (w t')) k = Some nn"
proof (induction t' rule: dec_induct)
  case (step n)
  then consider "nw_db (w (Suc n)) = nw_db (w n)" | p result where "committed lib su w n p result"
    unfolding serves_def by blast
  then show ?case
  proof cases
    case (2 p result)
    show ?thesis using step.IH step.prems
      by (cases rule: committedE [OF step.prems(1) 2]) (auto simp: nonceOf_def map_add_def)
  qed (use step in simp)
qed

lemma commit_stored:
  assumes "nonceOf (nw_db w) (nonceKey (pr_envelope p)) = Some nn" and "commit lib su p w = Inr (x, db)"
  shows "x = nn_result nn \<and> db = nw_db w \<and> nn_hash nn = pr_hash p"
  by (rule commitE [OF assms(2)]) (use assms(1) in auto)

lemma events_once: "serves lib su w \<Longrightarrow> distinct (map (\<lambda>ev. nonceKey (ne_envelope ev)) (nd_events (nw_db (w t))))
   \<and> (\<forall>ev \<in> set (nd_events (nw_db (w t))). nonceOf (nw_db (w t)) (nonceKey (ne_envelope ev)) \<noteq> None)"
proof (induction t)
  case 0
  then show ?case by (simp add: serves_def emptyNegotiations_def)
next
  case (Suc t)
  have stay: "nonceOf (nw_db (w (Suc t))) k \<noteq> None" if "nonceOf (nw_db (w t)) k \<noteq> None" for k
    using nonce_stays [OF le_SucI [OF order_refl] Suc.prems] that by blast
  show ?case
  proof (cases rule: servesE [OF Suc.prems, of t])
    case 1
    then show ?thesis using Suc stay by simp
  next
    case (2 p s r2)
    then show ?thesis using Suc stay by (auto simp: eventOf_def)
  next
    case (3 p r0 r1 r2 db row u)
    then show ?thesis using Suc stay by (auto simp: eventOf_def)
  qed
qed

section \<open>The protocol\<close>

text \<open>
  What a conversation promises, without tables, clocks and evidence: a proposal is open until the other party agrees; from
  then on its terms are fixed, and only the lender leads it through the replacement.
\<close>

record neg_deal =
  dl_phase :: neg_state
  dl_lender :: string
  dl_borrower :: string
  dl_author :: string
  dl_terms :: json

definition dealOf :: "neg_thread \<Rightarrow> neg_deal" where
  "dealOf r = \<lparr>dl_phase = th_state r, dl_lender = th_lender r, dl_borrower = th_borrower r,
     dl_author = np_author (th_latest r), dl_terms = np_terms (th_latest r)\<rparr>"

definition partyOf :: "neg_deal \<Rightarrow> string \<Rightarrow> bool" where
  "partyOf d a \<longleftrightarrow> sameAddress (dl_borrower d) a \<or> sameAddress (dl_lender d) a"

text \<open>A signed event as the protocol sees it: the action, who signed it and the terms it names.\<close>

type_synonym neg_label = "string \<times> string \<times> json"

definition labelOf :: "neg_event \<Rightarrow> neg_label" where
  "labelOf ev = (action (ne_envelope ev), signer (ne_envelope ev), envelopeTerms (ne_envelope ev))"

inductive protocolStep :: "neg_label \<Rightarrow> neg_deal \<Rightarrow> neg_deal \<Rightarrow> bool" where
  counters: "dl_phase d = N_open \<Longrightarrow> partyOf d a \<Longrightarrow> protocolStep (''counter'', a, terms) d (d\<lparr>dl_author := a, dl_terms := terms\<rparr>)"
| agrees: "dl_phase d = N_open \<Longrightarrow> partyOf d a \<Longrightarrow> \<not> sameAddress (dl_author d) a \<Longrightarrow> protocolStep (''agree'', a, terms) d (d\<lparr>dl_phase := N_agreed\<rparr>)"
| closes: "dl_phase d \<in> {N_open, N_agreed, N_closed} \<Longrightarrow> partyOf d a \<Longrightarrow> protocolStep (''close'', a, terms) d (d\<lparr>dl_phase := N_closed\<rparr>)"
| starts: "dl_phase d = N_agreed \<Longrightarrow> sameAddress (dl_lender d) a \<Longrightarrow> protocolStep (''start'', a, terms) d (d\<lparr>dl_phase := N_replacing\<rparr>)"
| cancels: "dl_phase d = N_replacing \<Longrightarrow> sameAddress (dl_lender d) a \<Longrightarrow> protocolStep (''cancelled'', a, terms) d (d\<lparr>dl_phase := N_recovering\<rparr>)"
| prepares: "dl_phase d = N_recovering \<Longrightarrow> sameAddress (dl_lender d) a \<Longrightarrow> protocolStep (''prepare'', a, terms) d (d\<lparr>dl_phase := N_funding\<rparr>)"
| binds: "dl_phase d = N_funding \<Longrightarrow> partyOf d a \<Longrightarrow> protocolStep (''bind'', a, terms) d (d\<lparr>dl_phase := N_funded\<rparr>)"

inductive_cases protocolStepE: "protocolStep l d d'"

text \<open>A borrower's proposal, other than to itself, that nobody has agreed to yet.\<close>

definition opensDeal :: "neg_label \<Rightarrow> neg_deal \<Rightarrow> bool" where
  "opensDeal l d \<longleftrightarrow> (case l of (act, who, terms) \<Rightarrow> act = ''open'' \<and> dl_phase d = N_open \<and> dl_borrower d = who \<and> dl_author d = who
     \<and> dl_terms d = terms \<and> \<not> sameAddress (dl_lender d) who)"

inductive protocolRun :: "neg_label list \<Rightarrow> neg_deal \<Rightarrow> neg_deal \<Rightarrow> bool" where
  rests: "protocolRun [] d d"
| moves: "protocolRun ls d d' \<Longrightarrow> protocolStep l d' d'' \<Longrightarrow> protocolRun (ls @ [l]) d d''"

lemma run_append: "protocolRun ms d' d'' \<Longrightarrow> protocolRun ls d d' \<Longrightarrow> protocolRun (ls @ ms) d d''"
  by (induction rule: protocolRun.induct) (use moves in \<open>fastforce simp flip: append_assoc\<close>)+

lemma run_one: "protocolStep l d d' \<Longrightarrow> protocolRun [l] d d'"
  using moves [OF rests] by fastforce

lemma step_refines:
  assumes "stepThread lib p r0 w = Inr (r1, db)" and "isParticipant r0 (signer (pr_envelope p))"
    and "action (pr_envelope p) \<in> {''counter'', ''agree'', ''close'', ''start'', ''cancelled'', ''prepare'', ''bind''}"
  shows "protocolStep (action (pr_envelope p), signer (pr_envelope p), envelopeTerms (pr_envelope p)) (dealOf r0) (dealOf r1)"
proof -
  let ?a = "signer (pr_envelope p)" and ?terms = "envelopeTerms (pr_envelope p)"
  have party: "partyOf (dealOf r0) ?a" using assms(2) by (simp add: partyOf_def isParticipant_def dealOf_def)
  from assms(1,3) show ?thesis
  proof (cases rule: stepThreadE)
    case close
    then have "dl_phase (dealOf r0) \<in> {N_open, N_agreed, N_closed}" by (cases "th_state r0") (auto simp: dealOf_def started_def)
    then show ?thesis using closes [OF _ party, of ?terms] close(1,3) by (simp add: dealOf_def)
  next
    case (counter s)
    then show ?thesis using counters [OF _ party, of ?terms] by (simp add: dealOf_def newProposal_def)
  next
    case (agree s)
    then show ?thesis using agrees [OF _ party, of ?terms] by (simp add: dealOf_def)
  next
    case (replace s)
    show ?thesis
      using replace(3,1)
    proof (cases rule: replaceE)
      case start
      then show ?thesis using starts [of "dealOf r0" ?a ?terms] by (simp add: dealOf_def)
    next
      case cancelled
      then show ?thesis using cancels [of "dealOf r0" ?a ?terms] by (simp add: dealOf_def)
    next
      case prepare
      then show ?thesis using prepares [of "dealOf r0" ?a ?terms] by (simp add: dealOf_def)
    next
      case (bind x)
      then show ?thesis using binds [OF _ party, of ?terms] by (simp add: dealOf_def)
    qed
  qed
qed

text \<open>The stored events of a conversation, oldest first, are the run that led to its row.\<close>

definition conversation :: "neg_db \<Rightarrow> string \<Rightarrow> neg_event list" where
  "conversation db i = filter (\<lambda>ev. ne_thread ev = i) (nd_events db)"

definition followed :: "neg_event list \<Rightarrow> neg_deal \<Rightarrow> bool" where
  "followed evs d \<longleftrightarrow> (\<exists>first later d0. evs = first # later \<and> opensDeal (labelOf first) d0 \<and> protocolRun (map labelOf later) d0 d)"

lemma followed_run: "followed evs d \<Longrightarrow> protocolRun (map labelOf later) d d' \<Longrightarrow> followed (evs @ later) d'"
  unfolding followed_def using run_append by fastforce

lemma labelOf_event: "labelOf (eventOf p w i) = (action (pr_envelope p), signer (pr_envelope p), envelopeTerms (pr_envelope p))"
  by (simp add: labelOf_def eventOf_def)

lemma opened_followed:
  assumes "openThread lib m (pr_envelope p) s w = Inr r" and "action (pr_envelope p) = ''open''"
  shows "followed [eventOf p w (th_id r)] (dealOf r)"
proof -
  have "opensDeal (labelOf (eventOf p w (th_id r))) (dealOf r)"
    using assms unfolding labelOf_event
    by (auto simp: opensDeal_def dealOf_def newProposal_def openThread_def Let_def respondsInTime_def outcome_Inr)
  then show ?thesis unfolding followed_def using rests by fastforce
qed

text \<open>One instant of a conversation: the events stored in it take its row from one deal to the next.\<close>

lemma history_refines:
  assumes "serves lib su w" and "rowAt w t i = Some r"
  shows "\<exists>r' later. rowAt w (Suc t) i = Some r' \<and> conversation (nw_db (w (Suc t))) i = conversation (nw_db (w t)) i @ later
    \<and> protocolRun (map labelOf later) (dealOf r) (dealOf r')"
proof (cases rule: servesE [OF assms(1), of t])
  case 1
  then show ?thesis using assms(2) getThread_cong [OF 1(1), of i] rests by (intro exI [of _ r] exI [of _ "[]"]) (simp add: conversation_def)
next
  case (2 p s r2)
  have other: "i \<noteq> th_id r2" using 2(7) assms(2) by auto
  then have "ne_thread (eventOf p (w t) (th_id r2)) \<noteq> i" by (simp add: eventOf_def)
  then show ?thesis
    using assms(2) getThread_append [OF 2(7,4)] 2(5) other rests by (intro exI [of _ r] exI [of _ "[]"]) (simp add: conversation_def)
next
  case (3 p r0 r1 r2 db row u)
  note get = getThread_replace [OF 3(1,9)]
  show ?thesis
  proof (cases "i = th_id r2")
    case True
    have "dealOf r2 = dealOf r1" by (simp add: 3(7) dealOf_def)
    then have "protocolRun (map labelOf [eventOf p (w t) (th_id r2)]) (dealOf r0) (dealOf r2)"
      using step_refines [OF 3(6,2,5)] by (simp add: labelOf_event run_one)
    moreover have "r0 = r" "rowAt w (Suc t) i = Some r2" using True get assms(2) 3(1) by auto
    moreover have "ne_thread (eventOf p (w t) (th_id r2)) = i" using True by (simp add: eventOf_def)
    ultimately show ?thesis
      using 3(10) by (intro exI [of _ r2] exI [of _ "[eventOf p (w t) (th_id r2)]"]) (simp add: conversation_def)
  next
    case False
    then have "ne_thread (eventOf p (w t) (th_id r2)) \<noteq> i" by (simp add: eventOf_def)
    then show ?thesis using assms(2) get False 3(10) rests by (intro exI [of _ r] exI [of _ "[]"]) (simp add: conversation_def)
  qed
qed

lemma history_followed:
  "serves lib su w \<Longrightarrow> (case rowAt w t i of None \<Rightarrow> conversation (nw_db (w t)) i = [] | Some r \<Rightarrow> followed (conversation (nw_db (w t)) i) (dealOf r))"
proof (induction t)
  case 0
  then show ?case by (simp add: serves_def emptyNegotiations_def getThread_def conversation_def)
next
  case (Suc t)
  show ?case
  proof (cases "rowAt w t i")
    case (Some r)
    then show ?thesis using Suc followed_run history_refines [OF Suc.prems Some] by fastforce
  next
    case None
    then have none: "conversation (nw_db (w t)) i = []" using Suc by simp
    show ?thesis
    proof (cases rule: servesE [OF Suc.prems, of t])
      case 1
      then show ?thesis using none None getThread_cong [OF 1(1), of i] by (simp add: conversation_def)
    next
      case (2 p s r2)
      have "ne_thread (eventOf p (w t) (th_id r2)) = th_id r2" by (simp add: eventOf_def)
      then show ?thesis
        using none None getThread_append [OF 2(7,4)] 2(5) opened_followed [OF 2(3,1)] by (auto simp: conversation_def)
    next
      case (3 p r0 r1 r2 db row u)
      note get = getThread_replace [OF 3(1,9)]
      have "i \<noteq> th_id r2" using 3(1) None by auto
      then show ?thesis using none None get 3(10) by (simp add: conversation_def eventOf_def)
    qed
  qed
qed

lemma history_run:
  assumes "serves lib su w" and "rowAt w t i = Some r"
  shows "\<exists>r' later. rowAt w (t + n) i = Some r' \<and> conversation (nw_db (w (t + n))) i = conversation (nw_db (w t)) i @ later
    \<and> protocolRun (map labelOf later) (dealOf r) (dealOf r')"
proof (induction n)
  case 0
  then show ?case using assms(2) rests by (intro exI [of _ r] exI [of _ "[]"]) simp
next
  case (Suc n)
  then obtain r1 later where r1: "rowAt w (t + n) i = Some r1" "conversation (nw_db (w (t + n))) i = conversation (nw_db (w t)) i @ later"
      "protocolRun (map labelOf later) (dealOf r) (dealOf r1)" by blast
  obtain r2 later2 where r2: "rowAt w (Suc (t + n)) i = Some r2" "conversation (nw_db (w (Suc (t + n)))) i = conversation (nw_db (w (t + n))) i @ later2"
      "protocolRun (map labelOf later2) (dealOf r1) (dealOf r2)" using history_refines [OF assms(1) r1(1)] by blast
  then show ?case using r1(2) run_append [OF r2(3) r1(3)] by (intro exI [of _ r2] exI [of _ "later @ later2"]) simp
qed

text \<open>What the protocol promises of its runs.\<close>

lemma run_parties: "protocolRun ls d d' \<Longrightarrow> dl_lender d' = dl_lender d \<and> dl_borrower d' = dl_borrower d"
  by (induction rule: protocolRun.induct) (auto elim!: protocolStepE)

lemma step_fixed:
  "protocolStep l d d' \<Longrightarrow> dl_phase d \<noteq> N_open \<Longrightarrow>
   dl_phase d' \<noteq> N_open \<and> dl_terms d' = dl_terms d \<and> dl_author d' = dl_author d \<and> (dl_phase d \<in> started \<longrightarrow> dl_phase d' \<in> started)"
  by (cases rule: protocolStep.cases, assumption) (auto simp: started_def)

lemma run_fixed:
  "protocolRun ls d d' \<Longrightarrow> dl_phase d \<noteq> N_open \<Longrightarrow>
   dl_phase d' \<noteq> N_open \<and> dl_terms d' = dl_terms d \<and> dl_author d' = dl_author d \<and> (dl_phase d \<in> started \<longrightarrow> dl_phase d' \<in> started)"
  by (induction rule: protocolRun.induct) (use step_fixed in fastforce)+

end
