(* ===== verification/Negotiation_Sample.thy ===== *)
theory Negotiation_Sample
  imports Negotiation_History
begin

text \<open>
  A history of the negotiation service in which the theorems' hypotheses hold: a borrower answers an
  offer with another proposal, the lender agrees and starts the replacement.
\<close>

definition sampleParty :: "char \<Rightarrow> string" where
  "sampleParty c = ''0x'' @ replicate 40 c"

definition sampleDigest :: "char \<Rightarrow> string" where
  "sampleDigest c = ''0x'' @ replicate 64 c"

definition sampleUuid :: "char \<Rightarrow> string" where
  "sampleUuid c = replicate 36 c"

definition sampleLib :: neg_lib where
  "sampleLib = \<lparr>nl_isAddress = (\<lambda>a. length a = 42), nl_keccak = (\<lambda>_. sampleDigest CHR ''1''), nl_sha = (\<lambda>_. replicate 64 CHR ''a''),
     nl_cancelOffer = (\<lambda>_. ''0x''), nl_createOffer = (\<lambda>_ _ _ _ _ _. ''0x''), nl_offerCreated = (\<lambda>_ _. None), nl_toNumber = (\<lambda>_. None)\<rparr>"

definition sampleMarket :: neg_market where
  "sampleMarket = \<lparr>nm_address = sampleParty CHR ''c'', nm_chainId = 1, nm_version = Some 3, nm_legacy = False,
     nm_loanToken = sampleParty CHR ''d'', nm_collateralToken = sampleParty CHR ''e'', nm_runtimeHash = sampleDigest CHR ''1''\<rparr>"

definition sampleSetup :: neg_setup where
  "sampleSetup = \<lparr>su_origin = ''https://turret.capital'', su_registry = [sampleParty CHR ''c'' \<mapsto> sampleMarket]\<rparr>"

definition sampleTerms :: "string \<Rightarrow> neg_terms" where
  "sampleTerms p = \<lparr>nt_principal = p, nt_collateral = ''2'', nt_interest = ''1'', nt_durationDays = 7, nt_expiresAt = 5000\<rparr>"

definition sampleOffer :: neg_offer where
  "sampleOffer = \<lparr>no_lender = sampleParty CHR ''a'', no_borrower = sampleParty CHR ''0'', no_principal = 9, no_collateral = 2,
     no_interest = 1, no_duration = 604800, no_expiresAt = 5000, no_status = 1\<rparr>"

definition sampleNow :: neg_block where
  "sampleNow = \<lparr>nb_number = Some 50, nb_timestamp = 1000, nb_hash = Some (sampleDigest CHR ''2'')\<rparr>"

definition sampleWorldWith :: "neg_db \<Rightarrow> string \<Rightarrow> neg_world" where
  "sampleWorldWith db u = \<lparr>nw_now = 1000, nw_db = db, nw_token = '''', nw_uuid = u, nw_uuid2 = sampleUuid CHR ''b'',
     nw_chainId = Inr 1, nw_head = Inr sampleNow, nw_block = (\<lambda>_. Inr sampleNow), nw_code = (\<lambda>_ _. Inr (Some ''0x60'')),
     nw_loanToken = (\<lambda>_ _. Inr (sampleParty CHR ''d'')), nw_collateralToken = (\<lambda>_ _. Inr (sampleParty CHR ''e'')),
     nw_offer = (\<lambda>_ _ _. Inr sampleOffer), nw_vault = (\<lambda>_ _ _. Inr (sampleParty CHR ''f'')), nw_balance = (\<lambda>_ _ _. Inr 9),
     nw_credit = (\<lambda>_ _ _ _. Inl ''none''), nw_tx = (\<lambda>_. Inl ''none''), nw_receipt = (\<lambda>_. Inl ''none''), nw_verify = (\<lambda>_ _ _. Inr True)\<rparr>"

definition sampleEnvelope :: "string \<Rightarrow> char \<Rightarrow> char \<Rightarrow> (string \<times> json) list \<Rightarrow> json" where
  "sampleEnvelope act who nonce extras = J_obj
     ([(''version'', J_num (JS_int 1)), (''origin'', J_str ''https://turret.capital''), (''account'', J_str (sampleParty who)),
       (''market'', J_str (sampleParty CHR ''c'')), (''chainId'', J_num (JS_int 1)), (''action'', J_str act),
       (''nonce'', J_str (sampleDigest nonce)), (''issuedAt'', J_num (JS_int 1000)), (''validUntil'', J_num (JS_int 1100))] @ extras)"

definition sampleOpen :: json where
  "sampleOpen = sampleEnvelope ''open'' CHR ''b'' CHR ''3''
     [(''offerId'', J_str ''1''), (''sourceDigest'', J_str (replicate 64 CHR ''a'')), (''terms'', termsJson (sampleTerms ''8'')), (''responseBy'', J_num (JS_int 3000))]"

text \<open>The conversation after each of the three actions.\<close>

definition sampleThread1 :: neg_thread where
  "sampleThread1 = \<lparr>th_id = sampleUuid CHR ''a'', th_market = sampleParty CHR ''c'', th_chainId = 1, th_offerId = ''1'',
     th_sourceKey = ''1:'' @ sampleParty CHR ''c'' @ '':1'', th_sourceDigest = replicate 64 CHR ''a'', th_original = sampleTerms ''9'',
     th_lender = sampleParty CHR ''a'', th_borrower = sampleParty CHR ''b'', th_revision = 1, th_state = N_open, th_createdAt = 1000,
     th_updatedAt = 1000, th_latest = \<lparr>np_id = sampleUuid CHR ''b'', np_author = sampleParty CHR ''b'', np_terms = termsJson (sampleTerms ''8''),
       np_responseBy = Some (J_num (JS_int 3000)), np_createdAt = 1000\<rparr>, th_agreedBy = None, th_agreedAt = None, th_cancelAfterBlock = None,
     th_cancelHash = None, th_attempt = None, th_fundAfterBlock = None, th_replacement = None\<rparr>"

definition sampleThread2 :: neg_thread where
  "sampleThread2 = sampleThread1\<lparr>th_state := N_agreed, th_revision := 2, th_agreedBy := Some (sampleParty CHR ''a''), th_agreedAt := Some 1000\<rparr>"

definition sampleThread3 :: neg_thread where
  "sampleThread3 = sampleThread2\<lparr>th_state := N_replacing, th_revision := 3, th_cancelAfterBlock := Some 50\<rparr>"

definition sampleStep :: "string \<Rightarrow> char \<Rightarrow> neg_thread \<Rightarrow> json" where
  "sampleStep act nonce r = sampleEnvelope act CHR ''a'' nonce
     [(''threadId'', J_str (th_id r)), (''revision'', J_num (JS_int (th_revision r))), (''proposalId'', J_str (np_id (th_latest r))), (''context'', contextJson r)]"

definition sampleRow :: "neg_thread \<Rightarrow> json \<Rightarrow> neg_db \<Rightarrow> neg_db" where
  "sampleRow r e db = \<lparr>nd_threads = [r], nd_events = nd_events db @ [\<lparr>ne_thread = th_id r, ne_at = 1000, ne_envelope = e, ne_signature = ''0x1''\<rparr>],
     nd_selections = (if th_state r = N_open then Map.empty else [th_sourceKey r \<mapsto> th_id r]),
     nd_nonces = nd_nonces db @ [(nonceKey e, \<lparr>nn_hash = replicate 64 CHR ''a'', nn_result = Packed ''https://turret.capital'' 1000 r, nn_at = 1000\<rparr>)],
     nd_sessions = []\<rparr>"

definition sampleDb1 :: neg_db where
  "sampleDb1 = sampleRow sampleThread1 sampleOpen emptyNegotiations"

definition sampleDb2 :: neg_db where
  "sampleDb2 = sampleRow sampleThread2 (sampleStep ''agree'' CHR ''4'' sampleThread1) sampleDb1"

definition sampleDb3 :: neg_db where
  "sampleDb3 = sampleRow sampleThread3 (sampleStep ''start'' CHR ''5'' sampleThread2) sampleDb2"

definition sampleHistory :: "nat \<Rightarrow> neg_world" where
  "sampleHistory t = (if t \<le> 40 then sampleWorldWith emptyNegotiations (sampleUuid CHR ''a'')
     else sampleWorldWith (if t \<le> 80 then sampleDb1 else if t \<le> 120 then sampleDb2 else sampleDb3) (sampleUuid CHR ''c''))"

section \<open>Its envelopes\<close>

lemma nsample_texts [simp]:
  "length (sampleParty c) = 42" "length (sampleDigest c) = 66" "length (sampleUuid c) = 36"
  "is_hex c \<Longrightarrow> hex_word 64 (sampleDigest c)" "is_hex c \<Longrightarrow> uuidText (sampleUuid c)"
  "sampleParty c = sampleParty d \<longleftrightarrow> c = d" "sampleDigest c = sampleDigest d \<longleftrightarrow> c = d" "sampleUuid c = sampleUuid d \<longleftrightarrow> c = d"
  by (auto simp: sampleParty_def sampleDigest_def sampleUuid_def hex_word_def uuidText_def list_all_iff)

lemma nsample_hex [simp]: "is_hex CHR ''0''" "is_hex CHR ''1''" "is_hex CHR ''2''" "is_hex CHR ''3''" "is_hex CHR ''4''" "is_hex CHR ''5''"
    "is_hex CHR ''a''" "is_hex CHR ''b''" "is_hex CHR ''c''" "is_hex CHR ''d''" "is_hex CHR ''e''" "is_hex CHR ''f''"
  by (simp_all add: is_hex_def is_lower_hex_def is_digit_def)

lemma nsample_lower [simp]: "js_lower (sampleParty c) = ''0x'' @ replicate 40 (js_lower_char c)"
  by (simp add: sampleParty_def js_lower_def js_lower_char_def)

lemma nsample_same [simp]: "sameAddress (sampleParty c) (sampleParty d) \<longleftrightarrow> js_lower_char c = js_lower_char d"
    "sameAddress (sampleDigest c) (sampleDigest d) \<longleftrightarrow> js_lower_char c = js_lower_char d"
  by (auto simp: sameAddress_def sampleDigest_def sampleParty_def js_lower_def)

lemma nsample_chars [simp]: "js_lower_char CHR ''0'' = CHR ''0''" "js_lower_char CHR ''1'' = CHR ''1''" "js_lower_char CHR ''2'' = CHR ''2''"
    "js_lower_char CHR ''a'' = CHR ''a''" "js_lower_char CHR ''b'' = CHR ''b''"
    "js_lower_char CHR ''c'' = CHR ''c''" "js_lower_char CHR ''d'' = CHR ''d''" "js_lower_char CHR ''e'' = CHR ''e''" "js_lower_char CHR ''f'' = CHR ''f''"
    "js_lower_char CHR ''x'' = CHR ''x''"
  by (simp_all add: js_lower_char_def)

lemma nsample_zero [simp]: "zeroAddress (sampleParty c) \<longleftrightarrow> c = CHR ''0''"
  by (auto simp: zeroAddress_def sampleParty_def hex_word_def list_all_iff)

lemma nsample_real [simp]: "realAddress sampleLib (sampleParty c) \<longleftrightarrow> c \<noteq> CHR ''0''"
  by (simp add: realAddress_def sampleLib_def)

lemma hasKeysI: "map fst kvs = expected \<Longrightarrow> distinct expected \<Longrightarrow> hasKeys (J_obj kvs) expected"
  by (simp add: hasKeys_def distinct_remdups_id)

lemma nsample_small: "isSafeInteger 1" "isSafeInteger 2" "isSafeInteger 7" "isSafeInteger 1000" "isSafeInteger 1100" "isSafeInteger 3000" "isSafeInteger 5000"
  by (simp_all add: isSafeInteger_def MAX_SAFE_INTEGER_def)

lemma nsample_uint: "uint_text ''1''" "uint_text ''2''" "uint_text ''8''" "uint_text ''9''"
    "nat_of_dec ''1'' = 1" "nat_of_dec ''2'' = 2" "nat_of_dec ''8'' = 8"
  by (simp_all add: uint_text_def decimal_text_def is_digit_def nat_of_dec_def digit_value_def)

lemma nsample_values [simp]: "j_string (Some (J_str s)) = Some s" "j_int (Some (J_num (JS_int i))) = Some i"
    "j_truthy (Some (J_str s)) \<longleftrightarrow> s \<noteq> []" "j_truthy None \<longleftrightarrow> False" "j_string None = None" "holds p (Some (J_str s)) \<longleftrightarrow> p s"
    "uintField (Some (J_str s)) \<longleftrightarrow> uint_text s" "safeInt (Some (J_num (JS_int i))) \<longleftrightarrow> isSafeInteger i" "j_truthy (Some (J_obj kvs))"
  by (simp_all add: j_string_def j_int_def j_truthy_def holds_def uintField_def safeInt_def)

lemma nsample_terms: "negotiationTerms (termsJson (sampleTerms ''8'')) 1000 = Inr ()"
proof -
  have "hasKeys (termsJson (sampleTerms ''8'')) [''principal'', ''collateral'', ''interest'', ''durationDays'', ''expiresAt'']"
    unfolding termsJson_def by (rule hasKeysI) simp_all
  then show ?thesis
    by (simp add: negotiationTerms_def) (simp add: termsJson_def sampleTerms_def j_field_def nsample_uint textOf_def intOf_def nsample_small)
qed

text \<open>The fields of an envelope, as far as the service reads them.\<close>

lemma nsample_field: "j_field (sampleEnvelope act who nonce extras) k = (case map_of (rev extras) k of Some v \<Rightarrow> Some v | None \<Rightarrow>
    map_of [(''validUntil'', J_num (JS_int 1100)), (''issuedAt'', J_num (JS_int 1000)), (''nonce'', J_str (sampleDigest nonce)), (''action'', J_str act),
      (''chainId'', J_num (JS_int 1)), (''market'', J_str (sampleParty CHR ''c'')), (''account'', J_str (sampleParty who)),
      (''origin'', J_str ''https://turret.capital''), (''version'', J_num (JS_int 1))] k)"
  by (simp add: sampleEnvelope_def j_field_def map_add_def split: option.split)

lemma nsample_market: "marketFor sampleSetup (Some (sampleParty CHR ''c'')) (Some 1) = Inr sampleMarket"
  by (simp add: marketFor_def sampleSetup_def sampleMarket_def) (simp add: sampleParty_def)

lemma nsample_envelope:
  assumes "actionExtras act = Some names" and "map fst extras = names @ (if ''threadId'' \<in> set names then [''context''] else [])"
    and "distinct (envelopeKeys names)" and "is_hex nonce" and "who \<in> {CHR ''a'', CHR ''b''}"
    and "checkTerms (sampleEnvelope act who nonce extras) 1000 = Inr ()"
    and "map_of (rev extras) ''hash'' = None"
    and "case map_of (rev extras) ''threadId'' of None \<Rightarrow> True | Some v \<Rightarrow> holds uuidText (Some v) \<and> holds uuidText (map_of (rev extras) ''proposalId'')
       \<and> (\<exists>i. map_of (rev extras) ''revision'' = Some (J_num (JS_int i)) \<and> isSafeInteger i \<and> 1 \<le> i)"
    and "act = ''open'' \<longrightarrow> map_of (rev extras) ''offerId'' = Some (J_str ''1'') \<and> holds tokenText (map_of (rev extras) ''sourceDigest'')"
  shows "checkEnvelope sampleLib sampleSetup 1000 (sampleEnvelope act who nonce extras) = Inr sampleMarket"
proof -
  let ?e = "sampleEnvelope act who nonce extras"
  have keys: "hasKeys ?e (envelopeKeys names)"
    unfolding sampleEnvelope_def by (rule hasKeysI) (use assms(2,3) in \<open>simp_all add: envelopeKeys_def\<close>)
  have base: "map_of (rev extras) k = None" if "k \<in> {''version'', ''origin'', ''account'', ''market'', ''chainId'', ''action'', ''nonce'', ''issuedAt'', ''validUntil''}" for k
  proof -
    have "k \<notin> set (map fst extras)" using that assms(2,3) by (auto simp: envelopeKeys_def split: if_splits)
    then show ?thesis by (simp add: map_of_eq_None_iff)
  qed
  note base' = base [of "''version''", simplified] base [of "''origin''", simplified] base [of "''account''", simplified] base [of "''market''", simplified]
    base [of "''chainId''", simplified] base [of "''action''", simplified] base [of "''nonce''", simplified] base [of "''issuedAt''", simplified] base [of "''validUntil''", simplified]
  have f: "j_field ?e ''version'' = Some (J_num (JS_int 1))" "j_field ?e ''origin'' = Some (J_str (su_origin sampleSetup))"
      "j_field ?e ''account'' = Some (J_str (sampleParty who))" "j_field ?e ''market'' = Some (J_str (sampleParty CHR ''c''))"
      "j_field ?e ''chainId'' = Some (J_num (JS_int 1))" "j_field ?e ''action'' = Some (J_str act)" "j_field ?e ''nonce'' = Some (J_str (sampleDigest nonce))"
      "j_field ?e ''issuedAt'' = Some (J_num (JS_int 1000))" "j_field ?e ''validUntil'' = Some (J_num (JS_int 1100))" "j_field ?e ''hash'' = None"
    by (simp_all add: nsample_field base' sampleSetup_def assms(7))
  have e: "textOf ?e ''action'' = act" "textOf ?e ''account'' = sampleParty who" "intOf ?e ''issuedAt'' = 1000" "intOf ?e ''validUntil'' = 1100"
    by (simp_all add: textOf_def intOf_def f)
  have times: "signedTimes ?e 1000" by (simp add: signedTimes_def f e nsample_small)
  have who: "who \<noteq> CHR ''0''" "js_lower_char who \<noteq> CHR ''c''" using assms(5) by auto
  have thread: "j_truthy (j_field ?e ''threadId'') \<longrightarrow> holds uuidText (j_field ?e ''threadId'') \<and> holds uuidText (j_field ?e ''proposalId'')
     \<and> safeInt (j_field ?e ''revision'') \<and> 1 \<le> intOf ?e ''revision''"
    using assms(8) by (auto simp: nsample_field intOf_def holds_def split: option.splits)
  have source: "act = ''open'' \<longrightarrow> uintField (j_field ?e ''offerId'') \<and> textOf ?e ''offerId'' \<noteq> ''0'' \<and> holds tokenText (j_field ?e ''sourceDigest'')"
    using assms(9) by (auto simp: nsample_field textOf_def nsample_uint holds_def split: option.splits)
  show ?thesis
    unfolding checkEnvelope_def e(1) assms(1) option.case
    using keys times who thread source assms(4,6)
    by (simp add: f e nsample_market sampleMarket_def)
qed

section \<open>What the checks read\<close>

lemma nsample_world [simp]:
  "nw_now (sampleHistory t) = 1000" "nw_uuid2 (sampleHistory t) = sampleUuid CHR ''b''" "nw_chainId (sampleHistory t) = Inr 1"
  "nw_head (sampleHistory t) = Inr sampleNow" "nw_block (sampleHistory t) n = Inr sampleNow" "nw_code (sampleHistory t) a n = Inr (Some ''0x60'')"
  "nw_loanToken (sampleHistory t) a n = Inr (sampleParty CHR ''d'')" "nw_collateralToken (sampleHistory t) a n = Inr (sampleParty CHR ''e'')"
  "nw_offer (sampleHistory t) a i n = Inr sampleOffer" "nw_vault (sampleHistory t) a i n = Inr (sampleParty CHR ''f'')"
  "nw_balance (sampleHistory t) b a n = Inr 9" "nw_verify (sampleHistory t) a e sig = Inr True"
  by (simp_all add: sampleHistory_def sampleWorldWith_def)

lemma nsample_db:
  "t \<le> 40 \<Longrightarrow> nw_db (sampleHistory t) = emptyNegotiations" "40 < t \<Longrightarrow> t \<le> 80 \<Longrightarrow> nw_db (sampleHistory t) = sampleDb1"
  "80 < t \<Longrightarrow> t \<le> 120 \<Longrightarrow> nw_db (sampleHistory t) = sampleDb2" "120 < t \<Longrightarrow> nw_db (sampleHistory t) = sampleDb3"
  "t \<le> 40 \<Longrightarrow> nw_uuid (sampleHistory t) = sampleUuid CHR ''a''" "40 < t \<Longrightarrow> nw_uuid (sampleHistory t) = sampleUuid CHR ''c''"
  by (simp_all add: sampleHistory_def sampleWorldWith_def)

definition sampleSource :: neg_source where
  "sampleSource = \<lparr>ns_market = sampleParty CHR ''c'', ns_chainId = 1, ns_id = ''1'', ns_lender = sampleParty CHR ''a'', ns_borrower = sampleParty CHR ''0'',
     ns_terms = sampleTerms ''9'', ns_digest = replicate 64 CHR ''a'', ns_status = 1, ns_now = 1000, ns_blockNumber = 50,
     ns_blockHash = sampleDigest CHR ''2'', ns_backed = Some True, ns_credit = None\<rparr>"

lemma nsample_digest: "digest sampleLib v = replicate 64 CHR ''a''"
  by (simp add: digest_def sampleLib_def)

lemma nsample_BigInt: "js_BigInt ''1'' = Inr 1"
  using js_BigInt_digits [of "''1''"] by (simp add: is_digit_def nsample_uint)

lemma nsample_dec: "dec_of_nat 9 = ''9''" "dec_of_nat 2 = ''2''" "dec_of_nat (Suc 0) = ''1''"
  by (simp_all add: dec_of_nat.simps digit_char_def)

lemma nsample_offerTerms: "offerTerms sampleOffer = sampleTerms ''9''"
  by (simp add: offerTerms_def sampleOffer_def sampleTerms_def js_Number_def tdiv_def dec_of_int_def nsample_dec)

lemma nsample_readSource: "readSource sampleLib sampleMarket (Some ''1'') sampleHistory t = (Inr sampleSource, t + 9)"
proof -
  have "identityMatches sampleLib sampleMarket (Some ''0x60'') (sampleParty CHR ''d'') (sampleParty CHR ''e'')"
    by (simp add: identityMatches_def sampleMarket_def) (simp add: sampleLib_def)
  moreover have "sourceOf sampleLib sampleMarket ''1'' sampleNow 50 sampleOffer = sampleSource\<lparr>ns_backed := None\<rparr>"
    by (simp add: sourceOf_def nsample_offerTerms nsample_digest) (simp add: sampleSource_def sampleMarket_def sampleNow_def sampleOffer_def js_Number_def)
  moreover have "sourceStatus sampleLib sampleMarket 50 1 sampleOffer (sampleSource\<lparr>ns_backed := None\<rparr>) sampleHistory u = (Inr sampleSource, u + 2)" for u
    by (simp add: sourceStatus_def sampleSource_def io_run ioBind_def) (simp add: sampleOffer_def)
  moreover have "nb_number sampleNow = Some 50" "nb_hash sampleNow = Some (sampleDigest CHR ''2'')" "no_lender sampleOffer = sampleParty CHR ''a''"
      "no_status sampleOffer = 1" "nm_chainId sampleMarket = 1"
    by (simp_all add: sampleNow_def sampleOffer_def sampleMarket_def)
  ultimately show ?thesis
    by (simp add: readSource_def io_run ioBind_def nsample_BigInt)
qed

lemma nsample_signature: "signatureText ''0x1''"
  by (simp add: signatureText_def)

text \<open>The checks of an action that needs no receipt.\<close>

definition samplePrepared :: "json \<Rightarrow> neg_prepared" where
  "samplePrepared e = \<lparr>pr_envelope = e, pr_signature = ''0x1'', pr_market = sampleMarket, pr_hash = replicate 64 CHR ''a'',
     pr_source = Some sampleSource, pr_linked = None\<rparr>"

lemma nsample_checks:
  assumes "checkEnvelope sampleLib sampleSetup 1000 e = Inr sampleMarket" and "nonceOf (nw_db (sampleHistory (t + 3))) (nonceKey e) = None"
    and "currentThread sampleMarket e (nw_db (sampleHistory (t + 3))) = Inr row" and "textOf e ''action'' \<in> {''open'', ''agree'', ''start''}"
    and "case row of None \<Rightarrow> j_field e ''offerId'' = Some (J_str ''1'') \<and> textOf e ''sourceDigest'' = replicate 64 CHR ''a''
      | Some r \<Rightarrow> th_offerId r = ''1'' \<and> th_sourceDigest r = replicate 64 CHR ''a''"
  shows "submitChecks sampleLib sampleSetup e (J_str ''0x1'') sampleHistory t = (Inr (Ready (samplePrepared e)), t + 13)"
proof -
  have source: "sourceFor sampleLib sampleMarket e row sampleHistory u = (Inr (Some sampleSource), u + 9)" for u
  proof -
    have "textOf e ''action'' \<notin> {''login'', ''close''}" using assms(4) by auto
    moreover have "(case row of Some r \<Rightarrow> Some (th_offerId r) | None \<Rightarrow> j_string (j_field e ''offerId'')) = Some ''1''"
      "(case row of Some r \<Rightarrow> th_sourceDigest r | None \<Rightarrow> textOf e ''sourceDigest'') = ns_digest sampleSource"
      using assms(5) by (auto simp: sampleSource_def split: option.splits)
    ultimately show ?thesis
      unfolding sourceFor_def by (simp add: nsample_readSource io_run ioBind_def)
  qed
  have "checkCancelled sampleLib sampleMarket e row s = ioReturn ()" "checkBind sampleLib sampleMarket e row s = ioReturn None" for s
    using assms(4) by (auto simp: checkCancelled_def checkBind_def)
  then have "evidence sampleLib sampleMarket e ''0x1'' row sampleHistory u = (Inr (Ready (samplePrepared e)), u + 9)" for u
    by (simp add: evidence_def ioBind_def source io_run samplePrepared_def requestHash_def nsample_digest)
  moreover have "nm_chainId sampleMarket = 1" by (simp add: sampleMarket_def)
  ultimately show ?thesis
    using assms(1-3) by (simp add: submitChecks_def clock_def ioBind_def io_run nsample_signature eval_nat_numeral)
qed


section \<open>The three commits\<close>

lemma nsample_open_ok: "checkEnvelope sampleLib sampleSetup 1000 sampleOpen = Inr sampleMarket"
  unfolding sampleOpen_def
proof (rule nsample_envelope [where names = "[''offerId'', ''sourceDigest'', ''terms'', ''responseBy'']"])
  show "checkTerms (sampleEnvelope ''open'' CHR ''b'' CHR ''3'' [(''offerId'', J_str ''1''), (''sourceDigest'', J_str (replicate 64 CHR ''a'')),
      (''terms'', termsJson (sampleTerms ''8'')), (''responseBy'', J_num (JS_int 3000))]) 1000 = Inr ()"
    by (simp add: checkTerms_def envelopeTerms_def nsample_field nsample_terms intOf_def nsample_small)
      (simp add: termsJson_def sampleTerms_def j_field_def)
  show "''open'' = ''open'' \<longrightarrow> map_of (rev [(''offerId'', J_str ''1''), (''sourceDigest'', J_str (replicate 64 CHR ''a'')),
      (''terms'', termsJson (sampleTerms ''8'')), (''responseBy'', J_num (JS_int 3000))]) ''offerId'' = Some (J_str ''1'')
    \<and> holds tokenText (map_of (rev [(''offerId'', J_str ''1''), (''sourceDigest'', J_str (replicate 64 CHR ''a'')),
      (''terms'', termsJson (sampleTerms ''8'')), (''responseBy'', J_num (JS_int 3000))]) ''sourceDigest'')"
    by (simp add: tokenText_def is_lower_hex_def list_all_iff)
qed (simp_all add: actionExtras_def envelopeKeys_def)

lemma nsample_step_ok:
  assumes "act \<in> {''agree'', ''start''}" and "is_hex nonce" and "th_id r = sampleUuid CHR ''a''" and "np_id (th_latest r) = sampleUuid CHR ''b''"
    and "isSafeInteger (th_revision r)" and "1 \<le> th_revision r"
  shows "checkEnvelope sampleLib sampleSetup 1000 (sampleStep act nonce r) = Inr sampleMarket"
  unfolding sampleStep_def
  by (rule nsample_envelope [where names = "[''threadId'', ''revision'', ''proposalId'']"])
    (use assms in \<open>auto simp: actionExtras_def envelopeKeys_def checkTerms_def nsample_field\<close>)

lemma nsample_step_fields:
  "textOf (sampleStep act nonce r) ''threadId'' = th_id r" "textOf (sampleStep act nonce r) ''proposalId'' = np_id (th_latest r)"
  "intOf (sampleStep act nonce r) ''revision'' = th_revision r" "contextOf (sampleStep act nonce r) = contextJson r"
  "textOf (sampleStep act nonce r) ''account'' = sampleParty CHR ''a''" "textOf (sampleStep act nonce r) ''action'' = act"
  "textOf (sampleStep act nonce r) ''nonce'' = sampleDigest nonce" "namesThread (sampleStep act nonce r) \<longleftrightarrow> th_id r \<noteq> ''''"
  by (simp_all add: sampleStep_def textOf_def intOf_def contextOf_def namesThread_def nsample_field)

lemma nsample_open_fields:
  "textOf sampleOpen ''account'' = sampleParty CHR ''b''" "textOf sampleOpen ''action'' = ''open''" "textOf sampleOpen ''offerId'' = ''1''"
  "textOf sampleOpen ''nonce'' = sampleDigest CHR ''3''" "textOf sampleOpen ''sourceDigest'' = replicate 64 CHR ''a''"
  "j_field sampleOpen ''offerId'' = Some (J_str ''1'')" "j_field sampleOpen ''responseBy'' = Some (J_num (JS_int 3000))" "\<not> namesThread sampleOpen"
  "envelopeTerms sampleOpen = termsJson (sampleTerms ''8'')"
  by (simp_all add: sampleOpen_def textOf_def intOf_def namesThread_def envelopeTerms_def nsample_field)

lemma nsample_source_open: "sourceOpen 1000 sampleSource = Inr ()"
  by (simp add: sourceOpen_def sampleSource_def sampleTerms_def)

lemma nsample_thread:
  "th_id sampleThread1 = sampleUuid CHR ''a''" "th_id sampleThread2 = sampleUuid CHR ''a''" "th_id sampleThread3 = sampleUuid CHR ''a''"
  "th_revision sampleThread1 = 1" "th_revision sampleThread2 = 2" "np_id (th_latest sampleThread1) = sampleUuid CHR ''b''"
  "np_id (th_latest sampleThread2) = sampleUuid CHR ''b''" "sampleUuid c \<noteq> []" "isSafeInteger 1" "isSafeInteger 2"
  by (simp_all add: sampleThread1_def sampleThread2_def sampleThread3_def nsample_small) (simp add: sampleUuid_def)

lemma nsample_nonces:
  "nonceKey sampleOpen \<noteq> nonceKey (sampleStep act CHR ''4'' r)" "nonceKey sampleOpen \<noteq> nonceKey (sampleStep act CHR ''5'' r)"
  "nonceKey (sampleStep act CHR ''4'' r) \<noteq> nonceKey (sampleStep act' CHR ''5'' r')"
proof -
  have lower: "js_lower (sampleDigest c) = ''0x'' @ replicate 64 (js_lower_char c)" for c by (simp add: sampleDigest_def js_lower_def)
  have three: "js_lower_char CHR ''3'' = CHR ''3''" "js_lower_char CHR ''4'' = CHR ''4''" "js_lower_char CHR ''5'' = CHR ''5''"
    by (simp_all add: js_lower_char_def)
  show "nonceKey sampleOpen \<noteq> nonceKey (sampleStep act CHR ''4'' r)" "nonceKey sampleOpen \<noteq> nonceKey (sampleStep act CHR ''5'' r)"
    "nonceKey (sampleStep act CHR ''4'' r) \<noteq> nonceKey (sampleStep act' CHR ''5'' r')"
    by (simp_all add: nonceKey_def nsample_open_fields nsample_step_fields lower three)
qed

lemma nsample_recent: "length (nd_nonces db) < 12 \<Longrightarrow> recentActions e n db < 12"
  unfolding recentActions_def Let_def by (meson le_less_trans length_filter_le)

lemma nsample_commit1:
  "commit sampleLib sampleSetup (samplePrepared sampleOpen) (sampleHistory 40) = Inr (Packed ''https://turret.capital'' 1000 sampleThread1, sampleDb1)"
proof -
  let ?w = "sampleHistory 40"
  have db: "nw_db ?w = emptyNegotiations" "nw_uuid ?w = sampleUuid CHR ''a''" by (simp_all add: nsample_db)
  have key: "sourceKeyOf sampleMarket sampleOpen = ''1:'' @ sampleParty CHR ''c'' @ '':1''"
    by (simp add: sourceKeyOf_def nsample_open_fields sampleMarket_def dec_of_int_def nsample_dec) (simp add: sampleParty_def)
  have opened: "openThread sampleLib sampleMarket sampleOpen sampleSource ?w = Inr sampleThread1"
    by (simp add: openThread_def Let_def nsample_source_open respondsInTime_def nsample_open_fields key db emptyNegotiations_def)
      (simp add: sampleSource_def sampleThread1_def newProposal_def nsample_open_fields sampleTerms_def sampleMarket_def)
  have updated: "sampleThread1\<lparr>th_updatedAt := 1000\<rparr> = sampleThread1" by (simp add: sampleThread1_def)
  have store: "storeThread sampleThread1 emptyNegotiations = Inr (emptyNegotiations\<lparr>nd_threads := [sampleThread1]\<rparr>)"
    by (simp add: storeThread_def getThread_def emptyNegotiations_def)
  have "applyAction sampleLib sampleSetup (samplePrepared sampleOpen) ?w = Inr (Packed ''https://turret.capital'' 1000 sampleThread1,
      emptyNegotiations\<lparr>nd_threads := [sampleThread1], nd_events := [\<lparr>ne_thread = th_id sampleThread1, ne_at = 1000, ne_envelope = sampleOpen, ne_signature = ''0x1''\<rparr>]\<rparr>)"
    using opened store updated by (simp add: applyAction_def advance_def rereadThread_def samplePrepared_def nsample_open_fields db sampleSetup_def
      emptyNegotiations_def [THEN arg_cong, of nd_events])
  moreover have "nonceOf emptyNegotiations k = None" "recentActions sampleOpen 1000 emptyNegotiations < 12" for k
    by (simp_all add: nonceOf_def emptyNegotiations_def nsample_recent)
  ultimately show ?thesis
    by (simp add: commit_def samplePrepared_def nsample_open_ok db) (simp add: sampleDb1_def sampleRow_def emptyNegotiations_def sampleThread1_def)
qed


text \<open>A later step of the conversation, from the thread it finds to the one it stores.\<close>

lemma nsample_commit_step:
  assumes db: "nw_db w = db" and now: "nw_now w = 1000" and ok: "checkEnvelope sampleLib sampleSetup 1000 e = Inr sampleMarket"
    and e: "e = sampleStep act nonce r" and act: "act \<in> {''agree'', ''start''}" and rows: "nd_threads db = [r]" and ids: "th_id r \<noteq> ''''"
    and party: "isParticipant r (sampleParty CHR ''a'')" and fresh: "nonceOf db (nonceKey e) = None" and few: "length (nd_nonces db) < 12"
    and step: "stepThread sampleLib (samplePrepared e) r w = Inr (r1, db1)" and r': "r' = r1\<lparr>th_revision := th_revision r1 + 1, th_updatedAt := 1000\<rparr>"
    and result: "sampleRow r' e db = db1\<lparr>nd_threads := [r'], nd_events := nd_events db1 @ [\<lparr>ne_thread = th_id r', ne_at = 1000, ne_envelope = e, ne_signature = ''0x1''\<rparr>],
      nd_nonces := nd_nonces db1 @ [(nonceKey e, \<lparr>nn_hash = replicate 64 CHR ''a'', nn_result = Packed ''https://turret.capital'' 1000 r', nn_at = 1000\<rparr>)]\<rparr>"
  shows "commit sampleLib sampleSetup (samplePrepared e) w = Inr (Packed ''https://turret.capital'' 1000 r', sampleRow r' e db)"
proof -
  note fields = nsample_step_fields [of act nonce r, folded e]
  have p: "pr_envelope (samplePrepared e) = e" "pr_source (samplePrepared e) = Some sampleSource" "pr_signature (samplePrepared e) = ''0x1''"
      "pr_hash (samplePrepared e) = replicate 64 CHR ''a''"
    by (simp_all add: samplePrepared_def)
  have get: "getThread db (th_id r) = Some r" by (simp add: getThread_def rows)
  have row: "rereadThread e db = Inr (Some r)" using party ids by (simp add: rereadThread_def visible_def fields get)
  have "action (pr_envelope (samplePrepared e)) \<in> {''counter'', ''agree'', ''close'', ''start'', ''cancelled'', ''prepare'', ''bind''}"
    using act by (auto simp: p fields)
  from stepThread_same [OF step this] have same: "th_id r1 = th_id r" "nd_threads db1 = [r]"
    by (simp_all add: sameDeal_def sameParties_def db rows)
  have adv: "advance sampleLib (samplePrepared e) (Some r) w = Inr (r1\<lparr>th_revision := th_revision r1 + 1\<rparr>, db1)"
    using step act by (auto simp: advance_def stepThread_def p fields and_then_Inr)
  have store: "storeThread r' db1 = Inr (db1\<lparr>nd_threads := [r']\<rparr>)"
    by (simp add: storeThread_def getThread_def same r')
  have not_login: "act \<noteq> ''login''" using act by auto
  have "applyAction sampleLib sampleSetup (samplePrepared e) w = Inr (Packed ''https://turret.capital'' 1000 r',
      db1\<lparr>nd_threads := [r'], nd_events := nd_events db1 @ [\<lparr>ne_thread = th_id r', ne_at = 1000, ne_envelope = e, ne_signature = ''0x1''\<rparr>]\<rparr>)"
    using store [unfolded r'] adv row not_login by (simp add: applyAction_def Let_def p fields db now sampleSetup_def r')
  then show ?thesis
    using ok fresh nsample_recent [OF few] by (simp add: commit_def p db now result)
qed

lemma nsample_commit2:
  "commit sampleLib sampleSetup (samplePrepared (sampleStep ''agree'' CHR ''4'' sampleThread1)) (sampleHistory 80) = Inr (Packed ''https://turret.capital'' 1000 sampleThread2, sampleDb2)"
  unfolding sampleDb2_def
proof (rule nsample_commit_step [where nonce = "CHR ''4''"])
  let ?e = "sampleStep ''agree'' CHR ''4'' sampleThread1"
  show "stepThread sampleLib (samplePrepared ?e) sampleThread1 (sampleHistory 80) = Inr
      (sampleThread1\<lparr>th_state := N_agreed, th_agreedBy := Some (sampleParty CHR ''a''), th_agreedAt := Some 1000\<rparr>,
       sampleDb1\<lparr>nd_selections := [''1:'' @ sampleParty CHR ''c'' @ '':1'' \<mapsto> sampleUuid CHR ''a'']\<rparr>)"
    by (simp add: stepThread_def samplePrepared_def nsample_step_fields agreeThread_def answerable_def nsample_source_open nsample_db)
      (simp add: sampleThread1_def sampleSource_def claimSelection_def sampleDb1_def sampleRow_def)
  show "checkEnvelope sampleLib sampleSetup 1000 ?e = Inr sampleMarket"
    by (rule nsample_step_ok) (simp_all add: nsample_thread)
  show "nonceOf sampleDb1 (nonceKey ?e) = None"
    by (simp add: nonceOf_def sampleDb1_def sampleRow_def emptyNegotiations_def nsample_nonces [THEN not_sym])
qed (simp_all add: nsample_db nsample_thread, simp_all add: sampleDb1_def sampleRow_def sampleThread2_def sampleThread1_def isParticipant_def emptyNegotiations_def)

lemma nsample_commit3:
  "commit sampleLib sampleSetup (samplePrepared (sampleStep ''start'' CHR ''5'' sampleThread2)) (sampleHistory 120) = Inr (Packed ''https://turret.capital'' 1000 sampleThread3, sampleDb3)"
  unfolding sampleDb3_def
proof (rule nsample_commit_step [where nonce = "CHR ''5''"])
  let ?e = "sampleStep ''start'' CHR ''5'' sampleThread2"
  show "stepThread sampleLib (samplePrepared ?e) sampleThread2 (sampleHistory 120) = Inr (sampleThread2\<lparr>th_state := N_replacing, th_cancelAfterBlock := Some 50\<rparr>, sampleDb2)"
    by (simp add: stepThread_def samplePrepared_def nsample_step_fields replaceThread_def startThread_def nsample_source_open nsample_db)
      (simp add: sampleThread2_def sampleThread1_def sampleSource_def)
  show "checkEnvelope sampleLib sampleSetup 1000 ?e = Inr sampleMarket"
    by (rule nsample_step_ok) (simp_all add: nsample_thread)
  show "nonceOf sampleDb2 (nonceKey ?e) = None"
    by (simp add: nonceOf_def sampleDb1_def sampleDb2_def sampleRow_def emptyNegotiations_def nsample_nonces [THEN not_sym])
qed (simp_all add: nsample_db nsample_thread, simp_all add: sampleDb1_def sampleDb2_def sampleRow_def sampleThread3_def sampleThread2_def sampleThread1_def isParticipant_def emptyNegotiations_def)

lemma nsample_current:
  assumes "nd_threads db = [r]" and "th_id r \<noteq> ''''" and "isParticipant r (sampleParty CHR ''a'')" and "th_market r = sampleParty CHR ''c''"
  shows "currentThread sampleMarket (sampleStep act nonce r) db = Inr (Some r)"
  using assms by (simp add: currentThread_def nsample_step_fields visible_def getThread_def) (simp add: sampleMarket_def)

lemma nsample_committed1: "committed sampleLib sampleSetup sampleHistory 40 (samplePrepared sampleOpen) (Packed ''https://turret.capital'' 1000 sampleThread1)"
proof -
  have "submitChecks sampleLib sampleSetup sampleOpen (J_str ''0x1'') sampleHistory 0 = (Inr (Ready (samplePrepared sampleOpen)), 0 + 13)"
    by (rule nsample_checks [where row = None]) (simp_all add: nsample_open_ok nsample_db nonceOf_def emptyNegotiations_def currentThread_def nsample_open_fields)
  then show ?thesis unfolding committed_def using nsample_commit1
    by (intro conjI exI [of _ sampleOpen] exI [of _ "J_str ''0x1''"] exI [of _ "0 :: nat"] exI [of _ "13 :: nat"]) (simp_all add: nsample_db)
qed

lemma nsample_committed_step:
  assumes "checkEnvelope sampleLib sampleSetup 1000 e = Inr sampleMarket" and "e = sampleStep act nonce r" and "act \<in> {''agree'', ''start''}"
    and "nd_threads db = [r]" and "nonceOf db (nonceKey e) = None" and "nw_db (sampleHistory (t + 3)) = db" and "t + 13 \<le> t'"
    and "th_id r = sampleUuid CHR ''a''" and "isParticipant r (sampleParty CHR ''a'')" and "th_market r = sampleParty CHR ''c''"
    and "th_offerId r = ''1''" and "th_sourceDigest r = replicate 64 CHR ''a''"
    and "commit sampleLib sampleSetup (samplePrepared e) (sampleHistory t') = Inr (result, nw_db (sampleHistory (Suc t')))"
  shows "committed sampleLib sampleSetup sampleHistory t' (samplePrepared e) result"
proof -
  have "th_id r \<noteq> ''''" using assms(8) by (simp add: nsample_thread)
  then have "submitChecks sampleLib sampleSetup e (J_str ''0x1'') sampleHistory t = (Inr (Ready (samplePrepared e)), t + 13)"
    using assms by (intro nsample_checks [where row = "Some r"]) (auto simp: nsample_current nsample_step_fields)
  then show ?thesis unfolding committed_def using assms(7,13) by blast
qed

lemma nsample_rows: "isParticipant sampleThread1 (sampleParty CHR ''a'')" "isParticipant sampleThread2 (sampleParty CHR ''a'')"
    "th_market sampleThread1 = sampleParty CHR ''c''" "th_market sampleThread2 = sampleParty CHR ''c''" "th_offerId sampleThread1 = ''1''" "th_offerId sampleThread2 = ''1''"
    "th_sourceDigest sampleThread1 = replicate 64 CHR ''a''" "th_sourceDigest sampleThread2 = replicate 64 CHR ''a''"
    "nd_threads sampleDb1 = [sampleThread1]" "nd_threads sampleDb2 = [sampleThread2]" "nd_threads sampleDb3 = [sampleThread3]"
  by (simp_all add: sampleThread1_def sampleThread2_def isParticipant_def sampleDb1_def sampleDb2_def sampleDb3_def sampleRow_def)

lemma nsample_committed2: "committed sampleLib sampleSetup sampleHistory 80 (samplePrepared (sampleStep ''agree'' CHR ''4'' sampleThread1)) (Packed ''https://turret.capital'' 1000 sampleThread2)"
  by (rule nsample_committed_step [where t = 41 and r = sampleThread1 and db = sampleDb1, OF nsample_step_ok refl])
    (simp_all add: nsample_thread nsample_rows nsample_db nsample_commit2, simp add: nonceOf_def sampleDb1_def sampleRow_def emptyNegotiations_def nsample_nonces [THEN not_sym])

lemma nsample_committed3: "committed sampleLib sampleSetup sampleHistory 120 (samplePrepared (sampleStep ''start'' CHR ''5'' sampleThread2)) (Packed ''https://turret.capital'' 1000 sampleThread3)"
  by (rule nsample_committed_step [where t = 81 and r = sampleThread2 and db = sampleDb2, OF nsample_step_ok refl])
    (simp_all add: nsample_thread nsample_rows nsample_db nsample_commit3, simp add: nonceOf_def sampleDb2_def sampleDb1_def sampleRow_def emptyNegotiations_def nsample_nonces [THEN not_sym])

lemma nsample_serves: "serves sampleLib sampleSetup sampleHistory"
  unfolding serves_def
proof (intro conjI allI)
  fix t
  show "getThread (nw_db (sampleHistory t)) (nw_uuid (sampleHistory t)) = None"
    by (simp add: sampleHistory_def sampleWorldWith_def getThread_def nsample_rows emptyNegotiations_def nsample_thread)
  show "nw_db (sampleHistory (Suc t)) = nw_db (sampleHistory t) \<or> (\<exists>p result. committed sampleLib sampleSetup sampleHistory t p result)"
  proof (cases "t \<in> {40, 80, 120}")
    case True
    then show ?thesis using nsample_committed1 nsample_committed2 nsample_committed3 by auto
  next
    case False
    then have "t < 40 \<or> 40 < t \<and> t < 80 \<or> 80 < t \<and> t < 120 \<or> 120 < t" by auto
    then show ?thesis by (auto simp: sampleHistory_def sampleWorldWith_def)
  qed
qed (simp_all add: nsample_db)

lemma nsample_behind: "chainBehind sampleHistory"
  by (simp add: chainBehind_def sampleNow_def js_Number_def)

lemma nsample_at: "getThread (nw_db (sampleHistory 100)) (sampleUuid CHR ''a'') = Some sampleThread2"
    "getThread (nw_db (sampleHistory 130)) (sampleUuid CHR ''a'') = Some sampleThread3"
    "getThread (nw_db (sampleHistory 50)) (sampleUuid CHR ''a'') = Some sampleThread1"
    "th_state sampleThread2 = N_agreed" "th_state sampleThread3 = N_replacing"
  by (simp_all add: nsample_db getThread_def nsample_rows nsample_thread) (simp_all add: sampleThread2_def sampleThread3_def)

end
