(* ===== verification/Negotiation_Properties.thy ===== *)
theory Negotiation_Properties
  imports Negotiation_Sample
begin

text \<open>What the negotiation service guarantees, with a history in which an offer is countered and the counter-offer agreed.\<close>

lemma both_parties:
  "isParticipant r a \<Longrightarrow> isParticipant r b \<Longrightarrow> \<not> sameAddress a b \<Longrightarrow> \<not> sameAddress (th_lender r) (th_borrower r) \<Longrightarrow>
   {js_lower a, js_lower b} = {js_lower (th_lender r), js_lower (th_borrower r)}"
  unfolding isParticipant_def sameAddress_def by auto

text \<open>C4: the service refines the abstract protocol. The events stored for a conversation, each with a signature that was verified,
  are a run of \<open>protocolStep\<close> that ends in the deal the service keeps: the first is a borrower's open proposal, and every later one does what
  the protocol allows its signer (the party that answers agrees, only the lender leads the replacement). Later instants only add events, and with them steps,
  to that run. The server's clock is assumed not to go back and its random ids not to repeat.\<close>

theorem negotiation_refines_protocol:
  assumes "serves lib su w" and "getThread (nw_db (w t)) i = Some r"
  shows "(\<exists>first later d. conversation (nw_db (w t)) i = first # later \<and> opensDeal (labelOf first) d \<and> protocolRun (map labelOf later) d (dealOf r))
    \<and> (\<forall>ev \<in> set (conversation (nw_db (w t)) i). verifiedBefore w t (ne_envelope ev) (ne_signature ev))
    \<and> (\<exists>r' later. getThread (nw_db (w (t + n))) i = Some r' \<and> conversation (nw_db (w (t + n))) i = conversation (nw_db (w t)) i @ later
        \<and> protocolRun (map labelOf later) (dealOf r) (dealOf r'))"
proof -
  have "followed (conversation (nw_db (w t)) i) (dealOf r)" using history_followed [OF assms(1), of t i] assms(2) by simp
  moreover have "verifiedBefore w t (ne_envelope ev) (ne_signature ev)" if "ev \<in> set (conversation (nw_db (w t)) i)" for ev
    using events_verified [OF assms(1)] that by (simp add: conversation_def)
  ultimately show ?thesis using history_run [OF assms, of n] unfolding followed_def by blast
qed

theorem negotiation_refines_protocol_witness:
  "\<exists>first later d. conversation (nw_db (sampleHistory 130)) (sampleUuid CHR ''a'') = first # later
     \<and> opensDeal (labelOf first) d \<and> protocolRun (map labelOf later) d (dealOf sampleThread3) \<and> length later = 2"
proof -
  have three: "length (conversation (nw_db (sampleHistory 130)) (sampleUuid CHR ''a'')) = 3"
    by (simp add: conversation_def nsample_db sampleDb3_def sampleDb2_def sampleDb1_def sampleRow_def emptyNegotiations_def nsample_thread)
  obtain first later d where run: "conversation (nw_db (sampleHistory 130)) (sampleUuid CHR ''a'') = first # later"
      "opensDeal (labelOf first) d" "protocolRun (map labelOf later) d (dealOf sampleThread3)"
    using negotiation_refines_protocol [OF nsample_serves nsample_at(2), of 0] by blast
  with three show ?thesis by auto
qed

text \<open>C6: a conversation that counts as agreed carries the verified signatures of both of its parties on the same terms:
  one signed the proposal, the other an agreement that names the same source, parties and
  terms. Once it is funded, the replacement offer that the chain showed has these parties and terms.
  The server's clock never goes back and its random ids do not repeat (\<open>serves\<close>).\<close>

theorem agreement_is_mutual:
  assumes "serves lib su w" and "getThread (nw_db (w t)) i = Some r"
    and "th_state r \<in> {N_agreed, N_replacing, N_recovering, N_funding, N_funded}"
  shows "(\<exists>offer answer. proposedBy (nw_db (w t)) r offer \<and> agreedIn (nw_db (w t)) r answer
      \<and> verifiedBefore w t (ne_envelope offer) (ne_signature offer) \<and> verifiedBefore w t (ne_envelope answer) (ne_signature answer)
      \<and> {js_lower (textOf (ne_envelope offer) ''account''), js_lower (textOf (ne_envelope answer) ''account'')} = {js_lower (th_lender r), js_lower (th_borrower r)})
    \<and> js_lower (th_lender r) \<noteq> js_lower (th_borrower r)
    \<and> (th_state r = N_funded \<longrightarrow> (\<exists>x. map_option nr_id (th_replacement r) = Some (ns_id x) \<and> linkedTo lib w t x r))"
proof -
  have b: "backed lib w t r" by (rule always_backed [OF assms(1,2)])
  then have distinct: "\<not> sameAddress (th_lender r) (th_borrower r)" by (simp add: backed_def)
  from b assms(3) obtain offer answer where ev: "proposedBy (nw_db (w t)) r offer" "agreedIn (nw_db (w t)) r answer"
    unfolding backed_def started_def by blast
  then have ver: "verifiedBefore w t (ne_envelope offer) (ne_signature offer)" "verifiedBefore w t (ne_envelope answer) (ne_signature answer)"
    using events_verified [OF assms(1)] by (simp_all add: proposedBy_def agreedIn_def)
  have "signer (ne_envelope offer) = np_author (th_latest r)" using ev(1) by (simp add: proposedBy_def)
  moreover have "isParticipant r (np_author (th_latest r))" using b by (simp add: backed_def)
  moreover have "isParticipant r (signer (ne_envelope answer))" "\<not> sameAddress (np_author (th_latest r)) (signer (ne_envelope answer))"
    using ev(2) by (simp_all add: agreedIn_def)
  ultimately have "{js_lower (signer (ne_envelope offer)), js_lower (signer (ne_envelope answer))} = {js_lower (th_lender r), js_lower (th_borrower r)}"
    using both_parties distinct by simp
  then show ?thesis using ev ver distinct b unfolding backed_def sameAddress_def by blast
qed

theorem agreement_is_mutual_witness:
  "\<exists>offer answer. proposedBy (nw_db (sampleHistory 100)) sampleThread2 offer \<and> agreedIn (nw_db (sampleHistory 100)) sampleThread2 answer"
  using agreement_is_mutual [OF nsample_serves nsample_at(1)] nsample_at(4) by blast

text \<open>C14: if no block's time is ahead of the server's clock, an offer has at most one conversation whose
  replacement is under way or done, whatever requests are in progress at the same time.
  The server's clock never goes back and its random ids do not repeat (\<open>serves\<close>).\<close>

theorem one_replacement_per_offer:
  assumes "serves lib su w" and "chainBehind w"
    and "getThread (nw_db (w t)) i = Some r" and "th_state r \<in> {N_replacing, N_recovering, N_funding, N_funded}"
    and "getThread (nw_db (w t)) j = Some r'" and "th_state r' \<in> {N_replacing, N_recovering, N_funding, N_funded}"
    and "th_sourceKey r = th_sourceKey r'"
  shows "i = j"
proof -
  note sel = selectionsOkD [OF always_selected [OF assms(1,2)]]
  have "nd_selections (nw_db (w t)) (th_sourceKey r) = Some i" by (rule sel [OF assms(3)]) (use assms(4) in \<open>simp add: started_def\<close>)
  moreover have "nd_selections (nw_db (w t)) (th_sourceKey r') = Some j" by (rule sel [OF assms(5)]) (use assms(6) in \<open>simp add: started_def\<close>)
  ultimately show ?thesis using assms(7) by simp
qed

theorem one_replacement_per_offer_witness:
  "\<exists>!i. \<exists>r. getThread (nw_db (sampleHistory 130)) i = Some r \<and> th_state r = N_replacing \<and> th_sourceKey r = th_sourceKey sampleThread3"
proof (rule ex1I [of _ "sampleUuid CHR ''a''"], rule exI [of _ sampleThread3], intro conjI refl, rule nsample_at(2), rule nsample_at(5), elim exE conjE)
  fix j r'
  assume "getThread (nw_db (sampleHistory 130)) j = Some r'" "th_state r' = N_replacing" "th_sourceKey r' = th_sourceKey sampleThread3"
  then show "j = sampleUuid CHR ''a''"
    by (intro one_replacement_per_offer [OF nsample_serves nsample_behind _ _ nsample_at(2), where r = r']) (simp_all add: nsample_at(5))
qed

text \<open>C16: a signed action is applied once: its nonce is in at most one event, and committing the same request again, even
  when its checks ran before the first commit, returns the stored result and leaves the database as it is.
  The server's clock never goes back and its random ids do not repeat (\<open>serves\<close>).\<close>

theorem signed_action_once:
  assumes "serves lib su w" and "committed lib su w t p result" and "t < t'"
  shows "distinct (map (\<lambda>ev. nonceKey (ne_envelope ev)) (nd_events (nw_db (w t'))))
    \<and> (\<forall>again db. commit lib su p (w t') = Inr (again, db) \<longrightarrow> again = result \<and> db = nw_db (w t'))"
proof -
  obtain nn where "nonceOf (nw_db (w (Suc t))) (nonceKey (pr_envelope p)) = Some nn" "nn_result nn = result"
    by (cases rule: committedE [OF assms(1,2)]) (auto simp: nonceOf_def map_add_def)
  then show ?thesis
    using commit_stored [OF nonce_stays [OF Suc_leI [OF assms(3)] assms(1)]] events_once [OF assms(1)] by blast
qed

theorem signed_action_once_witness:
  "length (nd_events (nw_db (sampleHistory 130))) = 3
   \<and> distinct (map (\<lambda>ev. nonceKey (ne_envelope ev)) (nd_events (nw_db (sampleHistory 130))))"
  using signed_action_once [OF nsample_serves nsample_committed1, of 130]
  by (simp add: nsample_db sampleDb3_def sampleDb2_def sampleDb1_def sampleRow_def emptyNegotiations_def)

end
