(* ===== verification/Cashback_Quote.thy ===== *)
theory Cashback_Quote
  imports JS_Runtime
begin

text \<open>
  shared/borrower-cashback.mjs: the estimate of the interest a borrower gets back. Amounts
  are integers, configured numbers are JavaScript numbers that the code checks before it
  computes with them.
\<close>

definition INTEREST_DENOMINATOR :: int where
  "INTEREST_DENOMINATOR = 10000 * 365 * 86400"

definition ceilDiv :: "int \<Rightarrow> int \<Rightarrow> int" where
  "ceilDiv a b = tdiv (a + b - 1) b"

fun num :: "js_number \<Rightarrow> int" where
  "num (JS_int n) = n"
| "num _ = 0"

definition safe_natural :: "js_number \<Rightarrow> bool" where
  "safe_natural x \<longleftrightarrow> safe_number x \<and> 0 \<le> num x"

record campaign =
  cp_startsAt :: js_number
  cp_endsAt :: js_number
  cp_settlementDeadline :: js_number
  cp_claimDeadline :: js_number
  cp_rebateBps :: js_number

record enrollment =
  en_startsAt :: js_number
  en_cap :: int
  en_committed :: int

datatype quote_status = Inactive | Ended | NotEnrolled | NotStarted | Enrolled_status

record estimate =
  es_gross :: int
  es_eligible :: int
  es_rebate :: int
  es_net :: int
  es_covered :: int
  es_capped :: bool
  es_status :: quote_status

definition validLoan :: "int \<Rightarrow> js_number \<Rightarrow> js_number \<Rightarrow> js_number \<Rightarrow> bool" where
  "validLoan amount aprBps now days \<longleftrightarrow> 0 \<le> amount \<and> safe_natural aprBps \<and> safe_natural now \<and> safe_natural days \<and> num days \<le> 3650"

definition validCampaign :: "'a campaign_scheme \<Rightarrow> bool" where
  "validCampaign c \<longleftrightarrow> safe_number (cp_startsAt c) \<and> safe_number (cp_endsAt c) \<and> safe_number (cp_settlementDeadline c)
     \<and> safe_number (cp_claimDeadline c) \<and> safe_number (cp_rebateBps c)
     \<and> 0 \<le> num (cp_startsAt c) \<and> num (cp_startsAt c) < num (cp_endsAt c) \<and> num (cp_endsAt c) \<le> num (cp_settlementDeadline c)
     \<and> num (cp_settlementDeadline c) < num (cp_claimDeadline c) \<and> num (cp_rebateBps c) = 5000"

definition validEnrollment :: "'a campaign_scheme \<Rightarrow> enrollment \<Rightarrow> bool" where
  "validEnrollment c e \<longleftrightarrow> safe_number (en_startsAt e) \<and> num (cp_startsAt c) \<le> num (en_startsAt e)
     \<and> num (en_startsAt e) < num (cp_endsAt c) \<and> 0 < en_cap e \<and> 0 \<le> en_committed e \<and> en_committed e \<le> en_cap e"

definition emptyEstimate :: "int \<Rightarrow> quote_status \<Rightarrow> estimate" where
  "emptyEstimate gross status = \<lparr>es_gross = gross, es_eligible = 0, es_rebate = 0, es_net = gross,
     es_covered = 0, es_capped = False, es_status = status\<rparr>"

definition enrolledEstimate :: "int \<Rightarrow> int \<Rightarrow> int \<Rightarrow> int \<Rightarrow> int \<Rightarrow> 'a campaign_scheme \<Rightarrow> enrollment \<Rightarrow> estimate" where
  "enrolledEstimate amount aprBps now seconds gross c e =
     (let covered = max 0 (min (now + seconds) (num (cp_endsAt c)) - now);
          numerator = amount * aprBps * covered;
          eligible = tdiv numerator INTEREST_DENOMINATOR;
          uncapped = tdiv (numerator * num (cp_rebateBps c)) (INTEREST_DENOMINATOR * 10000);
          rebate = min uncapped (en_cap e - en_committed e) in
      \<lparr>es_gross = gross, es_eligible = eligible, es_rebate = rebate, es_net = gross - rebate,
        es_covered = covered, es_capped = (rebate < uncapped), es_status = Enrolled_status\<rparr>)"

definition quoteCashback ::
    "int \<Rightarrow> js_number \<Rightarrow> js_number \<Rightarrow> js_number \<Rightarrow> 'a campaign_scheme option \<Rightarrow> enrollment option \<Rightarrow> estimate outcome" where
  "quoteCashback amount aprBps now days campaign enrollment =
     demand (validLoan amount aprBps now days) ''Invalid loan estimate''
      (let seconds = num days * 86400;
           gross = ceilDiv (amount * num aprBps * seconds) INTEREST_DENOMINATOR in
       case campaign of None \<Rightarrow> Inr (emptyEstimate gross Inactive) | Some c \<Rightarrow>
       demand (validCampaign c) ''Invalid cashback campaign''
       (if num now \<ge> num (cp_endsAt c) then Inr (emptyEstimate gross Ended) else
        case enrollment of None \<Rightarrow> Inr (emptyEstimate gross NotEnrolled) | Some e \<Rightarrow>
        demand (validEnrollment c e) ''Invalid cashback enrollment''
        (if num now < num (en_startsAt e) then Inr (emptyEstimate gross NotStarted) else
         Inr (enrolledEstimate amount (num aprBps) (num now) seconds gross c e))))"

section \<open>Half of the covered interest, within the cap\<close>

lemma INTEREST_DENOMINATOR_pos: "0 < INTEREST_DENOMINATOR"
  by (simp add: INTEREST_DENOMINATOR_def)

lemma half_rate: "0 \<le> n \<Longrightarrow> 2 * tdiv (n * 5000) (INTEREST_DENOMINATOR * 10000) \<le> tdiv n INTEREST_DENOMINATOR"
proof -
  assume n: "0 \<le> n"
  have "n * 5000 div (INTEREST_DENOMINATOR * 10000) = n div (INTEREST_DENOMINATOR * 2)"
    using div_mult_mult2 [of 5000 n "INTEREST_DENOMINATOR * 2"] by simp
  also have "\<dots> = n div INTEREST_DENOMINATOR div 2"
    using zdiv_zmult2_eq [of 2 n INTEREST_DENOMINATOR] by simp
  finally show ?thesis using n INTEREST_DENOMINATOR_pos by simp
qed

lemma ceilDiv_ge: "0 < b \<Longrightarrow> 0 \<le> a \<Longrightarrow> tdiv a b \<le> ceilDiv a b"
  by (simp add: ceilDiv_def zdiv_mono1)

lemma ceilDiv_nonneg: "0 < b \<Longrightarrow> 0 \<le> a \<Longrightarrow> 0 \<le> ceilDiv a b"
  by (simp add: ceilDiv_def pos_imp_zdiv_nonneg_iff)

lemma quote_bounds:
  fixes campaign :: "'a campaign_scheme option"
  assumes "quoteCashback amount aprBps now days campaign enrollment = Inr q"
  shows "0 \<le> es_rebate q \<and> 2 * es_rebate q \<le> es_eligible q \<and> es_eligible q \<le> es_gross q \<and> es_net q = es_gross q - es_rebate q"
proof -
  let ?s = "num days * 86400" and ?D = INTEREST_DENOMINATOR
  have loan: "0 \<le> amount" "0 \<le> num aprBps" "0 \<le> ?s"
    using assms by (auto simp: quoteCashback_def demand_Inr validLoan_def safe_natural_def)
  then have gross: "0 \<le> amount * num aprBps * ?s" by simp
  have empty: ?thesis if "q = emptyEstimate (ceilDiv (amount * num aprBps * ?s) ?D) st" for st
    using that ceilDiv_nonneg [OF INTEREST_DENOMINATOR_pos gross] by (simp add: emptyEstimate_def)
  consider (empty) st where "q = emptyEstimate (ceilDiv (amount * num aprBps * ?s) ?D) st"
    | (quoted) c :: "'a campaign_scheme" and e where "validCampaign c" "validEnrollment c e"
      "q = enrolledEstimate amount (num aprBps) (num now) ?s (ceilDiv (amount * num aprBps * ?s) ?D) c e"
    using assms unfolding quoteCashback_def demand_Inr Let_def
    by (cases campaign; cases enrollment) (auto simp: demand_Inr split: if_splits)
  then show ?thesis
  proof cases
    case quoted
    define n where "n = amount * num aprBps * max 0 (min (num now + ?s) (num (cp_endsAt c)) - num now)"
    have "0 \<le> n" using loan by (simp add: n_def)
    have "n \<le> amount * num aprBps * ?s"
      unfolding n_def using loan by (intro mult_left_mono) auto
    then have "tdiv n ?D \<le> tdiv (amount * num aprBps * ?s) ?D"
      using \<open>0 \<le> n\<close> gross INTEREST_DENOMINATOR_pos by (simp add: zdiv_mono1)
    also have "\<dots> \<le> ceilDiv (amount * num aprBps * ?s) ?D" by (rule ceilDiv_ge [OF INTEREST_DENOMINATOR_pos gross])
    finally have eligible: "tdiv n ?D \<le> ceilDiv (amount * num aprBps * ?s) ?D" .
    have nonneg: "0 \<le> tdiv (n * 5000) (?D * 10000)" using \<open>0 \<le> n\<close> INTEREST_DENOMINATOR_pos by (simp add: pos_imp_zdiv_nonneg_iff)
    have "num (cp_rebateBps c) = 5000" "0 \<le> en_cap e - en_committed e" using quoted by (simp_all add: validCampaign_def validEnrollment_def)
    moreover have "es_rebate q = min (tdiv (n * num (cp_rebateBps c)) (?D * 10000)) (en_cap e - en_committed e)"
      "es_eligible q = tdiv n ?D" "es_gross q = ceilDiv (amount * num aprBps * ?s) ?D" "es_net q = es_gross q - es_rebate q"
      unfolding quoted(3) by (simp_all add: enrolledEstimate_def n_def [symmetric] Let_def)
    ultimately show ?thesis using eligible nonneg half_rate [OF \<open>0 \<le> n\<close>] by (auto simp: min_def)
  qed (rule empty)
qed

end
