(* ===== verification/JS_Map.thy ===== *)
theory JS_Map
  imports JS_Runtime "HOL-Library.AList"
begin

text \<open>
  A JavaScript \<open>Map\<close> or a table in the order of its first insertions: an association list
  whose keys are distinct. \<open>set\<close> is \<open>AList.update\<close>, \<open>get\<close> is \<open>map_of\<close>, and a sum over the
  values changes by the difference of the written entry.
\<close>

definition keys_distinct :: "('k \<times> 'v) list \<Rightarrow> bool" where
  "keys_distinct m \<longleftrightarrow> distinct (map fst m)"

lemma keys_distinct_empty [simp]: "keys_distinct []"
  by (simp add: keys_distinct_def)

lemma keys_distinct_put [simp]: "keys_distinct m \<Longrightarrow> keys_distinct (AList.update k v m)"
  by (simp add: keys_distinct_def distinct_update)

lemma map_of_put [simp]: "map_of (AList.update k v m) = (map_of m)(k \<mapsto> v)"
  by (rule ext) (simp add: update_conv')

lemma set_put: "x \<in> set (AList.update k v m) \<Longrightarrow> x = (k, v) \<or> x \<in> set m"
  by (induction m) (auto split: if_splits)

definition values_total :: "('v \<Rightarrow> int) \<Rightarrow> ('k \<times> 'v) list \<Rightarrow> int" where
  "values_total f m = sum_list (map (\<lambda>e. f (snd e)) m)"

lemma values_total_simps [simp]:
  "values_total f [] = 0"
  "values_total f (e # m) = f (snd e) + values_total f m"
  by (simp_all add: values_total_def)

lemma values_total_put:
  "keys_distinct m \<Longrightarrow> values_total f (AList.update k v m) = values_total f m + f v - (case map_of m k of None \<Rightarrow> 0 | Some u \<Rightarrow> f u)"
proof (induction m)
  case (Cons e m)
  show ?case
  proof (cases "fst e = k")
    case True
    with Cons.prems show ?thesis by (cases e) (auto simp: keys_distinct_def)
  next
    case False
    with Cons show ?thesis by (cases e) (auto simp: keys_distinct_def)
  qed
qed simp

text \<open>An invariant of every value is kept by a write that establishes it.\<close>

lemma all_values_put: "\<forall>(k, v) \<in> set m. P k v \<Longrightarrow> P k v \<Longrightarrow> \<forall>(k, v) \<in> set (AList.update k v m). P k v"
  using set_put by fastforce

lemma sum_list_reorder:
  fixes f :: "'a \<Rightarrow> int"
  assumes "mset xs = mset ys"
  shows "sum_list (map f xs) = sum_list (map f ys)"
proof -
  have eq: "sum_list (map f zs) = (\<Sum>x \<in># mset zs. f x)" for zs
    by (induction zs) simp_all
  show ?thesis unfolding eq assms ..
qed


end
