(* ===== verification/Cashback_Accounting.thy ===== *)
theory Cashback_Accounting
  imports Cashback_Quote JS_Map
begin

text \<open>
  services/borrower-cashback/src/accounting.mjs: the rebates of every borrower, replayed from
  the complete receipts of the lending engines. Interest is kept in units of one
  \<open>INTEREST_DENOMINATOR\<close>-th of a base unit, as the engine's remainder is. The order
  \<open>localeCompare\<close> gives texts is a parameter.
\<close>

section \<open>Receipts and positions\<close>

text \<open>Amounts reach the service as decimal text, instants as numbers.\<close>

datatype cash_event =
    Enrolled string string string js_number
  | Borrowed string string string
  | Repaid string string string string
  | PositionLoss string string string string
  | Liquidated string string
  | Published string int string
  | OtherEvent

record cash_receipt =
  cr_timestamp :: js_number
  cr_hash :: string
  cr_events :: "cash_event list"

record policy = campaign +
  cp_engines :: "(string \<times> js_number) list"
  cp_walletCap :: "string option"

record chunk =
  ch_total :: int
  ch_eligible :: int

record cash_position =
  ps_borrower :: string
  ps_engine :: string
  ps_principal :: int
  ps_eligible :: int
  ps_updatedAt :: int
  ps_accrual :: "chunk list"
  ps_paid :: int
  ps_confirmed :: int
  ps_enrolled :: "(int \<times> int) option"

record books =
  bk_positions :: "(string \<times> cash_position) list"
  bk_awarded :: "string \<rightharpoonup> int"
  bk_seen :: "string list"
  bk_last :: int

record account_row =
  ar_borrower :: string
  ar_engine :: string
  ar_startsAt :: int
  ar_cap :: int
  ar_principal :: int
  ar_eligible :: int
  ar_unpaid :: int
  ar_estimated :: int
  ar_confirmed :: int
  ar_paid :: int
  ar_committed :: int

definition amount :: "string \<Rightarrow> int outcome" where
  "amount value = and_then (js_BigInt value) (\<lambda>n. demand (0 \<le> n \<and> n < 2 ^ 256) ''Invalid receipt amount'' (Inr n))"

definition key :: "string \<Rightarrow> string \<Rightarrow> string" where
  "key borrower engine = js_lower borrower @ '':'' @ js_lower engine"

definition validRate :: "js_number \<Rightarrow> bool" where
  "validRate a \<longleftrightarrow> safe_natural a \<and> num a \<le> 10000"

text \<open>The engines by lower-case address; of two that agree the last one counts.\<close>

definition engineRate :: "policy \<Rightarrow> string \<Rightarrow> js_number option" where
  "engineRate pol engine = map_of (rev (map (\<lambda>(a, r). (js_lower a, r)) (cp_engines pol))) engine"

definition rateOf :: "policy \<Rightarrow> string \<Rightarrow> int" where
  "rateOf pol engine = (case engineRate pol engine of Some r \<Rightarrow> num r | None \<Rightarrow> 0)"

section \<open>Interest\<close>

definition boundaries :: "policy \<Rightarrow> int \<Rightarrow> int \<Rightarrow> int list" where
  "boundaries pol updated timestamp = js_sort (\<lambda>a b. a - b)
     (filter (\<lambda>t. updated \<le> t \<and> t \<le> timestamp) [updated, num (cp_startsAt pol), num (cp_endsAt pol), timestamp])"

definition chunkOf :: "policy \<Rightarrow> cash_position \<Rightarrow> int \<times> int \<Rightarrow> chunk list" where
  "chunkOf pol p = (\<lambda>(from, till).
     let factor = (till - from) * rateOf pol (ps_engine p);
         earned = ps_principal p * factor;
         eligible = (if num (cp_startsAt pol) \<le> from \<and> till \<le> num (cp_endsAt pol) then ps_eligible p * factor else 0) in
     if earned > 0 then [\<lparr>ch_total = earned, ch_eligible = eligible\<rparr>] else [])"

definition accrue :: "policy \<Rightarrow> int \<Rightarrow> cash_position \<Rightarrow> cash_position outcome" where
  "accrue pol timestamp p =
     demand (ps_updatedAt p \<le> timestamp) ''Receipt time moved backwards''
      (let bs = boundaries pol (ps_updatedAt p) timestamp in
       Inr (p\<lparr>ps_accrual := ps_accrual p @ concat (map (chunkOf pol p) (zip bs (tl bs))), ps_updatedAt := timestamp\<rparr>))"

definition unpaid :: "cash_position \<Rightarrow> int" where
  "unpaid p = sum_list (map ch_total (ps_accrual p))"

definition unpaidEligible :: "cash_position \<Rightarrow> int" where
  "unpaidEligible p = sum_list (map ch_eligible (ps_accrual p))"

text \<open>
  The loop over the oldest chunks. A chunk that is not used up is where the payment ends,
  since then all that remained of it has been used.
\<close>

fun consumeChunks :: "chunk list \<Rightarrow> int \<Rightarrow> int \<Rightarrow> (chunk list \<times> int) outcome" where
  "consumeChunks [] remaining eligiblePaid =
     (if remaining > 0 then Inl ''TypeError'' else Inr ([], eligiblePaid))"
| "consumeChunks (c # cs) remaining eligiblePaid =
     (if remaining > 0 then
        (if ch_total c = 0 then Inl ''RangeError'' else
         let used = min remaining (ch_total c);
             eligible = tdiv (ch_eligible c * used) (ch_total c) in
         if ch_total c - used = 0 then consumeChunks cs (remaining - used) (eligiblePaid + eligible)
         else Inr (\<lparr>ch_total = ch_total c - used, ch_eligible = ch_eligible c - eligible\<rparr> # cs, eligiblePaid + eligible))
      else Inr (c # cs, eligiblePaid))"

definition consumeInterest :: "cash_position \<Rightarrow> int \<Rightarrow> bool \<Rightarrow> cash_position outcome" where
  "consumeInterest p paid earns =
     demand (paid * INTEREST_DENOMINATOR \<le> unpaid p) ''Paid interest exceeds replayed accrual; incomplete history or wrong APR''
      (and_then (consumeChunks (ps_accrual p) (paid * INTEREST_DENOMINATOR) 0) (\<lambda>(cs, eligible).
       Inr (p\<lparr>ps_accrual := cs, ps_paid := (if earns then ps_paid p + eligible else ps_paid p)\<rparr>)))"

definition rebateOf :: "int \<Rightarrow> int" where
  "rebateOf eligiblePaid = tdiv (eligiblePaid * 5000) (INTEREST_DENOMINATOR * 10000)"

section \<open>Events\<close>

definition newPosition :: "string \<Rightarrow> string \<Rightarrow> int \<Rightarrow> cash_position" where
  "newPosition borrower engine timestamp = \<lparr>ps_borrower = borrower, ps_engine = engine, ps_principal = 0, ps_eligible = 0,
     ps_updatedAt = timestamp, ps_accrual = [], ps_paid = 0, ps_confirmed = 0, ps_enrolled = None\<rparr>"

definition onEnrolled :: "policy \<Rightarrow> int option \<Rightarrow> int \<Rightarrow> string \<Rightarrow> js_number \<Rightarrow> cash_position \<Rightarrow> cash_position outcome" where
  "onEnrolled pol cap timestamp value startsAt p =
     and_then (amount value) (\<lambda>c.
     demand (ps_enrolled p = None \<and> c \<noteq> 0 \<and> startsAt = JS_int (max timestamp (num (cp_startsAt pol)))
       \<and> timestamp < num (cp_endsAt pol)) ''Invalid enrollment receipt''
    (demand (cap = None \<or> cap = Some c) ''Public enrollment cap mismatch''
      (Inr (p\<lparr>ps_enrolled := Some (num startsAt, c)\<rparr>))))"

definition onBorrowed :: "policy \<Rightarrow> int \<Rightarrow> string \<Rightarrow> cash_position \<Rightarrow> cash_position outcome" where
  "onBorrowed pol timestamp value p =
     and_then (amount value) (\<lambda>drawn.
     Inr (p\<lparr>ps_principal := ps_principal p + drawn,
            ps_eligible := (case ps_enrolled p of
               Some (start, _) \<Rightarrow> if start \<le> timestamp \<and> timestamp < num (cp_endsAt pol) then ps_eligible p + drawn else ps_eligible p
             | None \<Rightarrow> ps_eligible p)\<rparr>))"

text \<open>The award of a public campaign: what the position has earned, as far as the wallet's cap allows.\<close>

definition award :: "int option \<Rightarrow> string \<Rightarrow> cash_position \<Rightarrow> (string \<rightharpoonup> int) \<Rightarrow> cash_position \<times> (string \<rightharpoonup> int)" where
  "award cap borrower p awarded = (case (cap, ps_enrolled p) of
     (Some walletCap, Some _) \<Rightarrow>
       (let earned = min walletCap (rebateOf (ps_paid p));
            used = (case awarded borrower of Some u \<Rightarrow> u | None \<Rightarrow> 0);
            delta = min (earned - ps_confirmed p) (walletCap - used) in
        (p\<lparr>ps_confirmed := ps_confirmed p + delta\<rparr>, awarded(borrower \<mapsto> used + delta)))
   | _ \<Rightarrow> (p, awarded))"

definition repayPrincipal :: "int \<Rightarrow> cash_position \<Rightarrow> cash_position outcome" where
  "repayPrincipal due p =
     demand (due \<le> ps_principal p) ''Principal repayment exceeds replayed draws''
      (let q = p\<lparr>ps_principal := ps_principal p - due, ps_eligible := ps_eligible p - min due (ps_eligible p)\<rparr> in
       demand (\<not> (due > 0 \<and> unpaid q \<ge> INTEREST_DENOMINATOR)) ''Principal paid before interest''
        (Inr (if ps_principal q = 0 \<and> unpaid q < INTEREST_DENOMINATOR then q\<lparr>ps_accrual := []\<rparr> else q)))"

definition onRepaid :: "policy \<Rightarrow> int option \<Rightarrow> string \<Rightarrow> bool \<Rightarrow> int \<Rightarrow> string \<Rightarrow> string \<Rightarrow> cash_position \<Rightarrow> (string \<rightharpoonup> int)
    \<Rightarrow> (cash_position \<times> (string \<rightharpoonup> int)) outcome" where
  "onRepaid pol cap borrower liquidated timestamp due interest p awarded =
     and_then (amount due) (\<lambda>a. and_then (amount interest) (\<lambda>i.
     and_then (consumeInterest p i (ps_enrolled p \<noteq> None \<and> \<not> liquidated \<and> timestamp \<le> num (cp_settlementDeadline pol))) (\<lambda>q.
     let (q', awarded') = award cap borrower q awarded in
     and_then (repayPrincipal a q') (\<lambda>q''. Inr (q'', awarded')))))"

definition onLoss :: "string \<Rightarrow> string \<Rightarrow> cash_position \<Rightarrow> cash_position outcome" where
  "onLoss due interest p =
     and_then (amount due) (\<lambda>a.
     demand (a = ps_principal p) ''Recognized loss does not match replayed debt''
    (and_then (amount interest) (\<lambda>i.
     demand (i = tdiv (unpaid p) INTEREST_DENOMINATOR) ''Recognized loss does not match replayed debt''
      (Inr (p\<lparr>ps_principal := 0, ps_eligible := 0, ps_accrual := []\<rparr>)))))"

definition onPosition :: "policy \<Rightarrow> int \<Rightarrow> string \<Rightarrow> string \<Rightarrow> books
    \<Rightarrow> (cash_position \<Rightarrow> (string \<rightharpoonup> int) \<Rightarrow> (cash_position \<times> (string \<rightharpoonup> int)) outcome) \<Rightarrow> books outcome" where
  "onPosition pol timestamp borrower engine s f =
     (let b = js_lower borrower; e = js_lower engine; id = key b e in
      demand (engineRate pol e \<noteq> None) ''Unapproved engine in receipt''
       (let p = (case map_of (bk_positions s) id of Some p \<Rightarrow> p | None \<Rightarrow> newPosition b e timestamp) in
        and_then (accrue pol timestamp p) (\<lambda>q. and_then (f q (bk_awarded s)) (\<lambda>(r, awarded).
        Inr (s\<lparr>bk_positions := AList.update id r (bk_positions s), bk_awarded := awarded\<rparr>)))))"

fun stepEvent :: "policy \<Rightarrow> int option \<Rightarrow> string list \<Rightarrow> int \<Rightarrow> cash_event \<Rightarrow> books \<Rightarrow> books outcome" where
  "stepEvent pol cap liquidated t (Enrolled b e value startsAt) s =
     onPosition pol t b e s (\<lambda>p aw. and_then (onEnrolled pol cap t value startsAt p) (\<lambda>q. Inr (q, aw)))"
| "stepEvent pol cap liquidated t (Borrowed b e value) s =
     onPosition pol t b e s (\<lambda>p aw. and_then (onBorrowed pol t value p) (\<lambda>q. Inr (q, aw)))"
| "stepEvent pol cap liquidated t (Repaid b e due interest) s =
     onPosition pol t b e s (onRepaid pol cap (js_lower b) (key b e \<in> set liquidated) t due interest)"
| "stepEvent pol cap liquidated t (PositionLoss b e due interest) s =
     onPosition pol t b e s (\<lambda>p aw. and_then (onLoss due interest p) (\<lambda>q. Inr (q, aw)))"
| "stepEvent pol cap liquidated t _ s = Inr s"

fun liquidatedKey :: "cash_event \<Rightarrow> string list" where
  "liquidatedKey (Liquidated b e) = [key b e]"
| "liquidatedKey _ = []"

definition stepReceipt :: "policy \<Rightarrow> int option \<Rightarrow> cash_receipt \<Rightarrow> books \<Rightarrow> books outcome" where
  "stepReceipt pol cap r s =
     demand (safe_number (cr_timestamp r) \<and> bk_last s \<le> num (cr_timestamp r) \<and> cr_hash r \<noteq> '''' \<and> cr_hash r \<notin> set (bk_seen s))
       ''Duplicate or unordered receipt''
      (fold_outcome (stepEvent pol cap (concat (map liquidatedKey (cr_events r))) (num (cr_timestamp r))) (cr_events r)
        (s\<lparr>bk_seen := cr_hash r # bk_seen s, bk_last := num (cr_timestamp r)\<rparr>))"

section \<open>The accounts\<close>

definition accountRow :: "policy \<Rightarrow> int option \<Rightarrow> int \<Rightarrow> cash_position \<Rightarrow> (string \<rightharpoonup> int) \<Rightarrow> (account_row \<times> (string \<rightharpoonup> int)) outcome" where
  "accountRow pol walletCap timestamp q projected =
     and_then (accrue pol timestamp q) (\<lambda>p.
     let (start, cap) = (case ps_enrolled p of Some e \<Rightarrow> e | None \<Rightarrow> (0, 0));
         confirmed = (case walletCap of None \<Rightarrow> min cap (rebateOf (ps_paid p)) | Some _ \<Rightarrow> ps_confirmed p);
         most = (if timestamp > num (cp_settlementDeadline pol) then confirmed
                 else min cap (rebateOf (ps_paid p + unpaidEligible p)));
         (committed, projected') = (case walletCap of None \<Rightarrow> (most, projected)
           | Some w \<Rightarrow>
               (let used = (case projected (ps_borrower p) of Some u \<Rightarrow> u | None \<Rightarrow> 0);
                    extra = min (most - confirmed) (w - used) in
                (confirmed + extra, projected(ps_borrower p \<mapsto> used + extra)))) in
     Inr (\<lparr>ar_borrower = ps_borrower p, ar_engine = ps_engine p, ar_startsAt = start, ar_cap = cap,
        ar_principal = ps_principal p, ar_eligible = ps_eligible p, ar_unpaid = tdiv (unpaid p) INTEREST_DENOMINATOR,
        ar_estimated = committed - confirmed, ar_confirmed = confirmed, ar_paid = tdiv (ps_paid p) INTEREST_DENOMINATOR,
        ar_committed = committed\<rparr>, projected'))"

fun accountRows :: "policy \<Rightarrow> int option \<Rightarrow> int \<Rightarrow> cash_position list \<Rightarrow> (string \<rightharpoonup> int) \<Rightarrow> account_row list outcome" where
  "accountRows pol walletCap t [] projected = Inr []"
| "accountRows pol walletCap t (p # ps) projected =
     and_then (accountRow pol walletCap t p projected) (\<lambda>(row, projected').
     and_then (accountRows pol walletCap t ps projected') (\<lambda>rows. Inr (row # rows)))"

definition publicCap :: "policy \<Rightarrow> int option outcome" where
  "publicCap pol = (case cp_walletCap pol of None \<Rightarrow> Inr None
     | Some v \<Rightarrow> and_then (amount v) (\<lambda>n. demand (n = 25000000) ''Invalid public wallet cap'' (Inr (Some n))))"

definition replay :: "policy \<Rightarrow> cash_receipt list \<Rightarrow> (books \<times> int option) outcome" where
  "replay pol receipts =
     and_then (quoteCashback 0 (JS_int 0) (cp_startsAt pol) (JS_int 0) (Some pol) None) (\<lambda>_.
     demand (list_all (\<lambda>(_, r). validRate r) (cp_engines pol)) ''Invalid engine APR''
    (and_then (publicCap pol) (\<lambda>cap.
     and_then (fold_outcome (stepReceipt pol cap) receipts \<lparr>bk_positions = [], bk_awarded = Map.empty, bk_seen = [], bk_last = 0\<rparr>)
       (\<lambda>s. Inr (s, cap)))))"

definition accountReceipts ::
    "(string \<Rightarrow> string \<Rightarrow> int) \<Rightarrow> policy \<Rightarrow> cash_receipt list \<Rightarrow> js_number option \<Rightarrow> account_row list outcome" where
  "accountReceipts localeCompare pol receipts asOf =
     and_then (replay pol receipts) (\<lambda>(s, cap).
     let timestamp = (case asOf of Some t \<Rightarrow> t | None \<Rightarrow> JS_int (bk_last s)) in
     demand (safe_number timestamp \<and> bk_last s \<le> num timestamp) ''Invalid accounting timestamp''
      (let open_ps = filter (\<lambda>p. ps_enrolled p \<noteq> None) (map snd (bk_positions s));
           ordered = js_sort (\<lambda>a b. localeCompare (key (ps_borrower a) (ps_engine a)) (key (ps_borrower b) (ps_engine b))) open_ps in
       and_then (accountRows pol cap (num timestamp) ordered (bk_awarded s)) (\<lambda>rows.
       Inr (js_sort (\<lambda>a b. localeCompare (key (ar_borrower a) (ar_engine a)) (key (ar_borrower b) (ar_engine b))) rows))))"

end
