(* ===== verification/Cashback_Invariant.thy ===== *)
theory Cashback_Invariant
  imports Cashback_Accounting
begin

text \<open>
  What every replay of receipts keeps: positions are sound (eligible principal within the
  principal, eligible interest within the interest, the confirmed rebate within half of the
  eligible interest paid), and in a public campaign the awards of a wallet are the sum
  of what its positions have confirmed and stay within the cap.
\<close>

section \<open>Sound positions\<close>

definition soundChunk :: "chunk \<Rightarrow> bool" where
  "soundChunk c \<longleftrightarrow> 0 < ch_total c \<and> 0 \<le> ch_eligible c \<and> ch_eligible c \<le> ch_total c"

definition soundPosition :: "int option \<Rightarrow> cash_position \<Rightarrow> bool" where
  "soundPosition cap p \<longleftrightarrow> 0 \<le> ps_eligible p \<and> ps_eligible p \<le> ps_principal p \<and> (\<forall>c \<in> set (ps_accrual p). soundChunk c)
     \<and> 0 \<le> ps_paid p \<and> 0 \<le> ps_confirmed p \<and> ps_confirmed p \<le> rebateOf (ps_paid p)
     \<and> (\<forall>w. cap = Some w \<longrightarrow> ps_confirmed p \<le> w) \<and> (ps_enrolled p = None \<longrightarrow> ps_confirmed p = 0)
     \<and> (\<forall>st c. ps_enrolled p = Some (st, c) \<longrightarrow> 0 < c \<and> (cap = None \<or> cap = Some c))"

definition ratesOk :: "policy \<Rightarrow> bool" where
  "ratesOk pol \<longleftrightarrow> list_all (\<lambda>(_, r). validRate r) (cp_engines pol)"

lemma rateOf_nonneg: "ratesOk pol \<Longrightarrow> 0 \<le> rateOf pol e"
  by (auto simp: rateOf_def engineRate_def ratesOk_def list_all_iff validRate_def safe_natural_def split: option.split
      dest!: map_of_SomeD)

lemma amount_nonneg: "amount v = Inr n \<Longrightarrow> 0 \<le> n"
  by (auto simp: amount_def outcome_Inr)

interpretation by_difference: comparator "\<lambda>a b. a - (b :: int)"
  by unfold_locales (auto simp: sgn_if)

lemma consecutive_le: "sorted_wrt (\<lambda>a b. a - b \<le> 0) xs \<Longrightarrow> (a, b) \<in> set (zip xs (tl xs)) \<Longrightarrow> a \<le> (b :: int)"
proof (induction xs)
  case (Cons x xs)
  then show ?case by (cases xs) auto
qed simp

lemma boundaries_le: "(a, b) \<in> set (zip (boundaries pol u t) (tl (boundaries pol u t))) \<Longrightarrow> a \<le> b"
  unfolding boundaries_def by (rule consecutive_le [OF by_difference.js_sort_sorted])

lemma chunkOf_sound:
  assumes "ratesOk pol" and "a \<le> b" and "0 \<le> ps_eligible p" and "ps_eligible p \<le> ps_principal p" and "c \<in> set (chunkOf pol p (a, b))"
  shows "soundChunk c"
proof -
  have "0 \<le> (b - a) * rateOf pol (ps_engine p)" using assms(1,2) by (simp add: rateOf_nonneg)
  with assms(3-5) show ?thesis
    by (auto simp: chunkOf_def Let_def soundChunk_def mult_right_mono split: if_splits)
qed

lemma accrueE:
  assumes "accrue pol t p = Inr q"
  obtains cs where "q = p\<lparr>ps_accrual := ps_accrual p @ cs, ps_updatedAt := t\<rparr>"
    "cs = concat (map (chunkOf pol p) (zip (boundaries pol (ps_updatedAt p) t) (tl (boundaries pol (ps_updatedAt p) t))))"
    "ps_updatedAt p \<le> t"
  using assms by (auto simp: accrue_def demand_Inr Let_def)

lemma accrue_sound: "ratesOk pol \<Longrightarrow> soundPosition cap p \<Longrightarrow> accrue pol t p = Inr q \<Longrightarrow> soundPosition cap q"
proof (erule accrueE)
  fix cs
  assume pol: "ratesOk pol" and p: "soundPosition cap p" and q: "q = p\<lparr>ps_accrual := ps_accrual p @ cs, ps_updatedAt := t\<rparr>"
    and cs: "cs = concat (map (chunkOf pol p) (zip (boundaries pol (ps_updatedAt p) t) (tl (boundaries pol (ps_updatedAt p) t))))"
  have "\<forall>c \<in> set cs. soundChunk c"
    using p chunkOf_sound [OF pol boundaries_le] unfolding cs by (auto simp: soundPosition_def)
  with p q show "soundPosition cap q" by (auto simp: soundPosition_def)
qed

lemma accrue_kept:
  "accrue pol t p = Inr q \<Longrightarrow> ps_borrower q = ps_borrower p \<and> ps_engine q = ps_engine p \<and> ps_confirmed q = ps_confirmed p \<and>
     ps_enrolled q = ps_enrolled p \<and> ps_paid q = ps_paid p"
  by (erule accrueE) simp

section \<open>Paying interest\<close>

lemma share_bounds:
  fixes e t u :: int
  assumes "0 \<le> e" "e \<le> t" "0 < t" "0 \<le> u" "u \<le> t"
  shows "0 \<le> tdiv (e * u) t" "tdiv (e * u) t \<le> e" "tdiv (e * u) t \<le> u" "e - tdiv (e * u) t \<le> t - u"
proof -
  have q: "tdiv (e * u) t = e * u div t" using assms by simp
  show "0 \<le> tdiv (e * u) t" unfolding q using assms by (simp add: pos_imp_zdiv_nonneg_iff)
  have "e * u div t \<le> e * t div t" using assms by (intro zdiv_mono1 mult_left_mono) auto
  then show "tdiv (e * u) t \<le> e" unfolding q using assms by simp
  have "e * u div t \<le> t * u div t" using assms by (intro zdiv_mono1 mult_right_mono) auto
  then show "tdiv (e * u) t \<le> u" unfolding q using assms by simp
  have "0 \<le> (t - e) * (t - u)" using assms by simp
  then have "(e - t + u) * t \<le> e * u" by (simp add: algebra_simps)
  then have "(e - t + u) * t div t \<le> e * u div t" using assms by (intro zdiv_mono1) auto
  then show "e - tdiv (e * u) t \<le> t - u" unfolding q using assms by simp
qed

text \<open>Sound chunks pay any interest they add up to, and no more eligible interest than is paid.\<close>

lemma consumeChunks_pays:
  assumes "\<forall>c \<in> set cs. soundChunk c" and "0 \<le> remaining" and "remaining \<le> sum_list (map ch_total cs)"
  shows "\<exists>cs' x. consumeChunks cs remaining acc = Inr (cs', acc + x) \<and> 0 \<le> x \<and> x \<le> remaining \<and> (\<forall>c \<in> set cs'. soundChunk c) \<and>
    sum_list (map ch_total cs') = sum_list (map ch_total cs) - remaining \<and>
    sum_list (map ch_eligible cs') = sum_list (map ch_eligible cs) - x"
  using assms
proof (induction cs arbitrary: remaining acc)
  case (Cons c cs)
  show ?case
  proof (cases "remaining > 0")
    case True
    let ?u = "min remaining (ch_total c)" and ?q = "tdiv (ch_eligible c * min remaining (ch_total c)) (ch_total c)"
    have c: "0 < ch_total c" "0 \<le> ch_eligible c" "ch_eligible c \<le> ch_total c" using Cons.prems(1) by (simp_all add: soundChunk_def)
    note q = share_bounds [OF c(2,3,1), of ?u]
    have u: "0 \<le> ?u" "?u \<le> ch_total c" "?u \<le> remaining" using True c by auto
    show ?thesis
    proof (cases "ch_total c \<le> remaining")
      case used: True
      then have q_all: "?q = ch_eligible c" using c tdiv_self_mult [of "ch_total c" "ch_eligible c"] by (simp add: min_def)
      obtain cs' x where ih: "consumeChunks cs (remaining - ch_total c) (acc + ch_eligible c) = Inr (cs', acc + ch_eligible c + x)"
        "0 \<le> x" "x \<le> remaining - ch_total c" "\<forall>c \<in> set cs'. soundChunk c"
        "sum_list (map ch_total cs') = sum_list (map ch_total cs) - (remaining - ch_total c)"
        "sum_list (map ch_eligible cs') = sum_list (map ch_eligible cs) - x"
        using Cons.IH [of "remaining - ch_total c" "acc + ch_eligible c"] Cons.prems used by auto
      show ?thesis
        using ih used True c q_all
        by (intro exI [of _ cs'] exI [of _ "ch_eligible c + x"]) (simp add: Let_def min_def add.assoc)
    next
      case False
      with True c u q show ?thesis
        using Cons.prems(1) by (auto simp: Let_def soundChunk_def min_def)
    qed
  qed (use Cons.prems in auto)
qed simp

lemma rebateOf_div: "0 \<le> x \<Longrightarrow> rebateOf x = x div (2 * INTEREST_DENOMINATOR)"
  using div_mult_mult2 [of 5000 x "INTEREST_DENOMINATOR * 2"] INTEREST_DENOMINATOR_pos by (simp add: rebateOf_def mult.commute)

lemma rebateOf_mono: "0 \<le> x \<Longrightarrow> x \<le> y \<Longrightarrow> rebateOf x \<le> rebateOf y"
  using INTEREST_DENOMINATOR_pos by (simp add: rebateOf_div zdiv_mono1)

lemma rebateOf_nonneg: "0 \<le> x \<Longrightarrow> 0 \<le> rebateOf x"
  using INTEREST_DENOMINATOR_pos by (simp add: rebateOf_div pos_imp_zdiv_nonneg_iff)

lemma rebateOf_half: "0 \<le> x \<Longrightarrow> x \<le> n * INTEREST_DENOMINATOR \<Longrightarrow> 2 * rebateOf x \<le> n"
proof -
  assume x: "0 \<le> x" "x \<le> n * INTEREST_DENOMINATOR"
  have "2 * INTEREST_DENOMINATOR * rebateOf x \<le> x"
    using x INTEREST_DENOMINATOR_pos by (simp add: rebateOf_div mult.commute [of _ "x div _"] flip: minus_mod_eq_div_mult)
  with x(2) have "INTEREST_DENOMINATOR * (2 * rebateOf x) \<le> INTEREST_DENOMINATOR * n" by (simp add: mult.commute mult.left_commute)
  then show ?thesis using INTEREST_DENOMINATOR_pos by simp
qed

lemma consumeInterest_sound:
  assumes "soundPosition cap p" and "0 \<le> i" and "consumeInterest p i earns = Inr q"
  shows "soundPosition cap q \<and> ps_paid p \<le> ps_paid q \<and> ps_paid q \<le> ps_paid p + i * INTEREST_DENOMINATOR \<and>
    ps_borrower q = ps_borrower p \<and> ps_engine q = ps_engine p \<and> ps_confirmed q = ps_confirmed p \<and> ps_enrolled q = ps_enrolled p"
proof -
  have i: "0 \<le> i * INTEREST_DENOMINATOR" "i * INTEREST_DENOMINATOR \<le> sum_list (map ch_total (ps_accrual p))"
    using assms INTEREST_DENOMINATOR_pos by (auto simp: consumeInterest_def demand_Inr unpaid_def)
  have chunks: "\<forall>c \<in> set (ps_accrual p). soundChunk c" using assms(1) by (simp add: soundPosition_def)
  obtain cs' x where run: "consumeChunks (ps_accrual p) (i * INTEREST_DENOMINATOR) 0 = Inr (cs', x)" "0 \<le> x" "x \<le> i * INTEREST_DENOMINATOR"
    "\<forall>c \<in> set cs'. soundChunk c"
    using consumeChunks_pays [OF chunks i, of 0] by auto
  then have q: "q = p\<lparr>ps_accrual := cs', ps_paid := (if earns then ps_paid p + x else ps_paid p)\<rparr>"
    using assms(3) by (simp add: consumeInterest_def demand_Inr)
  have "rebateOf (ps_paid p) \<le> rebateOf (ps_paid p + x)"
    using assms(1) run(2) by (intro rebateOf_mono) (auto simp: soundPosition_def)
  with assms(1) run i q show ?thesis by (auto simp: soundPosition_def)
qed

section \<open>Events\<close>

lemma onEnrolled_sound:
  assumes "soundPosition cap p" and "onEnrolled pol cap t value startsAt p = Inr q"
  shows "soundPosition cap q \<and> ps_borrower q = ps_borrower p \<and> ps_engine q = ps_engine p \<and> ps_confirmed q = ps_confirmed p \<and> ps_paid q = ps_paid p"
  using assms by (auto simp: onEnrolled_def outcome_Inr soundPosition_def dest!: amount_nonneg)

lemma onBorrowed_sound:
  assumes "soundPosition cap p" and "onBorrowed pol t value p = Inr q"
  shows "soundPosition cap q \<and> ps_borrower q = ps_borrower p \<and> ps_engine q = ps_engine p \<and> ps_confirmed q = ps_confirmed p \<and> ps_paid q = ps_paid p"
proof -
  obtain n where n: "amount value = Inr n" "0 \<le> n" using assms(2) amount_nonneg by (auto simp: onBorrowed_def outcome_Inr)
  show ?thesis
    using assms n by (cases "ps_enrolled p") (auto simp: onBorrowed_def soundPosition_def)
qed

lemma onLoss_sound:
  assumes "soundPosition cap p" and "onLoss a i p = Inr q"
  shows "soundPosition cap q \<and> ps_borrower q = ps_borrower p \<and> ps_engine q = ps_engine p \<and> ps_confirmed q = ps_confirmed p \<and> ps_paid q = ps_paid p"
  using assms by (auto simp: onLoss_def outcome_Inr soundPosition_def)

lemma repayPrincipal_sound:
  assumes "soundPosition cap p" and "0 \<le> n" and "repayPrincipal n p = Inr q"
  shows "soundPosition cap q \<and> ps_borrower q = ps_borrower p \<and> ps_engine q = ps_engine p \<and> ps_confirmed q = ps_confirmed p \<and> ps_paid q = ps_paid p"
proof -
  have "n \<le> ps_principal p" using assms(3) by (simp add: repayPrincipal_def demand_Inr)
  moreover from this have "0 \<le> ps_eligible p - min n (ps_eligible p) \<and> ps_eligible p - min n (ps_eligible p) \<le> ps_principal p - n"
    using assms(1) by (auto simp: soundPosition_def min_def)
  define d where "d = p\<lparr>ps_principal := ps_principal p - n, ps_eligible := ps_eligible p - min n (ps_eligible p)\<rparr>"
  ultimately have d: "soundPosition cap d"
    using assms(1) by (simp add: soundPosition_def d_def min_def)
  then have "soundPosition cap (d\<lparr>ps_accrual := []\<rparr>)" by (simp add: soundPosition_def)
  moreover have "q = d \<or> q = d\<lparr>ps_accrual := []\<rparr>"
    using assms(3) unfolding repayPrincipal_def Let_def d_def [symmetric] demand_Inr sum.inject by (simp split: if_splits)
  ultimately show ?thesis using d by (elim disjE) (simp_all add: d_def)
qed

definition awardedTo :: "(string \<rightharpoonup> int) \<Rightarrow> string \<Rightarrow> int" where
  "awardedTo m b = (case m b of Some u \<Rightarrow> u | None \<Rightarrow> 0)"

lemma awardedTo_upd [simp]: "awardedTo (m(b \<mapsto> u)) c = (if c = b then u else awardedTo m c)"
  by (simp add: awardedTo_def)

lemma awardedTo_empty [simp]: "awardedTo Map.empty b = 0"
  by (simp add: awardedTo_def)

text \<open>An award moves the same amount into the position and onto the wallet, within the cap.\<close>

lemma award_sound:
  assumes "soundPosition cap p" and "award cap b p m = (q, m')" and cap: "\<And>w. cap = Some w \<Longrightarrow> awardedTo m b \<le> w"
  shows "soundPosition cap q \<and> ps_borrower q = ps_borrower p \<and> ps_engine q = ps_engine p \<and> ps_paid q = ps_paid p \<and>
    (cap \<noteq> None \<longrightarrow> ps_confirmed q - ps_confirmed p = awardedTo m' b - awardedTo m b) \<and> (\<forall>c. c \<noteq> b \<longrightarrow> awardedTo m' c = awardedTo m c) \<and>
    (\<forall>w. cap = Some w \<longrightarrow> awardedTo m' b \<le> w) \<and> (cap = None \<longrightarrow> ps_confirmed q = ps_confirmed p \<and> m' = m)"
proof (cases "cap = None \<or> ps_enrolled p = None")
  case True
  with assms show ?thesis by (auto simp: award_def split: option.splits)
next
  case False
  then obtain e w where c: "cap = Some w" "ps_enrolled p = Some e" by auto
  define d where "d = min (min w (rebateOf (ps_paid p)) - ps_confirmed p) (w - awardedTo m b)"
  have p: "ps_confirmed p \<le> w" "ps_confirmed p \<le> rebateOf (ps_paid p)" using assms(1) c by (simp_all add: soundPosition_def)
  have d: "0 \<le> d" "d \<le> min w (rebateOf (ps_paid p)) - ps_confirmed p" "d \<le> w - awardedTo m b"
    using p cap [OF c(1)] by (auto simp: d_def)
  have "q = p\<lparr>ps_confirmed := ps_confirmed p + d\<rparr>" "m' = m(b \<mapsto> awardedTo m b + d)"
    using assms(2) c by (auto simp: award_def Let_def d_def awardedTo_def)
  with assms(1) c d show ?thesis by (auto simp: soundPosition_def)
qed

section \<open>The books\<close>

text \<open>Borrowers are addresses: their text has no colon, so the key of a position determines it.\<close>

definition colonFree :: "string \<Rightarrow> bool" where
  "colonFree b \<longleftrightarrow> CHR '':'' \<notin> set (js_lower b)"

lemma key_lower [simp]: "key (js_lower b) (js_lower e) = key b e"
  by (simp add: key_def)

lemma key_borrower:
  assumes "key b e = key b' e'" and "colonFree b" and "colonFree b'"
  shows "js_lower b = js_lower b'"
proof -
  have "takeWhile (\<lambda>c. c \<noteq> CHR '':'') (key x y) = js_lower x" if "colonFree x" for x y
    using that by (auto simp: key_def colonFree_def takeWhile_append)
  with assms show ?thesis by metis
qed

definition confirmedBy :: "string \<Rightarrow> cash_position \<Rightarrow> int" where
  "confirmedBy b p = (if ps_borrower p = b then ps_confirmed p else 0)"

definition booksOk :: "int option \<Rightarrow> (string \<Rightarrow> int) \<Rightarrow> books \<Rightarrow> bool" where
  "booksOk cap paid s \<longleftrightarrow> keys_distinct (bk_positions s) \<and>
     (\<forall>(id, p) \<in> set (bk_positions s). soundPosition cap p \<and> id = key (ps_borrower p) (ps_engine p) \<and> colonFree (ps_borrower p) \<and>
        js_lower (ps_borrower p) = ps_borrower p \<and> ps_paid p \<le> paid id * INTEREST_DENOMINATOR) \<and>
     (\<forall>w. cap = Some w \<longrightarrow> 0 \<le> w \<longrightarrow> (\<forall>b. awardedTo (bk_awarded s) b \<le> w \<and>
        values_total (confirmedBy b) (bk_positions s) = awardedTo (bk_awarded s) b))"

definition stepOk :: "int option \<Rightarrow> string \<Rightarrow> int \<Rightarrow> cash_position \<Rightarrow> (string \<rightharpoonup> int) \<Rightarrow> cash_position \<Rightarrow> (string \<rightharpoonup> int) \<Rightarrow> bool" where
  "stepOk cap b i p m q m' \<longleftrightarrow> soundPosition cap q \<and> ps_borrower q = ps_borrower p \<and> ps_engine q = ps_engine p \<and>
     ps_paid q \<le> ps_paid p + i * INTEREST_DENOMINATOR \<and>
     (cap \<noteq> None \<longrightarrow> ps_confirmed q - ps_confirmed p = awardedTo m' b - awardedTo m b) \<and>
     (\<forall>c. c \<noteq> b \<longrightarrow> awardedTo m' c = awardedTo m c) \<and> (\<forall>w. cap = Some w \<longrightarrow> awardedTo m' b \<le> w)"

lemma newPosition_sound: "\<forall>w. cap = Some w \<longrightarrow> 0 \<le> w \<Longrightarrow> soundPosition cap (newPosition b e t)"
  by (simp add: soundPosition_def newPosition_def rebateOf_def)

lemma onPosition_booksOk:
  assumes ok: "booksOk cap paid s" and pol: "ratesOk pol" and plain: "colonFree b" and w: "\<forall>w. cap = Some w \<longrightarrow> 0 \<le> w"
    and i: "0 \<le> i" and paid: "\<And>id. 0 \<le> paid id"
    and run: "onPosition pol t b e s f = Inr s'"
    and f: "\<And>p m q m'. soundPosition cap p \<Longrightarrow> (\<forall>w. cap = Some w \<longrightarrow> awardedTo m (js_lower b) \<le> w) \<Longrightarrow> f p m = Inr (q, m') \<Longrightarrow>
      stepOk cap (js_lower b) i p m q m'"
  shows "booksOk cap (\<lambda>id. paid id + (if id = key b e then i else 0)) s' \<and> bk_seen s' = bk_seen s \<and> bk_last s' = bk_last s"
proof -
  define p where "p = (case map_of (bk_positions s) (key b e) of Some p \<Rightarrow> p | None \<Rightarrow> newPosition (js_lower b) (js_lower e) t)"
  obtain q r m' where q: "accrue pol t p = Inr q" and r: "f q (bk_awarded s) = Inr (r, m')"
    and s': "s' = s\<lparr>bk_positions := AList.update (key b e) r (bk_positions s), bk_awarded := m'\<rparr>"
    using run by (auto simp: onPosition_def Let_def outcome_Inr p_def)
  have entries: "soundPosition cap p' \<and> id = key (ps_borrower p') (ps_engine p') \<and> colonFree (ps_borrower p') \<and>
      js_lower (ps_borrower p') = ps_borrower p' \<and> ps_paid p' \<le> paid id * INTEREST_DENOMINATOR" if "(id, p') \<in> set (bk_positions s)" for id p'
    using ok that unfolding booksOk_def by blast
  have p: "soundPosition cap p" "key b e = key (ps_borrower p) (ps_engine p)" "ps_borrower p = js_lower b"
    "ps_paid p \<le> paid (key b e) * INTEREST_DENOMINATOR"
    "(case map_of (bk_positions s) (key b e) of None \<Rightarrow> 0 | Some p \<Rightarrow> confirmedBy (js_lower b) p) = ps_confirmed p"
  proof -
    have "soundPosition cap p \<and> key b e = key (ps_borrower p) (ps_engine p) \<and> ps_borrower p = js_lower b \<and>
      ps_paid p \<le> paid (key b e) * INTEREST_DENOMINATOR \<and>
      (case map_of (bk_positions s) (key b e) of None \<Rightarrow> 0 | Some p \<Rightarrow> confirmedBy (js_lower b) p) = ps_confirmed p"
    proof (cases "map_of (bk_positions s) (key b e)")
      case None
      then show ?thesis
        using newPosition_sound [OF w] paid INTEREST_DENOMINATOR_pos by (simp add: p_def) (simp add: newPosition_def)
    next
      case (Some p')
      then have e': "soundPosition cap p' \<and> key b e = key (ps_borrower p') (ps_engine p') \<and> colonFree (ps_borrower p') \<and>
        js_lower (ps_borrower p') = ps_borrower p' \<and> ps_paid p' \<le> paid (key b e) * INTEREST_DENOMINATOR"
        using entries map_of_SomeD by fast
      then have "js_lower b = ps_borrower p'" using key_borrower [of b e "ps_borrower p'" "ps_engine p'"] plain by simp
      with e' Some show ?thesis by (auto simp: p_def confirmedBy_def)
    qed
    then show "soundPosition cap p" "key b e = key (ps_borrower p) (ps_engine p)" "ps_borrower p = js_lower b"
      "ps_paid p \<le> paid (key b e) * INTEREST_DENOMINATOR"
      "(case map_of (bk_positions s) (key b e) of None \<Rightarrow> 0 | Some p \<Rightarrow> confirmedBy (js_lower b) p) = ps_confirmed p" by blast+
  qed
  note kept = accrue_kept [OF q]
  have step: "stepOk cap (js_lower b) i q (bk_awarded s) r m'"
    by (rule f [OF accrue_sound [OF pol p(1) q] _ r]) (use ok w in \<open>auto simp: booksOk_def\<close>)
  have entries': "soundPosition cap p' \<and> id = key (ps_borrower p') (ps_engine p') \<and> colonFree (ps_borrower p') \<and>
      js_lower (ps_borrower p') = ps_borrower p' \<and> ps_paid p' \<le> (paid id + (if id = key b e then i else 0)) * INTEREST_DENOMINATOR"
    if "(id, p') \<in> set (AList.update (key b e) r (bk_positions s))" for id p'
    using set_put [OF that]
  proof
    assume "(id, p') = (key b e, r)"
    then show ?thesis
      using step kept p plain by (simp add: stepOk_def colonFree_def algebra_simps)
  next
    assume "(id, p') \<in> set (bk_positions s)"
    with entries [of id p'] i INTEREST_DENOMINATOR_pos show ?thesis
      by (smt (verit) distrib_right mult_nonneg_nonneg)
  qed
  have sums: "awardedTo m' c \<le> w \<and> values_total (confirmedBy c) (AList.update (key b e) r (bk_positions s)) = awardedTo m' c"
    if "cap = Some w" for w c
  proof -
    have old: "awardedTo (bk_awarded s) c \<le> w" "values_total (confirmedBy c) (bk_positions s) = awardedTo (bk_awarded s) c"
      using ok w that by (auto simp: booksOk_def)
    have put: "values_total (confirmedBy c) (AList.update (key b e) r (bk_positions s)) = values_total (confirmedBy c) (bk_positions s)
        + confirmedBy c r - (case map_of (bk_positions s) (key b e) of None \<Rightarrow> 0 | Some p \<Rightarrow> confirmedBy c p)"
      using ok by (intro values_total_put) (simp add: booksOk_def)
    have "(case map_of (bk_positions s) (key b e) of None \<Rightarrow> 0 | Some p \<Rightarrow> confirmedBy c p) = 0" if "c \<noteq> js_lower b"
      using that p(3) by (auto simp: p_def confirmedBy_def split: option.splits)
    then show ?thesis
      using old put step kept p(3,5) that
      by (cases "c = js_lower b") (auto simp: stepOk_def confirmedBy_def)
  qed
  have "booksOk cap (\<lambda>id. paid id + (if id = key b e then i else 0)) s'"
    using entries' sums ok unfolding booksOk_def s' by (auto simp: case_prod_beta)
  then show ?thesis by (simp add: s')
qed


fun interestPaid :: "string \<Rightarrow> cash_event \<Rightarrow> int" where
  "interestPaid k (Repaid b e due interest) = (if k = key b e then (case amount interest of Inr n \<Rightarrow> n | Inl _ \<Rightarrow> 0) else 0)"
| "interestPaid k _ = 0"

fun borrowerOf :: "cash_event \<Rightarrow> string option" where
  "borrowerOf (Enrolled b _ _ _) = Some b"
| "borrowerOf (Borrowed b _ _) = Some b"
| "borrowerOf (Repaid b _ _ _) = Some b"
| "borrowerOf (PositionLoss b _ _ _) = Some b"
| "borrowerOf _ = None"

definition plainEvents :: "cash_event list \<Rightarrow> bool" where
  "plainEvents es \<longleftrightarrow> (\<forall>ev \<in> set es. \<forall>b. borrowerOf ev = Some b \<longrightarrow> colonFree b)"

lemma interestPaid_nonneg: "0 \<le> interestPaid k ev"
  by (cases ev) (auto split: sum.split dest: amount_nonneg)

lemma plain_onPosition:
  assumes "booksOk cap paid s" and "ratesOk pol" and "colonFree b" and "\<forall>w. cap = Some w \<longrightarrow> 0 \<le> w"
    and "\<And>id. 0 \<le> paid id"
    and run: "onPosition pol t b e s (\<lambda>p m. and_then (h p) (\<lambda>q. Inr (q, m))) = Inr s'"
    and h: "\<And>p q. soundPosition cap p \<Longrightarrow> h p = Inr q \<Longrightarrow> soundPosition cap q \<and> ps_borrower q = ps_borrower p \<and>
      ps_engine q = ps_engine p \<and> ps_confirmed q = ps_confirmed p \<and> ps_paid q = ps_paid p"
  shows "booksOk cap paid s' \<and> bk_seen s' = bk_seen s \<and> bk_last s' = bk_last s"
proof -
  have "booksOk cap (\<lambda>id. paid id + (if id = key b e then 0 else 0)) s' \<and> bk_seen s' = bk_seen s \<and> bk_last s' = bk_last s"
  proof (rule onPosition_booksOk [OF assms(1-4) order_refl assms(5) run])
    fix p m q m'
    assume p: "soundPosition cap p" and m: "\<forall>w. cap = Some w \<longrightarrow> awardedTo m (js_lower b) \<le> w"
      and "and_then (h p) (\<lambda>q. Inr (q, m)) = Inr (q, m')"
    then have "h p = Inr q" "m' = m" by (auto simp: and_then_Inr)
    with h [OF p] m show "stepOk cap (js_lower b) 0 p m q m'" by (simp add: stepOk_def)
  qed
  then show ?thesis by (simp cong: if_cong)
qed

lemma onRepaid_stepOk:
  assumes p: "soundPosition cap p" and cap: "\<forall>w. cap = Some w \<longrightarrow> awardedTo m b \<le> w" and i: "amount interest = Inr i"
    and run: "onRepaid pol cap b liquidated t due interest p m = Inr (q, m')"
  shows "stepOk cap b i p m q m'"
proof -
  obtain a p1 where a: "amount due = Inr a"
    and p1: "consumeInterest p i (ps_enrolled p \<noteq> None \<and> \<not> liquidated \<and> t \<le> num (cp_settlementDeadline pol)) = Inr p1"
    and rest: "(let (q', m2) = award cap b p1 m in and_then (repayPrincipal a q') (\<lambda>q''. Inr (q'', m2))) = Inr (q, m')"
    using run i unfolding onRepaid_def and_then_Inr by auto
  obtain p2 m2 where w: "award cap b p1 m = (p2, m2)" by (cases "award cap b p1 m")
  then have p2: "award cap b p1 m = (p2, m')" and q: "repayPrincipal a p2 = Inr q" using rest by (auto simp: and_then_Inr)
  note c = consumeInterest_sound [OF p amount_nonneg [OF i] p1]
  have w: "soundPosition cap p2 \<and> ps_borrower p2 = ps_borrower p1 \<and> ps_engine p2 = ps_engine p1 \<and> ps_paid p2 = ps_paid p1 \<and>
    (cap \<noteq> None \<longrightarrow> ps_confirmed p2 - ps_confirmed p1 = awardedTo m' b - awardedTo m b) \<and> (\<forall>c. c \<noteq> b \<longrightarrow> awardedTo m' c = awardedTo m c) \<and>
    (\<forall>w. cap = Some w \<longrightarrow> awardedTo m' b \<le> w) \<and> (cap = None \<longrightarrow> ps_confirmed p2 = ps_confirmed p1 \<and> m' = m)"
    by (rule award_sound [OF _ p2]) (use c cap in auto)
  have r: "soundPosition cap q \<and> ps_borrower q = ps_borrower p2 \<and> ps_engine q = ps_engine p2 \<and> ps_confirmed q = ps_confirmed p2 \<and> ps_paid q = ps_paid p2"
    by (rule repayPrincipal_sound [OF _ amount_nonneg [OF a] q]) (use w in blast)
  show ?thesis using c w r unfolding stepOk_def by auto
qed

lemma stepEvent_booksOk:
  assumes "booksOk cap paid s" and "ratesOk pol" and "\<forall>b. borrowerOf ev = Some b \<longrightarrow> colonFree b" and "\<forall>w. cap = Some w \<longrightarrow> 0 \<le> w"
    and "\<And>id. 0 \<le> paid id" and "stepEvent pol cap liquidated t ev s = Inr s'"
  shows "booksOk cap (\<lambda>id. paid id + interestPaid id ev) s' \<and> bk_seen s' = bk_seen s \<and> bk_last s' = bk_last s"
proof (cases ev)
  case (Enrolled b e v st)
  then have "booksOk cap paid s' \<and> bk_seen s' = bk_seen s \<and> bk_last s' = bk_last s"
    using assms(3,6) by (intro plain_onPosition [OF assms(1,2) _ assms(4,5), of b t e "onEnrolled pol cap t v st"] onEnrolled_sound) simp_all
  then show ?thesis by (simp add: Enrolled)
next
  case (Borrowed b e v)
  then have "booksOk cap paid s' \<and> bk_seen s' = bk_seen s \<and> bk_last s' = bk_last s"
    using assms(3,6) by (intro plain_onPosition [OF assms(1,2) _ assms(4,5), of b t e "onBorrowed pol t v"] onBorrowed_sound) simp_all
  then show ?thesis by (simp add: Borrowed)
next
  case (PositionLoss b e v x)
  then have "booksOk cap paid s' \<and> bk_seen s' = bk_seen s \<and> bk_last s' = bk_last s"
    using assms(3,6) by (intro plain_onPosition [OF assms(1,2) _ assms(4,5), of b t e "onLoss v x"] onLoss_sound) simp_all
  then show ?thesis by (simp add: PositionLoss)
next
  case (Repaid b e due interest)
  have run: "onPosition pol t b e s (onRepaid pol cap (js_lower b) (key b e \<in> set liquidated) t due interest) = Inr s'"
    using assms(6) by (simp add: Repaid)
  then obtain i where i: "amount interest = Inr i"
    by (auto simp: onPosition_def onRepaid_def Let_def outcome_Inr)
  have "booksOk cap (\<lambda>id. paid id + (if id = key b e then i else 0)) s' \<and> bk_seen s' = bk_seen s \<and> bk_last s' = bk_last s"
    by (rule onPosition_booksOk [OF assms(1,2) _ assms(4) amount_nonneg [OF i] assms(5) run])
      (use assms(3) Repaid onRepaid_stepOk [OF _ _ i] in auto)
  then show ?thesis using i by (simp add: Repaid cong: if_cong)
qed (use assms in auto)


section \<open>The replay\<close>

definition interestIn :: "string \<Rightarrow> cash_event list \<Rightarrow> int" where
  "interestIn k es = sum_list (map (interestPaid k) es)"

definition receiptsInterest :: "string \<Rightarrow> cash_receipt list \<Rightarrow> int" where
  "receiptsInterest k rs = sum_list (map (\<lambda>r. interestIn k (cr_events r)) rs)"

lemma interestIn_nonneg: "0 \<le> interestIn k es"
  by (induction es) (simp_all add: interestPaid_nonneg interestIn_def)

lemma receiptsInterest_nonneg: "0 \<le> receiptsInterest k rs"
  by (induction rs) (simp_all add: interestIn_nonneg receiptsInterest_def)

lemma interestIn_snoc [simp]: "interestIn k (es @ [ev]) = interestIn k es + interestPaid k ev" "interestIn k [] = 0"
  by (simp_all add: interestIn_def)

lemma receiptsInterest_snoc [simp]:
  "receiptsInterest k (rs @ [r]) = receiptsInterest k rs + interestIn k (cr_events r)" "receiptsInterest k [] = 0"
  by (simp_all add: receiptsInterest_def)

lemma stepReceipt_booksOk:
  assumes "booksOk cap paid s" and "ratesOk pol" and "plainEvents (cr_events r)" and "\<forall>w. cap = Some w \<longrightarrow> 0 \<le> w"
    and "\<And>k. 0 \<le> paid k" and run: "stepReceipt pol cap r s = Inr s'"
  shows "booksOk cap (\<lambda>k. paid k + interestIn k (cr_events r)) s' \<and> bk_last s' = num (cr_timestamp r) \<and>
    bk_seen s' = cr_hash r # bk_seen s \<and> bk_last s \<le> bk_last s' \<and> cr_hash r \<notin> set (bk_seen s)"
proof -
  let ?s = "s\<lparr>bk_seen := cr_hash r # bk_seen s, bk_last := num (cr_timestamp r)\<rparr>"
  let ?step = "stepEvent pol cap (concat (map liquidatedKey (cr_events r))) (num (cr_timestamp r))"
  have guards: "bk_last s \<le> num (cr_timestamp r)" "cr_hash r \<notin> set (bk_seen s)"
    and fold: "fold_outcome ?step (cr_events r) ?s = Inr s'"
    using run by (auto simp: stepReceipt_def demand_Inr)
  have "set (cr_events r) \<subseteq> set (cr_events r) \<longrightarrow>
      booksOk cap (\<lambda>k. paid k + interestIn k (cr_events r)) s' \<and> bk_seen s' = bk_seen ?s \<and> bk_last s' = bk_last ?s"
  proof (rule fold_outcome_history [OF fold, where P = "\<lambda>es s'. set es \<subseteq> set (cr_events r) \<longrightarrow>
        booksOk cap (\<lambda>k. paid k + interestIn k es) s' \<and> bk_seen s' = bk_seen ?s \<and> bk_last s' = bk_last ?s"])
    show "set [] \<subseteq> set (cr_events r) \<longrightarrow> booksOk cap (\<lambda>k. paid k + interestIn k []) ?s \<and> bk_seen ?s = bk_seen ?s \<and> bk_last ?s = bk_last ?s"
      using assms(1) by (simp add: booksOk_def)
    fix es ev s1 s2
    assume ih: "set es \<subseteq> set (cr_events r) \<longrightarrow> booksOk cap (\<lambda>k. paid k + interestIn k es) s1 \<and> bk_seen s1 = bk_seen ?s \<and> bk_last s1 = bk_last ?s"
      and step: "?step ev s1 = Inr s2"
    show "set (es @ [ev]) \<subseteq> set (cr_events r) \<longrightarrow>
        booksOk cap (\<lambda>k. paid k + interestIn k (es @ [ev])) s2 \<and> bk_seen s2 = bk_seen ?s \<and> bk_last s2 = bk_last ?s"
    proof
      assume sub: "set (es @ [ev]) \<subseteq> set (cr_events r)"
      have plain: "\<forall>b. borrowerOf ev = Some b \<longrightarrow> colonFree b" using assms(3) sub by (auto simp: plainEvents_def)
      have "0 \<le> paid k + interestIn k es" for k using assms(5) [of k] interestIn_nonneg [of k es] by simp
      from stepEvent_booksOk [where paid = "\<lambda>k. paid k + interestIn k es", OF _ assms(2) plain assms(4) this step] ih sub
      show "booksOk cap (\<lambda>k. paid k + interestIn k (es @ [ev])) s2 \<and> bk_seen s2 = bk_seen ?s \<and> bk_last s2 = bk_last ?s"
        by (simp add: add.assoc)
    qed
  qed
  with guards show ?thesis by simp
qed

lemma replay_booksOk:
  assumes run: "replay pol receipts = Inr (s, cap)" and plain: "\<forall>r \<in> set receipts. plainEvents (cr_events r)"
  shows "ratesOk pol \<and> booksOk cap (\<lambda>k. receiptsInterest k receipts) s \<and> (\<forall>w. cap = Some w \<longrightarrow> 0 \<le> w)"
proof -
  let ?s = "\<lparr>bk_positions = [], bk_awarded = Map.empty, bk_seen = [], bk_last = 0\<rparr>"
  have rates: "ratesOk pol" and cap: "publicCap pol = Inr cap"
    and fold: "fold_outcome (stepReceipt pol cap) receipts ?s = Inr s"
    using run by (auto simp: replay_def outcome_Inr ratesOk_def)
  have w: "\<forall>w. cap = Some w \<longrightarrow> 0 \<le> w"
    using cap by (auto simp: publicCap_def outcome_Inr split: option.splits)
  have "set receipts \<subseteq> set receipts \<longrightarrow> booksOk cap (\<lambda>k. receiptsInterest k receipts) s"
  proof (rule fold_outcome_history [OF fold, where P = "\<lambda>rs s. set rs \<subseteq> set receipts \<longrightarrow> booksOk cap (\<lambda>k. receiptsInterest k rs) s"])
    show "set [] \<subseteq> set receipts \<longrightarrow> booksOk cap (\<lambda>k. receiptsInterest k []) ?s" by (simp add: booksOk_def)
    fix rs r s1 s2
    assume ih: "set rs \<subseteq> set receipts \<longrightarrow> booksOk cap (\<lambda>k. receiptsInterest k rs) s1" and step: "stepReceipt pol cap r s1 = Inr s2"
    show "set (rs @ [r]) \<subseteq> set receipts \<longrightarrow> booksOk cap (\<lambda>k. receiptsInterest k (rs @ [r])) s2"
      using stepReceipt_booksOk [OF _ rates _ w receiptsInterest_nonneg step] ih plain by simp
  qed
  with rates w show ?thesis by simp
qed

section \<open>The rows\<close>

definition rowOk :: "int option \<Rightarrow> (string \<Rightarrow> int) \<Rightarrow> account_row \<Rightarrow> bool" where
  "rowOk cap paid r \<longleftrightarrow> 0 \<le> ar_confirmed r \<and> ar_confirmed r \<le> ar_committed r \<and> ar_committed r \<le> ar_cap r \<and>
     ar_estimated r = ar_committed r - ar_confirmed r \<and> 0 \<le> ar_eligible r \<and> ar_eligible r \<le> ar_principal r \<and>
     2 * ar_confirmed r \<le> paid (key (ar_borrower r) (ar_engine r)) \<and> (\<forall>w. cap = Some w \<longrightarrow> ar_cap r = w)"

lemma unpaidEligible_nonneg: "soundPosition cap p \<Longrightarrow> 0 \<le> unpaidEligible p"
  by (auto simp: unpaidEligible_def soundPosition_def soundChunk_def intro!: sum_list_nonneg)

lemma accountRow_ok:
  assumes pol: "ratesOk pol" and p: "soundPosition cap p" and enrolled: "ps_enrolled p \<noteq> None"
    and paid: "ps_paid p \<le> paid (key (ps_borrower p) (ps_engine p)) * INTEREST_DENOMINATOR"
    and room: "\<forall>w. cap = Some w \<longrightarrow> awardedTo projected (ps_borrower p) \<le> w"
    and run: "accountRow pol cap t p projected = Inr (r, projected')"
  shows "rowOk cap paid r \<and> ar_borrower r = ps_borrower p \<and>
    (\<forall>w. cap = Some w \<longrightarrow> awardedTo projected' (ps_borrower p) \<le> w \<and> ar_confirmed r = ps_confirmed p \<and>
      awardedTo projected' (ps_borrower p) = awardedTo projected (ps_borrower p) + ar_estimated r) \<and>
    (\<forall>c. c \<noteq> ps_borrower p \<longrightarrow> awardedTo projected' c = awardedTo projected c)"
proof -
  obtain q where q: "accrue pol t p = Inr q" using run by (auto simp: accountRow_def and_then_Inr)
  note kept = accrue_kept [OF q] and sound = accrue_sound [OF pol p q]
  obtain st c where e: "ps_enrolled q = Some (st, c)" using enrolled kept by auto
  have c: "0 < c" "\<forall>w. cap = Some w \<longrightarrow> c = w" using sound e by (auto simp: soundPosition_def)
  define confirmed where "confirmed = (case cap of None \<Rightarrow> min c (rebateOf (ps_paid q)) | Some _ \<Rightarrow> ps_confirmed q)"
  define most where "most = (if t > num (cp_settlementDeadline pol) then confirmed else min c (rebateOf (ps_paid q + unpaidEligible q)))"
  have more: "rebateOf (ps_paid q) \<le> rebateOf (ps_paid q + unpaidEligible q)"
    using sound unpaidEligible_nonneg [OF sound] by (intro rebateOf_mono) (auto simp: soundPosition_def)
  have conf: "0 \<le> confirmed" "confirmed \<le> c" "confirmed \<le> rebateOf (ps_paid q)"
    using sound c rebateOf_nonneg [of "ps_paid q"] by (auto simp: confirmed_def soundPosition_def split: option.split)
  then have most: "confirmed \<le> most" "most \<le> c" using more by (auto simp: most_def)
  have half: "2 * confirmed \<le> paid (key (ps_borrower q) (ps_engine q))"
    using rebateOf_half [of "ps_paid q" "paid (key (ps_borrower q) (ps_engine q))"] sound paid kept conf(3) by (simp add: soundPosition_def)
  have elig: "0 \<le> ps_eligible q" "ps_eligible q \<le> ps_principal q" using sound by (simp_all add: soundPosition_def)
  show ?thesis
  proof (cases cap)
    case None
    then have "confirmed = min c (rebateOf (ps_paid q))" by (simp add: confirmed_def)
    with run q e None most conf half elig c kept show ?thesis
      by (auto simp: accountRow_def rowOk_def Let_def most_def)
  next
    case (Some w)
    define x where "x = min (most - confirmed) (w - awardedTo projected (ps_borrower q))"
    have x: "0 \<le> x" "x \<le> most - confirmed" "x \<le> w - awardedTo projected (ps_borrower q)"
      using most room Some kept by (auto simp: x_def)
    have conf_q: "confirmed = ps_confirmed q" by (simp add: confirmed_def Some)
    have r: "r = \<lparr>ar_borrower = ps_borrower q, ar_engine = ps_engine q, ar_startsAt = st, ar_cap = c,
        ar_principal = ps_principal q, ar_eligible = ps_eligible q, ar_unpaid = tdiv (unpaid q) INTEREST_DENOMINATOR,
        ar_estimated = x, ar_confirmed = confirmed, ar_paid = tdiv (ps_paid q) INTEREST_DENOMINATOR, ar_committed = confirmed + x\<rparr>"
      and projected': "projected' = projected(ps_borrower q \<mapsto> awardedTo projected (ps_borrower q) + x)"
      using run q e Some
      by (cases "t > num (cp_settlementDeadline pol)"; auto simp: accountRow_def Let_def x_def most_def conf_q awardedTo_def)+
    show ?thesis
      using most conf half elig c kept x Some conf_q unfolding r projected' by (auto simp: rowOk_def)
  qed
qed

definition committedTo :: "string \<Rightarrow> account_row list \<Rightarrow> int" where
  "committedTo b rows = sum_list (map (\<lambda>r. if ar_borrower r = b then ar_committed r else 0) rows)"

definition confirmedTo :: "string \<Rightarrow> cash_position list \<Rightarrow> int" where
  "confirmedTo b ps = sum_list (map (confirmedBy b) ps)"

lemma accountRows_ok:
  assumes pol: "ratesOk pol" and ps: "\<forall>p \<in> set ps. soundPosition cap p \<and> ps_enrolled p \<noteq> None \<and>
      ps_paid p \<le> paid (key (ps_borrower p) (ps_engine p)) * INTEREST_DENOMINATOR"
    and room: "\<forall>w. cap = Some w \<longrightarrow> (\<forall>b. awardedTo projected b \<le> w)"
    and run: "accountRows pol cap t ps projected = Inr rows"
  shows "(\<forall>r \<in> set rows. rowOk cap paid r) \<and>
    (\<forall>w b. cap = Some w \<longrightarrow> committedTo b rows + awardedTo projected b \<le> w + confirmedTo b ps)"
  using ps room run
proof (induction ps arbitrary: projected rows)
  case Nil
  then show ?case by (auto simp: committedTo_def confirmedTo_def)
next
  case (Cons p ps)
  obtain r projected' rows' where r: "accountRow pol cap t p projected = Inr (r, projected')"
    and rest: "accountRows pol cap t ps projected' = Inr rows'" and rows: "rows = r # rows'"
    using Cons.prems(3) by (auto simp: and_then_Inr)
  have head: "rowOk cap paid r \<and> ar_borrower r = ps_borrower p \<and>
    (\<forall>w. cap = Some w \<longrightarrow> awardedTo projected' (ps_borrower p) \<le> w \<and> ar_confirmed r = ps_confirmed p \<and>
      awardedTo projected' (ps_borrower p) = awardedTo projected (ps_borrower p) + ar_estimated r) \<and>
    (\<forall>c. c \<noteq> ps_borrower p \<longrightarrow> awardedTo projected' c = awardedTo projected c)"
    by (rule accountRow_ok [OF pol _ _ _ _ r]) (use Cons.prems in auto)
  have tail: "(\<forall>r \<in> set rows'. rowOk cap paid r) \<and>
    (\<forall>w b. cap = Some w \<longrightarrow> committedTo b rows' + awardedTo projected' b \<le> w + confirmedTo b ps)"
  proof (rule Cons.IH [OF _ _ rest])
    show "\<forall>w. cap = Some w \<longrightarrow> (\<forall>b. awardedTo projected' b \<le> w)"
      using head Cons.prems(2) by (metis)
  qed (use Cons.prems in simp)
  have "committedTo b rows + awardedTo projected b \<le> w + confirmedTo b (p # ps)" if w: "cap = Some w" for w b
  proof -
    have "committedTo b rows' + awardedTo projected' b \<le> w + confirmedTo b ps" using tail w by blast
    moreover have "ar_committed r = ar_confirmed r + ar_estimated r" using head by (simp add: rowOk_def)
    ultimately show ?thesis
      using head w by (cases "b = ps_borrower p") (auto simp: rows committedTo_def confirmedTo_def confirmedBy_def)
  qed
  with head tail rows show ?case by simp
qed

lemma confirmedTo_mset: "mset ps = mset qs \<Longrightarrow> confirmedTo b ps = confirmedTo b qs"
  unfolding confirmedTo_def by (rule sum_list_reorder)

lemma committedTo_mset: "mset xs = mset ys \<Longrightarrow> committedTo b xs = committedTo b ys"
  unfolding committedTo_def by (rule sum_list_reorder)

lemma confirmedTo_enrolled:
  "\<forall>p \<in> set ps. soundPosition cap p \<Longrightarrow> confirmedTo b (filter (\<lambda>p. ps_enrolled p \<noteq> None) ps) = confirmedTo b ps"
proof (induction ps)
  case (Cons p ps)
  then have "ps_enrolled p = None \<Longrightarrow> confirmedBy b p = 0" by (simp add: confirmedBy_def soundPosition_def)
  with Cons show ?case by (cases "ps_enrolled p") (simp_all add: confirmedTo_def)
qed (simp add: confirmedTo_def)

lemma accounts_ok:
  assumes run: "accountReceipts localeCompare pol receipts asOf = Inr rows" and plain: "\<forall>r \<in> set receipts. plainEvents (cr_events r)"
  shows "\<exists>cap. publicCap pol = Inr cap \<and> (\<forall>r \<in> set rows. rowOk cap (\<lambda>k. receiptsInterest k receipts) r) \<and>
    (\<forall>w b. cap = Some w \<longrightarrow> committedTo b rows \<le> w)"
proof -
  let ?paid = "\<lambda>k. receiptsInterest k receipts"
  let ?byKey = "\<lambda>a b. localeCompare (key (ps_borrower a) (ps_engine a)) (key (ps_borrower b) (ps_engine b))"
  obtain s cap t rows' where replay: "replay pol receipts = Inr (s, cap)"
    and rows': "accountRows pol cap t (js_sort ?byKey (filter (\<lambda>p. ps_enrolled p \<noteq> None) (map snd (bk_positions s)))) (bk_awarded s) = Inr rows'"
    and "rows = js_sort (\<lambda>a b. localeCompare (key (ar_borrower a) (ar_engine a)) (key (ar_borrower b) (ar_engine b))) rows'"
    using run by (auto simp: accountReceipts_def Let_def outcome_Inr simp del: not_None_eq)
  then have rows: "mset rows = mset rows'" by simp
  define ps where "ps = js_sort ?byKey (filter (\<lambda>p. ps_enrolled p \<noteq> None) (map snd (bk_positions s)))"
  have ps: "mset ps = mset (filter (\<lambda>p. ps_enrolled p \<noteq> None) (map snd (bk_positions s)))" by (simp add: ps_def del: not_None_eq)
  note rows' = rows' [folded ps_def]
  note ok = replay_booksOk [OF replay plain]
  then have books: "booksOk cap ?paid s" by blast
  have all: "\<forall>p \<in> set (map snd (bk_positions s)). soundPosition cap p \<and> ps_paid p \<le> ?paid (key (ps_borrower p) (ps_engine p)) * INTEREST_DENOMINATOR"
    using books by (auto simp: booksOk_def)
  have set_ps: "set ps = {p \<in> set (map snd (bk_positions s)). ps_enrolled p \<noteq> None}"
    using mset_eq_setD [OF ps] by auto
  have awarded: "\<forall>w. cap = Some w \<longrightarrow> (\<forall>b. awardedTo (bk_awarded s) b \<le> w)" using books ok by (auto simp: booksOk_def)
  have "(\<forall>r \<in> set rows'. rowOk cap ?paid r) \<and>
    (\<forall>w b. cap = Some w \<longrightarrow> committedTo b rows' + awardedTo (bk_awarded s) b \<le> w + confirmedTo b ps)"
    by (rule accountRows_ok [OF _ _ awarded rows']) (use ok all set_ps in auto)
  moreover have "confirmedTo b ps = awardedTo (bk_awarded s) b" if "cap = Some w" for w b
  proof -
    have "confirmedTo b ps = confirmedTo b (map snd (bk_positions s))"
      using confirmedTo_mset [OF ps] confirmedTo_enrolled [of "map snd (bk_positions s)" cap b] all by simp
    also have "\<dots> = awardedTo (bk_awarded s) b"
      using books ok that by (auto simp: booksOk_def confirmedTo_def values_total_def o_def)
    finally show ?thesis .
  qed
  moreover have "publicCap pol = Inr cap" using replay by (auto simp: replay_def outcome_Inr)
  ultimately show ?thesis
    using committedTo_mset [OF rows] mset_eq_setD [OF rows] by (metis add_le_cancel_right)
qed

section \<open>Accrual across the campaign's boundaries\<close>

lemma telescope: "sum_list (map (\<lambda>(a, b). b - a) (zip xs (tl xs))) = (if xs = [] then 0 else last xs - hd xs)"
  for xs :: "int list"
proof (induction xs)
  case (Cons x xs)
  then show ?case by (cases xs) auto
qed simp

lemma boundaries_ends:
  assumes "u \<le> t"
  shows "boundaries pol u t \<noteq> [] \<and> hd (boundaries pol u t) = u \<and> last (boundaries pol u t) = t"
proof -
  let ?b = "boundaries pol u t"
  have set_b: "set ?b = {x \<in> {u, num (cp_startsAt pol), num (cp_endsAt pol), t}. u \<le> x \<and> x \<le> t}"
    by (auto simp: boundaries_def)
  then have ne: "?b \<noteq> []" using assms by (metis (mono_tags, lifting) empty_iff empty_set insertI1 mem_Collect_eq order_refl)
  have sorted: "sorted_wrt (\<lambda>a b. a - b \<le> 0) ?b" unfolding boundaries_def by (rule by_difference.js_sort_sorted)
  have "u \<in> set ?b" "t \<in> set ?b" "\<forall>x \<in> set ?b. u \<le> x \<and> x \<le> t" using assms set_b by auto
  moreover have "hd ?b \<le> u" using sorted \<open>u \<in> set ?b\<close> by (cases ?b) auto
  moreover have "t \<le> last ?b"
    using sorted \<open>t \<in> set ?b\<close> ne by (cases ?b rule: rev_cases) (auto simp: sorted_wrt_append)
  ultimately show ?thesis using ne by (metis hd_in_set last_in_set order_antisym)
qed

lemma chunkOf_total:
  assumes "ratesOk pol" and "a \<le> b" and "0 \<le> ps_principal p"
  shows "sum_list (map ch_total (chunkOf pol p (a, b))) = ps_principal p * rateOf pol (ps_engine p) * (b - a)"
proof -
  have "0 \<le> ps_principal p * ((b - a) * rateOf pol (ps_engine p))" using assms by (simp add: rateOf_nonneg)
  then show ?thesis by (auto simp: chunkOf_def Let_def algebra_simps)
qed

lemma accrue_total:
  assumes pol: "ratesOk pol" and p: "0 \<le> ps_principal p" and run: "accrue pol t p = Inr q"
  shows "unpaid q = unpaid p + ps_principal p * rateOf pol (ps_engine p) * (t - ps_updatedAt p)"
proof -
  let ?b = "boundaries pol (ps_updatedAt p) t" and ?r = "ps_principal p * rateOf pol (ps_engine p)"
  obtain cs where q: "q = p\<lparr>ps_accrual := ps_accrual p @ cs, ps_updatedAt := t\<rparr>"
    and cs: "cs = concat (map (chunkOf pol p) (zip ?b (tl ?b)))" and le: "ps_updatedAt p \<le> t"
    using run by (rule accrueE)
  have "sum_list (map ch_total (concat (map (chunkOf pol p) zs))) = ?r * sum_list (map (\<lambda>(a, b). b - a) zs)"
    if "\<forall>(a, b) \<in> set zs. a \<le> b" for zs
    using that by (induction zs) (auto simp: chunkOf_total [OF pol _ p] algebra_simps)
  then have "sum_list (map ch_total cs) = ?r * sum_list (map (\<lambda>(a, b). b - a) (zip ?b (tl ?b)))"
    unfolding cs using boundaries_le by blast
  with telescope [of ?b] boundaries_ends [OF le, of pol] show ?thesis by (simp add: q unpaid_def)
qed


end
