(* ===== verification/Cashback_Ledger.thy ===== *)
theory Cashback_Ledger
  imports Cashback_Invariant
begin

text \<open>
  services/borrower-cashback/src/ledger.mjs: the durable history the rebates are computed
  from. A table is its rows in the order of the primary key; an operation that throws
  inside a transaction rolls back, so it leaves the ledger it was given.
\<close>

section \<open>Tables\<close>

record block_row =
  br_hash :: string
  br_parentHash :: string
  br_timestamp :: int
  br_receipts :: "cash_receipt list"

record cash_ledger =
  ld_blocks :: "(int \<times> block_row) list"
  ld_publications :: "(string \<times> int \<times> string) list"

record canonical_block =
  ib_number :: js_number
  ib_hash :: string
  ib_parentHash :: string
  ib_timestamp :: js_number
  ib_receipts :: "cash_receipt list"

definition emptyLedger :: cash_ledger where
  "emptyLedger = \<lparr>ld_blocks = [], ld_publications = []\<rparr>"

text \<open>The constructor: the policy must account for no receipts, and the stored configuration text must not change.\<close>

definition openLedger :: "(string \<Rightarrow> string \<Rightarrow> int) \<Rightarrow> policy \<Rightarrow> js_number \<Rightarrow> string option \<Rightarrow> string \<Rightarrow> string outcome" where
  "openLedger localeCompare pol startBlock configured value =
     demand (safe_natural startBlock) ''Invalid start block''
      (and_then (accountReceipts localeCompare pol [] None) (\<lambda>_.
       case configured of None \<Rightarrow> Inr value
       | Some old \<Rightarrow> demand (old = value) ''Ledger configuration changed'' (Inr old)))"

definition head :: "cash_ledger \<Rightarrow> (int \<times> block_row) option" where
  "head l = (if ld_blocks l = [] then None else Some (last (ld_blocks l)))"

definition block :: "cash_ledger \<Rightarrow> int \<Rightarrow> block_row option" where
  "block l n = map_of (ld_blocks l) n"

definition rowOf :: "canonical_block \<Rightarrow> block_row" where
  "rowOf b = \<lparr>br_hash = ib_hash b, br_parentHash = ib_parentHash b, br_timestamp = num (ib_timestamp b), br_receipts = ib_receipts b\<rparr>"

definition insertBlock :: "int \<Rightarrow> block_row \<Rightarrow> cash_ledger \<Rightarrow> cash_ledger outcome" where
  "insertBlock n r l = demand (block l n = None) ''UNIQUE constraint failed: blocks.number''
     (Inr (l\<lparr>ld_blocks := filter (\<lambda>(m, _). m < n) (ld_blocks l) @ (n, r) # filter (\<lambda>(m, _). n < m) (ld_blocks l)\<rparr>))"

definition deleteFrom :: "int \<Rightarrow> cash_ledger \<Rightarrow> cash_ledger" where
  "deleteFrom n l = l\<lparr>ld_blocks := filter (\<lambda>(m, _). m < n) (ld_blocks l)\<rparr>"

section \<open>Operations\<close>

definition accounts :: "(string \<Rightarrow> string \<Rightarrow> int) \<Rightarrow> policy \<Rightarrow> cash_ledger \<Rightarrow> account_row list outcome" where
  "accounts localeCompare pol l =
     accountReceipts localeCompare pol (concat (map (\<lambda>(_, r). br_receipts r) (ld_blocks l)))
       (map_option (\<lambda>(_, r). JS_int (br_timestamp r)) (head l))"

definition account :: "(string \<Rightarrow> string \<Rightarrow> int) \<Rightarrow> policy \<Rightarrow> cash_ledger \<Rightarrow> string \<Rightarrow> account_row list outcome" where
  "account localeCompare pol l borrower =
     and_then (accounts localeCompare pol l) (\<lambda>rows. Inr (filter (\<lambda>r. ar_borrower r = js_lower borrower) rows))"

definition protectPublication :: "string \<Rightarrow> int \<Rightarrow> string \<Rightarrow> cash_ledger \<Rightarrow> cash_ledger outcome" where
  "protectPublication root through hash l =
     demand (map_option br_hash (block l through) = Some hash) ''Publication is not anchored to canonical history''
      (Inr (if map_of (ld_publications l) root = None
            then l\<lparr>ld_publications := ld_publications l @ [(root, through, hash)]\<rparr> else l))"

fun protectEvent :: "cash_event \<Rightarrow> cash_ledger \<Rightarrow> cash_ledger outcome" where
  "protectEvent (Published root through hash) l = protectPublication root through hash l"
| "protectEvent _ l = Inr l"

definition protectEvents :: "cash_receipt list \<Rightarrow> cash_ledger \<Rightarrow> cash_ledger outcome" where
  "protectEvents receipts = fold_outcome protectEvent (concat (map cr_events receipts))"

definition validBlock :: "canonical_block \<Rightarrow> bool" where
  "validBlock b \<longleftrightarrow> ib_hash b \<noteq> '''' \<and> ib_parentHash b \<noteq> '''' \<and> safe_natural (ib_timestamp b)
     \<and> list_all (\<lambda>r. cr_timestamp r = ib_timestamp b) (ib_receipts b)"

definition connected :: "int \<Rightarrow> cash_ledger \<Rightarrow> canonical_block \<Rightarrow> int \<Rightarrow> bool" where
  "connected startBlock l b n \<longleftrightarrow>
     (n \<noteq> startBlock \<longrightarrow> (case block l (n - 1) of None \<Rightarrow> False
        | Some p \<Rightarrow> ib_parentHash b = br_hash p \<and> br_timestamp p \<le> num (ib_timestamp b))) \<and>
     (n = startBlock \<longrightarrow> (case block l n of None \<Rightarrow> True | Some old \<Rightarrow> ib_parentHash b = br_parentHash old))"

definition ingest ::
    "(string \<Rightarrow> string \<Rightarrow> int) \<Rightarrow> policy \<Rightarrow> int \<Rightarrow> canonical_block \<Rightarrow> cash_ledger \<Rightarrow> cash_ledger outcome" where
  "ingest localeCompare pol startBlock b l =
     demand (safe_number (ib_number b) \<and> startBlock \<le> num (ib_number b) \<and> validBlock b) ''Invalid canonical block''
      (let n = num (ib_number b) in
       if map_option br_hash (block l n) = Some (ib_hash b) then Inr l else
       demand (\<not> (block l n \<noteq> None \<and> list_ex (\<lambda>(_, through, _). n \<le> through) (ld_publications l)))
         ''Reorganization affects published entitlements; operator review required''
      (demand (connected startBlock l b n) ''Block is disconnected from canonical history''
      (and_then (insertBlock n (rowOf b) (if block l n \<noteq> None then deleteFrom n l else l)) (\<lambda>l1.
       and_then (if ib_receipts b \<noteq> [] then and_then (accounts localeCompare pol l1) (\<lambda>_. Inr ()) else Inr ()) (\<lambda>_.
       protectEvents (ib_receipts b) l1)))))"

text \<open>The checks of a historical range: every block against the one before it.\<close>

definition rangeBlockOk :: "int \<Rightarrow> int \<Rightarrow> (int \<times> string \<times> int) option \<Rightarrow> canonical_block \<Rightarrow> bool" where
  "rangeBlockOk from till previous b \<longleftrightarrow> safe_number (ib_number b) \<and> from \<le> num (ib_number b) \<and> num (ib_number b) \<le> till \<and> validBlock b \<and>
     (case previous of None \<Rightarrow> True | Some (n, hash, at) \<Rightarrow>
        n < num (ib_number b) \<and> at \<le> num (ib_timestamp b) \<and> (num (ib_number b) = n + 1 \<longrightarrow> ib_parentHash b = hash))"

fun rangeOk :: "int \<Rightarrow> int \<Rightarrow> (int \<times> string \<times> int) option \<Rightarrow> canonical_block list \<Rightarrow> bool" where
  "rangeOk from till previous [] = True"
| "rangeOk from till previous (b # bs) \<longleftrightarrow> rangeBlockOk from till previous b
     \<and> rangeOk from till (Some (num (ib_number b), ib_hash b, num (ib_timestamp b))) bs"

definition ingestRange ::
    "(string \<Rightarrow> string \<Rightarrow> int) \<Rightarrow> policy \<Rightarrow> int \<Rightarrow> js_number \<Rightarrow> js_number \<Rightarrow> canonical_block list \<Rightarrow> cash_ledger \<Rightarrow> cash_ledger outcome" where
  "ingestRange localeCompare pol startBlock from till bs l =
     demand (safe_number from \<and> safe_number till \<and> num from \<le> num till
       \<and> num from = (case head l of Some (n, _) \<Rightarrow> n + 1 | None \<Rightarrow> startBlock)
       \<and> bs \<noteq> [] \<and> ib_number (hd bs) = from \<and> ib_number (last bs) = till) ''Disconnected historical range''
    (demand (rangeOk (num from) (num till) (map_option (\<lambda>(n, r). (n, br_hash r, br_timestamp r)) (head l)) bs) ''Invalid historical range block''
    (and_then (fold_outcome (\<lambda>b. insertBlock (num (ib_number b)) (rowOf b)) bs l) (\<lambda>l1.
     and_then (accounts localeCompare pol l1) (\<lambda>_.
     protectEvents (concat (map ib_receipts bs)) l1))))"

section \<open>Rows in the order of their numbers\<close>

definition ordered :: "cash_ledger \<Rightarrow> bool" where
  "ordered l \<longleftrightarrow> sorted_wrt (\<lambda>x y. fst x < fst y) (ld_blocks l)"

lemma map_of_kept: "map_of (filter (\<lambda>(m, _). P m) rows) k = (if P k then map_of rows k else None)"
  by (induction rows) auto

lemma block_deleteFrom [simp]: "block (deleteFrom n l) k = (if k < n then block l k else None)"
  by (simp add: block_def deleteFrom_def map_of_kept)

lemma ordered_deleteFrom: "ordered l \<Longrightarrow> ordered (deleteFrom n l)"
  by (simp add: ordered_def deleteFrom_def sorted_wrt_filter)

lemma insertBlock_Inr:
  assumes "insertBlock n r l = Inr l'"
  shows "ld_publications l' = ld_publications l" and "block l n = None" and "block l' k = (if k = n then Some r else block l k)"
    and "ordered l \<Longrightarrow> ordered l'"
proof -
  have l': "l' = l\<lparr>ld_blocks := filter (\<lambda>(m, _). m < n) (ld_blocks l) @ (n, r) # filter (\<lambda>(m, _). n < m) (ld_blocks l)\<rparr>"
    and none: "block l n = None"
    using assms by (auto simp: insertBlock_def demand_Inr)
  show "ld_publications l' = ld_publications l" "block l n = None" by (simp_all add: l' none)
  show "block l' k = (if k = n then Some r else block l k)"
    using none by (auto simp: l' block_def map_add_def map_of_kept split: option.split)
  show "ordered l'" if "ordered l"
    using that by (auto simp: l' ordered_def sorted_wrt_append sorted_wrt_filter)
qed

lemma block_last: "ordered l \<Longrightarrow> (n, r) \<in> set (ld_blocks l) \<Longrightarrow> block l n = Some r"
proof -
  assume "ordered l" and m: "(n, r) \<in> set (ld_blocks l)"
  have "sorted_wrt (\<lambda>x y. fst x < fst y) rows \<Longrightarrow> distinct (map fst rows)" for rows :: "(int \<times> block_row) list"
    by (induction rows) auto
  then show ?thesis using \<open>ordered l\<close> m by (simp add: block_def ordered_def)
qed

text \<open>The head is the stored block with the highest number.\<close>

lemma head_top:
  assumes "ordered l" and "head l = Some (h, r)"
  shows "block l h = Some r" and "block l k \<noteq> None \<Longrightarrow> k \<le> h"
proof -
  obtain xs where xs: "ld_blocks l = xs @ [(h, r)]"
    using assms(2) by (metis append_butlast_last_id head_def option.distinct(1) option.inject)
  show "block l h = Some r" using block_last [OF assms(1), of h r] by (simp add: xs)
  show "k \<le> h" if stored: "block l k \<noteq> None"
  proof -
    obtain s where "block l k = Some s" using stored by auto
    then have "(k, s) \<in> set (ld_blocks l)" unfolding block_def by (rule map_of_SomeD)
    then show ?thesis using assms(1) by (auto simp: xs ordered_def sorted_wrt_append)
  qed
qed

lemma head_none: "head l = None \<Longrightarrow> block l k = None"
  by (simp add: head_def block_def split: if_splits)

section \<open>A hash chain with anchored publications\<close>

text \<open>
  \<open>skipped\<close> are the numbers that historical ranges have left out. A block that was not left out is the parent of the
  stored block above it, and every number that is missing below a stored block was left out.
\<close>

definition linked :: "int set \<Rightarrow> cash_ledger \<Rightarrow> bool" where
  "linked skipped l \<longleftrightarrow> (\<forall>n r s. block l n = Some r \<longrightarrow> block l (n + 1) = Some s \<longrightarrow> n \<notin> skipped \<longrightarrow>
     br_parentHash s = br_hash r \<and> br_timestamp r \<le> br_timestamp s)"

definition gapsSkipped :: "int \<Rightarrow> int set \<Rightarrow> cash_ledger \<Rightarrow> bool" where
  "gapsSkipped startBlock skipped l \<longleftrightarrow> (\<forall>n m. startBlock \<le> n \<longrightarrow> n < m \<longrightarrow> block l m \<noteq> None \<longrightarrow> block l n = None \<longrightarrow> n \<in> skipped)"

definition anchored :: "cash_ledger \<Rightarrow> bool" where
  "anchored l \<longleftrightarrow> (\<forall>(root, through, hash) \<in> set (ld_publications l). map_option br_hash (block l through) = Some hash)"

definition ledgerOk :: "int \<Rightarrow> int set \<Rightarrow> cash_ledger \<Rightarrow> bool" where
  "ledgerOk startBlock skipped l \<longleftrightarrow> ordered l \<and> (\<forall>n. block l n \<noteq> None \<longrightarrow> startBlock \<le> n) \<and> linked skipped l
     \<and> gapsSkipped startBlock skipped l \<and> anchored l"

lemma linkedD: "linked skipped l \<Longrightarrow> block l n = Some r \<Longrightarrow> block l (n + 1) = Some s \<Longrightarrow> n \<notin> skipped \<Longrightarrow>
    br_parentHash s = br_hash r \<and> br_timestamp r \<le> br_timestamp s"
  by (simp add: linked_def)

lemma gapsSkippedD: "gapsSkipped startBlock skipped l \<Longrightarrow> startBlock \<le> n \<Longrightarrow> n < m \<Longrightarrow> block l m \<noteq> None \<Longrightarrow> block l n = None \<Longrightarrow> n \<in> skipped"
  unfolding gapsSkipped_def by blast

lemma ledgerOk_blocks: "ledgerOk startBlock skipped l \<Longrightarrow> ld_blocks l' = ld_blocks l \<Longrightarrow> anchored l' \<Longrightarrow> ledgerOk startBlock skipped l'"
  by (simp add: ledgerOk_def ordered_def linked_def gapsSkipped_def block_def)

lemma protectPublication_ok:
  "anchored l \<Longrightarrow> protectPublication root through hash l = Inr l' \<Longrightarrow> anchored l' \<and> ld_blocks l' = ld_blocks l"
  unfolding protectPublication_def demand_Inr anchored_def block_def by (fastforce split: if_splits)

lemma protectEvents_ok:
  assumes "anchored l" and "protectEvents rs l = Inr l'"
  shows "anchored l' \<and> ld_blocks l' = ld_blocks l"
  using assms(2) unfolding protectEvents_def
proof (rule fold_outcome_invariant [where P = "\<lambda>x. anchored x \<and> ld_blocks x = ld_blocks l"])
  show "anchored l \<and> ld_blocks l = ld_blocks l" using assms(1) by simp
  fix ev s s'
  assume "anchored s \<and> ld_blocks s = ld_blocks l" and "protectEvent ev s = Inr s'"
  then show "anchored s' \<and> ld_blocks s' = ld_blocks l"
    using protectPublication_ok by (cases ev) auto
qed

lemma ingestE:
  assumes "ingest lc pol startBlock b l = Inr l'"
  obtains (same) "l' = l" "map_option br_hash (block l (num (ib_number b))) = Some (ib_hash b)"
  | (stored) l1 where "startBlock \<le> num (ib_number b)" "connected startBlock l b (num (ib_number b))"
      "block l (num (ib_number b)) = None \<or> (\<forall>(_, through, _) \<in> set (ld_publications l). through < num (ib_number b))"
      "insertBlock (num (ib_number b)) (rowOf b) (if block l (num (ib_number b)) \<noteq> None then deleteFrom (num (ib_number b)) l else l) = Inr l1"
      "protectEvents (ib_receipts b) l1 = Inr l'"
proof (cases "map_option br_hash (block l (num (ib_number b))) = Some (ib_hash b)")
  case True
  then show thesis using assms same by (simp add: ingest_def demand_Inr)
next
  case False
  have "startBlock \<le> num (ib_number b) \<and> connected startBlock l b (num (ib_number b)) \<and>
    \<not> (block l (num (ib_number b)) \<noteq> None \<and> list_ex (\<lambda>(_, through, _). num (ib_number b) \<le> through) (ld_publications l)) \<and>
    (\<exists>l1. insertBlock (num (ib_number b)) (rowOf b) (if block l (num (ib_number b)) \<noteq> None then deleteFrom (num (ib_number b)) l else l) = Inr l1 \<and>
      protectEvents (ib_receipts b) l1 = Inr l')"
    using assms unfolding ingest_def Let_def if_not_P [OF False] outcome_Inr by blast
  then show thesis using stored by (auto simp: list_ex_iff not_le case_prod_beta simp del: not_None_eq)
qed


lemma connectedD:
  assumes "connected startBlock l b n" and "n \<noteq> startBlock"
  obtains p where "block l (n - 1) = Some p" "ib_parentHash b = br_hash p" "br_timestamp p \<le> num (ib_timestamp b)"
  using assms by (auto simp: connected_def split: option.splits)

text \<open>A block that is stored or replaced, wherever in the history, keeps all of this.\<close>

lemma ingest_ok:
  assumes ok: "ledgerOk startBlock skipped l" and run: "ingest lc pol startBlock b l = Inr l'"
  shows "ledgerOk startBlock skipped l'"
  using run
proof (cases rule: ingestE)
  case (stored l1)
  let ?n = "num (ib_number b)"
  define l0 where "l0 = (if block l ?n \<noteq> None then deleteFrom ?n l else l)"
  note ins = insertBlock_Inr [OF stored(4) [folded l0_def]]
  have low: "\<And>k. block l k \<noteq> None \<Longrightarrow> startBlock \<le> k" and link: "linked skipped l" and gaps: "gapsSkipped startBlock skipped l"
    and ord: "ordered l" and anch: "anchored l"
    using ok by (simp_all add: ledgerOk_def)
  have b1: "block l1 k = (if k = ?n then Some (rowOf b) else if block l ?n \<noteq> None \<and> \<not> k < ?n then None else block l k)" for k
    unfolding ins(3) l0_def by auto
  have parent: "br_parentHash (rowOf b) = br_hash r \<and> br_timestamp r \<le> br_timestamp (rowOf b)" if "block l (?n - 1) = Some r" for r
  proof -
    have "?n \<noteq> startBlock" using low [of "?n - 1"] that by auto
    from connectedD [OF stored(2) this] that show ?thesis by (auto simp: rowOf_def)
  qed
  have "linked skipped l1"
    unfolding linked_def
  proof (intro allI impI)
    fix k r s assume k: "block l1 k = Some r" "block l1 (k + 1) = Some s" "k \<notin> skipped"
    consider "k + 1 = ?n" | "k = ?n" | "k \<noteq> ?n" "k + 1 \<noteq> ?n" by blast
    then show "br_parentHash s = br_hash r \<and> br_timestamp r \<le> br_timestamp s"
    proof cases
      case 1
      then have k1: "?n - 1 = k" by simp
      have "block l (?n - 1) = Some r" unfolding k1 using k(1) 1 by (auto simp: b1 split: if_splits)
      moreover have "s = rowOf b" using k(2) 1 by (auto simp: b1 split: if_splits)
      ultimately show ?thesis using parent by simp
    next
      case 2
      then have "block l ?n = None" "block l (?n + 1) \<noteq> None" using k(2) by (auto simp: b1 split: if_splits)
      then have "?n \<in> skipped" using gapsSkippedD [OF gaps stored(1), of "?n + 1"] by simp
      then show ?thesis using k(3) 2 by simp
    next
      case 3
      then show ?thesis using k linkedD [OF link, of k r s] by (auto simp: b1 split: if_splits)
    qed
  qed
  moreover have "gapsSkipped startBlock skipped l1"
    unfolding gapsSkipped_def
  proof (intro allI impI)
    fix k m assume k: "startBlock \<le> k" "k < m" "block l1 m \<noteq> None" "block l1 k = None"
    show "k \<in> skipped"
    proof (cases "k < ?n")
      case True
      then have none: "block l k = None" using k(4) by (auto simp: b1 split: if_splits)
      have "?n \<noteq> startBlock" using k(1) True by simp
      then obtain p where p: "block l (?n - 1) = Some p" using connectedD [OF stored(2)] by blast
      then have "k < ?n - 1" using none True by (cases "k = ?n - 1") auto
      then show ?thesis using gapsSkippedD [OF gaps k(1) _ _ none] p by simp
    next
      case False
      then have "block l ?n = None" "block l m \<noteq> None" "block l k = None" using k(2-4) by (auto simp: b1 split: if_splits)
      then show ?thesis using gapsSkippedD [OF gaps k(1,2)] by simp
    qed
  qed
  moreover have anchored1: "anchored l1"
  proof -
    have "map_option br_hash (block l1 through) = Some hash" if pub: "(root, through, hash) \<in> set (ld_publications l1)" for root through hash
    proof -
      have pub': "(root, through, hash) \<in> set (ld_publications l)" using pub ins(1) by (auto simp: l0_def deleteFrom_def split: if_splits)
      then have old: "map_option br_hash (block l through) = Some hash" using anch by (auto simp: anchored_def)
      have "block l1 through = block l through"
        using stored(3) pub' old by (auto simp: b1)
      then show ?thesis using old by simp
    qed
    then show ?thesis unfolding anchored_def by blast
  qed
  moreover have "ordered l1" using ins(4) ord ordered_deleteFrom by (auto simp: l0_def split: if_splits)
  moreover have "\<forall>k. block l1 k \<noteq> None \<longrightarrow> startBlock \<le> k" using low stored(1) by (auto simp: b1)
  ultimately have "ledgerOk startBlock skipped l1" by (simp add: ledgerOk_def)
  with protectEvents_ok [OF \<open>anchored l1\<close> stored(5)] show ?thesis using ledgerOk_blocks by blast
qed (use ok in simp)

section \<open>Historical ranges\<close>

abbreviation numbersOf :: "canonical_block list \<Rightarrow> int set" where
  "numbersOf bs \<equiv> (\<lambda>b. num (ib_number b)) ` set bs"

lemma range_inserts:
  assumes "ordered l" and "rangeOk from till (map_option (\<lambda>(n, r). (n, br_hash r, br_timestamp r)) (head l)) bs"
    and "fold_outcome (\<lambda>b. insertBlock (num (ib_number b)) (rowOf b)) bs l = Inr l'"
  shows "ordered l' \<and> ld_publications l' = ld_publications l \<and> (\<forall>k. (block l' k \<noteq> None \<longleftrightarrow> block l k \<noteq> None \<or> k \<in> numbersOf bs)
      \<and> (block l k \<noteq> None \<longrightarrow> block l' k = block l k)) \<and> (linked skipped l \<longrightarrow> linked skipped l') \<and> numbersOf bs \<subseteq> {from..till}"
  using assms
proof (induction bs arbitrary: l)
  case (Cons b bs)
  let ?n = "num (ib_number b)"
  have ok: "rangeBlockOk from till (map_option (\<lambda>(n, r). (n, br_hash r, br_timestamp r)) (head l)) b"
    and rest: "rangeOk from till (Some (?n, ib_hash b, num (ib_timestamp b))) bs"
    using Cons.prems(2) by simp_all
  obtain l1 where l1: "insertBlock ?n (rowOf b) l = Inr l1"
    and run: "fold_outcome (\<lambda>b. insertBlock (num (ib_number b)) (rowOf b)) bs l1 = Inr l'"
    using Cons.prems(3) by (auto simp: and_then_Inr)
  note ins = insertBlock_Inr [OF l1]
  have above: "k < ?n" if "block l k \<noteq> None" for k
  proof (cases "head l")
    case None
    then show ?thesis using that head_none by simp
  next
    case (Some z)
    then show ?thesis using ok head_top(2) [OF Cons.prems(1), where k = k] that by (cases z) (auto simp: rangeBlockOk_def)
  qed
  have top1: "head l1 = Some (?n, rowOf b)"
  proof -
    have "ld_blocks l1 \<noteq> []" using ins(3) [of ?n] by (auto simp: block_def)
    then obtain h r where h: "head l1 = Some (h, r)" by (metis head_def old.prod.exhaust)
    have "block l1 h = Some r" "?n \<le> h" using head_top [OF ins(4) [OF Cons.prems(1)] h] ins(3) [of ?n] by simp_all
    then have "h = ?n" using above [of h] ins(3) [of h] by (auto split: if_splits)
    then show ?thesis using h ins(3) [of ?n] \<open>block l1 h = Some r\<close> by simp
  qed
  have link1: "linked skipped l \<Longrightarrow> linked skipped l1"
    unfolding linked_def
  proof (intro allI impI)
    fix k r s assume link: "\<forall>n r s. block l n = Some r \<longrightarrow> block l (n + 1) = Some s \<longrightarrow> n \<notin> skipped \<longrightarrow> br_parentHash s = br_hash r \<and> br_timestamp r \<le> br_timestamp s"
      and k: "block l1 k = Some r" "block l1 (k + 1) = Some s" "k \<notin> skipped"
    show "br_parentHash s = br_hash r \<and> br_timestamp r \<le> br_timestamp s"
    proof (cases "k + 1 = ?n")
      case True
      then have old: "block l k = Some r" and s: "s = rowOf b" using k(1,2) ins(3) by auto
      obtain h z where h: "head l = Some (h, z)" using old head_none by (cases "head l") auto
      have "h = k" using head_top [OF Cons.prems(1) h] old above [of h] True by force
      then have "z = r" using head_top(1) [OF Cons.prems(1) h] old by simp
      then show ?thesis using ok h True \<open>h = k\<close> by (simp add: rangeBlockOk_def rowOf_def s)
    next
      case False
      then show ?thesis using k link above [of "k + 1"] ins(3) by (auto split: if_splits)
    qed
  qed
  have ih: "ordered l' \<and> ld_publications l' = ld_publications l1 \<and> (\<forall>k. (block l' k \<noteq> None \<longleftrightarrow> block l1 k \<noteq> None \<or> k \<in> numbersOf bs)
      \<and> (block l1 k \<noteq> None \<longrightarrow> block l' k = block l1 k)) \<and> (linked skipped l1 \<longrightarrow> linked skipped l') \<and> numbersOf bs \<subseteq> {from..till}"
    by (rule Cons.IH [OF ins(4) [OF Cons.prems(1)] _ run]) (use rest in \<open>simp add: top1 rowOf_def\<close>)
  have n: "from \<le> ?n \<and> ?n \<le> till" using ok by (simp add: rangeBlockOk_def)
  show ?case
    using ih link1 ins(1,2) n by (auto simp: ins(3))
qed (simp add: ordered_def)

definition skippedIn :: "int \<Rightarrow> int \<Rightarrow> canonical_block list \<Rightarrow> int set" where
  "skippedIn low high bs = {low..high} - numbersOf bs"

lemma ingestRange_ok:
  assumes ok: "ledgerOk startBlock skipped l" and run: "ingestRange lc pol startBlock from till bs l = Inr l'"
  shows "ledgerOk startBlock (skipped \<union> skippedIn (num from) (num till) bs) l'"
proof -
  let ?skipped = "skipped \<union> skippedIn (num from) (num till) bs"
  obtain l1 where g: "num from = (case head l of Some (n, _) \<Rightarrow> n + 1 | None \<Rightarrow> startBlock)"
    and r: "rangeOk (num from) (num till) (map_option (\<lambda>(n, r). (n, br_hash r, br_timestamp r)) (head l)) bs"
    and f: "fold_outcome (\<lambda>b. insertBlock (num (ib_number b)) (rowOf b)) bs l = Inr l1"
    and p: "protectEvents (concat (map ib_receipts bs)) l1 = Inr l'"
    using run unfolding ingestRange_def outcome_Inr by blast
  have low: "\<And>k. block l k \<noteq> None \<Longrightarrow> startBlock \<le> k" and gaps: "gapsSkipped startBlock skipped l" and ord: "ordered l" and anch: "anchored l"
    using ok by (simp_all add: ledgerOk_def)
  have "linked ?skipped l" using ok by (auto simp: ledgerOk_def linked_def)
  with range_inserts [OF ord r f, of ?skipped] have l1: "ordered l1" "ld_publications l1 = ld_publications l" "linked ?skipped l1"
    "\<And>k. block l1 k \<noteq> None \<longleftrightarrow> block l k \<noteq> None \<or> k \<in> numbersOf bs" "\<And>k. block l k \<noteq> None \<Longrightarrow> block l1 k = block l k"
    "numbersOf bs \<subseteq> {num from..num till}"
    by blast+
  have start: "startBlock \<le> num from \<and> (\<forall>k. block l k \<noteq> None \<longrightarrow> k < num from) \<and> (num from \<noteq> startBlock \<longrightarrow> block l (num from - 1) \<noteq> None)"
  proof (cases "head l")
    case None
    then show ?thesis using g head_none by simp
  next
    case (Some z)
    then obtain h r where h: "head l = Some (h, r)" by (cases z) simp
    have n: "num from = h + 1" using g h by simp
    have "block l h = Some r" by (rule head_top(1) [OF ord h])
    moreover from this have "startBlock \<le> h" using low [of h] by simp
    moreover have "k < num from" if "block l k \<noteq> None" for k using head_top(2) [OF ord h that] n by simp
    ultimately show ?thesis using n by simp
  qed
  have "gapsSkipped startBlock ?skipped l1"
    unfolding gapsSkipped_def
  proof (intro allI impI)
    fix k m assume k: "startBlock \<le> k" "k < m" "block l1 m \<noteq> None" "block l1 k = None"
    have none: "block l k = None" "k \<notin> numbersOf bs" using k(4) l1(4) [of k] by blast+
    show "k \<in> ?skipped"
    proof (cases "k < num from")
      case True
      then have "block l (num from - 1) \<noteq> None" using start k(1) by auto
      moreover from this none(1) True have "k < num from - 1" by (cases "k = num from - 1") auto
      ultimately show ?thesis using gapsSkippedD [OF gaps k(1) _ _ none(1)] by simp
    next
      case False
      then have "m \<in> numbersOf bs" using k(2,3) l1(4) [of m] start by (meson not_less_iff_gr_or_eq order_less_le_trans not_le)
      then have "k \<in> {num from..num till}" using False k(2) l1(6) by auto
      then show ?thesis using none(2) by (simp add: skippedIn_def)
    qed
  qed
  moreover have "anchored l1"
    using anch unfolding anchored_def l1(2) by (fastforce simp: l1(5))
  moreover have "startBlock \<le> k" if "block l1 k \<noteq> None" for k
    using l1(4) [of k] that low [of k] start subsetD [OF l1(6), of k] by auto
  ultimately have "ledgerOk startBlock ?skipped l1" using l1(1,3) by (simp add: ledgerOk_def)
  with protectEvents_ok [OF \<open>anchored l1\<close> p] show ?thesis using ledgerOk_blocks by blast
qed

section \<open>The life of a ledger\<close>

text \<open>
  Any blocks and ranges that the ledger accepts, in any order; a rejected operation changes nothing. The set holds the
  numbers that the ranges have left out.
\<close>

inductive ledgerReaches :: "(string \<Rightarrow> string \<Rightarrow> int) \<Rightarrow> policy \<Rightarrow> int \<Rightarrow> int set \<Rightarrow> cash_ledger \<Rightarrow> bool"
  for lc :: "string \<Rightarrow> string \<Rightarrow> int" and pol :: policy and startBlock :: int where
  opened: "ledgerReaches lc pol startBlock {} emptyLedger"
| block_step: "ledgerReaches lc pol startBlock skipped l \<Longrightarrow> ingest lc pol startBlock b l = Inr l' \<Longrightarrow>
    ledgerReaches lc pol startBlock skipped l'"
| range_step: "ledgerReaches lc pol startBlock skipped l \<Longrightarrow> ingestRange lc pol startBlock from till bs l = Inr l' \<Longrightarrow>
    ledgerReaches lc pol startBlock (skipped \<union> skippedIn (num from) (num till) bs) l'"
| publish_step: "ledgerReaches lc pol startBlock skipped l \<Longrightarrow> protectPublication root through hash l = Inr l' \<Longrightarrow>
    ledgerReaches lc pol startBlock skipped l'"

lemma reached_ok: "ledgerReaches lc pol startBlock skipped l \<Longrightarrow> ledgerOk startBlock skipped l"
proof (induction rule: ledgerReaches.induct)
  case opened
  show ?case by (simp add: ledgerOk_def ordered_def linked_def gapsSkipped_def anchored_def emptyLedger_def block_def)
next
  case (publish_step skipped l root through hash l')
  then show ?case using protectPublication_ok ledgerOk_blocks unfolding ledgerOk_def by metis
qed (blast intro: ingest_ok ingestRange_ok)+

end
