(* ===== verification/Cashback_Properties.thy ===== *)
theory Cashback_Properties
  imports Cashback_Ledger P2P_Amounts
begin

text \<open>What the cashback service promises, on a sample campaign for the witnesses.\<close>

section \<open>A sample campaign\<close>

definition samplePolicy :: policy where
  "samplePolicy = \<lparr>cp_startsAt = JS_int 1000, cp_endsAt = JS_int 865000, cp_settlementDeadline = JS_int 3457000,
     cp_claimDeadline = JS_int 6049000, cp_rebateBps = JS_int 5000, cp_engines = [(''0xe'', JS_int 1000)], cp_walletCap = Some ''25000000''\<rparr>"

definition sampleReceipts :: "cash_receipt list" where
  "sampleReceipts =
     [\<lparr>cr_timestamp = JS_int 1000, cr_hash = ''t1'', cr_events =
        [Enrolled ''0xb'' ''0xe'' ''25000000'' (JS_int 1000), Borrowed ''0xb'' ''0xe'' ''365000000'']\<rparr>,
      \<lparr>cr_timestamp = JS_int 865000, cr_hash = ''t2'', cr_events = [Repaid ''0xb'' ''0xe'' ''365000000'' ''1000000'']\<rparr>]"

lemma sample_amounts:
  "amount ''25000000'' = Inr 25000000" "amount ''365000000'' = Inr 365000000" "amount ''1000000'' = Inr 1000000"
  by (simp_all add: amount_def js_BigInt_digits digit_text outcome_Inr)

lemma sample_texts: "js_lower ''0xb'' = ''0xb''" "js_lower ''0xe'' = ''0xe''" "key ''0xb'' ''0xe'' = ''0xb:0xe''"
  by (simp_all add: key_def js_lower_def js_lower_char_def Let_def)

lemma sample_policy_ok:
  "quoteCashback 0 (JS_int 0) (cp_startsAt samplePolicy) (JS_int 0) (Some samplePolicy) None =
     Inr (emptyEstimate (ceilDiv 0 INTEREST_DENOMINATOR) NotEnrolled)"
  "list_all (\<lambda>(_, r). validRate r) (cp_engines samplePolicy)" "publicCap samplePolicy = Inr (Some 25000000)"
  by (simp_all add: quoteCashback_def samplePolicy_def validLoan_def validCampaign_def safe_natural_def isSafeInteger_def
      MAX_SAFE_INTEGER_def validRate_def publicCap_def sample_amounts)

definition samplePosition :: cash_position where
  "samplePosition = \<lparr>ps_borrower = ''0xb'', ps_engine = ''0xe'', ps_principal = 0, ps_eligible = 0, ps_updatedAt = 865000,
     ps_accrual = [], ps_paid = 315360000000000000, ps_confirmed = 500000, ps_enrolled = Some (1000, 25000000)\<rparr>"

lemma sample_replay:
  "replay samplePolicy sampleReceipts = Inr (\<lparr>bk_positions = [(''0xb:0xe'', samplePosition)],
     bk_awarded = [''0xb'' \<mapsto> 500000], bk_seen = [''t2'', ''t1''], bk_last = 865000\<rparr>, Some 25000000)"
  by (simp add: replay_def sample_policy_ok sampleReceipts_def stepReceipt_def isSafeInteger_def MAX_SAFE_INTEGER_def)
    (simp add: stepReceipt_def isSafeInteger_def MAX_SAFE_INTEGER_def onPosition_def sample_texts Let_def engineRate_def samplePolicy_def accrue_def newPosition_def boundaries_def
    js_sort_def chunkOf_def rateOf_def onEnrolled_def onBorrowed_def sample_amounts onRepaid_def consumeInterest_def unpaid_def
    INTEREST_DENOMINATOR_def award_def rebateOf_def repayPrincipal_def samplePosition_def)

definition sampleRow :: account_row where
  "sampleRow = \<lparr>ar_borrower = ''0xb'', ar_engine = ''0xe'', ar_startsAt = 1000, ar_cap = 25000000, ar_principal = 0,
     ar_eligible = 0, ar_unpaid = 0, ar_estimated = 0, ar_confirmed = 500000, ar_paid = 1000000, ar_committed = 500000\<rparr>"

lemma sample_accounts: "accountReceipts compare samplePolicy sampleReceipts None = Inr [sampleRow]"
  unfolding accountReceipts_def sample_replay
  by (simp add: Let_def isSafeInteger_def MAX_SAFE_INTEGER_def js_sort_def samplePosition_def accountRow_def
       accrue_def boundaries_def samplePolicy_def chunkOf_def unpaid_def unpaidEligible_def rebateOf_def
      INTEREST_DENOMINATOR_def sampleRow_def)

lemma sample_plain: "\<forall>r \<in> set sampleReceipts. plainEvents (cr_events r)"
  by (simp add: sampleReceipts_def plainEvents_def colonFree_def sample_texts)

section \<open>Properties\<close>

text \<open>
  C9: In a public campaign the rebates committed to a wallet, confirmed and estimated over
  all its engines, never add up to more than the wallet's cap of 25 USDG, whatever the
  receipts.
\<close>

theorem wallet_cap_respected:
  assumes "accountReceipts localeCompare pol receipts asOf = Inr rows" and "\<forall>r \<in> set receipts. plainEvents (cr_events r)"
    and "cp_walletCap pol = Some cap"
  shows "sum_list (map (\<lambda>r. if ar_borrower r = b then ar_committed r else 0) rows) \<le> 25000000"
proof -
  have "publicCap pol = Inr c \<Longrightarrow> c = Some 25000000" for c
    using assms(3) by (auto simp: publicCap_def outcome_Inr)
  with accounts_ok [OF assms(1,2)] show ?thesis
    unfolding committedTo_def by blast
qed

lemma wallet_cap_respected_witness:
  "sum_list (map (\<lambda>r. if ar_borrower r = ''0xb'' then ar_committed r else 0) [sampleRow]) \<le> 25000000"
  by (rule wallet_cap_respected [OF sample_accounts sample_plain, of "''25000000''"]) (simp add: samplePolicy_def)

text \<open>
  C24: Every account row is sound: the confirmed rebate is at most the committed one, that
  is at most the enrolled cap, the estimate is the difference, the eligible principal lies
  within the principal, and the confirmed rebate is at most half of the interest the
  receipts show the borrower to have paid to that engine.
\<close>

theorem rebates_sound:
  assumes "accountReceipts localeCompare pol receipts asOf = Inr rows" and "\<forall>r \<in> set receipts. plainEvents (cr_events r)"
    and "r \<in> set rows"
  shows "0 \<le> ar_confirmed r \<and> ar_confirmed r \<le> ar_committed r \<and> ar_committed r \<le> ar_cap r \<and>
    ar_estimated r = ar_committed r - ar_confirmed r \<and> 0 \<le> ar_eligible r \<and> ar_eligible r \<le> ar_principal r \<and>
    2 * ar_confirmed r \<le> receiptsInterest (key (ar_borrower r) (ar_engine r)) receipts"
  using accounts_ok [OF assms(1,2)] assms(3) unfolding rowOk_def by blast

lemma rebates_sound_witness:
  "2 * ar_confirmed sampleRow \<le> receiptsInterest (key (ar_borrower sampleRow) (ar_engine sampleRow)) sampleReceipts"
  using rebates_sound [OF sample_accounts sample_plain, of sampleRow] by simp

text \<open>
  C23: However the start and the end of the campaign cut the time since the last settlement,
  the interest a position accrues is its principal times the rate times the whole time.
\<close>

theorem accrual_is_exact:
  assumes "list_all (\<lambda>(_, r). validRate r) (cp_engines pol)" and "0 \<le> ps_principal p" and "accrue pol t p = Inr q"
  shows "unpaid q = unpaid p + ps_principal p * rateOf pol (ps_engine p) * (t - ps_updatedAt p)"
  using accrue_total assms unfolding ratesOk_def by blast

lemma accrual_is_exact_witness:
  "\<exists>q. accrue samplePolicy 1000000 (samplePosition\<lparr>ps_principal := 7\<rparr>) = Inr q \<and>
     unpaid q = 7 * rateOf samplePolicy ''0xe'' * 135000"
proof -
  obtain q where q: "accrue samplePolicy 1000000 (samplePosition\<lparr>ps_principal := 7\<rparr>) = Inr q"
    by (auto simp: accrue_def samplePosition_def Let_def)
  from accrual_is_exact [OF sample_policy_ok(2) _ q] show ?thesis
    using q by (simp add: samplePosition_def unpaid_def)
qed

text \<open>
  C39: An estimate never promises more than half of the interest the campaign covers, the
  covered interest is at most the interest of the whole loan, and the net interest is what
  is left.
\<close>

theorem estimate_within_half:
  assumes "quoteCashback loan aprBps now days campaign enrollment = Inr q"
  shows "0 \<le> es_rebate q \<and> 2 * es_rebate q \<le> es_eligible q \<and> es_eligible q \<le> es_gross q \<and> es_net q = es_gross q - es_rebate q"
  using assms by (rule quote_bounds)

lemma estimate_within_half_witness:
  "\<exists>q. quoteCashback 365000000 (JS_int 1000) (JS_int 1000) (JS_int 10) (Some samplePolicy)
     (Some \<lparr>en_startsAt = JS_int 1000, en_cap = 25000000, en_committed = 0\<rparr>) = Inr q \<and> 2 * es_rebate q \<le> es_eligible q \<and> es_rebate q = 500000"
proof -
  have "\<exists>q. quoteCashback 365000000 (JS_int 1000) (JS_int 1000) (JS_int 10) (Some samplePolicy)
     (Some \<lparr>en_startsAt = JS_int 1000, en_cap = 25000000, en_committed = 0\<rparr>) = Inr q \<and> es_rebate q = 500000"
    by (simp add: quoteCashback_def samplePolicy_def validLoan_def validCampaign_def validEnrollment_def safe_natural_def isSafeInteger_def
        MAX_SAFE_INTEGER_def enrolledEstimate_def Let_def INTEREST_DENOMINATOR_def)
  then show ?thesis using estimate_within_half by blast
qed

section \<open>The ledger\<close>

definition sampleBlockAt :: "int \<Rightarrow> string \<Rightarrow> string \<Rightarrow> int \<Rightarrow> canonical_block" where
  "sampleBlockAt n hash parent t = \<lparr>ib_number = JS_int n, ib_hash = hash, ib_parentHash = parent, ib_timestamp = JS_int t, ib_receipts = []\<rparr>"

text \<open>
  C10: In every ledger that accepted blocks, ranges and publications in any order, with \<open>skipped\<close> the numbers the
  historical ranges have left out: a stored block names the stored block below it as its parent and is not older, unless
  the number below was left out by a range; no other number is missing below a stored block; and every published
  allocation is anchored to the stored block it was published for, so no reorganization removes such a block. With
  ranges that list every block \<open>skipped\<close> is empty. A number that was left out can be filled later without a
  comparison with the block above it (\<open>span_accepts_block\<close>), so the exception is needed.
\<close>

theorem ledger_history_sound:
  assumes "ledgerReaches localeCompare pol startBlock skipped l"
  shows "(\<forall>n r s. block l n = Some r \<and> block l (n + 1) = Some s \<and> n \<notin> skipped \<longrightarrow>
        br_parentHash s = br_hash r \<and> br_timestamp r \<le> br_timestamp s) \<and>
    (\<forall>n m. startBlock \<le> n \<and> n < m \<and> block l m \<noteq> None \<and> n \<notin> skipped \<longrightarrow> block l n \<noteq> None) \<and>
    (\<forall>(root, through, hash) \<in> set (ld_publications l). map_option br_hash (block l through) = Some hash)"
proof (intro conjI)
  have ok: "linked skipped l" "gapsSkipped startBlock skipped l" "anchored l" using reached_ok [OF assms] by (simp_all add: ledgerOk_def)
  show "\<forall>n r s. block l n = Some r \<and> block l (n + 1) = Some s \<and> n \<notin> skipped \<longrightarrow>
      br_parentHash s = br_hash r \<and> br_timestamp r \<le> br_timestamp s" using linkedD [OF ok(1)] by blast
  show "\<forall>n m. startBlock \<le> n \<and> n < m \<and> block l m \<noteq> None \<and> n \<notin> skipped \<longrightarrow> block l n \<noteq> None"
    using gapsSkippedD [OF ok(2)] by blast
  show "\<forall>(root, through, hash) \<in> set (ld_publications l). map_option br_hash (block l through) = Some hash"
    using ok(3) unfolding anchored_def .
qed

lemma ledger_history_sound_witness:
  "\<exists>l r s. ledgerReaches compare samplePolicy 10 {} l \<and> block l 10 = Some r \<and> block l 11 = Some s \<and> br_hash r = ''a'' \<and>
     br_parentHash s = br_hash r \<and> br_timestamp r \<le> br_timestamp s \<and>
     ld_publications l = [(''root'', 11, ''b'')] \<and> map_option br_hash (block l 11) = Some ''b''"
proof -
  let ?r = "rowOf (sampleBlockAt 10 ''a'' ''g'' 1000)" and ?s = "rowOf (sampleBlockAt 11 ''b'' ''a'' 1001)"
  let ?l1 = "\<lparr>ld_blocks = [(10, ?r)], ld_publications = []\<rparr>"
  let ?l2 = "\<lparr>ld_blocks = [(10, ?r), (11, ?s)], ld_publications = []\<rparr>"
  let ?l3 = "?l2\<lparr>ld_publications := [(''root'', 11, ''b'')]\<rparr>"
  have 1: "ledgerReaches compare samplePolicy 10 {} ?l1"
    by (rule ledgerReaches.block_step [OF ledgerReaches.opened, of _ _ _ "sampleBlockAt 10 ''a'' ''g'' 1000"])
      (simp_all add: emptyLedger_def ingest_def sampleBlockAt_def isSafeInteger_def MAX_SAFE_INTEGER_def validBlock_def safe_natural_def
        block_def connected_def insertBlock_def protectEvents_def Let_def)
  have 2: "ledgerReaches compare samplePolicy 10 {} ?l2"
    by (rule ledgerReaches.block_step [OF 1, of "sampleBlockAt 11 ''b'' ''a'' 1001"])
      (simp_all add: ingest_def sampleBlockAt_def isSafeInteger_def MAX_SAFE_INTEGER_def validBlock_def safe_natural_def
        block_def connected_def insertBlock_def protectEvents_def Let_def rowOf_def)
  have 3: "ledgerReaches compare samplePolicy 10 {} ?l3"
    by (rule ledgerReaches.publish_step [OF 2, of "''root''" 11 "''b''"]) (simp add: protectPublication_def block_def rowOf_def sampleBlockAt_def)
  have at: "block ?l3 10 = Some ?r" "block ?l3 11 = Some ?s" "ld_publications ?l3 = [(''root'', 11, ''b'')]" by (simp_all add: block_def)
  note sound = ledger_history_sound [OF 3]
  have "br_parentHash ?s = br_hash ?r \<and> br_timestamp ?r \<le> br_timestamp ?s"
    using conjunct1 [OF sound, rule_format, of 10 ?r ?s] at by simp
  moreover have "map_option br_hash (block ?l3 11) = Some ''b''"
    using conjunct2 [OF conjunct2 [OF sound]] unfolding at(3) by simp
  moreover have "br_hash ?r = ''a''" by (simp add: rowOf_def sampleBlockAt_def)
  ultimately show ?thesis using 3 at by blast
qed

text \<open>
  The comment on \<open>ingestRange\<close> says that recovery inside a skipped historical span fails
  closed. It does so only where the parent is skipped too: a block right above a retained
  one is accepted into the span, whatever the retained blocks above it say.
\<close>

theorem span_accepts_block:
  "\<exists>l l'. ingestRange compare samplePolicy 10 (JS_int 10) (JS_int 12) [sampleBlockAt 10 ''a'' ''g'' 1000, sampleBlockAt 12 ''c'' ''b'' 1002] emptyLedger = Inr l \<and>
     ingest compare samplePolicy 10 (sampleBlockAt 11 ''x'' ''a'' 5000) l = Inr l' \<and>
     block l' 11 = Some (rowOf (sampleBlockAt 11 ''x'' ''a'' 5000)) \<and> block l' 12 = Some (rowOf (sampleBlockAt 12 ''c'' ''b'' 1002))"
proof -
  have replay: "replay samplePolicy [] = Inr (\<lparr>bk_positions = [], bk_awarded = Map.empty, bk_seen = [], bk_last = 0\<rparr>, Some 25000000)"
    by (simp add: replay_def sample_policy_ok)
  have accounts: "accountReceipts compare samplePolicy [] (Some (JS_int 1002)) = Inr []"
    unfolding accountReceipts_def replay by (simp add: isSafeInteger_def MAX_SAFE_INTEGER_def js_sort_def)
  let ?l = "\<lparr>ld_blocks = [(10, rowOf (sampleBlockAt 10 ''a'' ''g'' 1000)), (12, rowOf (sampleBlockAt 12 ''c'' ''b'' 1002))], ld_publications = []\<rparr>"
  have 1: "ingestRange compare samplePolicy 10 (JS_int 10) (JS_int 12) [sampleBlockAt 10 ''a'' ''g'' 1000, sampleBlockAt 12 ''c'' ''b'' 1002] emptyLedger = Inr ?l"
    by (simp add: ingestRange_def sampleBlockAt_def isSafeInteger_def MAX_SAFE_INTEGER_def head_def emptyLedger_def rangeBlockOk_def
        validBlock_def safe_natural_def insertBlock_def block_def accounts_def rowOf_def accounts protectEvents_def)
  have 2: "\<exists>l'. ingest compare samplePolicy 10 (sampleBlockAt 11 ''x'' ''a'' 5000) ?l = Inr l' \<and>
     block l' 11 = Some (rowOf (sampleBlockAt 11 ''x'' ''a'' 5000)) \<and> block l' 12 = Some (rowOf (sampleBlockAt 12 ''c'' ''b'' 1002))"
    by (simp add: ingest_def sampleBlockAt_def isSafeInteger_def MAX_SAFE_INTEGER_def validBlock_def safe_natural_def block_def
        connected_def insertBlock_def rowOf_def protectEvents_def Let_def)
  from 1 2 show ?thesis by blast
qed

end
