(* ===== verification/Keeper_Store.thy ===== *)
theory Keeper_Store
  imports JS_Proc JS_Map
begin

text \<open>
  services/liquidator/src/store.mjs and risk.mjs: the database of a liquidation keeper (its
  lease, the positions it knows, its transactions and what they may have spent) and the
  quote of a liquidation. A JSON value is stored as itself; the key \<open>retry:c:b\<close> is the pair
  of its parts.
\<close>

section \<open>Transactions\<close>

datatype tx_status = Pending | Blocked | Confirmed | Reverted

datatype tx_kind = Liquidation | Approval

record tx_request =
  rq_to :: string
  rq_data :: string
  rq_value :: "int option"
  rq_gas :: int
  rq_gasPrice :: "int option"
  rq_maxFee :: "int option"
  rq_maxPriorityFee :: "int option"
  rq_nonce :: int
  rq_chainId :: int

record attempt =
  at_raw :: string
  at_hash :: string
  at_signedAt :: int

record keeper_tx =
  kt_id :: string
  kt_kind :: tx_kind
  kt_status :: tx_status
  kt_createdAt :: int
  kt_request :: tx_request
  kt_feeReserve :: int
  kt_collateral :: string
  kt_borrower :: string
  kt_maxRepay :: int
  kt_attempts :: "attempt list"
  kt_actualRepay :: "int option"
  kt_actualGas :: "int option"
  kt_seized :: "int option"
  kt_usdgOut :: "int option"
  kt_inventoryRecovered :: bool
  kt_settledAt :: "js_number option"
  kt_receipt :: "(string \<times> int \<times> string) option"

record keeper_state =
  ks_transactions :: "(string \<times> keeper_tx) list"
  ks_positions :: "(string \<times> string) list"
  ks_cursor :: "(int \<times> string) option"
  ks_retry :: "string \<times> string \<rightharpoonup> int"
  ks_epoch :: int
  ks_lease :: "(string \<times> int) option"
  ks_sent :: "(string \<times> (string \<times> keeper_tx) list) list"

record budget =
  bg_daily :: int
  bg_inventory :: int
  bg_gas :: int

definition transactions :: "keeper_state \<Rightarrow> keeper_tx list" where
  "transactions s = js_sort (\<lambda>a b. kt_createdAt a - kt_createdAt b) (map snd (ks_transactions s))"

definition open_tx :: "keeper_tx \<Rightarrow> bool" where
  "open_tx x \<longleftrightarrow> kt_status x \<in> {Pending, Blocked}"

definition pendingTx :: "keeper_state \<Rightarrow> keeper_tx option" where
  "pendingTx s = List.find open_tx (transactions s)"

section \<open>The lease\<close>

definition acquireLease :: "string \<Rightarrow> int \<Rightarrow> keeper_state \<Rightarrow> keeper_state outcome" where
  "acquireLease owner now s =
     demand (case ks_lease s of Some (o', expires) \<Rightarrow> o' = owner \<or> expires \<le> now | None \<Rightarrow> True) ''Another keeper owns this volume''
      (Inr (s\<lparr>ks_lease := Some (owner, now + 120000)\<rparr>))"

definition holdsLease :: "string \<Rightarrow> int \<Rightarrow> keeper_state \<Rightarrow> bool" where
  "holdsLease owner now s \<longleftrightarrow> (case ks_lease s of Some (o', expires) \<Rightarrow> o' = owner \<and> expires > now | None \<Rightarrow> False)"

definition renewLease :: "string \<Rightarrow> int \<Rightarrow> keeper_state \<Rightarrow> keeper_state outcome" where
  "renewLease owner now s = demand (holdsLease owner now s) ''Keeper lease lost'' (Inr (s\<lparr>ks_lease := Some (owner, now + 120000)\<rparr>))"

definition assertLease :: "string \<Rightarrow> int \<Rightarrow> keeper_state \<Rightarrow> keeper_state outcome" where
  "assertLease owner now s = demand (holdsLease owner now s) ''Keeper lease lost'' (Inr s)"

definition closeStore :: "string \<Rightarrow> keeper_state \<Rightarrow> keeper_state" where
  "closeStore owner s = (case ks_lease s of Some (o', _) \<Rightarrow> if o' = owner then s\<lparr>ks_lease := None\<rparr> else s | None \<Rightarrow> s)"

section \<open>Positions\<close>

text \<open>\<open>INSERT OR IGNORE\<close>; the table is read in the order of its key.\<close>

fun insertPairs :: "(string \<times> string) list \<Rightarrow> (string \<times> string) list \<Rightarrow> (string \<times> string) list" where
  "insertPairs known [] = known"
| "insertPairs known ((c, b) # pairs) =
     (let p = (js_lower c, js_lower b) in insertPairs (if p \<in> set known then known else known @ [p]) pairs)"

definition indexBatch :: "string \<Rightarrow> int \<Rightarrow> (string \<times> string) list \<Rightarrow> int \<Rightarrow> string \<Rightarrow> keeper_state \<Rightarrow> keeper_state outcome" where
  "indexBatch owner now pairs blockNumber blockHash s =
     and_then (assertLease owner now s) (\<lambda>s.
     Inr (s\<lparr>ks_positions := insertPairs (ks_positions s) pairs, ks_cursor := Some (blockNumber, blockHash)\<rparr>))"

definition positions :: "keeper_state \<Rightarrow> (string \<times> string) list" where
  "positions s = js_sort (or_else (\<lambda>a b. compare (fst a) (fst b)) (\<lambda>a b. compare (snd a) (snd b))) (ks_positions s)"

definition saveTx :: "string \<Rightarrow> int \<Rightarrow> keeper_tx \<Rightarrow> keeper_state \<Rightarrow> keeper_state outcome" where
  "saveTx owner now x s =
     and_then (assertLease owner now s) (\<lambda>s. Inr (s\<lparr>ks_transactions := AList.update (kt_id x) x (ks_transactions s)\<rparr>))"

section \<open>Budgets\<close>

definition unresolved :: "keeper_tx \<Rightarrow> bool" where
  "unresolved x \<longleftrightarrow> kt_status x \<noteq> Confirmed \<and> kt_status x \<noteq> Reverted"

definition settledAtOf :: "int \<Rightarrow> keeper_tx \<Rightarrow> int" where
  "settledAtOf epoch x = (case kt_settledAt x of
     Some (JS_int t) \<Rightarrow> if isSafeInteger t \<and> 0 \<le> t then t else max (kt_createdAt x) epoch
   | _ \<Rightarrow> max (kt_createdAt x) epoch)"

definition inWindow :: "int \<Rightarrow> int \<Rightarrow> keeper_tx \<Rightarrow> bool" where
  "inWindow epoch now x \<longleftrightarrow> unresolved x \<or> settledAtOf epoch x > now - 86400000"

definition spentBy :: "keeper_tx \<Rightarrow> int" where
  "spentBy x = (if unresolved x then kt_maxRepay x else case kt_actualRepay x of Some a \<Rightarrow> a | None \<Rightarrow> kt_maxRepay x)"

definition inventoryOf :: "keeper_tx \<Rightarrow> int" where
  "inventoryOf x = (if kt_status x \<noteq> Reverted \<and> kt_kind x = Liquidation \<and> (kt_status x \<noteq> Confirmed \<or> \<not> kt_inventoryRecovered x)
     then spentBy x else 0)"

definition dailyOf :: "int \<Rightarrow> int \<Rightarrow> keeper_tx \<Rightarrow> int" where
  "dailyOf epoch now x = (if kt_status x \<noteq> Reverted \<and> kt_kind x = Liquidation \<and> inWindow epoch now x then spentBy x else 0)"

definition gasOf :: "int \<Rightarrow> int \<Rightarrow> keeper_tx \<Rightarrow> int" where
  "gasOf epoch now x = (if inWindow epoch now x then
     (if unresolved x then kt_feeReserve x else case kt_actualGas x of Some g \<Rightarrow> g | None \<Rightarrow> kt_feeReserve x) else 0)"

definition budgets :: "int \<Rightarrow> keeper_state \<Rightarrow> budget" where
  "budgets now s = \<lparr>bg_daily = sum_list (map (dailyOf (ks_epoch s) now) (transactions s)),
     bg_inventory = sum_list (map inventoryOf (transactions s)),
     bg_gas = sum_list (map (gasOf (ks_epoch s) now) (transactions s))\<rparr>"

section \<open>Quotes\<close>

definition USD :: int where "USD = 10 ^ 18"

definition BPS :: int where "BPS = 10000"

record liq_quote =
  lq_eligible :: bool
  lq_repaid :: int
  lq_seized :: int
  lq_value :: int
  lq_maximumDebt :: int
  lq_collateralCap :: int
  lq_badDebt :: bool

definition liquidationQuote :: "int \<Rightarrow> int \<Rightarrow> int \<Rightarrow> int \<Rightarrow> int \<Rightarrow> int \<Rightarrow> int \<Rightarrow> liq_quote" where
  "liquidationQuote collateral debt price ltvBps bonusBps scale maxRepay =
     (let value = tdiv (collateral * price) USD;
          maximumDebt = tdiv (value * ltvBps) BPS;
          eligible = (debt * scale > maximumDebt);
          collateralCap = tdiv (tdiv (value * BPS) (BPS + bonusBps)) scale;
          repaid = (if eligible then min (min maxRepay debt) collateralCap else 0);
          seizeValue = tdiv (repaid * scale * (BPS + bonusBps)) BPS;
          seized = (if repaid = 0 then 0 else if repaid = collateralCap then collateral
                    else min collateral (tdiv (seizeValue * USD) price)) in
      \<lparr>lq_eligible = eligible, lq_repaid = repaid, lq_seized = seized, lq_value = value, lq_maximumDebt = maximumDebt,
        lq_collateralCap = collateralCap, lq_badDebt = (eligible \<and> repaid = 0)\<rparr>)"

record feed_round =
  fr_roundId :: int
  fr_answer :: int
  fr_updatedAt :: int
  fr_answeredInRound :: int

definition feedValid :: "feed_round option \<Rightarrow> int \<Rightarrow> int \<Rightarrow> bool" where
  "feedValid round timestamp staleness = (case round of None \<Rightarrow> False | Some r \<Rightarrow>
     (let age = timestamp - fr_updatedAt r in
      fr_answer r > 0 \<and> fr_updatedAt r > 0 \<and> age \<ge> 0 \<and> age < staleness \<and> fr_answeredInRound r \<ge> fr_roundId r))"

definition feedPrice :: "feed_round option \<Rightarrow> int \<Rightarrow> int \<Rightarrow> int \<Rightarrow> int" where
  "feedPrice round decimals timestamp staleness =
     (if feedValid round timestamp staleness then (case round of Some r \<Rightarrow> fr_answer r * 10 ^ nat (18 - decimals) | None \<Rightarrow> 0) else 0)"

section \<open>Budgets under a write\<close>

lemma transactions_mset: "mset (transactions s) = mset (map snd (ks_transactions s))"
  by (simp add: transactions_def)

lemma budgets_totals:
  "bg_daily (budgets now s) = values_total (dailyOf (ks_epoch s) now) (ks_transactions s)"
  "bg_inventory (budgets now s) = values_total inventoryOf (ks_transactions s)"
  "bg_gas (budgets now s) = values_total (gasOf (ks_epoch s) now) (ks_transactions s)"
proof -
  have "sum_list (map f (transactions s)) = values_total f (ks_transactions s)" for f
    using sum_list_reorder [OF transactions_mset, of f s] by (simp add: values_total_def o_def)
  then show "bg_daily (budgets now s) = values_total (dailyOf (ks_epoch s) now) (ks_transactions s)"
    "bg_inventory (budgets now s) = values_total inventoryOf (ks_transactions s)"
    "bg_gas (budgets now s) = values_total (gasOf (ks_epoch s) now) (ks_transactions s)"
    by (simp_all add: budgets_def)
qed

lemma pendingTx_None: "pendingTx s = None \<longleftrightarrow> (\<forall>x \<in> set (map snd (ks_transactions s)). \<not> open_tx x)"
proof -
  have "set (transactions s) = set (map snd (ks_transactions s))" by (rule mset_eq_setD [OF transactions_mset])
  then show ?thesis by (auto simp: pendingTx_def find_None_iff)
qed

lemma pendingTx_Some: "pendingTx s = Some x \<Longrightarrow> x \<in> set (map snd (ks_transactions s)) \<and> open_tx x"
proof -
  assume "pendingTx s = Some x"
  then have "x \<in> set (transactions s) \<and> open_tx x" by (auto simp: pendingTx_def find_Some_iff)
  then show ?thesis using mset_eq_setD [OF transactions_mset, of s] by blast
qed

lemma liquidationQuote_bounds:
  assumes "0 \<le> collateral" "0 < price" "0 \<le> ltvBps" "0 \<le> bonusBps" "0 < scale" "0 \<le> maxRepay" "0 \<le> debt"
  shows "0 \<le> lq_repaid (liquidationQuote collateral debt price ltvBps bonusBps scale maxRepay)"
    "lq_repaid (liquidationQuote collateral debt price ltvBps bonusBps scale maxRepay) \<le> min maxRepay debt"
    "0 \<le> lq_seized (liquidationQuote collateral debt price ltvBps bonusBps scale maxRepay)"
    "lq_seized (liquidationQuote collateral debt price ltvBps bonusBps scale maxRepay) \<le> collateral"
proof -
  have tdiv_pos: "0 \<le> tdiv a b" if "0 \<le> a" "0 \<le> b" for a b
    using that by (cases "b = 0") (simp_all add: pos_imp_zdiv_nonneg_iff)
  have cap: "0 \<le> tdiv (tdiv (tdiv (collateral * price) USD * BPS) (BPS + bonusBps)) scale"
    using assms by (intro tdiv_pos mult_nonneg_nonneg) (auto simp: USD_def BPS_def)
  show r: "0 \<le> lq_repaid (liquidationQuote collateral debt price ltvBps bonusBps scale maxRepay)"
    and "lq_repaid (liquidationQuote collateral debt price ltvBps bonusBps scale maxRepay) \<le> min maxRepay debt"
    using assms cap by (auto simp: liquidationQuote_def Let_def)
  have "0 \<le> tdiv (tdiv (lq_repaid (liquidationQuote collateral debt price ltvBps bonusBps scale maxRepay) * scale * (BPS + bonusBps)) BPS * USD) price"
    using assms r by (intro tdiv_pos mult_nonneg_nonneg) (auto simp: USD_def BPS_def)
  moreover have "lq_seized (liquidationQuote collateral debt price ltvBps bonusBps scale maxRepay) =
      (if lq_repaid (liquidationQuote collateral debt price ltvBps bonusBps scale maxRepay) = 0 then 0
       else if lq_repaid (liquidationQuote collateral debt price ltvBps bonusBps scale maxRepay)
           = lq_collateralCap (liquidationQuote collateral debt price ltvBps bonusBps scale maxRepay) then collateral
       else min collateral (tdiv (tdiv (lq_repaid (liquidationQuote collateral debt price ltvBps bonusBps scale maxRepay) * scale * (BPS + bonusBps)) BPS * USD) price))"
    by (simp only: liquidationQuote_def Let_def liq_quote.simps)
  ultimately show "0 \<le> lq_seized (liquidationQuote collateral debt price ltvBps bonusBps scale maxRepay)"
    "lq_seized (liquidationQuote collateral debt price ltvBps bonusBps scale maxRepay) \<le> collateral"
    using assms(1) by simp_all
qed

end
