(* ===== verification/Keeper_Transactions.thy ===== *)
theory Keeper_Transactions
  imports Keeper_Store
begin

text \<open>
  services/liquidator/src/transactions.mjs: how the keeper signs, persists, sends, replaces and
  reconciles its transactions. The node, the wallet and the clock are the world; what is
  sent to the network is recorded in \<open>ks_sent\<close>, with what the database held then. An error is the code that the service's
  \<open>errorCode\<close> gives it; signing, hashing and call encoding are the wallet's and viem's.
  Incidents are kept by code and severity.
\<close>

section \<open>The world of the keeper\<close>

datatype severity = Warning | Critical

type_synonym incident = "string \<times> severity"

record liquidated_event =
  le_borrower :: string
  le_collateral :: string
  le_liquidator :: string
  le_repaid :: int
  le_seized :: int
  le_usdgOut :: "int option"

text \<open>A log as decoded with the vault's interface: \<open>None\<close> when it is not a \<open>Liquidated\<close> event.\<close>

record tx_log =
  tl_address :: string
  tl_event :: "liquidated_event option"

record tx_receipt =
  tr_hash :: "string option"
  tr_block :: int
  tr_blockHash :: string
  tr_success :: bool
  tr_gasUsed :: int
  tr_gasPrice :: int
  tr_logs :: "tx_log list"

record keeper_world =
  kw_now :: int
  kw_uuid :: string
  kw_consistent :: bool
  kw_latestNonce :: "int outcome"
  kw_pendingNonce :: "int outcome"
  kw_balance :: "int outcome"
  kw_prepared :: "string \<Rightarrow> string \<Rightarrow> int \<Rightarrow> int \<Rightarrow> tx_request outcome"
  kw_sign :: "tx_request \<Rightarrow> string outcome"
  kw_send :: "string \<Rightarrow> unit outcome"
  kw_receipt :: "string \<Rightarrow> tx_receipt outcome"
  kw_block :: "int \<Rightarrow> string outcome"
  kw_tokenBalance :: "int outcome"
  kw_allowance :: "int outcome"
  kw_simulateApprove :: "int \<Rightarrow> unit outcome"
  kw_simulate :: "string \<Rightarrow> string \<Rightarrow> int \<Rightarrow> string \<Rightarrow> (int \<times> int) outcome"
  kw_liveness :: "unit outcome"

record keeper_config =
  kc_owner :: string
  kc_execute :: bool
  kc_chainId :: int
  kc_account :: string
  kc_vault :: string
  kc_usdg :: string
  kc_gate :: bool
  kc_recipient :: "string option"
  kc_confirmations :: int
  kc_replaceAfterMs :: int
  kc_maxReplacements :: int
  kc_maxTxFee :: int
  kc_maxDailyGas :: int
  kc_minEth :: int
  kc_maxRepay :: int
  kc_dailyBudget :: int
  kc_inventoryBudget :: int

record candidate =
  cd_collateral :: string
  cd_borrower :: string
  cd_repaid :: int

type_synonym 'a keeper = "(keeper_world, keeper_state, 'a) proc"

text \<open>What the keeper's libraries compute: the hash of a raw transaction, the data of its two calls.\<close>

record keeper_lib =
  kl_keccak :: "string \<Rightarrow> string"
  kl_approveData :: "int \<Rightarrow> string"
  kl_liquidateData :: "string \<Rightarrow> string \<Rightarrow> int \<Rightarrow> string \<Rightarrow> string"

definition now :: "int keeper" where
  "now = pRead (\<lambda>w. Inr (kw_now w))"

text \<open>A store operation that may throw; on an error the store is unchanged.\<close>

definition onStore :: "(keeper_state \<Rightarrow> keeper_state outcome) \<Rightarrow> unit keeper" where
  "onStore f = (\<lambda>w t s. case f s of Inl e \<Rightarrow> (Inl e, t, s) | Inr s' \<Rightarrow> (Inr (), t, s'))"

definition leaseStep :: "keeper_config \<Rightarrow> unit keeper" where
  "leaseStep cfg = pBind now (\<lambda>t. onStore (assertLease (kc_owner cfg) t))"

definition save :: "keeper_config \<Rightarrow> keeper_tx \<Rightarrow> unit keeper" where
  "save cfg x = pBind now (\<lambda>t. onStore (saveTx (kc_owner cfg) t x))"

definition setRetry :: "string \<Rightarrow> string \<Rightarrow> int \<Rightarrow> unit keeper" where
  "setRetry collateral borrower delay = pBind now (\<lambda>t. pModify (\<lambda>s. s\<lparr>ks_retry := (ks_retry s)((collateral, borrower) \<mapsto> t + delay)\<rparr>))"

definition currentBudgets :: "budget keeper" where
  "currentBudgets = pBind now (\<lambda>t. pGet (budgets t))"

section \<open>Signing and sending\<close>

definition feeReserve :: "tx_request \<Rightarrow> int outcome" where
  "feeReserve r = (case (case rq_gasPrice r of Some p \<Rightarrow> Some p | None \<Rightarrow> rq_maxFee r) of
     Some p \<Rightarrow> Inr (rq_gas r * p) | None \<Rightarrow> Inl ''TypeError'')"

definition broadcast :: "keeper_config \<Rightarrow> keeper_tx \<Rightarrow> incident list keeper" where
  "broadcast cfg x =
     pBind (leaseStep cfg) (\<lambda>_.
     pCatch
       (pBind (pModify (\<lambda>s. s\<lparr>ks_sent := (at_raw (last (kt_attempts x)), ks_transactions s) # ks_sent s\<rparr>)) (\<lambda>_.
        pBind (pRead (\<lambda>w. kw_send w (at_raw (last (kt_attempts x))))) (\<lambda>_. pReturn [])))
       (\<lambda>_. pReturn [(''broadcast_uncertain'', Warning)]))"

definition makeAttempt :: "keeper_config \<Rightarrow> keeper_lib \<Rightarrow> tx_request \<Rightarrow> attempt keeper" where
  "makeAttempt cfg lib request =
     pBind (leaseStep cfg) (\<lambda>_. pBind (pRead (\<lambda>w. kw_sign w request)) (\<lambda>raw. pBind now (\<lambda>t.
     pReturn \<lparr>at_raw = raw, at_hash = kl_keccak lib raw, at_signedAt = t\<rparr>)))"

definition newTx :: "string \<Rightarrow> tx_kind \<Rightarrow> int \<Rightarrow> tx_request \<Rightarrow> int \<Rightarrow> string \<Rightarrow> string \<Rightarrow> int \<Rightarrow> attempt \<Rightarrow> keeper_tx" where
  "newTx uuid kind t request reserve collateral borrower maxRepay a =
     \<lparr>kt_id = uuid, kt_kind = kind, kt_status = Pending, kt_createdAt = t, kt_request = request, kt_feeReserve = reserve,
      kt_collateral = collateral, kt_borrower = borrower, kt_maxRepay = maxRepay, kt_attempts = [a], kt_actualRepay = None,
      kt_actualGas = None, kt_seized = None, kt_usdgOut = None, kt_inventoryRecovered = False, kt_settledAt = None, kt_receipt = None\<rparr>"

text \<open>\<open>value\<close> is 0 in every call of the service. A fresh id is not in the table: it is a UUID.\<close>

definition submit :: "keeper_config \<Rightarrow> keeper_lib \<Rightarrow> tx_kind \<Rightarrow> string \<Rightarrow> string \<Rightarrow> string \<Rightarrow> string \<Rightarrow> int \<Rightarrow> incident list keeper" where
  "submit cfg lib kind dest data collateral borrower maxRepay =
     (if \<not> kc_execute cfg then pReturn [] else
      pBind (pGet pendingTx) (\<lambda>p.
      pDemand (p = None) ''Pending transaction must be resolved first''
     (pBind (pRead (\<lambda>w. Inr (kw_consistent w))) (\<lambda>consistent.
      pDemand consistent ''RPC disagreement''
     (pBind (pRead kw_latestNonce) (\<lambda>latest. pBind (pRead kw_pendingNonce) (\<lambda>pending. pBind (pRead kw_balance) (\<lambda>balance.
      if latest \<noteq> pending then pReturn [(''unknown_pending_nonce'', Critical)] else
      pBind (pRead (\<lambda>w. kw_prepared w dest data 0 pending)) (\<lambda>prepared.
      let request = prepared\<lparr>rq_chainId := kc_chainId cfg, rq_gas := tdiv (rq_gas prepared * 120) 100\<rparr> in
      pBind (pLift (feeReserve request)) (\<lambda>reserve. pBind currentBudgets (\<lambda>b.
      if reserve > kc_maxTxFee cfg \<or> bg_gas b + reserve > kc_maxDailyGas cfg then pReturn [(''gas_budget'', Critical)] else
      if balance < reserve + 0 + kc_minEth cfg then pReturn [(''gas_reserve'', Critical)] else
      pBind (pRead (\<lambda>w. Inr (kw_uuid w))) (\<lambda>uuid. pBind now (\<lambda>t. pBind (makeAttempt cfg lib request) (\<lambda>a.
      let x = newTx uuid kind t request reserve collateral borrower maxRepay a in
      pBind (save cfg x) (\<lambda>_. broadcast cfg x)))))))))))))))"

section \<open>Reconciling\<close>

definition liquidationResult :: "keeper_config \<Rightarrow> tx_receipt \<Rightarrow> keeper_tx \<Rightarrow> liquidated_event option" where
  "liquidationResult cfg r x =
     foldl (\<lambda>found entry.
       if js_lower (tl_address entry) \<noteq> js_lower (kc_vault cfg) then found else
       case tl_event entry of None \<Rightarrow> found
       | Some e \<Rightarrow> if js_lower (le_borrower e) = js_lower (kt_borrower x) \<and> js_lower (le_collateral e) = js_lower (kt_collateral x)
             \<and> js_lower (le_liquidator e) = js_lower (kc_account cfg) then Some e else found) None (tr_logs r)"

datatype seen = Found tx_receipt | NotFound "bool \<times> bool \<times> bool"

text \<open>The attempts in order, and whether a receipt was orphaned, unconfirmed or of another hash.\<close>

fun scanAttempts :: "keeper_config \<Rightarrow> int \<Rightarrow> attempt list \<Rightarrow> bool \<times> bool \<times> bool \<Rightarrow> seen keeper" where
  "scanAttempts cfg head [] flags = pReturn (NotFound flags)"
| "scanAttempts cfg head (a # rest) (orphan, unconfirmed, wrong) =
     pBind (\<lambda>w t s. case kw_receipt (w t) (at_hash a) of
          Inr r \<Rightarrow> (Inr (Some r), Suc t, s)
        | Inl e \<Rightarrow> if e = ''TransactionReceiptNotFoundError'' then (Inr None, Suc t, s) else (Inl e, Suc t, s)) (\<lambda>found.
     case found of None \<Rightarrow> scanAttempts cfg head rest (orphan, unconfirmed, wrong)
     | Some r \<Rightarrow>
         if (case tr_hash r of None \<Rightarrow> True | Some h \<Rightarrow> js_lower h \<noteq> js_lower (at_hash a)) then scanAttempts cfg head rest (orphan, unconfirmed, True) else
         pBind (pRead (\<lambda>w. kw_block w (tr_block r))) (\<lambda>hash.
         if hash \<noteq> tr_blockHash r then scanAttempts cfg head rest (True, unconfirmed, wrong) else
         if head < tr_block r + kc_confirmations cfg then scanAttempts cfg head rest (orphan, True, wrong)
         else pReturn (Found r)))"

definition withReceipt :: "tx_receipt \<Rightarrow> keeper_tx \<Rightarrow> keeper_tx" where
  "withReceipt r x = x\<lparr>kt_receipt := Some (case tr_hash r of Some h \<Rightarrow> h | None \<Rightarrow> '''', tr_block r, tr_blockHash r),
     kt_actualGas := Some (tr_gasUsed r * tr_gasPrice r), kt_status := (if tr_success r then Confirmed else Reverted)\<rparr>"

definition withEvent :: "liquidated_event \<Rightarrow> keeper_tx \<Rightarrow> keeper_tx" where
  "withEvent e x = (let y = x\<lparr>kt_actualRepay := Some (le_repaid e), kt_seized := Some (le_seized e)\<rparr> in
     case le_usdgOut e of None \<Rightarrow> y | Some out \<Rightarrow> y\<lparr>kt_usdgOut := Some out, kt_inventoryRecovered := True\<rparr>)"

definition finalize :: "keeper_config \<Rightarrow> keeper_tx \<Rightarrow> incident list keeper" where
  "finalize cfg x =
     pBind now (\<lambda>t. pBind (save cfg (x\<lparr>kt_settledAt := Some (JS_int t)\<rparr>)) (\<lambda>_.
     if kt_status x = Reverted then
       pBind (setRetry (kt_collateral x) (kt_borrower x) 60000) (\<lambda>_. pReturn [(''transaction_reverted'', Critical)])
     else pReturn []))"

definition settle :: "keeper_config \<Rightarrow> tx_receipt \<Rightarrow> keeper_tx \<Rightarrow> incident list keeper" where
  "settle cfg r x0 =
     (let x = withReceipt r x0 in
      if kt_status x = Confirmed \<and> kt_kind x = Liquidation then
        (case liquidationResult cfg r x of
           Some e \<Rightarrow>
             if le_repaid e \<le> 0 \<or> le_repaid e > kt_maxRepay x \<or> le_seized e \<le> 0
             then pBind (save cfg (x\<lparr>kt_status := Blocked\<rparr>)) (\<lambda>_. pReturn [(''liquidation_receipt_mismatch'', Critical)])
             else finalize cfg (withEvent e x)
         | None \<Rightarrow> pBind (save cfg (x\<lparr>kt_status := Blocked\<rparr>)) (\<lambda>_. pReturn [(''liquidation_receipt_mismatch'', Critical)]))
      else finalize cfg x)"

definition raised :: "int \<Rightarrow> int" where
  "raised fee = tdiv (fee * 120) 100 + 1"

definition replacementOf :: "tx_request \<Rightarrow> tx_request" where
  "replacementOf r = r\<lparr>rq_gasPrice := map_option raised (rq_gasPrice r), rq_maxFee := map_option raised (rq_maxFee r),
     rq_maxPriorityFee := map_option raised (rq_maxPriorityFee r)\<rparr>"

definition replace :: "keeper_config \<Rightarrow> keeper_lib \<Rightarrow> keeper_tx \<Rightarrow> incident list keeper" where
  "replace cfg lib x =
     (let request = replacementOf (kt_request x) in
      pBind (pLift (feeReserve request)) (\<lambda>reserve. pBind currentBudgets (\<lambda>b. pBind (pRead kw_balance) (\<lambda>balance.
      if reserve > kc_maxTxFee cfg \<or> bg_gas b - kt_feeReserve x + reserve > kc_maxDailyGas cfg
         \<or> balance < reserve + (case rq_value request of Some v \<Rightarrow> v | None \<Rightarrow> 0) + kc_minEth cfg
      then pReturn [(''replacement_budget'', Critical)] else
      pBind (makeAttempt cfg lib request) (\<lambda>a.
      let y = x\<lparr>kt_request := request, kt_feeReserve := reserve, kt_attempts := kt_attempts x @ [a]\<rparr> in
      pBind (save cfg y) (\<lambda>_. broadcast cfg y))))))"

definition reconcile :: "keeper_config \<Rightarrow> keeper_lib \<Rightarrow> bool \<Rightarrow> keeper_tx \<Rightarrow> seen \<Rightarrow> incident list keeper" where
  "reconcile cfg lib canBroadcast x found = (case found of
       Found r \<Rightarrow> settle cfg r x
     | NotFound (orphan, unconfirmed, wrong) \<Rightarrow>
         if wrong then pReturn [(''transaction_receipt_identity'', Critical)] else
         if orphan then pReturn [(''receipt_reorg'', Warning)] else
         if unconfirmed then pReturn [] else
         pBind (pRead kw_latestNonce) (\<lambda>nonce.
         if nonce > rq_nonce (kt_request x)
         then pBind (save cfg (x\<lparr>kt_status := Blocked\<rparr>)) (\<lambda>_. pReturn [(''nonce_consumed'', Critical)]) else
         pBind now (\<lambda>t.
         if \<not> canBroadcast \<or> \<not> kc_execute cfg then pReturn [(''pending_execution_blocked'', Warning)] else
         if t - at_signedAt (last (kt_attempts x)) < kc_replaceAfterMs cfg then broadcast cfg x else
         if int (length (kt_attempts x)) > kc_maxReplacements cfg then pReturn [(''transaction_stuck'', Critical)] else
         replace cfg lib x)))"

definition recover :: "keeper_config \<Rightarrow> keeper_lib \<Rightarrow> int \<Rightarrow> bool \<Rightarrow> incident list keeper" where
  "recover cfg lib head canBroadcast =
     pBind (pGet pendingTx) (\<lambda>p. case p of None \<Rightarrow> pReturn [] | Some x \<Rightarrow>
     if kt_status x = Blocked then pReturn [(''transaction_requires_review'', Critical)] else
     pBind (scanAttempts cfg head (kt_attempts x) (False, False, False)) (reconcile cfg lib canBroadcast x))"

section \<open>Liquidating\<close>

definition liquidateFunded :: "keeper_config \<Rightarrow> keeper_lib \<Rightarrow> candidate \<Rightarrow> int \<Rightarrow> incident list keeper" where
  "liquidateFunded cfg lib c maxRepay =
     (let recipient = (case kc_recipient cfg of Some r \<Rightarrow> r | None \<Rightarrow> kc_account cfg) in
      pCatch
       (pBind (if kc_gate cfg then pRead kw_liveness else pReturn ()) (\<lambda>_.
        pBind (pRead (\<lambda>w. kw_simulate w (cd_collateral c) (cd_borrower c) maxRepay recipient)) (\<lambda>result.
        pDemand (\<not> (fst result \<le> 0 \<or> fst result > maxRepay \<or> snd result \<le> 0)) ''Error''
         (submit cfg lib Liquidation (kc_vault cfg) (kl_liquidateData lib (cd_collateral c) (cd_borrower c) maxRepay recipient)
            (cd_collateral c) (cd_borrower c) maxRepay))))
       (\<lambda>code. pBind (setRetry (cd_collateral c) (cd_borrower c) 30000) (\<lambda>_.
          if code = ''PositionIsHealthy'' then pReturn []
          else pReturn [(''simulation:'' @ cd_collateral c @ '':'' @ cd_borrower c, Critical)])))"

definition liquidate :: "keeper_config \<Rightarrow> keeper_lib \<Rightarrow> candidate \<Rightarrow> incident list keeper" where
  "liquidate cfg lib c =
     pBind (pGet pendingTx) (\<lambda>p.
     if \<not> kc_execute cfg \<or> p \<noteq> None then pReturn [] else
     pBind (pGet (\<lambda>s. ks_retry s (cd_collateral c, cd_borrower c))) (\<lambda>retry. pBind now (\<lambda>t.
     if (case retry of Some r \<Rightarrow> r | None \<Rightarrow> 0) > t then pReturn [] else
     pBind currentBudgets (\<lambda>b. pBind (pRead kw_tokenBalance) (\<lambda>balance.
     let remainingDaily = kc_dailyBudget cfg - bg_daily b; remainingInventory = kc_inventoryBudget cfg - bg_inventory b in
     if remainingDaily \<le> 0 \<or> remainingInventory \<le> 0 then pReturn [(''capital_budget'', Critical)] else
     let maxRepay = min (min (min (min (cd_repaid c) (kc_maxRepay cfg)) remainingDaily) remainingInventory) balance in
     if maxRepay \<le> 0 then pReturn [(''liquidation_unfunded'', Critical)] else
     pBind (pRead kw_allowance) (\<lambda>allowance.
     if allowance < maxRepay then
       pBind (pRead (\<lambda>w. kw_simulateApprove w maxRepay)) (\<lambda>_.
       submit cfg lib Approval (kc_usdg cfg) (kl_approveData lib maxRepay) (cd_collateral c) (cd_borrower c) 0)
     else liquidateFunded cfg lib c maxRepay))))))"

end
