(* ===== verification/Keeper_Safety.thy ===== *)
theory Keeper_Safety
  imports Keeper_Transactions
begin

text \<open>
  What every operation of the keeper keeps, whatever the node answers: one open transaction at
  most, retained inventory within its budget, fees within the limit of one transaction, and
  nothing sent to the network that the database did not hold already.
\<close>

definition soundTx :: "keeper_config \<Rightarrow> keeper_tx \<Rightarrow> bool" where
  "soundTx cfg x \<longleftrightarrow> kt_attempts x \<noteq> [] \<and> 0 \<le> kt_maxRepay x \<and> kt_feeReserve x \<le> kc_maxTxFee cfg
     \<and> (\<forall>a. kt_actualRepay x = Some a \<longrightarrow> 0 \<le> a \<and> a \<le> kt_maxRepay x)"

definition oneOpen :: "(string \<times> keeper_tx) list \<Rightarrow> bool" where
  "oneOpen m \<longleftrightarrow> (\<forall>e \<in> set m. \<forall>f \<in> set m. open_tx (snd e) \<longrightarrow> open_tx (snd f) \<longrightarrow> fst e = fst f)"

definition heldRaw :: "string \<times> (string \<times> keeper_tx) list \<Rightarrow> bool" where
  "heldRaw = (\<lambda>(raw, table). \<exists>e \<in> set table. raw \<in> at_raw ` set (kt_attempts (snd e)))"

definition safeKeeper :: "keeper_config \<Rightarrow> keeper_state \<Rightarrow> bool" where
  "safeKeeper cfg s \<longleftrightarrow> keys_distinct (ks_transactions s) \<and> (\<forall>e \<in> set (ks_transactions s). kt_id (snd e) = fst e \<and> soundTx cfg (snd e))
     \<and> oneOpen (ks_transactions s) \<and> values_total inventoryOf (ks_transactions s) \<le> kc_inventoryBudget cfg
     \<and> (\<forall>p \<in> set (ks_sent s). heldRaw p)"

text \<open>Writing a transaction \<open>x\<close> keeps the keeper safe.\<close>

definition safeWrite :: "keeper_config \<Rightarrow> keeper_tx \<Rightarrow> keeper_state \<Rightarrow> bool" where
  "safeWrite cfg x s \<longleftrightarrow> safeKeeper cfg s \<and> soundTx cfg x \<and>
     (open_tx x \<longrightarrow> (\<forall>e \<in> set (ks_transactions s). open_tx (snd e) \<longrightarrow> fst e = kt_id x)) \<and>
     values_total inventoryOf (ks_transactions s) + inventoryOf x -
       (case map_of (ks_transactions s) (kt_id x) of None \<Rightarrow> 0 | Some y \<Rightarrow> inventoryOf y) \<le> kc_inventoryBudget cfg"

lemma safeWrite_safe:
  assumes "safeWrite cfg x s"
  shows "safeKeeper cfg (s\<lparr>ks_transactions := AList.update (kt_id x) x (ks_transactions s)\<rparr>)"
proof -
  let ?m = "AList.update (kt_id x) x (ks_transactions s)"
  have s: "safeKeeper cfg s" using assms by (simp add: safeWrite_def)
  have old: "e = (kt_id x, x) \<or> e \<in> set (ks_transactions s)" if "e \<in> set ?m" for e using set_put [OF that] .
  have "oneOpen ?m"
    unfolding oneOpen_def
  proof (intro ballI impI)
    fix e f assume mem: "e \<in> set ?m" "f \<in> set ?m" and open_ef: "open_tx (snd e)" "open_tx (snd f)"
    have known: "fst g = kt_id x" if "g \<in> set (ks_transactions s)" "open_tx (snd g)" "open_tx x" for g
      using assms that by (simp add: safeWrite_def)
    have both: "fst e = fst f" if "e \<in> set (ks_transactions s)" "f \<in> set (ks_transactions s)"
      using s that open_ef unfolding safeKeeper_def oneOpen_def by blast
    show "fst e = fst f"
      using old [OF mem(1)] old [OF mem(2)]
    proof (elim disjE)
      assume "e = (kt_id x, x)" "f \<in> set (ks_transactions s)"
      then show ?thesis using known [of f] open_ef by simp
    next
      assume "e \<in> set (ks_transactions s)" "f = (kt_id x, x)"
      then show ?thesis using known [of e] open_ef by simp
    qed (use both in simp_all)
  qed
  moreover have "\<forall>e \<in> set ?m. kt_id (snd e) = fst e \<and> soundTx cfg (snd e)"
    using old s assms by (fastforce simp: safeKeeper_def safeWrite_def)
  moreover have "values_total inventoryOf ?m \<le> kc_inventoryBudget cfg"
    using assms s values_total_put [of "ks_transactions s" inventoryOf "kt_id x" x] by (simp add: safeWrite_def safeKeeper_def)
  ultimately show ?thesis using s by (simp add: safeKeeper_def)
qed

lemma inventoryOf_nonneg: "soundTx cfg x \<Longrightarrow> 0 \<le> inventoryOf x"
  by (auto simp: inventoryOf_def spentBy_def soundTx_def split: option.splits)

lemma inventoryOf_le: "soundTx cfg x \<Longrightarrow> inventoryOf x \<le> (if kt_kind x = Liquidation then kt_maxRepay x else 0)"
  by (auto simp: inventoryOf_def spentBy_def soundTx_def split: option.splits)

section \<open>Rules for the steps\<close>

lemma triple_now: "(\<And>t. triple w P (k t) Q E) \<Longrightarrow> (\<And>s. P s \<Longrightarrow> E s) \<Longrightarrow> triple w P (pBind now k) Q E"
  unfolding now_def by (rule triple_readK)

lemma leaseStep_keeps: "triple w P (leaseStep cfg) (\<lambda>_. P) P"
  unfolding leaseStep_def
  by (rule triple_now) (auto simp: triple_def onStore_def assertLease_def demand_def)

lemma triple_leaseK: "(\<And>x. triple w P (k x) Q E) \<Longrightarrow> (\<And>s. P s \<Longrightarrow> E s) \<Longrightarrow> triple w P (pBind (leaseStep cfg) k) Q E"
  by (rule triple_keepK [OF leaseStep_keeps])

lemma triple_budgetsK:
  "(\<And>t b. triple w (\<lambda>s. P s \<and> b = budgets t s) (k b) Q E) \<Longrightarrow> (\<And>s. P s \<Longrightarrow> E s) \<Longrightarrow> triple w P (pBind currentBudgets k) Q E"
  unfolding triple_def pBind_def currentBudgets_def now_def pRead_def pGet_def by simp

lemma triple_save:
  assumes "\<And>s. P s \<Longrightarrow> Q () (s\<lparr>ks_transactions := AList.update (kt_id x) x (ks_transactions s)\<rparr>)" and "\<And>s. P s \<Longrightarrow> E s"
  shows "triple w P (save cfg x) Q E"
  unfolding save_def
  by (rule triple_now) (use assms in \<open>auto simp: triple_def onStore_def saveTx_def assertLease_def demand_def\<close>)

lemma setRetry_safe: "triple w (safeKeeper cfg) (setRetry c b d) (\<lambda>_. safeKeeper cfg) (safeKeeper cfg)"
  unfolding setRetry_def by (rule triple_now) (auto simp: triple_def pModify_def safeKeeper_def)

lemma makeAttempt_keeps: "triple w P (makeAttempt cfg lib r) (\<lambda>_. P) P"
  unfolding makeAttempt_def by (rule triple_leaseK triple_readK triple_now triple_return | assumption)+

lemma broadcast_safe:
  assumes "kt_attempts x \<noteq> []"
  shows "triple w (\<lambda>s. safeKeeper cfg s \<and> (kt_id x, x) \<in> set (ks_transactions s)) (broadcast cfg x) (\<lambda>_. safeKeeper cfg) (safeKeeper cfg)"
proof -
  let ?P = "\<lambda>s. safeKeeper cfg s \<and> (kt_id x, x) \<in> set (ks_transactions s)"
  have sent: "safeKeeper cfg (s\<lparr>ks_sent := (at_raw (last (kt_attempts x)), ks_transactions s) # ks_sent s\<rparr>)" if "?P s" for s
    using that last_in_set [OF assms] by (auto simp: safeKeeper_def heldRaw_def intro!: bexI [of _ "(kt_id x, x)"])
  show ?thesis
    unfolding broadcast_def
  proof (rule triple_leaseK)
    show "triple w ?P (pCatch (pBind (pModify (\<lambda>s. s\<lparr>ks_sent := (at_raw (last (kt_attempts x)), ks_transactions s) # ks_sent s\<rparr>))
        (\<lambda>_. pBind (pRead (\<lambda>w. kw_send w (at_raw (last (kt_attempts x))))) (\<lambda>_. pReturn []))) (\<lambda>_. pReturn [(''broadcast_uncertain'', Warning)]))
        (\<lambda>_. safeKeeper cfg) (safeKeeper cfg)" for u :: unit
    proof (rule triple_catch [where F = "safeKeeper cfg"])
      show "triple w ?P (pBind (pModify (\<lambda>s. s\<lparr>ks_sent := (at_raw (last (kt_attempts x)), ks_transactions s) # ks_sent s\<rparr>))
          (\<lambda>_. pBind (pRead (\<lambda>w. kw_send w (at_raw (last (kt_attempts x))))) (\<lambda>_. pReturn []))) (\<lambda>_. safeKeeper cfg) (safeKeeper cfg)"
        by (rule triple_bind [where R = "\<lambda>_. safeKeeper cfg"]) (auto intro: triple_modify sent triple_readK triple_return)
    qed (rule triple_return)
  qed simp
qed

section \<open>Writes\<close>

text \<open>Rewriting the open transaction, without raising what it counts for.\<close>

definition lowers :: "keeper_config \<Rightarrow> keeper_tx \<Rightarrow> keeper_tx \<Rightarrow> bool" where
  "lowers cfg x y \<longleftrightarrow> kt_id y = kt_id x \<and> soundTx cfg y \<and> inventoryOf y \<le> inventoryOf x"

definition holdsOpen :: "keeper_config \<Rightarrow> keeper_tx \<Rightarrow> keeper_state \<Rightarrow> bool" where
  "holdsOpen cfg x s \<longleftrightarrow> safeKeeper cfg s \<and> (kt_id x, x) \<in> set (ks_transactions s) \<and> open_tx x"

lemma holdsOpen_write:
  assumes "holdsOpen cfg x s" and "lowers cfg x y"
  shows "safeWrite cfg y s"
proof -
  have s: "safeKeeper cfg s" and mem: "(kt_id x, x) \<in> set (ks_transactions s)" and "open_tx x" using assms(1) by (auto simp: holdsOpen_def)
  have "map_of (ks_transactions s) (kt_id x) = Some x"
    using s mem by (simp add: safeKeeper_def keys_distinct_def map_of_is_SomeI)
  moreover have "fst e = kt_id x" if "e \<in> set (ks_transactions s)" "open_tx (snd e)" for e
  proof -
    have "fst e = fst (kt_id x, x)"
      using s mem that \<open>open_tx x\<close> unfolding safeKeeper_def oneOpen_def by (metis snd_conv)
    then show ?thesis by simp
  qed
  ultimately show ?thesis
    using s assms(2) by (auto simp: safeWrite_def lowers_def safeKeeper_def)
qed

lemma save_lowers:
  "lowers cfg x y \<Longrightarrow> triple w (holdsOpen cfg x) (save cfg y) (\<lambda>_ s. safeKeeper cfg s \<and> (kt_id y, y) \<in> set (ks_transactions s)) (safeKeeper cfg)"
proof (rule triple_save)
  fix s assume y: "lowers cfg x y" and s: "holdsOpen cfg x s"
  let ?s = "s\<lparr>ks_transactions := AList.update (kt_id y) y (ks_transactions s)\<rparr>"
  have "(kt_id y, y) \<in> set (ks_transactions ?s)"
    using map_of_SomeD [of "ks_transactions ?s" "kt_id y" y] by simp
  with safeWrite_safe [OF holdsOpen_write [OF s y]] show "safeKeeper cfg ?s \<and> (kt_id y, y) \<in> set (ks_transactions ?s)" by simp
next
  show "safeKeeper cfg s" if "holdsOpen cfg x s" for s using that by (simp add: holdsOpen_def)
qed

lemma finalize_safe:
  assumes "lowers cfg x y"
  shows "triple w (holdsOpen cfg x) (finalize cfg y) (\<lambda>_. safeKeeper cfg) (safeKeeper cfg)"
proof -
  have r: "lowers cfg x (y\<lparr>kt_settledAt := Some (JS_int t')\<rparr>)" for t'
  proof -
    have "inventoryOf (y\<lparr>kt_settledAt := Some (JS_int t')\<rparr>) = inventoryOf y" by (simp add: inventoryOf_def spentBy_def unresolved_def split: option.split)
    moreover have "soundTx cfg (y\<lparr>kt_settledAt := Some (JS_int t')\<rparr>) = soundTx cfg y" by (simp add: soundTx_def)
    ultimately show ?thesis using assms by (simp add: lowers_def)
  qed
  have after: "triple w (\<lambda>s. safeKeeper cfg s \<and> z s) (if kt_status y = Reverted then
       pBind (setRetry (kt_collateral y) (kt_borrower y) 60000) (\<lambda>_. pReturn [(''transaction_reverted'', Critical)])
     else pReturn []) (\<lambda>_. safeKeeper cfg) (safeKeeper cfg)" for z
    by (rule triple_pre [where P = "safeKeeper cfg"]) (auto intro!: triple_if triple_bind [OF setRetry_safe] triple_return)
  show ?thesis
    unfolding finalize_def
    by (rule triple_now, rule triple_bind [OF save_lowers [OF r]], rule after) (simp add: holdsOpen_def)
qed

lemma settle_safe:
  assumes "kt_status x = Pending" and "soundTx cfg x"
  shows "triple w (holdsOpen cfg x) (settle cfg r x) (\<lambda>_. safeKeeper cfg) (safeKeeper cfg)"
proof -
  let ?y = "withReceipt r x"
  have none: "kt_actualRepay ?y = kt_actualRepay x" "kt_maxRepay ?y = kt_maxRepay x" "kt_attempts ?y = kt_attempts x"
    "kt_feeReserve ?y = kt_feeReserve x" "kt_id ?y = kt_id x" "kt_kind ?y = kt_kind x"
    by (simp_all add: withReceipt_def)
  have inv: "inventoryOf x = (if kt_kind x = Liquidation then kt_maxRepay x else 0)"
    using assms(1) by (simp add: inventoryOf_def spentBy_def unresolved_def)
  have y: "soundTx cfg ?y" using assms(2) none by (simp add: soundTx_def)
  have blocked: "lowers cfg x (?y\<lparr>kt_status := Blocked\<rparr>)"
    using assms(2) none inv by (simp add: lowers_def soundTx_def inventoryOf_def spentBy_def unresolved_def)
  have mismatch: "triple w (holdsOpen cfg x) (pBind (save cfg (?y\<lparr>kt_status := Blocked\<rparr>)) (\<lambda>_. pReturn [(''liquidation_receipt_mismatch'', Critical)]))
      (\<lambda>_. safeKeeper cfg) (safeKeeper cfg)"
    by (rule triple_bind [OF save_lowers [OF blocked]], rule triple_return) simp
  have plain: "triple w (holdsOpen cfg x) (finalize cfg ?y) (\<lambda>_. safeKeeper cfg) (safeKeeper cfg)"
    by (rule finalize_safe) (use y inv none inventoryOf_le [OF y] in \<open>auto simp: lowers_def split: if_splits\<close>)
  have event: "triple w (holdsOpen cfg x) (finalize cfg (withEvent e ?y)) (\<lambda>_. safeKeeper cfg) (safeKeeper cfg)"
    if "\<not> (le_repaid e \<le> 0 \<or> le_repaid e > kt_maxRepay ?y \<or> le_seized e \<le> 0)" for e
  proof -
    have s: "soundTx cfg (withEvent e ?y)"
      using that y none by (auto simp: withEvent_def soundTx_def Let_def split: option.split)
    have k: "kt_kind (withEvent e ?y) = kt_kind x" "kt_maxRepay (withEvent e ?y) = kt_maxRepay x" "kt_id (withEvent e ?y) = kt_id x"
      using none by (auto simp: withEvent_def Let_def split: option.split)
    show ?thesis
      by (rule finalize_safe) (use s inv k inventoryOf_le [OF s] in \<open>auto simp: lowers_def split: if_splits\<close>)
  qed
  show ?thesis
    unfolding settle_def Let_def
    by (rule triple_if triple_option mismatch plain event | assumption)+
qed

section \<open>Operations\<close>

lemma scanAttempts_keeps: "triple w P (scanAttempts cfg head as flags) (\<lambda>_. P) P"
proof (induction as arbitrary: flags)
  case (Cons a rest)
  obtain o' u g where flags: "flags = (o', u, g)" by (cases flags) auto
  have look: "triple w P (\<lambda>w t s. case kw_receipt (w t) (at_hash a) of Inr r \<Rightarrow> (Inr (Some r), Suc t, s)
        | Inl e \<Rightarrow> if e = ''TransactionReceiptNotFoundError'' then (Inr None, Suc t, s) else (Inl e, Suc t, s)) (\<lambda>_. P) P"
    by (auto simp: triple_def split: sum.split)
  show ?case
    unfolding flags scanAttempts.simps
    by (rule triple_keepK [OF look]) (auto intro!: triple_option triple_if Cons.IH triple_readK triple_return)
qed (auto intro: triple_return)

lemma replace_safe:
  assumes "kt_status x = Pending" and "soundTx cfg x"
  shows "triple w (holdsOpen cfg x) (replace cfg lib x) (\<lambda>_. safeKeeper cfg) (safeKeeper cfg)"
proof -
  let ?r = "replacementOf (kt_request x)"
  have safe: "holdsOpen cfg x s \<Longrightarrow> safeKeeper cfg s" for s by (simp add: holdsOpen_def)
  have "triple w (holdsOpen cfg x) (pBind (makeAttempt cfg lib ?r) (\<lambda>a.
      let y = x\<lparr>kt_request := ?r, kt_feeReserve := reserve, kt_attempts := kt_attempts x @ [a]\<rparr> in
      pBind (save cfg y) (\<lambda>_. broadcast cfg y))) (\<lambda>_. safeKeeper cfg) (safeKeeper cfg)" if "reserve \<le> kc_maxTxFee cfg" for reserve
  proof (rule triple_keepK [OF makeAttempt_keeps])
    fix a
    let ?y = "x\<lparr>kt_request := ?r, kt_feeReserve := reserve, kt_attempts := kt_attempts x @ [a]\<rparr>"
    have "inventoryOf ?y = inventoryOf x" using assms(1) by (simp add: inventoryOf_def spentBy_def unresolved_def)
    then have low: "lowers cfg x ?y" using assms(2) that by (simp add: lowers_def soundTx_def)
    have "triple w (holdsOpen cfg x) (pBind (save cfg ?y) (\<lambda>_. broadcast cfg ?y)) (\<lambda>_. safeKeeper cfg) (safeKeeper cfg)"
      by (rule triple_bind [OF save_lowers [OF low]], rule broadcast_safe) simp
    then show "triple w (holdsOpen cfg x) (let y = ?y in pBind (save cfg y) (\<lambda>_. broadcast cfg y)) (\<lambda>_. safeKeeper cfg) (safeKeeper cfg)"
      by (simp add: Let_def)
  qed (rule safe)
  note last_step = this
  show ?thesis
    unfolding replace_def Let_def
  proof (rule triple_liftK)
    fix reserve
    show "triple w (holdsOpen cfg x) (pBind currentBudgets (\<lambda>b. pBind (pRead kw_balance) (\<lambda>balance.
      if reserve > kc_maxTxFee cfg \<or> bg_gas b - kt_feeReserve x + reserve > kc_maxDailyGas cfg
         \<or> balance < reserve + (case rq_value ?r of Some v \<Rightarrow> v | None \<Rightarrow> 0) + kc_minEth cfg
      then pReturn [(''replacement_budget'', Critical)] else
      pBind (makeAttempt cfg lib ?r) (\<lambda>a.
      pBind (save cfg (x\<lparr>kt_request := ?r, kt_feeReserve := reserve, kt_attempts := kt_attempts x @ [a]\<rparr>))
        (\<lambda>_. broadcast cfg (x\<lparr>kt_request := ?r, kt_feeReserve := reserve, kt_attempts := kt_attempts x @ [a]\<rparr>)))))) (\<lambda>_. safeKeeper cfg) (safeKeeper cfg)"
    proof (rule triple_budgetsK, rule triple_readK, rule triple_if)
      fix t t' and b :: budget and balance :: int
      assume ok: "\<not> (reserve > kc_maxTxFee cfg \<or> bg_gas b - kt_feeReserve x + reserve > kc_maxDailyGas cfg
         \<or> balance < reserve + (case rq_value ?r of Some v \<Rightarrow> v | None \<Rightarrow> 0) + kc_minEth cfg)"
      show "triple w (\<lambda>s. holdsOpen cfg x s \<and> b = budgets t s) (pBind (makeAttempt cfg lib ?r) (\<lambda>a.
        pBind (save cfg (x\<lparr>kt_request := ?r, kt_feeReserve := reserve, kt_attempts := kt_attempts x @ [a]\<rparr>))
          (\<lambda>_. broadcast cfg (x\<lparr>kt_request := ?r, kt_feeReserve := reserve, kt_attempts := kt_attempts x @ [a]\<rparr>)))) (\<lambda>_. safeKeeper cfg) (safeKeeper cfg)"
        by (rule triple_pre [OF last_step [unfolded Let_def]]) (use ok in auto)
    qed (auto intro: triple_return simp: safe)
  qed (rule safe)
qed

lemma pendingTx_holds:
  assumes "safeKeeper cfg s" and "pendingTx s = Some x" and "kt_status x \<noteq> Blocked"
  shows "holdsOpen cfg x s \<and> soundTx cfg x \<and> kt_status x = Pending"
proof -
  obtain i where "(i, x) \<in> set (ks_transactions s)" "open_tx x" using pendingTx_Some [OF assms(2)] by auto
  with assms show ?thesis by (fastforce simp: holdsOpen_def safeKeeper_def open_tx_def)
qed

lemma reconcile_safe:
  assumes "kt_status x = Pending" and "soundTx cfg x"
  shows "triple w (holdsOpen cfg x) (reconcile cfg lib can x found) (\<lambda>_. safeKeeper cfg) (safeKeeper cfg)"
proof -
  have x: "kt_attempts x \<noteq> []" using assms(2) by (simp add: soundTx_def)
  have blocked: "lowers cfg x (x\<lparr>kt_status := Blocked\<rparr>)"
    using assms by (simp add: lowers_def soundTx_def inventoryOf_def spentBy_def unresolved_def)
  have safe: "holdsOpen cfg x s \<Longrightarrow> safeKeeper cfg s" for s by (simp add: holdsOpen_def)
  have send: "triple w (holdsOpen cfg x) (broadcast cfg x) (\<lambda>_. safeKeeper cfg) (safeKeeper cfg)"
    by (rule triple_pre [OF broadcast_safe [OF x]]) (simp add: holdsOpen_def)
  have block: "triple w (holdsOpen cfg x) (pBind (save cfg (x\<lparr>kt_status := Blocked\<rparr>)) (\<lambda>_. pReturn [(''nonce_consumed'', Critical)]))
      (\<lambda>_. safeKeeper cfg) (safeKeeper cfg)"
    by (rule triple_bind [OF save_lowers [OF blocked]], rule triple_return) simp
  show ?thesis
    unfolding reconcile_def
    by (cases found)
      (auto intro!: triple_if triple_return triple_readK triple_now settle_safe [OF assms] block send replace_safe [OF assms] safe)
qed

lemma recover_safe: "triple w (safeKeeper cfg) (recover cfg lib head can) (\<lambda>_. safeKeeper cfg) (safeKeeper cfg)"
  unfolding recover_def
proof (rule triple_getK, rule triple_option)
  fix p and x :: keeper_tx assume p: "p = Some x"
  let ?body = "pBind (scanAttempts cfg head (kt_attempts x) (False, False, False)) (reconcile cfg lib can x)"
  have "triple w (\<lambda>s. safeKeeper cfg s \<and> p = pendingTx s) ?body (\<lambda>_. safeKeeper cfg) (safeKeeper cfg)" if nb: "kt_status x \<noteq> Blocked"
  proof (cases "soundTx cfg x \<and> kt_status x = Pending")
    case True
    have "triple w (holdsOpen cfg x) ?body (\<lambda>_. safeKeeper cfg) (safeKeeper cfg)"
      by (rule triple_keepK [OF scanAttempts_keeps], rule reconcile_safe) (use True in \<open>auto simp: holdsOpen_def\<close>)
    then show ?thesis by (rule triple_pre) (use p pendingTx_holds [OF _ _ nb] in auto)
  next
    case False
    then have "\<not> (safeKeeper cfg s \<and> p = pendingTx s)" for s using pendingTx_holds [of cfg s x] nb p by auto
    then show ?thesis unfolding triple_def by blast
  qed
  then show "triple w (\<lambda>s. safeKeeper cfg s \<and> p = pendingTx s) (if kt_status x = Blocked then pReturn [(''transaction_requires_review'', Critical)] else ?body)
      (\<lambda>_. safeKeeper cfg) (safeKeeper cfg)"
    by (auto intro: triple_return)
qed (auto intro: triple_return)

text \<open>No open transaction, and room in the inventory budget for \<open>n\<close> more.\<close>

definition idle :: "keeper_config \<Rightarrow> int \<Rightarrow> keeper_state \<Rightarrow> bool" where
  "idle cfg n s \<longleftrightarrow> safeKeeper cfg s \<and> pendingTx s = None \<and> values_total inventoryOf (ks_transactions s) + n \<le> kc_inventoryBudget cfg"

lemma idle_write:
  assumes "idle cfg (if kind = Liquidation then n else 0) s" and "0 \<le> n" and "reserve \<le> kc_maxTxFee cfg"
  shows "safeWrite cfg (newTx uuid kind t request reserve c b n a) s"
proof -
  let ?x = "newTx uuid kind t request reserve c b n a"
  have x: "soundTx cfg ?x" using assms(2,3) by (simp add: newTx_def soundTx_def)
  have none: "\<not> open_tx (snd e)" if "e \<in> set (ks_transactions s)" for e
    using assms(1) that by (auto simp: idle_def pendingTx_None)
  have old: "0 \<le> (case map_of (ks_transactions s) (kt_id ?x) of None \<Rightarrow> 0 | Some y \<Rightarrow> inventoryOf y)"
  proof (cases "map_of (ks_transactions s) (kt_id ?x)")
    case (Some y)
    then have "soundTx cfg y" using assms(1) map_of_SomeD [OF Some] by (force simp: idle_def safeKeeper_def)
    with Some inventoryOf_nonneg show ?thesis by simp
  qed simp
  have "inventoryOf ?x = (if kind = Liquidation then n else 0)"
    by (simp add: inventoryOf_def newTx_def spentBy_def unresolved_def)
  with assms(1) x none old show ?thesis by (auto simp: safeWrite_def idle_def)
qed

lemma submit_safe:
  assumes "0 \<le> n"
  shows "triple w (idle cfg (if kind = Liquidation then n else 0)) (submit cfg lib kind dest data c b n) (\<lambda>_. safeKeeper cfg) (safeKeeper cfg)"
proof -
  let ?P = "idle cfg (if kind = Liquidation then n else 0)"
  have safe: "?P s \<Longrightarrow> safeKeeper cfg s" for s by (simp add: idle_def)
  have stored: "triple w ?P (pBind (save cfg x) (\<lambda>_. broadcast cfg x)) (\<lambda>_. safeKeeper cfg) (safeKeeper cfg)"
    if x: "x = newTx uuid kind t request reserve c b n a" and "reserve \<le> kc_maxTxFee cfg" for x uuid t request reserve a
  proof (rule triple_bind)
    show "triple w ?P (save cfg x) (\<lambda>_ s. safeKeeper cfg s \<and> (kt_id x, x) \<in> set (ks_transactions s)) (safeKeeper cfg)"
    proof (rule triple_save)
      fix s assume s: "?P s"
      have "map_of (AList.update (kt_id x) x (ks_transactions s)) (kt_id x) = Some x" by simp
      from map_of_SomeD [OF this] safeWrite_safe [OF idle_write [OF s assms that(2)]]
      show "safeKeeper cfg (s\<lparr>ks_transactions := AList.update (kt_id x) x (ks_transactions s)\<rparr>) \<and>
        (kt_id x, x) \<in> set (ks_transactions (s\<lparr>ks_transactions := AList.update (kt_id x) x (ks_transactions s)\<rparr>))"
        by (simp add: x)
    qed (rule safe)
    show "triple w (\<lambda>s. safeKeeper cfg s \<and> (kt_id x, x) \<in> set (ks_transactions s)) (broadcast cfg x) (\<lambda>_. safeKeeper cfg) (safeKeeper cfg)" for u :: unit
      by (rule broadcast_safe) (simp add: x newTx_def)
  qed
  have keepP: "triple w (\<lambda>s. ?P s \<and> z s) m (\<lambda>_. safeKeeper cfg) (safeKeeper cfg)" if "triple w ?P m (\<lambda>_. safeKeeper cfg) (safeKeeper cfg)" for z and m :: "incident list keeper"
    by (rule triple_pre [OF that]) simp
  show ?thesis
    unfolding submit_def Let_def
    by (rule triple_if triple_return triple_getK triple_demand triple_readK triple_liftK triple_budgetsK triple_now
        triple_keepK [OF makeAttempt_keeps] keepP stored [OF refl] | simp add: safe)+
qed

lemma idle_keep: "0 \<le> n \<Longrightarrow> idle cfg n s \<Longrightarrow> idle cfg 0 s"
  by (simp add: idle_def)

lemma liquidateFunded_safe:
  assumes "0 \<le> n"
  shows "triple w (idle cfg n) (liquidateFunded cfg lib c n) (\<lambda>_. safeKeeper cfg) (safeKeeper cfg)"
proof -
  have sub: "triple w (idle cfg n) (submit cfg lib Liquidation dest data x b n) (\<lambda>_. safeKeeper cfg) (safeKeeper cfg)" for dest data x b
    using submit_safe [OF assms, of w cfg Liquidation lib dest data x b] by simp
  have safe: "idle cfg n s \<Longrightarrow> safeKeeper cfg s" for s by (simp add: idle_def)
  have gate: "triple w P (if kc_gate cfg then pRead kw_liveness else pReturn ()) (\<lambda>_. P) P" for P
    by (auto intro: triple_read triple_return)
  show ?thesis
    unfolding liquidateFunded_def Let_def
  proof (rule triple_catch [where F = "safeKeeper cfg"])
    show "triple w (safeKeeper cfg) (pBind (setRetry (cd_collateral c) (cd_borrower c) 30000) (\<lambda>_. if code = ''PositionIsHealthy'' then pReturn []
        else pReturn [(''simulation:'' @ cd_collateral c @ '':'' @ cd_borrower c, Critical)])) (\<lambda>_. safeKeeper cfg) (safeKeeper cfg)" for code
      by (rule triple_bind [OF setRetry_safe]) (auto intro: triple_return)
  qed (rule triple_keepK [OF gate], auto intro!: triple_readK triple_demand sub simp: safe)
qed

lemma liquidate_safe: "triple w (safeKeeper cfg) (liquidate cfg lib c) (\<lambda>_. safeKeeper cfg) (safeKeeper cfg)"
  unfolding liquidate_def
proof (rule triple_getK, rule triple_if)
  fix p :: "keeper_tx option" assume "\<not> (\<not> kc_execute cfg \<or> p \<noteq> None)"
  then have p: "p = None" by simp
  have idle: "triple w (\<lambda>s. (((safeKeeper cfg s \<and> p = pendingTx s) \<and> retry = ks_retry s (cd_collateral c, cd_borrower c)) \<and> b = budgets t s)) m
      (\<lambda>_. safeKeeper cfg) (safeKeeper cfg)" if "triple w (idle cfg n) m (\<lambda>_. safeKeeper cfg) (safeKeeper cfg)" "n \<le> kc_inventoryBudget cfg - bg_inventory b"
    for n retry t and b :: budget and m :: "incident list keeper"
    by (rule triple_pre [OF that(1)]) (use that(2) p in \<open>auto simp: idle_def budgets_totals\<close>)
  have approve: "triple w (idle cfg 0) (submit cfg lib Approval dest data x b 0) (\<lambda>_. safeKeeper cfg) (safeKeeper cfg)" for dest data x b
    using submit_safe [of 0 w cfg Approval lib dest data x b] by simp
  have not_disj_le: "\<not> (a \<le> 0 \<or> i \<le> 0) \<Longrightarrow> (0::int) \<le> i" for a i :: int by simp
  show "triple w (\<lambda>s. safeKeeper cfg s \<and> p = pendingTx s)
     (pBind (pGet (\<lambda>s. ks_retry s (cd_collateral c, cd_borrower c))) (\<lambda>retry. pBind now (\<lambda>t.
     if (case retry of Some r \<Rightarrow> r | None \<Rightarrow> 0) > t then pReturn [] else
     pBind currentBudgets (\<lambda>b. pBind (pRead kw_tokenBalance) (\<lambda>balance.
     let remainingDaily = kc_dailyBudget cfg - bg_daily b; remainingInventory = kc_inventoryBudget cfg - bg_inventory b in
     if remainingDaily \<le> 0 \<or> remainingInventory \<le> 0 then pReturn [(''capital_budget'', Critical)] else
     let maxRepay = min (min (min (min (cd_repaid c) (kc_maxRepay cfg)) remainingDaily) remainingInventory) balance in
     if maxRepay \<le> 0 then pReturn [(''liquidation_unfunded'', Critical)] else
     pBind (pRead kw_allowance) (\<lambda>allowance.
     if allowance < maxRepay then
       pBind (pRead (\<lambda>w. kw_simulateApprove w maxRepay)) (\<lambda>_.
       submit cfg lib Approval (kc_usdg cfg) (kl_approveData lib maxRepay) (cd_collateral c) (cd_borrower c) 0)
     else liquidateFunded cfg lib c maxRepay)))))) (\<lambda>_. safeKeeper cfg) (safeKeeper cfg)"
    unfolding Let_def
    apply (rule triple_getK, rule triple_now, rule triple_if)
    apply (rule triple_return, simp)
    apply (rule triple_budgetsK, rule triple_readK, rule triple_if, rule triple_return, simp, rule triple_if, rule triple_return, simp)
    apply (rule triple_readK, rule triple_if, rule triple_readK)
    apply (rule idle [where n = 0], rule approve, erule not_disj_le)
    apply simp
    apply (rule idle, rule liquidateFunded_safe)
    apply (auto simp: not_le)
    done
qed (auto intro: triple_return)

end
