(* ===== verification/Keeper_Indexer.thy ===== *)
theory Keeper_Indexer
  imports Keeper_Store
begin

text \<open>
  services/liquidator/src/indexer.mjs: the discovery of positions from the vault's logs, in
  windows of blocks that shrink while the node refuses them. The clock, the hash of a block
  and the decoded logs of a window are the world; the loop is written on it directly so
  that its termination is proved, by the windows left and then the size of the window.
\<close>

record position_log =
  pl_removed :: bool
  pl_collateral :: "string option"
  pl_borrower :: "string option"

record index_world =
  iw_now :: int
  iw_blockHash :: "int \<Rightarrow> string outcome"
  iw_logs :: "int \<Rightarrow> int \<Rightarrow> position_log list outcome"

record index_config =
  ic_owner :: string
  ic_startBlock :: int
  ic_logChunk :: int
  ic_maxChunks :: nat

text \<open>A removed log, and one without an argument (or with an empty one), is skipped.\<close>

fun positionPairs :: "position_log list \<Rightarrow> (string \<times> string) list" where
  "positionPairs [] = []"
| "positionPairs (x # xs) = (case (pl_collateral x, pl_borrower x) of
      (Some c, Some b) \<Rightarrow> (if \<not> pl_removed x \<and> b \<noteq> [] \<and> c \<noteq> [] then [(c, b)] else [])
    | _ \<Rightarrow> []) @ positionPairs xs"

definition windowEnd :: "int \<Rightarrow> int \<Rightarrow> int \<Rightarrow> int" where
  "windowEnd from wsize head = (if from + wsize - 1 < head then from + wsize - 1 else head)"

definition halved :: "int \<Rightarrow> int" where
  "halved wsize = (if tdiv wsize 2 = 0 then 1 else tdiv wsize 2)"

definition sizeMeasure :: "int \<Rightarrow> nat" where
  "sizeMeasure wsize = (if wsize = 1 then 0 else Suc (nat \<bar>wsize\<bar>))"

lemma halved_decreases: "wsize \<noteq> 1 \<Longrightarrow> sizeMeasure (halved wsize) < sizeMeasure wsize"
proof -
  assume "wsize \<noteq> 1"
  have "\<bar>tdiv wsize 2\<bar> < \<bar>wsize\<bar>" if "tdiv wsize 2 \<noteq> 0"
  proof -
    have eq: "\<bar>tdiv wsize 2\<bar> = \<bar>wsize\<bar> div 2"
      by (cases "wsize = 0"; cases "0 < wsize") (simp_all add: tdiv_def abs_mult)
    have "0 < \<bar>wsize\<bar>" using that by (cases "wsize = 0") auto
    then show ?thesis unfolding eq by linarith
  qed
  with \<open>wsize \<noteq> 1\<close> show ?thesis by (auto simp: sizeMeasure_def halved_def)
qed

function syncWindows :: "index_config \<Rightarrow> (nat \<Rightarrow> index_world) \<Rightarrow> int \<Rightarrow> string \<Rightarrow> int \<Rightarrow> nat \<Rightarrow> int \<Rightarrow> nat \<Rightarrow> keeper_state
    \<Rightarrow> int outcome \<times> nat \<times> keeper_state" where
  "syncWindows cfg w head headHash from chunks wsize t s =
     (if head < from \<or> chunks = 0 then (Inr from, t, s) else
      let till = windowEnd from wsize head in
      case iw_blockHash (w t) till of Inl e \<Rightarrow> (Inl e, Suc t, s) | Inr before \<Rightarrow>
      (case iw_logs (w (Suc t)) from till of
         Inl e \<Rightarrow> if wsize = 1 then (Inl e, t + 2, s)
                 else syncWindows cfg w head headHash from chunks (halved wsize) (t + 2) s
       | Inr logs \<Rightarrow>
           (case iw_blockHash (w (t + 2)) till of Inl e \<Rightarrow> (Inl e, t + 3, s) | Inr after \<Rightarrow>
            if before \<noteq> after \<or> till = head \<and> after \<noteq> headHash then (Inl ''Reorg during indexing'', t + 3, s) else
            (case indexBatch (ic_owner cfg) (iw_now (w (t + 3))) (positionPairs logs) till after s of
               Inl e \<Rightarrow> (Inl e, t + 4, s)
             | Inr s' \<Rightarrow> syncWindows cfg w head headHash (till + 1) (chunks - 1) wsize (t + 4) s'))))"
  by pat_completeness auto

termination
  by (relation "measures [\<lambda>(cfg, w, head, headHash, from, chunks, wsize, t, s). chunks,
      \<lambda>(cfg, w, head, headHash, from, chunks, wsize, t, s). sizeMeasure wsize]") (auto simp: halved_decreases)

declare syncWindows.simps [simp del]

text \<open>The result: whether the head was reached, the last block covered, whether a reorganization was seen.\<close>

definition syncFrom :: "index_config \<Rightarrow> (nat \<Rightarrow> index_world) \<Rightarrow> int \<Rightarrow> string \<Rightarrow> int \<Rightarrow> bool \<Rightarrow> nat \<Rightarrow> keeper_state
    \<Rightarrow> (bool \<times> int \<times> bool) outcome \<times> nat \<times> keeper_state" where
  "syncFrom cfg w head headHash from reorg t s = (case syncWindows cfg w head headHash from (ic_maxChunks cfg) (ic_logChunk cfg) t s of
       (Inl e, t', s') \<Rightarrow> (Inl e, t', s')
     | (Inr from', t', s') \<Rightarrow> (Inr (head < from', from' - 1, reorg), t', s'))"

definition syncPositions :: "index_config \<Rightarrow> (nat \<Rightarrow> index_world) \<Rightarrow> int \<Rightarrow> string \<Rightarrow> nat \<Rightarrow> keeper_state
    \<Rightarrow> (bool \<times> int \<times> bool) outcome \<times> nat \<times> keeper_state" where
  "syncPositions cfg w head headHash t s = (case ks_cursor s of
       None \<Rightarrow> syncFrom cfg w head headHash (ic_startBlock cfg) False t s
     | Some (number, hash) \<Rightarrow>
         if number \<le> head then
           (case iw_blockHash (w t) number of
              Inl e \<Rightarrow> (Inl e, Suc t, s)
            | Inr canonical \<Rightarrow>
                if canonical \<noteq> hash then syncFrom cfg w head headHash (ic_startBlock cfg) True (Suc t) (s\<lparr>ks_cursor := None\<rparr>)
                else syncFrom cfg w head headHash (number + 1) False (Suc t) s)
         else syncFrom cfg w head headHash (ic_startBlock cfg) True t (s\<lparr>ks_cursor := None\<rparr>))"

section \<open>Coverage\<close>

text \<open>
  \<open>history hash h\<close> are the positions logged in block \<open>h\<close> of the chain that ends with the block of that hash. A window that
  is served between two reads of the same hash of its last block is served completely, from the chain of that hash. The
  reads below the head stay on the head's chain; the head itself may be replaced at any time.
\<close>

definition servesLogs :: "(nat \<Rightarrow> index_world) \<Rightarrow> (string \<Rightarrow> int \<Rightarrow> (string \<times> string) set) \<Rightarrow> bool" where
  "servesLogs w history \<longleftrightarrow> (\<forall>t a n hash logs h c b. iw_blockHash (w t) n = Inr hash \<longrightarrow> iw_logs (w (Suc t)) a n = Inr logs \<longrightarrow>
     iw_blockHash (w (t + 2)) n = Inr hash \<longrightarrow> a \<le> h \<longrightarrow> h \<le> n \<longrightarrow> (c, b) \<in> history hash h \<longrightarrow> (c, b) \<in> set (positionPairs logs))"

definition belowHead :: "(nat \<Rightarrow> index_world) \<Rightarrow> (string \<Rightarrow> int \<Rightarrow> (string \<times> string) set) \<Rightarrow> int \<Rightarrow> string \<Rightarrow> nat \<Rightarrow> bool" where
  "belowHead w history head headHash start \<longleftrightarrow> (\<forall>t n hash h. n < head \<or> n = head \<and> t = start \<longrightarrow> iw_blockHash (w t) n = Inr hash \<longrightarrow>
     h \<le> n \<longrightarrow> history hash h = history headHash h)"

definition coversTo :: "index_config \<Rightarrow> (int \<Rightarrow> (string \<times> string) set) \<Rightarrow> int \<Rightarrow> keeper_state \<Rightarrow> bool" where
  "coversTo cfg logged n s \<longleftrightarrow> (\<forall>h c b. ic_startBlock cfg \<le> h \<longrightarrow> h \<le> n \<longrightarrow> (c, b) \<in> logged h \<longrightarrow> (js_lower c, js_lower b) \<in> set (ks_positions s))"

text \<open>The saved cursor: what it covers is the chain of its own hash, whether or not that chain is still the canonical one.\<close>

definition cursorCovers :: "index_config \<Rightarrow> (string \<Rightarrow> int \<Rightarrow> (string \<times> string) set) \<Rightarrow> keeper_state \<Rightarrow> bool" where
  "cursorCovers cfg history s \<longleftrightarrow> (case ks_cursor s of None \<Rightarrow> True | Some (n, hash) \<Rightarrow> coversTo cfg (history hash) n s)"

lemma servesLogsD:
  "servesLogs w history \<Longrightarrow> iw_blockHash (w t) n = Inr hash \<Longrightarrow> iw_logs (w (Suc t)) a n = Inr logs \<Longrightarrow> iw_blockHash (w (t + 2)) n = Inr hash \<Longrightarrow>
    a \<le> h \<Longrightarrow> h \<le> n \<Longrightarrow> (c, b) \<in> history hash h \<Longrightarrow> (c, b) \<in> set (positionPairs logs)"
  unfolding servesLogs_def by blast

lemma belowHeadD:
  "belowHead w history head headHash start \<Longrightarrow> n < head \<or> n = head \<and> t = start \<Longrightarrow> iw_blockHash (w t) n = Inr hash \<Longrightarrow> h \<le> n \<Longrightarrow>
    history hash h = history headHash h"
  unfolding belowHead_def by blast

lemma coversTo_mono:
  "coversTo cfg logged n s \<Longrightarrow> set (ks_positions s) \<subseteq> set (ks_positions s') \<Longrightarrow> (\<And>h. h \<le> n \<Longrightarrow> logged' h = logged h) \<Longrightarrow> coversTo cfg logged' n s'"
  unfolding coversTo_def by blast

lemma insertPairs_set: "set (insertPairs known pairs) = set known \<union> (\<lambda>(c, b). (js_lower c, js_lower b)) ` set pairs"
  by (induction known pairs rule: insertPairs.induct) (auto simp: Let_def)

lemma indexBatchE:
  assumes "indexBatch owner now pairs n hash s = Inr s'"
  shows "set (ks_positions s') = set (ks_positions s) \<union> (\<lambda>(c, b). (js_lower c, js_lower b)) ` set pairs \<and> ks_cursor s' = Some (n, hash)"
  using assms by (auto simp: indexBatch_def assertLease_def outcome_Inr insertPairs_set)

text \<open>One window: what the batch adds covers the chain of the hash read around it.\<close>

lemma window_covers:
  assumes serves: "servesLogs w history" and below: "belowHead w history head headHash start" and "till \<le> head"
    and cover: "coversTo cfg (history headHash) (lo - 1) s"
    and reads: "iw_blockHash (w t) till = Inr hash" "iw_logs (w (Suc t)) lo till = Inr logs" "iw_blockHash (w (t + 2)) till = Inr hash"
    and top: "till = head \<Longrightarrow> hash = headHash"
    and batch: "indexBatch owner now (positionPairs logs) till hash s = Inr s'"
  shows "coversTo cfg (history headHash) till s' \<and> coversTo cfg (history hash) till s'"
proof -
  have same: "history hash h = history headHash h" if "h \<le> till" for h
    using belowHeadD [OF below _ reads(1) that] \<open>till \<le> head\<close> top by (cases "till = head") auto
  note s' = indexBatchE [OF batch]
  have "coversTo cfg (history headHash) till s'"
    unfolding coversTo_def
  proof (intro allI impI)
    fix h c b assume h: "ic_startBlock cfg \<le> h" "h \<le> till" "(c, b) \<in> history headHash h"
    show "(js_lower c, js_lower b) \<in> set (ks_positions s')"
    proof (cases "h \<le> lo - 1")
      case True
      then show ?thesis using cover h s' unfolding coversTo_def by blast
    next
      case False
      then have "(c, b) \<in> set (positionPairs logs)" using servesLogsD [OF serves reads, of h c b] h same by simp
      then have "(\<lambda>(c, b). (js_lower c, js_lower b)) (c, b) \<in> (\<lambda>(c, b). (js_lower c, js_lower b)) ` set (positionPairs logs)"
        by (rule imageI)
      then show ?thesis using s' by simp
    qed
  qed
  moreover from this have "coversTo cfg (history hash) till s'" by (rule coversTo_mono [OF _ subset_refl]) (rule same)
  ultimately show ?thesis by blast
qed

lemma syncWindows_covers:
  assumes "servesLogs w history" and "belowHead w history head headHash start" and "coversTo cfg (history headHash) (from - 1) s"
    and "syncWindows cfg w head headHash from chunks wsize t s = (r, t', s')"
  shows "set (ks_positions s) \<subseteq> set (ks_positions s') \<and> (\<forall>from'. r = Inr from' \<longrightarrow> coversTo cfg (history headHash) (from' - 1) s') \<and>
    (ks_cursor s' = ks_cursor s \<or> (\<exists>n hash. ks_cursor s' = Some (n, hash) \<and> coversTo cfg (history hash) n s'))"
  using assms
proof (induction cfg w head headHash "from" chunks wsize t s rule: syncWindows.induct)
  case (1 cfg w head headHash "from" chunks wsize t s)
  let ?till = "windowEnd from wsize head"
  show ?case
  proof (cases "head < from \<or> chunks = 0")
    case True
    then show ?thesis using "1.prems" by (auto simp: syncWindows.simps [of cfg w head headHash "from" chunks wsize t s])
  next
    case False
    note eq = syncWindows.simps [of cfg w head headHash "from" chunks wsize t s, unfolded if_not_P [OF False] Let_def]
    show ?thesis
    proof (cases "iw_blockHash (w t) ?till")
      case (Inl e)
      then show ?thesis using "1.prems" by (auto simp: eq)
    next
      case before: (Inr before)
      show ?thesis
      proof (cases "iw_logs (w (Suc t)) from ?till")
        case (Inl e)
        show ?thesis
        proof (cases "wsize = 1")
          case True
          have "r = Inl e \<and> s' = s" using "1.prems"(4) before Inl True unfolding eq by simp
          then show ?thesis by simp
        next
          case wsize: False
          have "syncWindows cfg w head headHash from chunks (halved wsize) (t + 2) s = (r, t', s')"
            using "1.prems"(4) before Inl wsize by (simp add: eq)
          from "1.IH"(1) [OF False refl before Inl wsize "1.prems"(1-3) this] show ?thesis .
        qed
      next
        case logs: (Inr logs)
        show ?thesis
        proof (cases "iw_blockHash (w (t + 2)) ?till")
          case (Inl e)
          then show ?thesis using "1.prems" before logs by (auto simp: eq)
        next
          case after: (Inr after)
          show ?thesis
          proof (cases "before \<noteq> after \<or> ?till = head \<and> after \<noteq> headHash")
            case True
            then show ?thesis using "1.prems" before logs after by (auto simp: eq)
          next
            case same: False
            show ?thesis
            proof (cases "indexBatch (ic_owner cfg) (iw_now (w (t + 3))) (positionPairs logs) ?till after s")
              case (Inl e)
              then show ?thesis using "1.prems" before logs after same by (auto simp: eq)
            next
              case batch: (Inr s1)
              have run: "syncWindows cfg w head headHash (?till + 1) (chunks - 1) wsize (t + 4) s1 = (r, t', s')"
                using "1.prems"(4) unfolding eq before logs after sum.case if_not_P [OF same] batch .
              have "before = after" "?till = head \<Longrightarrow> after = headHash" "?till \<le> head" using same by (auto simp: windowEnd_def)
              then have cover: "coversTo cfg (history headHash) ?till s1 \<and> coversTo cfg (history after) ?till s1"
                using window_covers [OF "1.prems"(1,2) _ "1.prems"(3) _ logs after _ batch] before by blast
              then have "coversTo cfg (history headHash) (?till + 1 - 1) s1" by simp
              note rest = "1.IH"(2) [OF False refl before logs after same batch "1.prems"(1,2) this run]
              have "set (ks_positions s) \<subseteq> set (ks_positions s')" using rest indexBatchE [OF batch] by blast
              moreover have "coversTo cfg (history after) ?till s'" using rest cover coversTo_mono by blast
              ultimately show ?thesis using rest indexBatchE [OF batch] by metis
            qed
          qed
        qed
      qed
    qed
  qed
qed

lemma syncFrom_covers:
  assumes "servesLogs w history" and "belowHead w history head headHash start" and "coversTo cfg (history headHash) (from - 1) s"
    and "cursorCovers cfg history s" and "syncFrom cfg w head headHash from reorg t s = (r, t', s')"
  shows "cursorCovers cfg history s' \<and>
    (\<forall>complete n seen. r = Inr (complete, n, seen) \<longrightarrow> coversTo cfg (history headHash) n s' \<and> (complete \<longrightarrow> head \<le> n) \<and> seen = reorg)"
proof -
  obtain r1 t2 s2 where run: "syncWindows cfg w head headHash from (ic_maxChunks cfg) (ic_logChunk cfg) t s = (r1, t2, s2)"
    by (cases "syncWindows cfg w head headHash from (ic_maxChunks cfg) (ic_logChunk cfg) t s") auto
  note c = syncWindows_covers [OF assms(1-3) run]
  have s2: "s' = s2" using assms(5) run by (cases r1) (simp_all add: syncFrom_def)
  have "cursorCovers cfg history s2"
    using c assms(4) coversTo_mono unfolding cursorCovers_def by (auto split: option.splits)
  with c run assms(5) show ?thesis by (cases r1) (auto simp: syncFrom_def s2)
qed

lemma syncPositions_covers:
  assumes "servesLogs w history" and below: "belowHead w history head headHash t" and cursor: "cursorCovers cfg history s"
    and run: "syncPositions cfg w head headHash t s = (r, t', s')"
  shows "cursorCovers cfg history s' \<and> (\<forall>complete n reorg. r = Inr (complete, n, reorg) \<longrightarrow>
      coversTo cfg (history headHash) n s' \<and> (complete \<longrightarrow> head \<le> n) \<and>
      (reorg \<longleftrightarrow> (\<exists>m hash. ks_cursor s = Some (m, hash) \<and> (head < m \<or> iw_blockHash (w t) m \<noteq> Inr hash))))"
proof -
  note covers = syncFrom_covers [OF assms(1,2)]
  have none: "coversTo cfg (history headHash) (ic_startBlock cfg - 1) x" for x by (simp add: coversTo_def)
  have empty: "cursorCovers cfg history (s\<lparr>ks_cursor := None\<rparr>)" by (simp add: cursorCovers_def)
  show ?thesis
  proof (cases "ks_cursor s")
    case None
    then have "syncFrom cfg w head headHash (ic_startBlock cfg) False t s = (r, t', s')" using run by (simp add: syncPositions_def)
    with covers [OF none cursor this] None show ?thesis by auto
  next
    case (Some p)
    obtain n hash where p: "p = (n, hash)" by (cases p)
    show ?thesis
    proof (cases "n \<le> head")
      case False
      then have "syncFrom cfg w head headHash (ic_startBlock cfg) True t (s\<lparr>ks_cursor := None\<rparr>) = (r, t', s')"
        using run Some p by (simp add: syncPositions_def)
      with covers [OF none empty this] Some p False show ?thesis by auto
    next
      case le: True
      show ?thesis
      proof (cases "iw_blockHash (w t) n")
        case (Inl e)
        then show ?thesis using run Some p le cursor by (auto simp: syncPositions_def)
      next
        case (Inr canonical)
        show ?thesis
        proof (cases "canonical = hash")
          case True
          then have "syncFrom cfg w head headHash (n + 1) False (Suc t) s = (r, t', s')"
            using run Some p le Inr by (simp add: syncPositions_def)
          moreover have "coversTo cfg (history headHash) (n + 1 - 1) s"
          proof -
            have "coversTo cfg (history hash) n s" using cursor Some p by (simp add: cursorCovers_def)
            then have "coversTo cfg (history headHash) n s"
            proof (rule coversTo_mono [OF _ subset_refl])
              fix h assume "h \<le> n"
              then have "history hash h = history headHash h"
                using belowHeadD [OF below, of n t hash h] le Inr True by (cases "n = head") auto
              then show "history headHash h = history hash h" by simp
            qed
            then show ?thesis by simp
          qed
          ultimately show ?thesis using covers [OF _ cursor] Some p le Inr True by fastforce
        next
          case False
          then have "syncFrom cfg w head headHash (ic_startBlock cfg) True (Suc t) (s\<lparr>ks_cursor := None\<rparr>) = (r, t', s')"
            using run Some p le Inr by (simp add: syncPositions_def)
          with covers [OF none empty this] Some p Inr False show ?thesis by auto
        qed
      qed
    qed
  qed
qed

end
