(* ===== verification/Keeper_Properties.thy ===== *)
theory Keeper_Properties
  imports Keeper_Safety Keeper_Indexer
begin

text \<open>The life of a liquidation keeper, and what holds at every point of it.\<close>

section \<open>Reachable databases\<close>

definition freshKeeper :: "int \<Rightarrow> keeper_state" where
  "freshKeeper epoch = \<lparr>ks_transactions = [], ks_positions = [], ks_cursor = None, ks_retry = Map.empty, ks_epoch = epoch,
     ks_lease = None, ks_sent = []\<rparr>"

text \<open>Each operation may meet another world; one that throws leaves what it had written.\<close>

inductive keeperReaches :: "keeper_config \<Rightarrow> keeper_lib \<Rightarrow> keeper_state \<Rightarrow> bool"
  for cfg :: keeper_config and lib :: keeper_lib where
  fresh: "keeperReaches cfg lib (freshKeeper epoch)"
| lease: "keeperReaches cfg lib s \<Longrightarrow> acquireLease owner t s = Inr s' \<or> renewLease owner t s = Inr s' \<or> closeStore owner s = s' \<Longrightarrow>
    keeperReaches cfg lib s'"
| index: "keeperReaches cfg lib s \<Longrightarrow> indexBatch owner t pairs number hash s = Inr s' \<Longrightarrow> keeperReaches cfg lib s'"
| recovered: "keeperReaches cfg lib s \<Longrightarrow> recover cfg lib head canBroadcast w t s = (r, t', s') \<Longrightarrow> keeperReaches cfg lib s'"
| liquidated: "keeperReaches cfg lib s \<Longrightarrow> liquidate cfg lib c w t s = (r, t', s') \<Longrightarrow> keeperReaches cfg lib s'"

lemma reached_safe: "keeperReaches cfg lib s \<Longrightarrow> 0 \<le> kc_inventoryBudget cfg \<Longrightarrow> safeKeeper cfg s"
proof (induction rule: keeperReaches.induct)
  case (fresh epoch)
  then show ?case by (simp add: safeKeeper_def freshKeeper_def oneOpen_def)
next
  case (lease s owner t s')
  then have "safeKeeper cfg s" by simp
  with lease(2) show ?case
    by (auto simp: acquireLease_def renewLease_def closeStore_def demand_Inr safeKeeper_def split: option.splits if_splits)
next
  case (index s owner t pairs number hash s')
  then show ?case by (auto simp: indexBatch_def assertLease_def outcome_Inr safeKeeper_def)
next
  case (recovered s head can w t r t' s')
  then show ?case by (blast intro: tripleD_any [OF recover_safe])
next
  case (liquidated s c w t r t' s')
  then show ?case by (blast intro: tripleD_any [OF liquidate_safe])
qed

section \<open>A sample keeper\<close>

definition sampleConfig :: keeper_config where
  "sampleConfig = \<lparr>kc_owner = ''me'', kc_execute = True, kc_chainId = 1, kc_account = ''k'', kc_vault = ''v'', kc_usdg = ''u'', kc_gate = False,
     kc_recipient = None, kc_confirmations = 2, kc_replaceAfterMs = 1000, kc_maxReplacements = 2, kc_maxTxFee = 1000000,
     kc_maxDailyGas = 5000000, kc_minEth = 10, kc_maxRepay = 500, kc_dailyBudget = 1000, kc_inventoryBudget = 800\<rparr>"

definition sampleRequest :: tx_request where
  "sampleRequest = \<lparr>rq_to = ''v'', rq_data = ''0x'', rq_value = None, rq_gas = 100, rq_gasPrice = Some 7, rq_maxFee = None,
     rq_maxPriorityFee = None, rq_nonce = 3, rq_chainId = 1\<rparr>"

definition sampleKeeperWorld :: keeper_world where
  "sampleKeeperWorld = \<lparr>kw_now = 1000, kw_uuid = ''id1'', kw_consistent = True, kw_latestNonce = Inr 3, kw_pendingNonce = Inr 3,
     kw_balance = Inr 100000, kw_prepared = (\<lambda>_ _ _ _. Inr sampleRequest), kw_sign = (\<lambda>_. Inr ''raw''), kw_send = (\<lambda>_. Inr ()),
     kw_receipt = (\<lambda>_. Inl ''TransactionReceiptNotFoundError''), kw_block = (\<lambda>_. Inr ''h''), kw_tokenBalance = Inr 900, kw_allowance = Inr 900,
     kw_simulateApprove = (\<lambda>_. Inr ()), kw_simulate = (\<lambda>_ _ n _. Inr (n, 5)), kw_liveness = Inr ()\<rparr>"

definition sampleLib :: keeper_lib where
  "sampleLib = \<lparr>kl_keccak = (\<lambda>r. ''#'' @ r), kl_approveData = (\<lambda>_. ''0xa''), kl_liquidateData = (\<lambda>_ _ _ _. ''0xl'')\<rparr>"

definition leasedKeeper :: keeper_state where
  "leasedKeeper = (freshKeeper 0)\<lparr>ks_lease := Some (''me'', 120000)\<rparr>"

definition sampleCandidate :: candidate where
  "sampleCandidate = \<lparr>cd_collateral = ''c'', cd_borrower = ''b'', cd_repaid = 300\<rparr>"

lemma sample_liquidate:
  "\<exists>t' s' x. liquidate sampleConfig sampleLib sampleCandidate (\<lambda>_. sampleKeeperWorld) 0 leasedKeeper = (Inr [], t', s') \<and>
     ks_transactions s' = [(''id1'', x)] \<and> kt_maxRepay x = 300 \<and> map fst (ks_sent s') = [''raw'']"
  by (simp add: liquidate_def pBind_def proc_run leasedKeeper_def freshKeeper_def pendingTx_def transactions_def js_sort_def sampleConfig_def
      sampleCandidate_def now_def currentBudgets_def budgets_def sampleKeeperWorld_def liquidateFunded_def pCatch_def sampleLib_def submit_def
      feeReserve_def sampleRequest_def makeAttempt_def leaseStep_def onStore_def assertLease_def holdsLease_def save_def saveTx_def broadcast_def
      newTx_def Let_def)

section \<open>Properties\<close>

text \<open>
  C7: Whatever the node, the wallet and the contracts answer and in whatever order the
  keeper's operations run, the capital retained in liquidated collateral and in open
  liquidations stays within the inventory budget, at most one transaction is open, no
  transaction reserves more than the permitted fee, and every raw transaction was already in the
  database when it was sent.
\<close>

theorem keeper_capital_safe:
  assumes "keeperReaches cfg lib s" and "0 \<le> kc_inventoryBudget cfg"
  shows "bg_inventory (budgets t s) \<le> kc_inventoryBudget cfg \<and>
    (\<forall>x y. x \<in> set (transactions s) \<and> y \<in> set (transactions s) \<and> open_tx x \<and> open_tx y \<longrightarrow> kt_id x = kt_id y) \<and>
    (\<forall>x \<in> set (transactions s). kt_feeReserve x \<le> kc_maxTxFee cfg) \<and>
    (\<forall>(raw, table) \<in> set (ks_sent s). \<exists>x \<in> snd ` set table. raw \<in> at_raw ` set (kt_attempts x))"
proof -
  have s: "safeKeeper cfg s" by (rule reached_safe [OF assms])
  have set_eq: "set (transactions s) = snd ` set (ks_transactions s)" using mset_eq_setD [OF transactions_mset, of s] by simp
  have "kt_id x = kt_id y" if mem: "x \<in> set (transactions s)" "y \<in> set (transactions s)" and both: "open_tx x" "open_tx y" for x y
  proof -
    obtain e f where "e \<in> set (ks_transactions s)" "f \<in> set (ks_transactions s)" "x = snd e" "y = snd f"
      using mem unfolding set_eq by blast
    with s both show ?thesis unfolding safeKeeper_def oneOpen_def by metis
  qed
  moreover have "\<forall>x \<in> set (transactions s). kt_feeReserve x \<le> kc_maxTxFee cfg"
    using s by (auto simp: set_eq safeKeeper_def soundTx_def)
  moreover have "\<forall>(raw, table) \<in> set (ks_sent s). \<exists>x \<in> snd ` set table. raw \<in> at_raw ` set (kt_attempts x)"
    using s by (auto simp: safeKeeper_def heldRaw_def)
  ultimately show ?thesis using s by (simp add: budgets_totals safeKeeper_def)
qed

lemma keeper_capital_safe_witness:
  "\<exists>s. keeperReaches sampleConfig sampleLib s \<and> length (ks_sent s) = 1 \<and> bg_inventory (budgets 2000 s) \<le> 800"
proof -
  have "keeperReaches sampleConfig sampleLib leasedKeeper"
    by (rule keeperReaches.lease [OF keeperReaches.fresh [of _ _ 0], of "''me''" 0])
      (simp add: acquireLease_def freshKeeper_def leasedKeeper_def)
  moreover obtain t' s' x where run: "liquidate sampleConfig sampleLib sampleCandidate (\<lambda>_. sampleKeeperWorld) 0 leasedKeeper = (Inr [], t', s')"
    "map fst (ks_sent s') = [''raw'']" using sample_liquidate by auto
  ultimately have reach: "keeperReaches sampleConfig sampleLib s'" using keeperReaches.liquidated by blast
  have "length (ks_sent s') = 1" using run(2) by (metis length_Cons length_map list.size(3) One_nat_def)
  with reach keeper_capital_safe [OF reach, of 2000] show ?thesis by (auto simp: sampleConfig_def)
qed

text \<open>
  C21: Discovery covers the canonical chain. \<open>history hash h\<close> are the positions logged in block \<open>h\<close> of the chain that ends with
  that hash; before the run the saved cursor covers only the chain of its own hash, which may have been reorganized away
  since. The node serves a window completely when its last block has the same hash before and after, the reads below the
  head are of the head's chain, and so is the head when the cursor is checked; the head may be replaced at any later read.
  Then, through shrinking windows, resumed cursors and failures, whatever the outcome the saved cursor covers the chain of its
  own hash; and when discovery says it is complete, every position logged on the head's chain from the start block to the
  head is in the keeper's table. It rebuilds from the start block exactly when the saved block is above the head or has
  another hash now.
\<close>

theorem discovery_covers:
  assumes "servesLogs w history" and "belowHead w history head headHash t" and "cursorCovers cfg history s"
    and "syncPositions cfg w head headHash t s = (r, t', s')"
  shows "cursorCovers cfg history s' \<and>
    (\<forall>n reorg. r = Inr (True, n, reorg) \<longrightarrow> (\<forall>h c b. ic_startBlock cfg \<le> h \<and> h \<le> head \<and> (c, b) \<in> history headHash h \<longrightarrow>
       (js_lower c, js_lower b) \<in> set (positions s'))) \<and>
    (\<forall>complete n reorg. r = Inr (complete, n, reorg) \<longrightarrow>
       (reorg \<longleftrightarrow> (\<exists>m hash. ks_cursor s = Some (m, hash) \<and> (head < m \<or> iw_blockHash (w t) m \<noteq> Inr hash))))"
proof -
  have "set (positions s') = set (ks_positions s')" by (simp add: positions_def)
  moreover have "coversTo cfg (history headHash) head s'" if "r = Inr (True, n, reorg)" for n reorg
  proof -
    have "coversTo cfg (history headHash) n s' \<and> head \<le> n" using syncPositions_covers [OF assms] that by blast
    then show ?thesis unfolding coversTo_def by (meson order_trans)
  qed
  ultimately show ?thesis using syncPositions_covers [OF assms] by (auto simp: coversTo_def)
qed

definition sampleIndexConfig :: index_config where
  "sampleIndexConfig = \<lparr>ic_owner = ''me'', ic_startBlock = 1, ic_logChunk = 4, ic_maxChunks = 5\<rparr>"

text \<open>
  A node that refuses windows of more than two blocks. The only position was logged in block 2 of its chain; the
  keeper has covered three blocks of another chain without positions.
\<close>

definition sampleHistory :: "string \<Rightarrow> int \<Rightarrow> (string \<times> string) set" where
  "sampleHistory hash h = (if hash = ''new'' \<and> h = 2 then {(''c'', ''b'')} else {})"

definition sampleIndexWorld :: index_world where
  "sampleIndexWorld = \<lparr>iw_now = 1000, iw_blockHash = (\<lambda>_. Inr ''new''),
     iw_logs = (\<lambda>a b. if b - a > 1 then Inl ''range'' else Inr (if a \<le> 2 \<and> 2 \<le> b
       then [\<lparr>pl_removed = True, pl_collateral = Some ''x'', pl_borrower = Some ''b''\<rparr>,
             \<lparr>pl_removed = False, pl_collateral = Some ''c'', pl_borrower = Some ''b''\<rparr>] else []))\<rparr>"

definition staleKeeper :: keeper_state where
  "staleKeeper = leasedKeeper\<lparr>ks_cursor := Some (3, ''old'')\<rparr>"

lemma sample_serves: "servesLogs (\<lambda>_. sampleIndexWorld) sampleHistory"
  by (auto simp: servesLogs_def sampleIndexWorld_def sampleHistory_def split: if_splits)

lemma sample_below: "belowHead (\<lambda>_. sampleIndexWorld) sampleHistory 4 ''new'' 0"
  by (auto simp: belowHead_def sampleIndexWorld_def)

lemma stale_covers: "cursorCovers sampleIndexConfig sampleHistory staleKeeper"
  by (simp add: cursorCovers_def staleKeeper_def coversTo_def sampleHistory_def)

lemma sample_sync:
  "\<exists>t' s'. syncPositions sampleIndexConfig (\<lambda>_. sampleIndexWorld) 4 ''new'' 0 staleKeeper = (Inr (True, 4, True), t', s')"
  by (simp add: syncPositions_def syncFrom_def staleKeeper_def leasedKeeper_def freshKeeper_def sampleIndexConfig_def sampleIndexWorld_def
      syncWindows.simps windowEnd_def halved_def indexBatch_def assertLease_def holdsLease_def Let_def)

lemma discovery_covers_witness:
  "\<exists>t' s'. syncPositions sampleIndexConfig (\<lambda>_. sampleIndexWorld) 4 ''new'' 0 staleKeeper = (Inr (True, 4, True), t', s') \<and>
     (js_lower ''c'', js_lower ''b'') \<in> set (positions s') \<and> ks_positions staleKeeper = []"
proof -
  obtain t' s' where run: "syncPositions sampleIndexConfig (\<lambda>_. sampleIndexWorld) 4 ''new'' 0 staleKeeper = (Inr (True, 4, True), t', s')"
    using sample_sync by blast
  have "ic_startBlock sampleIndexConfig \<le> 2 \<and> (2 :: int) \<le> 4 \<and> (''c'', ''b'') \<in> sampleHistory ''new'' 2"
    by (simp add: sampleIndexConfig_def sampleHistory_def)
  then have "(js_lower ''c'', js_lower ''b'') \<in> set (positions s')"
    using discovery_covers [OF sample_serves sample_below stale_covers run] by blast
  moreover have "ks_positions staleKeeper = []" by (simp add: staleKeeper_def leasedKeeper_def freshKeeper_def)
  ultimately show ?thesis using run by blast
qed

end
