(* ===== verification/Spec2Isabelle.thy ===== *)
theory Spec2Isabelle
  imports Subgraph_Properties P2P_Amounts P2P_Model P2P_Offers P2P_Pending P2P_Recovery P2P_World P2P_Health P2P_Loans P2P_Snapshot P2P_Writes P2P_Actions P2P_Quiet P2P_Facts P2P_Requests P2P_Settlement P2P_Memory P2P_ClientProperties P2P_Activity P2P_History JS_Async JS_Json Negotiation_Properties P2P_Calendar Cashback_Properties Keeper_Properties
begin

text \<open>
  Turret is a borrowing protocol with a peer-to-peer lending market. This development models the
  TypeScript and JavaScript that decide something: the indexer (subgraph/), the peer-to-peer lending
  code of the web application (frontend/app/src/p2p, frontend/app/src/screens/P2PLoansScreen,
  frontend/app/scripts) and two services (services/borrower-cashback, services/liquidator).

  \<^bold>\<open>How the program is modelled.\<close> An operation is a function from the state to a result and the new state, with the
  source's name; a thrown error is \<open>Inl\<close> of its message, so every \<open>throw\<close> and early return is a branch (Prelude).
  \<open>bigint\<close> is \<open>int\<close>; an \<open>i32\<close> of the indexer is a 32-bit word; a JavaScript number that the code checks is an
  integer, a fraction or infinite (JS_Runtime). Text is a list of characters. A value of type
  \<open>unknown\<close> is \<open>json\<close> (JS_Json); a \<open>Map\<close> is an association list in insertion order where the order counts (JS_Map).
  Asynchronous code gets the whole history of the world and the instant it starts at; each read takes an instant
  (JS_Async), also with a state of its own (JS_Proc); nothing is assumed of what happens between two
  reads unless a theorem says so. JS_Date is the civil calendar behind \<open>toISOString\<close>.

  \<^bold>\<open>The indexer.\<close> Subgraph_Store holds the entities of schema.graphql, the events and the store; Subgraph_Trove,
  Subgraph_NFT, Subgraph_Governance, Subgraph_Surplus and Subgraph_Registry are the mappings of
  subgraph/src, Subgraph_Decoding and Subgraph_Brackets the parts they share, Subgraph_Run wires the handlers
  to events as subgraph.yaml does, and Subgraph_Scripts is the paging of subgraph/scripts. The
  lemmas of Subgraph_Ledger, Subgraph_Owners and Subgraph_Run carry the invariants through every run: what the interest brackets
  book is what the positions owe, counts are ownership, voting powers add up. The locales
  \<open>entity_table\<close>, \<open>position_table\<close> and \<open>paged_server\<close> state what a table of entities, a
  table of debts and a paging server promise, and are interpreted on the store's tables.

  \<^bold>\<open>Peer-to-peer lending in the browser.\<close> P2P_Amounts and P2P_Offers are the arithmetic of terms, the checks of a
  new offer, the order of a list and the credits that pay a repayment; P2P_Calendar the reminder file; P2P_Pending the record of
  a pending transaction in the browser's storage, P2P_Recovery the search for the transaction that used
  its nonce (a bisection of at most 64 probes, enough for any block number below 2 to the 64th, then 64 blocks). P2P_World is what the client of p2p/client.ts runs in: the node,
  the wallet, and a state that other code may change at every await. P2P_Health (health-core.mjs,
  health.ts), P2P_Loans and P2P_Snapshot (client.ts, active-loans.ts) are its reads; P2P_Writes and P2P_Actions everything
  that ends in a request to the wallet. P2P_Quiet and P2P_Facts are the logic of these computations: what a step leaves alone, and
  what its result says of the world. On it, P2P_Requests, P2P_Settlement and P2P_Memory
  prove what the wallet is asked, what a reported success means and that no returned hash is
  lost; P2P_ClientProperties states it, with the run of P2P_ClientSample as the instance.
  P2P_Activity is the bounded scan of an account's history and its export (activity.ts).
  P2P_History shows that reading on from each page's cursor ends within as many pages as there are blocks,
  whatever the node answers, and that, from a node that serves one history, it lists exactly the events that concern the account.

  \<^bold>\<open>The negotiation service.\<close> Negotiation_Checks and Negotiation_Service are frontend/app/scripts/p2p-negotiations.mjs: signed envelopes, the chain
  evidence, the SQLite tables and the transaction that commits an action. Negotiation_Run and
  Negotiation_History let any number of requests be in progress, their checks read at earlier
  instants; the properties are that the signed events of a conversation are a run of an abstract protocol that says who may
  do what (a simulation), that an agreement carries both signatures and that a signed action counts once. The server's clock is
  assumed not to go back and its random ids not to repeat.

  \<^bold>\<open>The services.\<close> Cashback_Quote (shared/borrower-cashback.mjs), Cashback_Accounting and Cashback_Ledger: the rebates replayed from
  receipts and the ingestion of blocks and historical ranges, a hash chain up to the numbers a range has left out;
  Cashback_Invariant carries the caps through every replay. Keeper_Store,
  Keeper_Indexer and Keeper_Transactions: the liquidation keeper; Keeper_Indexer shows that discovery covers the canonical chain
  whatever chain the saved cursor is of, Keeper_Safety what every operation keeps whatever the node answers.

  \<^bold>\<open>Bounds and fuel.\<close> A loop with a bound in the code has that bound as its argument: 250 pages of active loans, three
  attempts to read a sent transaction, 64 probes of the nonce search. A window that shrinks
  (Keeper_Indexer) is a recursion with a measure. Only the paging loop of the scripts may run forever, against a server that
  never ends, and is a partial function whose termination is proved for servers that keep the contract.

  \<^bold>\<open>What is an argument.\<close> viem (addresses, hashing, encoding, recovery of signers), the GraphQL server, how a browser reads a local
  date and what \<open>new URL\<close> accepts. The hypotheses about them are in the theorems that need them.

  \<^bold>\<open>Not modelled.\<close> The Solidity contracts (another language); React components and hooks; HTTP servers, proxies and
  process set-up; deployment, release and research tooling; the other services (alerts,
  oracle relay, risk monitor, staking, profiles); generated ABIs and GraphQL types; tests. Concurrency inside one
  \<open>Promise.all\<close> is one order of its reads; a promise shared between calls is represented by its outcome.
\<close>

end
